(* ===== verification/Prelude.thy ===== *)
theory Prelude
  imports Complex_Main "HOL-Library.AList" "HOL-Library.Multiset" "HOL-Library.List_Lexorder"
    "HOL-Library.Char_ord" "HOL-Library.Sublist"
begin

text \<open>
  Shared vocabulary of the development: Go strings as byte strings with the functions of
  package strings that the code uses, Go's fixed-width int64 arithmetic (durations), formatted
  messages, Go maps as association lists in an iteration order, sync.Once style cells, and the
  lemma collections the components use.
\<close>

named_theorems str_simps "evaluation of string helpers"
named_theorems ok_simps "characterisation of validators that report nothing"

section \<open>64-bit integers and durations\<close>

text \<open>
  A \<open>time.Duration\<close> is an int64 count of nanoseconds. It is modelled by the integer it
  denotes; every arithmetic operation of the code is followed by \<open>wrap64\<close>, the two's
  complement reduction into \<open>[-2^63, 2^63)\<close>. A \<open>time.Time\<close> is the (unbounded)
  integer of nanoseconds of its instant.
\<close>

type_synonym duration = int
type_synonym time = int

definition wrap64 :: "int \<Rightarrow> int" where
  "wrap64 x = (x + 2 ^ 63) mod 2 ^ 64 - 2 ^ 63"

definition in_int64 :: "int \<Rightarrow> bool" where
  "in_int64 x \<longleftrightarrow> - (2 ^ 63) \<le> x \<and> x < 2 ^ 63"

lemma wrap64_id [simp]: "in_int64 x \<Longrightarrow> wrap64 x = x"
  by (simp add: wrap64_def in_int64_def)

lemma in_int64_wrap64 [simp]: "in_int64 (wrap64 x)"
  by (simp add: wrap64_def in_int64_def)

lemma wrap64_wrap64 [simp]: "wrap64 (wrap64 x) = wrap64 x"
  by simp

lemma wrap64_bounds: "- (2 ^ 63) \<le> wrap64 x" "wrap64 x < 2 ^ 63"
  using in_int64_wrap64 [of x] by (auto simp: in_int64_def)

lemma wrap64_add_wrap64 [simp]:
  "wrap64 (wrap64 x + y) = wrap64 (x + y)" "wrap64 (x + wrap64 y) = wrap64 (x + y)"
  by (simp_all add: wrap64_def mod_simps algebra_simps)

definition millisecond :: duration where "millisecond = 1000000"
definition second :: duration where "second = 1000000000"

section \<open>Strings\<close>

text \<open>
  A Go string is a sequence of bytes, here a \<open>char list\<close>, so \<open>length\<close> is Go's
  \<open>len\<close>. \<open>ToLower\<close> and \<open>TrimSpace\<close> are modelled on their ASCII behaviour.
\<close>

definition is_space :: "char \<Rightarrow> bool" where
  "is_space c \<longleftrightarrow> c \<in> {CHR 0x09, CHR 0x0A, CHR 0x0B, CHR 0x0C, CHR 0x0D, CHR '' ''}"

definition trim_space :: "string \<Rightarrow> string" where
  "trim_space s = rev (dropWhile is_space (rev (dropWhile is_space s)))"

definition lower_char :: "char \<Rightarrow> char" where
  "lower_char c = (if of_char c \<in> {65..90 :: nat} then char_of (of_char c + 32 :: nat) else c)"

definition to_lower :: "string \<Rightarrow> string" where
  "to_lower s = map lower_char s"

text \<open>\<open>strings.Cut\<close>: the parts around the first occurrence of the separator.\<close>

fun str_cut :: "string \<Rightarrow> string \<Rightarrow> (string \<times> string) option" where
  "str_cut sep [] = (if sep = [] then Some ([], []) else None)"
| "str_cut sep (c # cs) =
     (if prefix sep (c # cs) then Some ([], drop (length sep) (c # cs))
      else map_option (\<lambda>(a, b). (c # a, b)) (str_cut sep cs))"

definition str_contains :: "string \<Rightarrow> string \<Rightarrow> bool" where
  "str_contains s sub = sublist sub s"

definition has_prefix :: "string \<Rightarrow> string \<Rightarrow> bool" where
  "has_prefix s p = prefix p s"

lemma str_cut_Some:
  "str_cut sep s = Some (a, b) \<Longrightarrow> s = a @ sep @ b"
proof (induction s arbitrary: a)
  case Nil
  then show ?case by (auto split: if_splits)
next
  case (Cons c cs)
  then show ?case
    by (auto split: if_splits option.splits elim!: prefixE)
qed

lemma str_cut_char:
  "c \<notin> set a \<Longrightarrow> str_cut [c] (a @ c # b) = Some (a, b)"
  by (induction a) auto

lemma str_cut_None_char: "str_cut [c] s = None \<longleftrightarrow> c \<notin> set s"
  by (induction s) auto

subsection \<open>Decimal numbers\<close>

definition digit_char :: "nat \<Rightarrow> char" where
  "digit_char d = char_of (48 + d)"

fun show_nat :: "nat \<Rightarrow> string" where
  "show_nat n = (if n < 10 then [digit_char n] else show_nat (n div 10) @ [digit_char (n mod 10)])"

declare show_nat.simps [simp del]

text \<open>\<open>strconv.Itoa\<close>, also the \<open>%d\<close> verb.\<close>

definition itoa :: "int \<Rightarrow> string" where
  "itoa i = (if i < 0 then CHR ''-'' # show_nat (nat (- i)) else show_nat (nat i))"

definition index_path :: "string \<Rightarrow> nat \<Rightarrow> string" where
  "index_path p i = p @ ''['' @ show_nat i @ '']''"

lemma digit_char_inj: "d < 10 \<Longrightarrow> e < 10 \<Longrightarrow> digit_char d = digit_char e \<longleftrightarrow> d = e"
proof
  assume "d < 10" "e < 10" and eq: "digit_char d = digit_char e"
  then have "(of_char (digit_char d) :: nat) = of_char (digit_char e)" by simp
  with \<open>d < 10\<close> \<open>e < 10\<close> show "d = e"
    by (simp add: digit_char_def of_char_of)
qed simp

lemma show_nat_nonempty [simp]: "show_nat n \<noteq> []"
  by (subst show_nat.simps) simp

lemma show_nat_inj: "show_nat m = show_nat n \<longleftrightarrow> m = n"
proof
  show "show_nat m = show_nat n \<Longrightarrow> m = n"
  proof (induction m arbitrary: n rule: show_nat.induct)
    case (1 m)
    show ?case
    proof (cases "m < 10")
      case True
      with "1.prems" have "n < 10"
        by (cases "n < 10") (simp_all add: show_nat.simps [of m] show_nat.simps [of n] Cons_eq_append_conv)
      with True "1.prems" show ?thesis
        by (simp add: show_nat.simps [of m] show_nat.simps [of n] digit_char_inj)
    next
      case False
      have "\<not> n < 10"
        using "1.prems" False
        by (auto simp: show_nat.simps [of m] show_nat.simps [of n])
      with False "1.prems" have
        "show_nat (m div 10) = show_nat (n div 10)" and "m mod 10 = n mod 10"
        by (simp_all add: show_nat.simps [of m] show_nat.simps [of n] digit_char_inj)
      with "1.IH" False have "m div 10 = n div 10" by simp
      with \<open>m mod 10 = n mod 10\<close> show ?thesis by (metis div_mult_mod_eq)
    qed
  qed
qed simp

lemma show_nat_digits: "c \<in> set (show_nat n) \<Longrightarrow> \<exists>d < 10. c = digit_char d"
proof (induction n rule: show_nat.induct)
  case (1 n)
  show ?case
  proof (cases "n < 10 \<or> c \<notin> set (show_nat (n div 10))")
    case True
    have "n mod 10 < 10" by simp
    with True "1.prems" show ?thesis
      by (auto simp: show_nat.simps [of n] split: if_splits intro: exI [of _ "n mod 10"])
  next
    case False
    with "1.IH" show ?thesis by simp
  qed
qed

lemma index_path_inj: "index_path p i = index_path p j \<longleftrightarrow> i = j"
  by (auto simp: index_path_def show_nat_inj)

section \<open>Formatted messages\<close>

text \<open>
  A message of \<open>fmt.Sprintf\<close> is kept as its format and its arguments. Paths, which the
  code compares and sorts, are rendered to strings.
\<close>

datatype 'f fmt_arg = AStr string | AInt int | AFloat 'f | ADur duration | AStrs "string list"

datatype 'f message = Msg string "'f fmt_arg list"

section \<open>Go maps\<close>

text \<open>
  A Go map is an association list with distinct keys; the order of the list is the order in
  which one \<open>range\<close> over the map visits it. Go leaves that order open, so statements are
  made for every list, that is for every order.
\<close>

type_synonym ('k, 'v) gomap = "('k \<times> 'v) list"

definition gomap_ok :: "('k, 'v) gomap \<Rightarrow> bool" where
  "gomap_ok m \<longleftrightarrow> distinct (map fst m)"

lemma gomap_ok_simps [simp]:
  "gomap_ok []" "gomap_ok ((k, v) # m) \<longleftrightarrow> k \<notin> fst ` set m \<and> gomap_ok m"
  by (auto simp: gomap_ok_def)

lemma gomap_ok_update [simp]: "gomap_ok m \<Longrightarrow> gomap_ok (AList.update k v m)"
  by (simp add: gomap_ok_def distinct_update)

lemma map_of_gomap: "gomap_ok m \<Longrightarrow> (k, v) \<in> set m \<longleftrightarrow> map_of m k = Some v"
  by (auto simp: gomap_ok_def dest: map_of_SomeD)

text \<open>\<open>m[k]\<close> of a map whose element type is a pointer: nil where the key is absent.\<close>

definition ptr_at :: "('k, 'v option) gomap \<Rightarrow> 'k \<Rightarrow> 'v option" where
  "ptr_at m k = (case map_of m k of None \<Rightarrow> None | Some p \<Rightarrow> p)"

lemma ptr_at_Some: "ptr_at m k = Some v \<longleftrightarrow> map_of m k = Some (Some v)"
  by (auto simp: ptr_at_def split: option.splits)

lemma ptr_at_in_set: "ptr_at m k = Some v \<Longrightarrow> (k, Some v) \<in> set m"
  by (auto simp: ptr_at_Some dest: map_of_SomeD)

section \<open>Lists\<close>

text \<open>A \<open>for i, x := range xs\<close> loop that appends what the body returns.\<close>

definition concat_indexed :: "(nat \<Rightarrow> 'a \<Rightarrow> 'b list) \<Rightarrow> 'a list \<Rightarrow> 'b list" where
  "concat_indexed f xs = concat (map (\<lambda>(i, x). f i x) (enumerate 0 xs))"

lemma set_concat_indexed:
  "set (concat_indexed f xs) = (\<Union>i < length xs. set (f i (xs ! i)))"
proof -
  have "set (enumerate 0 xs) = (\<lambda>i. (i, xs ! i)) ` {..< length xs}"
    by (auto simp: in_set_enumerate_eq image_iff)
  then show ?thesis by (simp add: concat_indexed_def)
qed

lemma concat_indexed_empty [ok_simps]:
  "concat_indexed f xs = [] \<longleftrightarrow> (\<forall>i < length xs. f i (xs ! i) = [])"
  by (auto simp: set_concat_indexed simp flip: set_empty)

lemma concat_indexed_cong [fundef_cong]:
  "xs = ys \<Longrightarrow> (\<And>i x. x \<in> set ys \<Longrightarrow> f i x = g i x) \<Longrightarrow>
   concat_indexed f xs = concat_indexed g ys"
  by (auto simp: concat_indexed_def in_set_enumerate_eq intro!: arg_cong [of _ _ concat])

definition map_indexed :: "(nat \<Rightarrow> 'a \<Rightarrow> 'b) \<Rightarrow> 'a list \<Rightarrow> 'b list" where
  "map_indexed f xs = map (\<lambda>(i, x). f i x) (enumerate 0 xs)"

lemma map_indexed_cong [fundef_cong]:
  "xs = ys \<Longrightarrow> (\<And>i x. x \<in> set ys \<Longrightarrow> f i x = g i x) \<Longrightarrow> map_indexed f xs = map_indexed g ys"
  by (auto simp: map_indexed_def in_set_enumerate_eq)

lemma length_map_indexed [simp]: "length (map_indexed f xs) = length xs"
  by (simp add: map_indexed_def)

lemma nth_map_indexed [simp]: "i < length xs \<Longrightarrow> map_indexed f xs ! i = f i (xs ! i)"
  by (simp add: map_indexed_def nth_enumerate_eq)

lemma set_map_indexed: "y \<in> set (map_indexed f xs) \<longleftrightarrow> (\<exists>i < length xs. y = f i (xs ! i))"
  by (auto simp: map_indexed_def in_set_enumerate_eq)

text \<open>Optional values: the body of an \<open>if p != nil\<close>.\<close>

definition opt_list :: "('a \<Rightarrow> 'b list) \<Rightarrow> 'a option \<Rightarrow> 'b list" where
  "opt_list f p = (case p of None \<Rightarrow> [] | Some x \<Rightarrow> f x)"

lemma opt_list_simps [simp]: "opt_list f None = []" "opt_list f (Some x) = f x"
  by (simp_all add: opt_list_def)

lemma opt_list_cong [fundef_cong]:
  "p = q \<Longrightarrow> (\<And>x. q = Some x \<Longrightarrow> f x = g x) \<Longrightarrow> opt_list f p = opt_list g q"
  by (cases q) auto

lemma concat_map_concat: "concat (map g (concat xss)) = concat (map (\<lambda>xs. concat (map g xs)) xss)"
  by (induction xss) auto

lemma concat_map_Nil [ok_simps]: "concat (map f xs) = [] \<longleftrightarrow> (\<forall>x \<in> set xs. f x = [])"
  by (induction xs) auto

lemma opt_list_Nil [ok_simps]: "opt_list f p = [] \<longleftrightarrow> (\<forall>x. p = Some x \<longrightarrow> f x = [])"
  by (cases p) (auto simp: opt_list_def)

text \<open>Concatenation over the entries of a map, whose parts carry the key of their entry.\<close>

lemma distinct_concat_keys:
  assumes "distinct (map fst xs)" and "\<And>x. x \<in> set xs \<Longrightarrow> distinct (f x)"
    and "\<And>x y. x \<in> set xs \<Longrightarrow> y \<in> set (f x) \<Longrightarrow> g y = fst x"
  shows "distinct (concat (map f xs))"
  using assms
proof (induction xs)
  case (Cons x xs)
  have "set (f x) \<inter> (\<Union>z \<in> set xs. set (f z)) = {}"
  proof (rule equals0I, clarify)
    fix y z assume "y \<in> set (f x)" "z \<in> set xs" "y \<in> set (f z)"
    then have "fst x = fst z" using Cons.prems(3) by (metis list.set_intros)
    with \<open>z \<in> set xs\<close> Cons.prems(1) show False by (metis distinct.simps(2) image_eqI list.simps(9) set_map)
  qed
  with Cons show ?case by simp
qed simp

lemma case_option_Nil [ok_simps]:
  "(case p of None \<Rightarrow> e # es | Some x \<Rightarrow> f x) = [] \<longleftrightarrow> (\<exists>x. p = Some x \<and> f x = [])"
  by (cases p) auto

lemma concat_map_concat_indexed:
  assumes "\<And>i x. x \<in> set xs \<Longrightarrow> concat (map g (f i x)) = h x"
  shows "concat (map g (concat_indexed f xs)) = concat (map h xs)"
proof -
  have "concat (map g (concat (map (\<lambda>(i, x). f i x) (enumerate n xs)))) = concat (map h xs)" for n
    using assms by (induction xs arbitrary: n) auto
  then show ?thesis by (simp add: concat_indexed_def)
qed

lemma concat_map_map_indexed:
  assumes "\<And>i x. x \<in> set xs \<Longrightarrow> g (f i x) = h x"
  shows "concat (map g (map_indexed f xs)) = concat (map h xs)"
proof -
  have "concat (map g (map (\<lambda>(i, x). f i x) (enumerate n xs))) = concat (map h xs)" for n
    using assms by (induction xs arbitrary: n) auto
  then show ?thesis by (simp add: map_indexed_def)
qed

definition when_err :: "bool \<Rightarrow> 'e \<Rightarrow> 'e list" where
  "when_err b e = (if b then [e] else [])"

lemma when_err_empty [ok_simps, simp]: "when_err b e = [] \<longleftrightarrow> \<not> b"
  by (simp add: when_err_def)

section \<open>Sorting of keys\<close>

text \<open>\<open>sort.Strings\<close>: byte-wise lexicographic order.\<close>

definition sort_strings :: "string list \<Rightarrow> string list" where
  "sort_strings xs = sort xs"

lemma sort_strings_simps [simp]:
  "set (sort_strings xs) = set xs" "distinct (sort_strings xs) = distinct xs"
  "length (sort_strings xs) = length xs" "sorted (sort_strings xs)"
  by (simp_all add: sort_strings_def)

end
