(* ===== verification/Float64.thy ===== *)
theory Float64
  imports Prelude "HOL-Library.Log_Nat"
begin

text \<open>
  Go's \<open>float64\<close>: IEEE 754 binary64 values up to the payload of a NaN, which the code
  cannot observe. Finite values carry their exact rational value; every operation computes
  exactly and rounds to nearest, ties to even, as the language prescribes.
\<close>

datatype f64 = FNaN | FPosInf | FNegInf | FNegZero | Fin rat

type_synonym msg = "f64 message"

definition pow2 :: "int \<Rightarrow> rat" where
  "pow2 e = (if 0 \<le> e then 2 ^ nat e else 1 / 2 ^ nat (- e))"

text \<open>The exponent of the leading binary digit of a nonzero rational.\<close>

definition ilog2 :: "rat \<Rightarrow> int" where
  "ilog2 r = (let (a, b) = quotient_of \<bar>r\<bar>; k = bitlen a - bitlen b
              in if pow2 k \<le> \<bar>r\<bar> then k else k - 1)"

definition round_half_even :: "rat \<Rightarrow> int" where
  "round_half_even q =
     (let f = \<lfloor>q\<rfloor>; d = q - of_int f
      in if d < 1 / 2 then f else if 1 / 2 < d then f + 1 else if even f then f else f + 1)"

definition fround :: "rat \<Rightarrow> f64" where
  "fround r =
     (if r = 0 then Fin 0
      else let e = max (ilog2 r - 52) (-1074);
               v = of_int (round_half_even (r / pow2 e)) * pow2 e
           in if pow2 1024 \<le> \<bar>v\<bar> then (if 0 < r then FPosInf else FNegInf)
              else if v = 0 then (if 0 < r then Fin 0 else FNegZero) else Fin v)"

text \<open>The rationals a binary64 can hold.\<close>

definition representable :: "rat \<Rightarrow> bool" where
  "representable r \<longleftrightarrow> fround r = Fin r"

fun fval :: "f64 \<Rightarrow> rat" where
  "fval (Fin r) = r"
| "fval _ = 0"

fun is_nan :: "f64 \<Rightarrow> bool" where
  "is_nan FNaN = True"
| "is_nan _ = False"

fun is_inf :: "f64 \<Rightarrow> bool" where
  "is_inf FPosInf = True"
| "is_inf FNegInf = True"
| "is_inf _ = False"

definition is_fin :: "f64 \<Rightarrow> bool" where
  "is_fin x \<longleftrightarrow> \<not> is_nan x \<and> \<not> is_inf x"

subsection \<open>Comparison\<close>

fun flt :: "f64 \<Rightarrow> f64 \<Rightarrow> bool" where
  "flt FNaN _ = False"
| "flt _ FNaN = False"
| "flt FPosInf _ = False"
| "flt _ FNegInf = False"
| "flt FNegInf _ = True"
| "flt _ FPosInf = True"
| "flt x y = (fval x < fval y)"

definition fle :: "f64 \<Rightarrow> f64 \<Rightarrow> bool" where
  "fle x y \<longleftrightarrow> \<not> is_nan x \<and> \<not> is_nan y \<and> \<not> flt y x"

definition feq :: "f64 \<Rightarrow> f64 \<Rightarrow> bool" where
  "feq x y \<longleftrightarrow> fle x y \<and> fle y x"

subsection \<open>Arithmetic\<close>

fun is_neg :: "f64 \<Rightarrow> bool" where
  "is_neg FNegInf = True"
| "is_neg FNegZero = True"
| "is_neg (Fin r) = (r < 0)"
| "is_neg _ = False"

definition signed_zero :: "bool \<Rightarrow> f64" where
  "signed_zero s = (if s then FNegZero else Fin 0)"

definition signed_inf :: "bool \<Rightarrow> f64" where
  "signed_inf s = (if s then FNegInf else FPosInf)"

fun fneg :: "f64 \<Rightarrow> f64" where
  "fneg FNaN = FNaN"
| "fneg FPosInf = FNegInf"
| "fneg FNegInf = FPosInf"
| "fneg FNegZero = Fin 0"
| "fneg (Fin r) = (if r = 0 then FNegZero else Fin (- r))"

fun fadd :: "f64 \<Rightarrow> f64 \<Rightarrow> f64" where
  "fadd FNaN _ = FNaN"
| "fadd _ FNaN = FNaN"
| "fadd FPosInf FNegInf = FNaN"
| "fadd FNegInf FPosInf = FNaN"
| "fadd FPosInf _ = FPosInf"
| "fadd _ FPosInf = FPosInf"
| "fadd FNegInf _ = FNegInf"
| "fadd _ FNegInf = FNegInf"
| "fadd FNegZero FNegZero = FNegZero"
| "fadd x y = fround (fval x + fval y)"

definition fsub :: "f64 \<Rightarrow> f64 \<Rightarrow> f64" where
  "fsub x y = fadd x (fneg y)"

definition fmul :: "f64 \<Rightarrow> f64 \<Rightarrow> f64" where
  "fmul x y =
     (if is_nan x \<or> is_nan y then FNaN
      else if is_inf x \<or> is_inf y then
        (if \<not> is_inf x \<and> fval x = 0 \<or> \<not> is_inf y \<and> fval y = 0 then FNaN
         else signed_inf (is_neg x \<noteq> is_neg y))
      else if fval x * fval y = 0 then signed_zero (is_neg x \<noteq> is_neg y)
      else fround (fval x * fval y))"

definition fdiv :: "f64 \<Rightarrow> f64 \<Rightarrow> f64" where
  "fdiv x y =
     (if is_nan x \<or> is_nan y \<or> (is_inf x \<and> is_inf y) then FNaN
      else if is_inf x then signed_inf (is_neg x \<noteq> is_neg y)
      else if is_inf y then signed_zero (is_neg x \<noteq> is_neg y)
      else if fval y = 0 then (if fval x = 0 then FNaN else signed_inf (is_neg x \<noteq> is_neg y))
      else if fval x = 0 then signed_zero (is_neg x \<noteq> is_neg y)
      else fround (fval x / fval y))"

subsection \<open>Conversions\<close>

text \<open>\<open>float64(i)\<close> of an integer, and \<open>int64(x)\<close> of a float: truncation towards zero;
  the result for a value outside int64 is left to the implementation by the language, here
  the amd64 one (the smallest int64).\<close>

definition of_int64 :: "int \<Rightarrow> f64" where
  "of_int64 i = fround (of_int i)"

definition trunc_rat :: "rat \<Rightarrow> int" where
  "trunc_rat r = (if 0 \<le> r then \<lfloor>r\<rfloor> else - \<lfloor>- r\<rfloor>)"

definition to_int64 :: "f64 \<Rightarrow> int" where
  "to_int64 x =
     (if is_fin x \<and> in_int64 (trunc_rat (fval x)) then trunc_rat (fval x) else - (2 ^ 63))"

section \<open>Order\<close>

lemma fval_not_fin [simp]: "is_inf x \<Longrightarrow> fval x = 0" "is_nan x \<Longrightarrow> fval x = 0"
  by (cases x; simp)+

lemma is_fin_simps [simp]:
  "is_fin (Fin r)" "is_fin FNegZero" "\<not> is_fin FNaN" "\<not> is_fin FPosInf" "\<not> is_fin FNegInf"
  by (simp_all add: is_fin_def)

lemma flt_fin [simp]: "is_fin x \<Longrightarrow> is_fin y \<Longrightarrow> flt x y \<longleftrightarrow> fval x < fval y"
  by (cases x; cases y; simp)

lemma fle_fin [simp]: "is_fin x \<Longrightarrow> is_fin y \<Longrightarrow> fle x y \<longleftrightarrow> fval x \<le> fval y"
  by (cases x; cases y; auto simp: fle_def)

lemma feq_fin [simp]: "is_fin x \<Longrightarrow> is_fin y \<Longrightarrow> feq x y \<longleftrightarrow> fval x = fval y"
  by (auto simp: feq_def)

lemma fle_nan [simp]: "\<not> fle FNaN x" "\<not> fle x FNaN"
  by (simp_all add: fle_def)

lemma flt_nan [simp]: "\<not> flt x FNaN"
  by (cases x) simp_all

lemma feq_nan [simp]: "\<not> feq FNaN x" "\<not> feq x FNaN"
  by (simp_all add: feq_def)

lemma feq_refl [simp]: "feq x x \<longleftrightarrow> \<not> is_nan x"
  by (cases x) (auto simp: feq_def fle_def)

lemma feq_sym: "feq x y \<longleftrightarrow> feq y x"
  by (auto simp: feq_def)

lemma feq_trans: "feq x y \<Longrightarrow> feq y z \<Longrightarrow> feq x z"
  by (cases x; cases y; cases z; auto simp: feq_def fle_def)

lemma feq_Fin [simp]: "feq (Fin a) (Fin b) \<longleftrightarrow> a = b"
  by simp

lemma fle_Fin_inf [simp]: "fle (Fin a) FPosInf" "\<not> fle FPosInf (Fin a)" "fle FNegInf (Fin a)"
  "\<not> fle (Fin a) FNegInf"
  by (simp_all add: fle_def)

section \<open>Multiplication by zero and one\<close>

lemma fround_0 [simp]: "fround 0 = Fin 0"
  by (simp add: fround_def)

lemma fmul_zero: "is_fin x \<Longrightarrow> fval (fmul x (Fin 0)) = 0 \<and> is_fin (fmul x (Fin 0))"
  by (cases x) (auto simp: fmul_def signed_zero_def)

lemma fmul_one: "representable r \<Longrightarrow> fmul (Fin r) (Fin 1) = Fin r"
  by (auto simp: fmul_def representable_def signed_zero_def)

end
