(* ===== verification/Topology_Enums.thy ===== *)
theory Topology_Enums
  imports Float64
begin

text \<open>
  topology/enums.go, the parse functions of topology/parse.go and the valid functions of
  topology/validate.go: the enumerations with their YAML tokens. The Go types are integers; the
  package itself makes the declared constants and the value -1 of the invalid constants, which is
  the last constructor of each type here.
\<close>

section \<open>The enumerations\<close>

datatype service_kind = KindApplication | KindDatabase | KindExternalAPI | KindCache | KindQueue
  | InvalidServiceKind

datatype protocol = ProtocolHTTP | ProtocolGRPC | ProtocolMessaging | InvalidProtocol

datatype exhausted_action = ExhaustedPropagate | ExhaustedReturnDefault | ExhaustedSucceedSilently
  | InvalidExhaustedAction

datatype fault_kind = FaultLatencyInflation | FaultErrorRateOverride | FaultDisconnect | FaultCrash
  | InvalidFaultKind

datatype target_kind = TargetNode | TargetOperation | TargetEdge | TargetOther int

datatype backoff_policy = BackoffExponential | BackoffLinear | BackoffConstant
  | InvalidBackoffPolicy

datatype metric_type = MetricCounter | MetricGauge | MetricHistogram | MetricObservableGauge
  | MetricObservableCounter | InvalidMetricType

datatype log_condition = ConditionAlways | ConditionOnSuccess | ConditionOnError
  | InvalidLogCondition

datatype log_severity = SeverityTrace | SeverityDebug | SeverityInfo | SeverityWarn | SeverityError
  | SeverityFatal | InvalidLogSeverity

section \<open>String methods\<close>

fun service_kind_String :: "service_kind \<Rightarrow> string" where
  "service_kind_String KindApplication = ''application''"
| "service_kind_String KindDatabase = ''database''"
| "service_kind_String KindExternalAPI = ''external_api''"
| "service_kind_String KindCache = ''cache''"
| "service_kind_String KindQueue = ''queue''"
| "service_kind_String InvalidServiceKind = ''unknown''"

fun protocol_String :: "protocol \<Rightarrow> string" where
  "protocol_String ProtocolHTTP = ''http''"
| "protocol_String ProtocolGRPC = ''grpc''"
| "protocol_String ProtocolMessaging = ''messaging''"
| "protocol_String InvalidProtocol = ''unknown''"

fun exhausted_action_String :: "exhausted_action \<Rightarrow> string" where
  "exhausted_action_String ExhaustedPropagate = ''propagate''"
| "exhausted_action_String ExhaustedReturnDefault = ''return_default''"
| "exhausted_action_String ExhaustedSucceedSilently = ''succeed_silently''"
| "exhausted_action_String InvalidExhaustedAction = ''unknown''"

fun fault_kind_String :: "fault_kind \<Rightarrow> string" where
  "fault_kind_String FaultLatencyInflation = ''latency_inflation''"
| "fault_kind_String FaultErrorRateOverride = ''error_rate_override''"
| "fault_kind_String FaultDisconnect = ''disconnect''"
| "fault_kind_String FaultCrash = ''crash''"
| "fault_kind_String InvalidFaultKind = ''unknown''"

fun target_kind_String :: "target_kind \<Rightarrow> string" where
  "target_kind_String TargetNode = ''node''"
| "target_kind_String TargetOperation = ''operation''"
| "target_kind_String TargetEdge = ''edge''"
| "target_kind_String (TargetOther _) = ''unknown''"

fun backoff_policy_String :: "backoff_policy \<Rightarrow> string" where
  "backoff_policy_String BackoffExponential = ''exponential''"
| "backoff_policy_String BackoffLinear = ''linear''"
| "backoff_policy_String BackoffConstant = ''constant''"
| "backoff_policy_String InvalidBackoffPolicy = ''unknown''"

fun metric_type_String :: "metric_type \<Rightarrow> string" where
  "metric_type_String MetricCounter = ''counter''"
| "metric_type_String MetricGauge = ''gauge''"
| "metric_type_String MetricHistogram = ''histogram''"
| "metric_type_String MetricObservableGauge = ''observable_gauge''"
| "metric_type_String MetricObservableCounter = ''observable_counter''"
| "metric_type_String InvalidMetricType = ''unknown''"

fun log_condition_String :: "log_condition \<Rightarrow> string" where
  "log_condition_String ConditionAlways = ''always''"
| "log_condition_String ConditionOnSuccess = ''on_success''"
| "log_condition_String ConditionOnError = ''on_error''"
| "log_condition_String InvalidLogCondition = ''unknown''"

fun log_severity_String :: "log_severity \<Rightarrow> string" where
  "log_severity_String SeverityTrace = ''trace''"
| "log_severity_String SeverityDebug = ''debug''"
| "log_severity_String SeverityInfo = ''info''"
| "log_severity_String SeverityWarn = ''warn''"
| "log_severity_String SeverityError = ''error''"
| "log_severity_String SeverityFatal = ''fatal''"
| "log_severity_String InvalidLogSeverity = ''unknown''"

section \<open>Parsing of tokens\<close>

definition token :: "string \<Rightarrow> string" where
  "token s = to_lower (trim_space s)"

definition parseServiceKind :: "string \<Rightarrow> service_kind" where
  "parseServiceKind s =
     (let t = token s in
      if t = ''application'' then KindApplication
      else if t = ''database'' then KindDatabase
      else if t = ''external_api'' then KindExternalAPI
      else if t = ''cache'' then KindCache
      else if t = ''queue'' then KindQueue
      else InvalidServiceKind)"

definition parseProtocol :: "string \<Rightarrow> protocol" where
  "parseProtocol s =
     (let t = token s in
      if t = ''http'' then ProtocolHTTP
      else if t = ''grpc'' then ProtocolGRPC
      else if t = ''messaging'' then ProtocolMessaging
      else InvalidProtocol)"

definition parseBackoff :: "string \<Rightarrow> backoff_policy" where
  "parseBackoff s =
     (let t = token s in
      if t = '''' \<or> t = ''exponential'' then BackoffExponential
      else if t = ''linear'' then BackoffLinear
      else if t = ''constant'' then BackoffConstant
      else InvalidBackoffPolicy)"

definition parseFaultKind :: "string \<Rightarrow> fault_kind" where
  "parseFaultKind s =
     (let t = token s in
      if t = ''latency_inflation'' then FaultLatencyInflation
      else if t = ''error_rate_override'' then FaultErrorRateOverride
      else if t = ''disconnect'' then FaultDisconnect
      else if t = ''crash'' then FaultCrash
      else InvalidFaultKind)"

definition parseExhaustedAction :: "string \<Rightarrow> exhausted_action" where
  "parseExhaustedAction s =
     (let t = token s in
      if t = '''' \<or> t = ''propagate'' then ExhaustedPropagate
      else if t = ''return_default'' then ExhaustedReturnDefault
      else if t = ''succeed_silently'' then ExhaustedSucceedSilently
      else InvalidExhaustedAction)"

definition parseLogCondition :: "string \<Rightarrow> log_condition" where
  "parseLogCondition s =
     (let t = token s in
      if t = '''' \<or> t = ''always'' then ConditionAlways
      else if t = ''on_success'' then ConditionOnSuccess
      else if t = ''on_error'' then ConditionOnError
      else InvalidLogCondition)"

definition parseMetricType :: "string \<Rightarrow> metric_type" where
  "parseMetricType s =
     (let t = token s in
      if t = ''counter'' then MetricCounter
      else if t = ''gauge'' then MetricGauge
      else if t = ''histogram'' then MetricHistogram
      else if t = ''observable_gauge'' then MetricObservableGauge
      else if t = ''observable_counter'' then MetricObservableCounter
      else InvalidMetricType)"

definition parseLogSeverity :: "string \<Rightarrow> log_severity" where
  "parseLogSeverity s =
     (let t = token s in
      if t = '''' \<or> t = ''info'' then SeverityInfo
      else if t = ''trace'' then SeverityTrace
      else if t = ''debug'' then SeverityDebug
      else if t = ''warn'' \<or> t = ''warning'' then SeverityWarn
      else if t = ''error'' then SeverityError
      else if t = ''fatal'' then SeverityFatal
      else InvalidLogSeverity)"

section \<open>Validity\<close>

definition validServiceKind :: "service_kind \<Rightarrow> bool" where
  "validServiceKind k \<longleftrightarrow> k = KindApplication \<or> k = KindDatabase \<or> k = KindExternalAPI \<or>
     k = KindCache \<or> k = KindQueue"

definition validProtocol :: "protocol \<Rightarrow> bool" where
  "validProtocol p \<longleftrightarrow> p = ProtocolHTTP \<or> p = ProtocolGRPC \<or> p = ProtocolMessaging"

definition validBackoff :: "backoff_policy \<Rightarrow> bool" where
  "validBackoff p \<longleftrightarrow> p = BackoffExponential \<or> p = BackoffLinear \<or> p = BackoffConstant"

definition validFaultKind :: "fault_kind \<Rightarrow> bool" where
  "validFaultKind k \<longleftrightarrow> k = FaultLatencyInflation \<or> k = FaultErrorRateOverride \<or>
     k = FaultDisconnect \<or> k = FaultCrash"

definition validExhausted :: "exhausted_action \<Rightarrow> bool" where
  "validExhausted a \<longleftrightarrow> a = ExhaustedPropagate \<or> a = ExhaustedReturnDefault \<or>
     a = ExhaustedSucceedSilently"

definition validLatencyDistribution :: "string \<Rightarrow> bool" where
  "validLatencyDistribution d \<longleftrightarrow>
     d = ''constant'' \<or> d = ''lognormal'' \<or> d = ''normal'' \<or> d = ''exponential''"

definition validLogCondition :: "log_condition \<Rightarrow> bool" where
  "validLogCondition c \<longleftrightarrow> c = ConditionAlways \<or> c = ConditionOnSuccess \<or> c = ConditionOnError"

definition validLogSeverity :: "log_severity \<Rightarrow> bool" where
  "validLogSeverity s \<longleftrightarrow> s = SeverityTrace \<or> s = SeverityDebug \<or> s = SeverityInfo \<or>
     s = SeverityWarn \<or> s = SeverityError \<or> s = SeverityFatal"

definition validSyncMetricType :: "metric_type \<Rightarrow> bool" where
  "validSyncMetricType t \<longleftrightarrow> t = MetricCounter \<or> t = MetricGauge \<or> t = MetricHistogram"

definition validObservableMetricType :: "metric_type \<Rightarrow> bool" where
  "validObservableMetricType t \<longleftrightarrow> t = MetricObservableGauge \<or> t = MetricObservableCounter"

definition validProbability :: "f64 \<Rightarrow> bool" where
  "validProbability v \<longleftrightarrow> \<not> is_nan v \<and> \<not> is_inf v \<and> fle (Fin 0) v \<and> fle v (Fin 1)"

definition validFloatMetricValue :: "f64 \<Rightarrow> bool" where
  "validFloatMetricValue v \<longleftrightarrow> \<not> is_nan v \<and> \<not> is_inf v"

section \<open>The tokens of an enumeration\<close>

text \<open>
  The contract every enumeration keeps towards the rest of the package: \<open>show\<close> gives the
  token of a value, \<open>parse\<close> reads one, \<open>valid\<close> is what Validate accepts. A token is
  read modulo case and surrounding white space.
\<close>

locale token_enum =
  fixes parse :: "string \<Rightarrow> 'e" and show_token :: "'e \<Rightarrow> string" and valid :: "'e \<Rightarrow> bool"
  assumes parse_show: "valid e \<Longrightarrow> parse (show_token e) = e"
    and parse_token: "parse s = parse (token s)"
    and show_invalid: "\<not> valid e \<Longrightarrow> show_token e = ''unknown''"
    and parse_unknown: "\<not> valid (parse ''unknown'')"
begin

lemma show_inj: "valid a \<Longrightarrow> valid b \<Longrightarrow> show_token a = show_token b \<Longrightarrow> a = b"
  using parse_show by metis

lemma valid_show_not_unknown: "valid e \<Longrightarrow> show_token e \<noteq> ''unknown''"
  using parse_show parse_unknown by metis

lemma parse_show_valid_iff: "valid (parse (show_token e)) \<longleftrightarrow> valid e"
  using parse_show show_invalid parse_unknown by metis

lemma parse_case_blank: "token s = token t \<Longrightarrow> parse s = parse t"
  using parse_token by metis

end

lemma lower_char_code: "of_char (lower_char c) =
  (if of_char c \<in> {65..90 :: nat} then of_char c + 32 else (of_char c :: nat))"
  by (auto simp: lower_char_def of_char_of take_bit_eq_mod)

lemma lower_char_idem [simp]: "lower_char (lower_char c) = lower_char c"
  using lower_char_code [of c] by (subst lower_char_def) (auto split: if_splits)

lemma is_space_code: "is_space c \<longleftrightarrow> of_char c \<in> {9, 10, 11, 12, 13, 32 :: nat}"
proof -
  have "c = d \<longleftrightarrow> of_char c = (of_char d :: nat)" for d by simp
  from this [of "CHR 0x09"] this [of "CHR 0x0A"] this [of "CHR 0x0B"] this [of "CHR 0x0C"]
    this [of "CHR 0x0D"] this [of "CHR '' ''"]
  show ?thesis by (simp add: is_space_def del: of_char_eq_iff)
qed

lemma is_space_lower [simp]: "is_space (lower_char c) = is_space c"
  unfolding is_space_code lower_char_code by auto

lemma to_lower_trim: "to_lower (trim_space s) = trim_space (to_lower s)"
  by (simp add: to_lower_def trim_space_def dropWhile_map rev_map comp_def)

lemma trim_space_idem [simp]: "trim_space (trim_space s) = trim_space s"
proof -
  define u where "u = dropWhile is_space s"
  define v where "v = rev (dropWhile is_space (rev u))"
  have "prefix v u"
    using suffix_dropWhile [of is_space "rev u"] by (simp add: v_def suffix_to_prefix)
  moreover have "u = [] \<or> \<not> is_space (hd u)"
    using hd_dropWhile [of is_space s] by (auto simp: u_def)
  ultimately have "dropWhile is_space v = v"
    by (cases v; cases u) auto
  moreover have "dropWhile is_space (rev v) = rev v"
    unfolding v_def by (induction "rev u") auto
  ultimately show ?thesis
    by (simp add: trim_space_def u_def v_def)
qed

lemma token_token [simp]: "token (token s) = token s"
  by (simp add: token_def to_lower_trim to_lower_def [of "to_lower _"])
    (simp add: to_lower_def comp_def)

text \<open>The enumerations keep the contract.\<close>

lemma parse_via_token [simp]:
  "parseServiceKind (token s) = parseServiceKind s"
  "parseProtocol (token s) = parseProtocol s"
  "parseBackoff (token s) = parseBackoff s"
  "parseFaultKind (token s) = parseFaultKind s"
  "parseExhaustedAction (token s) = parseExhaustedAction s"
  "parseLogCondition (token s) = parseLogCondition s"
  "parseMetricType (token s) = parseMetricType s"
  "parseLogSeverity (token s) = parseLogSeverity s"
  by (simp_all add: parseServiceKind_def parseProtocol_def parseBackoff_def parseFaultKind_def
      parseExhaustedAction_def parseLogCondition_def parseMetricType_def parseLogSeverity_def)

lemma token_literals [simp]:
  "token ''application'' = ''application''"
  "token ''database'' = ''database''"
  "token ''external_api'' = ''external_api''"
  "token ''cache'' = ''cache''"
  "token ''queue'' = ''queue''"
  "token ''unknown'' = ''unknown''"
  "token ''http'' = ''http''"
  "token ''grpc'' = ''grpc''"
  "token ''messaging'' = ''messaging''"
  "token ''exponential'' = ''exponential''"
  "token ''linear'' = ''linear''"
  "token ''constant'' = ''constant''"
  "token ''latency_inflation'' = ''latency_inflation''"
  "token ''error_rate_override'' = ''error_rate_override''"
  "token ''disconnect'' = ''disconnect''"
  "token ''crash'' = ''crash''"
  "token ''propagate'' = ''propagate''"
  "token ''return_default'' = ''return_default''"
  "token ''succeed_silently'' = ''succeed_silently''"
  "token ''always'' = ''always''"
  "token ''on_success'' = ''on_success''"
  "token ''on_error'' = ''on_error''"
  "token ''counter'' = ''counter''"
  "token ''gauge'' = ''gauge''"
  "token ''histogram'' = ''histogram''"
  "token ''observable_gauge'' = ''observable_gauge''"
  "token ''observable_counter'' = ''observable_counter''"
  "token ''trace'' = ''trace''"
  "token ''debug'' = ''debug''"
  "token ''info'' = ''info''"
  "token ''warn'' = ''warn''"
  "token ''error'' = ''error''"
  "token ''fatal'' = ''fatal''"
  "token '''' = ''''"
  by (code_simp)+

interpretation service_kind: token_enum parseServiceKind service_kind_String
  validServiceKind
  by unfold_locales
    (auto simp: validServiceKind_def parseServiceKind_def, metis service_kind.exhaust service_kind_String.simps(6))

interpretation protocol: token_enum parseProtocol protocol_String
  validProtocol
  by unfold_locales
    (auto simp: validProtocol_def parseProtocol_def, metis protocol.exhaust protocol_String.simps(4))

interpretation backoff: token_enum parseBackoff backoff_policy_String
  validBackoff
  by unfold_locales
    (auto simp: validBackoff_def parseBackoff_def, metis backoff_policy.exhaust backoff_policy_String.simps(4))

interpretation fault_kind: token_enum parseFaultKind fault_kind_String
  validFaultKind
  by unfold_locales
    (auto simp: validFaultKind_def parseFaultKind_def, metis fault_kind.exhaust fault_kind_String.simps(5))

interpretation exhausted: token_enum parseExhaustedAction exhausted_action_String
  validExhausted
  by unfold_locales
    (auto simp: validExhausted_def parseExhaustedAction_def, metis exhausted_action.exhaust exhausted_action_String.simps(4))

interpretation log_condition: token_enum parseLogCondition log_condition_String
  validLogCondition
  by unfold_locales
    (auto simp: validLogCondition_def parseLogCondition_def, metis log_condition.exhaust log_condition_String.simps(4))

interpretation metric_type: token_enum parseMetricType metric_type_String
  "\<lambda>t. validSyncMetricType t \<or> validObservableMetricType t"
  by unfold_locales
    (auto simp: validSyncMetricType_def validObservableMetricType_def parseMetricType_def, metis metric_type.exhaust metric_type_String.simps(6))

interpretation log_severity: token_enum parseLogSeverity log_severity_String
  validLogSeverity
  by unfold_locales
    (auto simp: validLogSeverity_def parseLogSeverity_def, metis log_severity.exhaust log_severity_String.simps(7))

end
