(* ===== verification/Topology_Types.thy ===== *)
theory Topology_Types
  imports Topology_Enums
begin

text \<open>
  topology/types.go and topology/raw.go: the resolved topology and the raw YAML shape.

  Services and operations form a pointer graph with back pointers and shared targets, and the
  code compares their addresses. A pointer is an address (\<open>svc_ref\<close>, \<open>op_ref\<close>), nil is
  \<open>None\<close>, and the schema carries the heap cells the addresses denote (\<open>s_svc\<close>,
  \<open>s_op\<close>): a non-nil Go pointer always refers to an object, so the heap is a total function.
  Call nodes, steps and edges are owned trees; an edge carries its address, because fault targets
  and overlays compare edges by pointer. A nil slice and an empty slice are one list; a nil map
  attribute (\<open>None\<close>) and an empty one are kept apart.
\<close>

section \<open>Values of map[string]any\<close>

datatype any =
    AnyNil | AnyBool bool | AnyInt int | AnyFloat f64 | AnyString string
  | AnyList "any list" | AnyMap "(string \<times> any) list"

type_synonym attributes = "(string, any) gomap option"

section \<open>Addresses\<close>

text \<open>
  The address of a service or operation is its allocation site in buildSchema: the map key of the
  service, and the index of the raw operation. Distinct allocations have distinct addresses.
\<close>

datatype svc_ref = SvcRef string
datatype op_ref = OpRef string nat
type_synonym edge_ref = string

section \<open>Leaves of the schema\<close>

record metric_fault_link =
  fl_kind :: fault_kind
  fl_delta :: f64
  fl_value :: f64
  fl_has_value :: bool

record metric_spec =
  m_name :: string
  m_type :: metric_type
  m_unit :: string
  m_baseline :: f64
  m_condition :: log_condition
  m_attributes :: attributes
  m_when_fault :: "metric_fault_link option"

record metric_source =
  src_accumulator :: string
  src_minus :: string

record observable_metric =
  om_name :: string
  om_type :: metric_type
  om_unit :: string
  om_baseline :: f64
  om_attributes :: attributes
  om_when_fault :: "metric_fault_link option"
  om_source :: "metric_source option"

record state_update =
  su_key :: string
  su_delta :: f64
  su_condition :: log_condition
  su_when_fault :: "metric_fault_link option"

record log_event =
  le_name :: string
  le_severity :: log_severity
  le_condition :: log_condition
  le_body :: string
  le_attributes :: attributes

record stack_sample =
  st_frames :: "string list"
  st_weight :: f64

record profile_spec =
  pr_enabled :: bool
  pr_sample_rate :: int
  pr_baseline :: "stack_sample list"
  pr_incident :: "stack_sample list"
  pr_when_fault :: "fault_kind option"

record latency_dist =
  l_distribution :: string
  l_p50 :: duration
  l_p95 :: duration

section \<open>Call graph\<close>

datatype edge =
  Edge (e_ref: edge_ref) (e_from: "op_ref option") (e_to: "op_ref option") (e_protocol: protocol)
    (e_latency: latency_dist) (e_error_rate: f64) (e_timeout: duration) (e_retries: int)
    (e_retry_backoff: backoff_policy) (e_retry_base_delay: duration)
    (e_on_failure: "recovery option")
and recovery =
  Recovery (rp_fallback: "edge option list") (rp_on_exhausted: exhausted_action)
    (rp_default_response: attributes)

datatype call_node = CallNode (cn_edge: "edge option") (cn_parallel: "call_node option list")

datatype step = Step (step_op: "op_ref option") (step_parallel: "step option list")

record operation =
  op_name :: string
  op_service :: "svc_ref option"
  op_calls :: "call_node option list"
  op_log_events :: "log_event list"
  op_metrics :: "metric_spec list"
  op_state_updates :: "state_update list"
  op_profile :: "profile_spec option"

record service =
  svc_name :: string
  svc_namespace :: string
  svc_kind :: service_kind
  svc_replicas :: int
  svc_language :: string
  svc_framework :: string
  svc_version :: string
  svc_operations :: "(string, op_ref option) gomap"
  svc_metrics :: "observable_metric list"

record journey =
  j_name :: string
  j_steps :: "step option list"
  j_weight :: f64

record fault_target =
  ft_kind :: target_kind
  ft_service :: "svc_ref option"
  ft_operation :: "op_ref option"
  ft_edge :: "edge option"

record severity_params =
  sev_probability :: f64
  sev_multiplier :: f64
  sev_add :: duration
  sev_value :: f64

record schedule_point =
  sp_at :: duration
  sp_intensity :: f64

record fault_spec =
  f_target :: fault_target
  f_kind :: fault_kind
  f_severity :: severity_params
  f_schedule :: "schedule_point list"

record schema =
  s_namespace :: string
  s_services :: "(string, svc_ref option) gomap"
  s_journeys :: "(string, journey option) gomap"
  s_faults :: "fault_spec list"
  s_svc :: "svc_ref \<Rightarrow> service"
  s_op :: "op_ref \<Rightarrow> operation"

definition DefaultNamespace :: string where
  "DefaultNamespace = ''xk6-otel-gen''"

definition DefaultRetryBaseDelay :: duration where
  "DefaultRetryBaseDelay = 100 * millisecond"

section \<open>Raw YAML shape\<close>

record raw_metric_fault_link =
  rfl_kind :: string
  rfl_delta :: "f64 option"
  rfl_value :: "f64 option"

record raw_metric_source =
  rsrc_accumulator :: string
  rsrc_minus :: string

record raw_metric =
  rm_name :: string
  rm_type :: string
  rm_unit :: string
  rm_baseline :: "f64 option"
  rm_condition :: string
  rm_attributes :: attributes
  rm_when_fault :: "raw_metric_fault_link option"
  rm_source :: "raw_metric_source option"

record raw_state_update =
  rsu_key :: string
  rsu_delta :: "f64 option"
  rsu_condition :: string
  rsu_when_fault :: "raw_metric_fault_link option"

record raw_log_event =
  rle_name :: string
  rle_severity :: string
  rle_condition :: string
  rle_body :: string
  rle_attributes :: attributes

record raw_stack =
  rst_frames :: "string list"
  rst_weight :: f64

record raw_profile =
  rpr_enabled :: bool
  rpr_sample_rate :: "int option"
  rpr_baseline :: "raw_stack option list"
  rpr_incident :: "raw_stack option list"
  rpr_when_fault :: "string option"

record raw_call_target =
  rct_service :: string
  rct_operation :: string

record raw_latency_dist =
  rl_distribution :: string
  rl_p50 :: "duration option"
  rl_p95 :: "duration option"

datatype raw_call_node =
  RawCallNode (rc_to: "raw_call_target option") (rc_parallel: "raw_call_node option list")
    (rc_protocol: string) (rc_latency: "raw_latency_dist option") (rc_error_rate: "f64 option")
    (rc_timeout: "duration option") (rc_retries: "int option") (rc_retry_backoff: string)
    (rc_retry_base_delay: "duration option") (rc_on_failure: "raw_recovery option")
and raw_recovery =
  RawRecovery (rrp_fallback: "raw_call_node option list") (rrp_on_exhausted: string)
    (rrp_default_response: attributes)

record raw_operation =
  ro_name :: string
  ro_calls :: "raw_call_node option list"
  ro_log_events :: "raw_log_event option list"
  ro_metrics :: "raw_metric option list"
  ro_state_updates :: "raw_state_update option list"
  ro_profile :: "raw_profile option"

record raw_service =
  rs_namespace :: string
  rs_kind :: string
  rs_replicas :: "int option"
  rs_language :: string
  rs_framework :: string
  rs_version :: string
  rs_metrics :: "raw_metric option list"
  rs_operations :: "raw_operation option list"

datatype raw_step =
  RawStep (rstep_service: string) (rstep_operation: string) (rstep_parallel: "raw_step option list")

record raw_journey =
  rj_steps :: "raw_step option list"
  rj_weight :: "f64 option"

record raw_severity =
  rsev_probability :: "f64 option"
  rsev_multiplier :: "f64 option"
  rsev_add :: "duration option"
  rsev_value :: "f64 option"

record raw_fault_schedule =
  rsp_at :: "duration option"
  rsp_intensity :: "f64 option"

record raw_fault =
  rf_target :: string
  rf_kind :: string
  rf_severity :: "raw_severity option"
  rf_schedule :: "raw_fault_schedule option list"

record raw_schema =
  raw_namespace :: string
  raw_services :: "(string, raw_service option) gomap"
  raw_journeys :: "(string, raw_journey option) gomap"
  raw_faults :: "raw_fault option list"

section \<open>Errors\<close>

text \<open>
  topology/errors.go: \<open>ParseError\<close> (its inner error, a YAML decoding error, is a string of
  the decoder) and \<open>ValidationError\<close>; \<open>ErrJoin\<close> is the value \<open>errors.Join\<close> makes of
  a non-empty list. No error is \<open>None\<close>.
\<close>

datatype topo_error =
    ParseError string msg "string option"
  | ValidationError string string msg
  | ErrJoin "topo_error list"

definition newParseError :: "string \<Rightarrow> string \<Rightarrow> topo_error" where
  "newParseError path m = ParseError path (Msg m []) None"

definition newParseErrorf :: "string \<Rightarrow> string \<Rightarrow> f64 fmt_arg list \<Rightarrow> topo_error" where
  "newParseErrorf path fmt args = ParseError path (Msg fmt args) None"

definition newValidationError :: "string \<Rightarrow> string \<Rightarrow> string \<Rightarrow> topo_error" where
  "newValidationError path rule m = ValidationError path rule (Msg m [])"

definition newValidationErrorf ::
  "string \<Rightarrow> string \<Rightarrow> string \<Rightarrow> f64 fmt_arg list \<Rightarrow> topo_error" where
  "newValidationErrorf path rule fmt args = ValidationError path rule (Msg fmt args)"

definition errors_Join :: "topo_error list \<Rightarrow> topo_error option" where
  "errors_Join errs = (if errs = [] then None else Some (ErrJoin errs))"

lemma errors_Join_None [simp, ok_simps]: "errors_Join errs = None \<longleftrightarrow> errs = []"
  by (simp add: errors_Join_def)

text \<open>The errors a joined error stands for, in order.\<close>

fun leaf_errors :: "topo_error \<Rightarrow> topo_error list" where
  "leaf_errors (ErrJoin es) = concat (map leaf_errors es)"
| "leaf_errors e = [e]"

end
