(* ===== verification/Topology_Overlay.thy ===== *)
theory Topology_Overlay
  imports Topology_Types
begin

text \<open>
  topology/faults.go: the overlay that indexes the faults of a schema by the pointer they target.
  The locale \<open>fault_index\<close> is the contract of one of its three maps: adding a fault appends it
  under its key and nothing else, so a lookup finds the faults of its key in schema order.
\<close>

section \<open>The overlay\<close>

record fault_overlay =
  nodeFaults :: "(svc_ref, fault_spec list) gomap"
  operationFaults :: "(op_ref, fault_spec list) gomap"
  edgeFaults :: "(edge_ref, fault_spec list) gomap"

definition slice_at :: "('k, 'v list) gomap \<Rightarrow> 'k \<Rightarrow> 'v list" where
  "slice_at m k = (case map_of m k of None \<Rightarrow> [] | Some xs \<Rightarrow> xs)"

text \<open>\<open>m[k] = append(m[k], x)\<close>\<close>

definition append_at :: "'k \<Rightarrow> 'v \<Rightarrow> ('k, 'v list) gomap \<Rightarrow> ('k, 'v list) gomap" where
  "append_at k x m = AList.update k (slice_at m k @ [x]) m"

lemma slice_at_Nil [simp]: "slice_at [] k = []"
  by (simp add: slice_at_def)

lemma slice_at_append_at: "slice_at (append_at k x m) k' = slice_at m k' @ (if k' = k then [x] else [])"
  by (auto simp: slice_at_def append_at_def update_conv')

definition empty_overlay :: fault_overlay where
  "empty_overlay = \<lparr>nodeFaults = [], operationFaults = [], edgeFaults = []\<rparr>"

definition index_fault :: "fault_spec \<Rightarrow> fault_overlay \<Rightarrow> fault_overlay" where
  "index_fault f ov = (case ft_kind (f_target f) of
       TargetNode \<Rightarrow> (case ft_service (f_target f) of
           None \<Rightarrow> ov | Some r \<Rightarrow> ov\<lparr>nodeFaults := append_at r f (nodeFaults ov)\<rparr>)
     | TargetOperation \<Rightarrow> (case ft_operation (f_target f) of
           None \<Rightarrow> ov | Some op \<Rightarrow> ov\<lparr>operationFaults := append_at op f (operationFaults ov)\<rparr>)
     | TargetEdge \<Rightarrow> (case ft_edge (f_target f) of
           None \<Rightarrow> ov | Some e \<Rightarrow> ov\<lparr>edgeFaults := append_at (e_ref e) f (edgeFaults ov)\<rparr>)
     | TargetOther k \<Rightarrow> ov)"

definition ApplyFaults :: "schema option \<Rightarrow> fault_overlay" where
  "ApplyFaults p = (case p of None \<Rightarrow> empty_overlay | Some s \<Rightarrow> fold index_fault (s_faults s) empty_overlay)"

text \<open>The lookups; a nil overlay and a nil key find nothing.\<close>

definition NodeFaults :: "fault_overlay option \<Rightarrow> svc_ref option \<Rightarrow> fault_spec list" where
  "NodeFaults ov p = (case (ov, p) of (Some o', Some r) \<Rightarrow> slice_at (nodeFaults o') r | _ \<Rightarrow> [])"

definition OperationFaults :: "fault_overlay option \<Rightarrow> op_ref option \<Rightarrow> fault_spec list" where
  "OperationFaults ov p = (case (ov, p) of (Some o', Some op) \<Rightarrow> slice_at (operationFaults o') op | _ \<Rightarrow> [])"

definition EdgeFaults :: "fault_overlay option \<Rightarrow> edge option \<Rightarrow> fault_spec list" where
  "EdgeFaults ov p = (case (ov, p) of (Some o', Some e) \<Rightarrow> slice_at (edgeFaults o') (e_ref e) | _ \<Rightarrow> [])"

section \<open>The contract of an index\<close>

locale fault_index =
  fixes empty :: 'ov
    and add :: "fault_spec \<Rightarrow> 'ov \<Rightarrow> 'ov"
    and find_faults :: "'ov \<Rightarrow> 'k \<Rightarrow> fault_spec list"
    and key :: "fault_spec \<Rightarrow> 'k option"
  assumes find_empty: "find_faults empty k = []"
    and find_add: "find_faults (add f ov) k = find_faults ov k @ (if key f = Some k then [f] else [])"
begin

lemma find_fold: "find_faults (fold add fs ov) k = find_faults ov k @ filter (\<lambda>f. key f = Some k) fs"
  by (induction fs arbitrary: ov) (simp_all add: find_add)

lemma find_built: "find_faults (fold add fs empty) k = filter (\<lambda>f. key f = Some k) fs"
  by (simp add: find_fold find_empty)

lemma find_found_iff: "f \<in> set (find_faults (fold add fs empty) k) \<longleftrightarrow> f \<in> set fs \<and> key f = Some k"
  by (simp add: find_built)

lemma find_total: "length (find_faults (fold add fs empty) k) \<le> length fs"
  by (simp add: find_built)

end

definition node_key :: "fault_spec \<Rightarrow> svc_ref option" where
  "node_key f = (if ft_kind (f_target f) = TargetNode then ft_service (f_target f) else None)"

definition operation_key :: "fault_spec \<Rightarrow> op_ref option" where
  "operation_key f = (if ft_kind (f_target f) = TargetOperation then ft_operation (f_target f) else None)"

definition edge_key :: "fault_spec \<Rightarrow> edge_ref option" where
  "edge_key f = (if ft_kind (f_target f) = TargetEdge then map_option e_ref (ft_edge (f_target f)) else None)"

interpretation node_index: fault_index empty_overlay index_fault "\<lambda>ov. slice_at (nodeFaults ov)" node_key
  by unfold_locales (auto simp: empty_overlay_def index_fault_def node_key_def slice_at_append_at
      split: target_kind.splits option.splits)

interpretation operation_index: fault_index empty_overlay index_fault
  "\<lambda>ov. slice_at (operationFaults ov)" operation_key
  by unfold_locales (auto simp: empty_overlay_def index_fault_def operation_key_def slice_at_append_at
      split: target_kind.splits option.splits)

interpretation edge_index: fault_index empty_overlay index_fault "\<lambda>ov. slice_at (edgeFaults ov)" edge_key
  by unfold_locales (auto simp: empty_overlay_def index_fault_def edge_key_def slice_at_append_at
      split: target_kind.splits option.splits)

text \<open>
  C19: The overlay of a schema answers each lookup with exactly the faults whose target kind and
  pointer match the key, in the order of the schema: none is lost, none leaks to another key or
  into another map.
\<close>

theorem ApplyFaults_lookups:
  "NodeFaults (Some (ApplyFaults (Some s))) (Some r) = filter (\<lambda>f. node_key f = Some r) (s_faults s)
   \<and> OperationFaults (Some (ApplyFaults (Some s))) (Some op) = filter (\<lambda>f. operation_key f = Some op) (s_faults s)
   \<and> EdgeFaults (Some (ApplyFaults (Some s))) (Some e) = filter (\<lambda>f. edge_key f = Some (e_ref e)) (s_faults s)"
  by (simp_all add: NodeFaults_def OperationFaults_def EdgeFaults_def ApplyFaults_def node_index.find_built
      operation_index.find_built edge_index.find_built)

end
