(* ===== verification/Topology_Graph.thy ===== *)
theory Topology_Graph
  imports Topology_Types
begin

text \<open>
  The walks of topology/validate.go over a schema (operations, edges, edges with their paths)
  and validateDAG, Kahn's algorithm on the operation graph, with its correctness: it reports
  nothing exactly when the graph has no cycle. A callback iteration of the code
  (\<open>forEachOutgoingEdge(s, fn)\<close>) is the list of the values it calls \<open>fn\<close> with, in order.
\<close>

section \<open>Walks\<close>

definition service_entries :: "schema \<Rightarrow> (string \<times> svc_ref) list" where
  "service_entries s = concat (map (\<lambda>(sid, p). opt_list (\<lambda>r. [(sid, r)]) p) (s_services s))"

definition operation_entries :: "schema \<Rightarrow> (string \<times> string \<times> op_ref) list" where
  "operation_entries s =
     concat (map (\<lambda>(sid, r).
       concat (map (\<lambda>(name, p). opt_list (\<lambda>op. [(sid, name, op)]) p) (svc_operations (s_svc s r))))
       (service_entries s))"

definition allSchemaOperations :: "schema \<Rightarrow> op_ref list" where
  "allSchemaOperations s = map (\<lambda>(sid, name, op). op) (operation_entries s)"

definition operationSet :: "schema \<Rightarrow> op_ref set" where
  "operationSet s = set (allSchemaOperations s)"

definition serviceInSchema :: "schema \<Rightarrow> svc_ref \<Rightarrow> bool" where
  "serviceInSchema s r \<longleftrightarrow> Some r \<in> snd ` set (s_services s)"

definition fallbacks :: "edge \<Rightarrow> edge option list" where
  "fallbacks e = (case e_on_failure e of None \<Rightarrow> [] | Some rp \<Rightarrow> rp_fallback rp)"

fun edges_in_node :: "call_node \<Rightarrow> edge list" where
  "edges_in_node (CallNode e ps) =
     opt_list (\<lambda>ed. ed # concat (map (opt_list (\<lambda>f. [f])) (fallbacks ed))) e
     @ concat (map (opt_list edges_in_node) ps)"

definition forEachEdgeInCalls :: "call_node option list \<Rightarrow> edge list" where
  "forEachEdgeInCalls calls = concat (map (opt_list edges_in_node) calls)"

definition forEachOutgoingEdge :: "schema \<Rightarrow> edge list" where
  "forEachOutgoingEdge s =
     concat (map (\<lambda>op. forEachEdgeInCalls (op_calls (s_op s op))) (allSchemaOperations s))"

definition outgoingTargets :: "schema \<Rightarrow> op_ref \<Rightarrow> op_ref list" where
  "outgoingTargets s op =
     concat (map (\<lambda>e. opt_list (\<lambda>t. [t]) (e_to e)) (forEachEdgeInCalls (op_calls (s_op s op))))"

fun edges_in_node_with_path :: "string \<Rightarrow> call_node \<Rightarrow> (edge option \<times> string) list" where
  "edges_in_node_with_path path (CallNode e ps) =
     opt_list (\<lambda>ed. (Some ed, path) #
       map_indexed (\<lambda>j f. (f, index_path (path @ ''.on_failure.fallback'') j)) (fallbacks ed)) e
     @ concat_indexed (\<lambda>i p. opt_list (edges_in_node_with_path
         (index_path (path @ ''.parallel'') i)) p) ps"

definition forEachCallEdgeWithPath ::
  "call_node option list \<Rightarrow> string \<Rightarrow> (edge option \<times> string) list" where
  "forEachCallEdgeWithPath nodes path =
     concat_indexed (\<lambda>i n. opt_list (edges_in_node_with_path (index_path path i)) n) nodes"

definition op_path :: "string \<Rightarrow> string \<Rightarrow> string" where
  "op_path sid name = ''services.'' @ sid @ ''.operations.'' @ name"

definition forEachOutgoingEdgeWithPath :: "schema \<Rightarrow> (edge option \<times> string) list" where
  "forEachOutgoingEdgeWithPath s =
     concat (map (\<lambda>(sid, name, op).
       forEachCallEdgeWithPath (op_calls (s_op s op)) (op_path sid name @ ''.calls''))
       (operation_entries s))"

definition edgeSet :: "schema \<Rightarrow> edge_ref set" where
  "edgeSet s = e_ref ` set (forEachOutgoingEdge s)"

definition identifyOp :: "schema \<Rightarrow> op_ref option \<Rightarrow> string" where
  "identifyOp s p =
     (case p of None \<Rightarrow> ''<nil>''
      | Some op \<Rightarrow> (case op_service (s_op s op) of
           None \<Rightarrow> ''<nil>.'' @ op_name (s_op s op)
         | Some r \<Rightarrow> svc_name (s_svc s r) @ ''.'' @ op_name (s_op s op)))"

definition serviceName :: "schema \<Rightarrow> svc_ref option \<Rightarrow> string" where
  "serviceName s p = (case p of None \<Rightarrow> ''<nil>'' | Some r \<Rightarrow> svc_name (s_svc s r))"

subsection \<open>What the walks visit\<close>

lemma service_entries_iff: "(sid, r) \<in> set (service_entries s) \<longleftrightarrow> (sid, Some r) \<in> set (s_services s)"
  by (force simp: service_entries_def opt_list_def split: option.splits)

lemma operation_entries_iff:
  "(sid, name, op) \<in> set (operation_entries s) \<longleftrightarrow>
     (\<exists>r. (sid, Some r) \<in> set (s_services s) \<and> (name, Some op) \<in> set (svc_operations (s_svc s r)))"
  by (force simp: operation_entries_def service_entries_iff opt_list_def split: option.splits)

lemma operationSet_iff:
  "op \<in> operationSet s \<longleftrightarrow> (\<exists>sid name. (sid, name, op) \<in> set (operation_entries s))"
  by (auto simp: operationSet_def allSchemaOperations_def) force

lemma finite_operationSet [simp]: "finite (operationSet s)"
  by (simp add: operationSet_def)

lemma edges_with_path_fst:
  "concat (map (\<lambda>(p, _). opt_list (\<lambda>e. [e]) p) (edges_in_node_with_path path n)) = edges_in_node n"
proof (induction path n rule: edges_in_node_with_path.induct)
  case (1 path e ps)
  have par: "concat (map (\<lambda>(p, _). opt_list (\<lambda>e. [e]) p)
      (opt_list (edges_in_node_with_path q) p)) = opt_list edges_in_node p"
    if "p \<in> set ps" "q = index_path (path @ ''.parallel'') i" for p q i
    using "1.IH" that by (cases p) auto
  show ?case
    by (cases e) (simp_all add: concat_map_concat_indexed [OF par [OF _ refl]]
        concat_map_map_indexed [where h = "opt_list (\<lambda>f. [f])"])
qed

lemma forEachOutgoingEdgeWithPath_edges:
  "concat (map (\<lambda>(p, _). opt_list (\<lambda>e. [e]) p) (forEachOutgoingEdgeWithPath s))
   = forEachOutgoingEdge s"
proof -
  have "concat (map (\<lambda>(p, _). opt_list (\<lambda>e. [e]) p) (forEachCallEdgeWithPath ns path))
      = forEachEdgeInCalls ns" for ns path
    unfolding forEachCallEdgeWithPath_def forEachEdgeInCalls_def
    by (rule concat_map_concat_indexed) (auto simp: opt_list_def edges_with_path_fst [unfolded opt_list_def]
        split: option.splits)
  then show ?thesis
    by (auto simp: forEachOutgoingEdgeWithPath_def forEachOutgoingEdge_def allSchemaOperations_def
        concat_map_concat comp_def case_prod_beta)
qed

section \<open>validateDAG\<close>

text \<open>
  The map \<open>inDegree\<close> has the operations as its keys, in the order \<open>remdups\<close> of the
  walk, and a count for each. The queue takes the keys of count zero in the order of the map.
\<close>

definition in_degree_init :: "schema \<Rightarrow> op_ref \<Rightarrow> int" where
  "in_degree_init s v =
     int (length (filter (\<lambda>e. e_to e = Some v) (forEachOutgoingEdge s)))"

text \<open>The body of the queue loop for one child.\<close>

definition kahn_child ::
  "op_ref list \<Rightarrow> op_ref \<Rightarrow> (op_ref \<Rightarrow> int) \<times> op_ref list \<Rightarrow> (op_ref \<Rightarrow> int) \<times> op_ref list" where
  "kahn_child keys child = (\<lambda>(deg, queue).
     if child \<notin> set keys then (deg, queue)
     else let deg' = deg(child := deg child - 1)
          in (deg', if deg' child = 0 then queue @ [child] else queue))"

definition pending :: "op_ref list \<Rightarrow> (op_ref \<Rightarrow> int) \<Rightarrow> nat" where
  "pending keys deg = card {v \<in> set keys. 0 < deg v}"

lemma kahn_child_measure:
  "kahn_child keys c (deg, q) = (deg', q') \<Longrightarrow>
   pending keys deg' + length q' \<le> pending keys deg + length q"
proof -
  assume step: "kahn_child keys c (deg, q) = (deg', q')"
  let ?A = "{v \<in> set keys. 0 < deg v}" and ?B = "{v \<in> set keys. 0 < deg' v}"
  have sub: "?B \<subseteq> ?A"
    using step by (auto simp: kahn_child_def Let_def split: if_splits)
  show ?thesis
  proof (cases "c \<in> set keys \<and> deg c = 1")
    case True
    then have "?B = ?A - {c}" and "c \<in> ?A" and "q' = q @ [c]"
      using step by (auto simp: kahn_child_def split: if_splits)
    then have "Suc (card ?B) = card ?A"
      by (simp add: card.remove [symmetric] card_Suc_Diff1 del: card_Diff_insert)
    with \<open>q' = q @ [c]\<close> show ?thesis by (simp add: pending_def)
  next
    case False
    then have "q' = q"
      using step by (auto simp: kahn_child_def Let_def split: if_splits)
    moreover have "card ?B \<le> card ?A"
      using sub by (intro card_mono) auto
    ultimately show ?thesis by (simp add: pending_def)
  qed
qed

lemma kahn_fold_measure:
  "fold (kahn_child keys) cs (deg, q) = (deg', q') \<Longrightarrow>
   pending keys deg' + length q' \<le> pending keys deg + length q"
proof (induction cs arbitrary: deg q)
  case (Cons c cs)
  obtain d1 q1 where "kahn_child keys c (deg, q) = (d1, q1)" by fastforce
  with Cons show ?case using kahn_child_measure [of keys c deg q d1 q1] by fastforce
qed simp

function kahn_loop ::
  "schema \<Rightarrow> op_ref list \<Rightarrow> (op_ref \<Rightarrow> int) \<Rightarrow> op_ref list \<Rightarrow> nat \<Rightarrow> nat \<times> (op_ref \<Rightarrow> int)" where
  "kahn_loop s keys deg [] visited = (visited, deg)"
| "kahn_loop s keys deg (op # queue) visited =
     (case fold (kahn_child keys) (outgoingTargets s op) (deg, queue) of
        (deg', queue') \<Rightarrow> kahn_loop s keys deg' queue' (Suc visited))"
  by pat_completeness auto
termination
  by (relation "measure (\<lambda>(s, keys, deg, queue, visited). pending keys deg + length queue)")
    (auto dest!: kahn_fold_measure [OF sym])

definition validateDAG :: "schema \<Rightarrow> topo_error list" where
  "validateDAG s =
     (let keys = remdups (allSchemaOperations s);
          deg = in_degree_init s;
          (visited, deg') = kahn_loop s keys deg (filter (\<lambda>op. deg op = 0) keys) 0
      in if visited = length keys then []
         else let unvisited = map (identifyOp s \<circ> Some) (filter (\<lambda>op. 0 < deg' op) keys)
              in [newValidationErrorf ''operation graph'' ''R-STR-4''
                    ''cycle detected; operations in cycle: %v'' [AStrs (sort_strings unvisited)]])"

section \<open>The operation graph\<close>

text \<open>An edge of the graph: a call or a fallback of its source, between operations of the schema.\<close>

definition op_graph :: "schema \<Rightarrow> (op_ref \<times> op_ref) set" where
  "op_graph s = {(u, v). u \<in> operationSet s \<and> v \<in> operationSet s \<and> v \<in> set (outgoingTargets s u)}"

lemma op_graph_finite: "finite (op_graph s)"
  by (rule finite_subset [of _ "operationSet s \<times> operationSet s"]) (auto simp: op_graph_def)

section \<open>Correctness of Kahn's algorithm\<close>

text \<open>
  \<open>P\<close> is the list of the operations already taken from the queue. Every key is counted by its
  incoming edges from unprocessed operations, the keys of count zero are the processed and the
  queued ones, and \<open>P\<close> lists every operation after all its predecessors.
\<close>

definition preds_before :: "schema \<Rightarrow> op_ref list \<Rightarrow> op_ref list \<Rightarrow> bool" where
  "preds_before s keys P \<longleftrightarrow>
     (\<forall>Q v R. P = Q @ v # R \<longrightarrow> (\<forall>u \<in> set keys. v \<in> set (outgoingTargets s u) \<longrightarrow> u \<in> set Q))"

definition kahn_inv ::
  "schema \<Rightarrow> op_ref list \<Rightarrow> op_ref list \<Rightarrow> (op_ref \<Rightarrow> int) \<Rightarrow> op_ref list \<Rightarrow> bool" where
  "kahn_inv s keys P deg q \<longleftrightarrow>
     distinct (P @ q) \<and> set (P @ q) \<subseteq> set keys \<and>
     (\<forall>v \<in> set keys. deg v = int (\<Sum>u \<in> set keys - set P. count_list (outgoingTargets s u) v)) \<and>
     (\<forall>v \<in> set keys. v \<in> set (P @ q) \<longleftrightarrow> deg v = 0) \<and> preds_before s keys P"

lemma kahn_children:
  assumes "fold (kahn_child keys) cs (deg, q) = (deg', q')"
    and "\<forall>v \<in> set keys. int (count_list cs v) \<le> deg v"
    and "distinct (P @ q)" and "set (P @ q) \<subseteq> set keys"
    and "\<forall>v \<in> set keys. v \<in> set (P @ q) \<longleftrightarrow> deg v = 0"
  shows "(\<forall>v \<in> set keys. deg' v = deg v - int (count_list cs v)) \<and> distinct (P @ q') \<and>
    set (P @ q') \<subseteq> set keys \<and> (\<forall>v \<in> set keys. v \<in> set (P @ q') \<longleftrightarrow> deg' v = 0)"
  using assms
proof (induction cs arbitrary: deg q)
  case Nil
  then show ?case by auto
next
  case (Cons c cs)
  obtain d1 q1 where step: "kahn_child keys c (deg, q) = (d1, q1)" by fastforce
  with Cons.prems(1) have rest: "fold (kahn_child keys) cs (d1, q1) = (deg', q')" by simp
  have cnt: "c \<in> set keys \<Longrightarrow> 1 \<le> deg c"
    using Cons.prems(2) by fastforce
  have d1: "\<forall>v \<in> set keys. d1 v = deg v - (if v = c then 1 else 0)"
    using step by (auto simp: kahn_child_def Let_def split: if_splits)
  have mem: "\<forall>v \<in> set keys. v \<in> set (P @ q1) \<longleftrightarrow> d1 v = 0"
  proof
    fix v assume v: "v \<in> set keys"
    have q1: "q1 = (if c \<in> set keys \<and> deg c = 1 then q @ [c] else q)"
      using step by (auto simp: kahn_child_def Let_def split: if_splits)
    show "v \<in> set (P @ q1) \<longleftrightarrow> d1 v = 0"
      using Cons.prems(5) [rule_format, OF v] d1 [rule_format, OF v] cnt v
      unfolding q1 by (cases "v = c") auto
  qed
  have fresh: "c \<in> set keys \<Longrightarrow> c \<notin> set (P @ q)"
    using cnt Cons.prems(5) by force
  have "q1 = q \<or> c \<in> set keys \<and> q1 = q @ [c]"
    using step by (auto simp: kahn_child_def Let_def split: if_splits)
  then have "distinct (P @ q1)" and "set (P @ q1) \<subseteq> set keys"
    using fresh Cons.prems(3,4) by auto
  moreover have "\<forall>v \<in> set keys. int (count_list cs v) \<le> d1 v"
    using d1 Cons.prems(2) by fastforce
  ultimately have ih: "(\<forall>v \<in> set keys. deg' v = d1 v - int (count_list cs v)) \<and> distinct (P @ q') \<and>
      set (P @ q') \<subseteq> set keys \<and> (\<forall>v \<in> set keys. v \<in> set (P @ q') \<longleftrightarrow> deg' v = 0)"
    using Cons.IH [OF rest] mem by blast
  moreover have "\<forall>v \<in> set keys. deg' v = deg v - int (count_list (c # cs) v)"
    using ih d1 by simp
  ultimately show ?case by blast
qed

lemma preds_before_snoc:
  assumes "preds_before s keys P"
    and "\<forall>u \<in> set keys. op \<in> set (outgoingTargets s u) \<longrightarrow> u \<in> set P"
  shows "preds_before s keys (P @ [op])"
  unfolding preds_before_def
proof (intro allI impI)
  fix Q v R assume "P @ [op] = Q @ v # R"
  then show "\<forall>u \<in> set keys. v \<in> set (outgoingTargets s u) \<longrightarrow> u \<in> set Q"
    using assms by (cases R rule: rev_cases) (auto simp: preds_before_def)
qed

lemma kahn_inv_step:
  assumes inv: "kahn_inv s keys P deg (op # q)"
    and step: "fold (kahn_child keys) (outgoingTargets s op) (deg, q) = (deg', q')"
  shows "kahn_inv s keys (P @ [op]) deg' q'"
proof -
  let ?c = "\<lambda>u v. count_list (outgoingTargets s u) v"
  have op: "op \<in> set keys" "op \<notin> set P" and zero: "deg op = 0"
    using inv by (auto simp: kahn_inv_def)
  have rem: "set keys - set P = insert op (set keys - set (P @ [op]))"
    using op by auto
  have split: "(\<Sum>u \<in> set keys - set P. ?c u v) = ?c op v + (\<Sum>u \<in> set keys - set (P @ [op]). ?c u v)"
    for v unfolding rem by (rule sum.insert) auto
  have degs: "v \<in> set keys \<Longrightarrow> deg v = int (\<Sum>u \<in> set keys - set P. ?c u v)" for v
    using inv by (simp add: kahn_inv_def)
  have bound: "\<forall>v \<in> set keys. int (?c op v) \<le> deg v"
    using degs unfolding split by (auto simp: sum_nonneg)
  have fold: "(\<forall>v \<in> set keys. deg' v = deg v - int (?c op v)) \<and> distinct ((P @ [op]) @ q') \<and>
    set ((P @ [op]) @ q') \<subseteq> set keys \<and> (\<forall>v \<in> set keys. v \<in> set ((P @ [op]) @ q') \<longleftrightarrow> deg' v = 0)"
    by (rule kahn_children [OF step bound]) (use inv in \<open>auto simp: kahn_inv_def\<close>)
  have "\<forall>u \<in> set keys. op \<in> set (outgoingTargets s u) \<longrightarrow> u \<in> set P"
  proof (intro ballI impI, rule ccontr)
    fix u assume u: "u \<in> set keys" "op \<in> set (outgoingTargets s u)" "u \<notin> set P"
    have "(\<Sum>u \<in> set keys - set P. ?c u op) = 0"
      using degs [OF op(1)] zero by (simp only: of_nat_eq_0_iff [symmetric])
    with u have "?c u op = 0" by simp
    with u show False by (simp add: count_list_0_iff)
  qed
  then have "preds_before s keys (P @ [op])"
    using inv by (intro preds_before_snoc) (auto simp: kahn_inv_def)
  moreover have "\<forall>v \<in> set keys.
      deg' v = int (\<Sum>u \<in> set keys - set (P @ [op]). ?c u v)"
    using fold degs split by simp
  ultimately show ?thesis
    using fold unfolding kahn_inv_def by blast
qed

lemma kahn_loop_result:
  "kahn_inv s keys P deg q \<Longrightarrow> n = length P \<Longrightarrow> kahn_loop s keys deg q n = (visited, deg') \<Longrightarrow>
   \<exists>P'. kahn_inv s keys P' deg' [] \<and> visited = length P'"
proof (induction s keys deg q n arbitrary: P rule: kahn_loop.induct)
  case (1 s keys deg n)
  then show ?case by auto
next
  case (2 s keys deg op queue n)
  obtain d q where step: "fold (kahn_child keys) (outgoingTargets s op) (deg, queue) = (d, q)"
    by fastforce
  from kahn_inv_step [OF "2.prems"(1) step] have "kahn_inv s keys (P @ [op]) d q" .
  with "2.IH" [OF step [symmetric], of "P @ [op]"] "2.prems"(2,3) step show ?case by simp
qed

lemma in_degree_init_sum:
  assumes "distinct (allSchemaOperations s)"
  shows "in_degree_init s v = int (\<Sum>u \<in> operationSet s. count_list (outgoingTargets s u) v)"
proof -
  have tg: "length (filter (\<lambda>e. e_to e = Some v) es)
      = count_list (concat (map (\<lambda>e. opt_list (\<lambda>t. [t]) (e_to e)) es)) v" for es
    by (induction es) (auto simp: opt_list_def split: option.splits)
  have "in_degree_init s v
      = int (sum_list (map (\<lambda>u. count_list (outgoingTargets s u) v) (allSchemaOperations s)))"
    by (simp add: in_degree_init_def forEachOutgoingEdge_def filter_concat length_concat comp_def
        tg outgoingTargets_def)
  also have "\<dots> = int (\<Sum>u \<in> set (allSchemaOperations s). count_list (outgoingTargets s u) v)"
    using assms by (simp add: sum_list_distinct_conv_sum_set)
  finally show ?thesis by (simp add: operationSet_def)
qed

lemma kahn_inv_init:
  assumes "distinct (allSchemaOperations s)"
  shows "kahn_inv s (remdups (allSchemaOperations s)) [] (in_degree_init s)
    (filter (\<lambda>op. in_degree_init s op = 0) (remdups (allSchemaOperations s)))"
  using in_degree_init_sum [OF assms]
  by (auto simp: kahn_inv_def preds_before_def operationSet_def)

lemma takeWhile_shorter: "u \<in> set Q \<Longrightarrow> length (takeWhile (\<lambda>x. x \<noteq> u) (Q @ R)) < length Q"
  by (induction Q) auto

lemma preds_before_acyclic:
  assumes "preds_before s keys P" and "set P = set keys" and "set keys = operationSet s"
    and "distinct P"
  shows "acyclic (op_graph s)"
proof -
  let ?f = "\<lambda>v. length (takeWhile (\<lambda>x. x \<noteq> v) P)"
  have "(u, v) \<in> measure ?f" if edge: "(u, v) \<in> op_graph s" for u v
  proof -
    from edge assms have "v \<in> set P" by (auto simp: op_graph_def)
    then obtain Q R where P: "P = Q @ v # R" by (auto dest: split_list)
    with edge assms have "u \<in> set Q"
      by (auto simp: preds_before_def op_graph_def)
    moreover have "?f v = length Q"
      using P assms(4) by (subst P, subst takeWhile_append2) auto
    ultimately show ?thesis
      using takeWhile_shorter [of u Q "v # R"] P by simp
  qed
  then have "op_graph s \<subseteq> measure ?f" by auto
  then show ?thesis by (meson acyclic_subset wf_acyclic wf_measure)
qed

lemma kahn_final:
  assumes inv: "kahn_inv s keys P deg []" and keys: "set keys = operationSet s" "distinct keys"
  shows "length P = length keys \<longleftrightarrow> acyclic (op_graph s)"
proof
  assume "length P = length keys"
  with inv keys have "set P = set keys"
    by (metis append_Nil2 card_subset_eq distinct_card kahn_inv_def List.finite_set)
  with inv keys show "acyclic (op_graph s)"
    by (auto simp: kahn_inv_def intro: preds_before_acyclic)
next
  assume "acyclic (op_graph s)"
  then have wf: "wf (op_graph s)" by (rule finite_acyclic_wf [OF op_graph_finite])
  have "set keys - set P = {}"
  proof (rule ccontr)
    assume "set keys - set P \<noteq> {}"
    then obtain v where v: "v \<in> set keys - set P"
      and min: "\<And>u. (u, v) \<in> op_graph s \<Longrightarrow> u \<notin> set keys - set P"
      using wfE_min [OF wf] by (metis ex_in_conv)
    from v inv have "deg v \<noteq> 0" by (auto simp: kahn_inv_def)
    with v inv have "(\<Sum>u \<in> set keys - set P. count_list (outgoingTargets s u) v) \<noteq> 0"
      unfolding kahn_inv_def by (metis DiffD1 of_nat_0)
    then obtain u where "u \<in> set keys - set P" "count_list (outgoingTargets s u) v \<noteq> 0"
      by (rule sum.not_neutral_contains_not_neutral)
    then have "u \<in> set keys - set P" "v \<in> set (outgoingTargets s u)"
      by (auto simp: count_list_0_iff)
    with v keys min show False by (auto simp: op_graph_def)
  qed
  with inv have "set P = set keys" by (auto simp: kahn_inv_def)
  with inv keys show "length P = length keys"
    by (metis append_Nil2 distinct_card kahn_inv_def)
qed

lemma validateDAG_iff:
  assumes "distinct (allSchemaOperations s)"
  shows "validateDAG s = [] \<longleftrightarrow> acyclic (op_graph s)"
proof -
  let ?keys = "remdups (allSchemaOperations s)"
  obtain visited deg where loop: "kahn_loop s ?keys (in_degree_init s)
      (filter (\<lambda>op. in_degree_init s op = 0) ?keys) 0 = (visited, deg)" by fastforce
  from kahn_loop_result [OF kahn_inv_init [OF assms] _ loop]
  obtain P where "kahn_inv s ?keys P deg []" "visited = length P" by auto
  from kahn_final [OF this(1)] this(2) loop show ?thesis
    by (simp add: validateDAG_def operationSet_def Let_def)
qed

end
