(* ===== verification/Topology_Equal.thy ===== *)
theory Topology_Equal
  imports Topology_Overlay Topology_Graph
begin

text \<open>
  topology/equal.go, the equality of topology/faults.go and topology/schema_methods.go. Two schemas
  have their own heaps, so each function takes the schemas \<open>sa\<close> and \<open>sb\<close> its pointers refer
  to. Floats are compared with Go's \<open>==\<close>, under which no NaN equals itself and the two zeros are
  equal.
\<close>

section \<open>reflect.DeepEqual\<close>

text \<open>
  On values of \<open>map[string]any\<close>: maps are equal when they have the same keys and deeply equal
  values. The frames of a stack are compared as lists; a nil and an empty slice, which DeepEqual
  tells apart, are one list here, and Validate rejects both.
\<close>

lemma zip_size [termination_simp]: "(a, b) \<in> set (zip as bs) \<Longrightarrow> size a < Suc (size_list size as)"
  by (auto dest!: set_zip_leftD simp: less_Suc_eq_le size_list_estimation')

fun deepEqual :: "any \<Rightarrow> any \<Rightarrow> bool" where
  "deepEqual AnyNil AnyNil = True"
| "deepEqual (AnyBool a) (AnyBool b) = (a = b)"
| "deepEqual (AnyInt a) (AnyInt b) = (a = b)"
| "deepEqual (AnyFloat a) (AnyFloat b) = feq a b"
| "deepEqual (AnyString a) (AnyString b) = (a = b)"
| "deepEqual (AnyList as) (AnyList bs) = (length as = length bs \<and> (\<forall>(a, b) \<in> set (zip as bs). deepEqual a b))"
| "deepEqual (AnyMap as) (AnyMap bs) = (length as = length bs \<and> (\<forall>(k, a) \<in> set as.
     case map_of bs k of None \<Rightarrow> False | Some b \<Rightarrow> deepEqual a b))"
| "deepEqual _ _ = False"

definition deepEqualAttributes :: "attributes \<Rightarrow> attributes \<Rightarrow> bool" where
  "deepEqualAttributes a b = (case (a, b) of
       (None, None) \<Rightarrow> True
     | (Some as, Some bs) \<Rightarrow> deepEqual (AnyMap as) (AnyMap bs)
     | _ \<Rightarrow> False)"

section \<open>Pointers, slices and maps\<close>

text \<open>\<open>if a == nil || b == nil { return a == b }\<close> before a comparison of what they point to.\<close>

definition equal_ptr :: "('a \<Rightarrow> 'b \<Rightarrow> bool) \<Rightarrow> 'a option \<Rightarrow> 'b option \<Rightarrow> bool" where
  "equal_ptr eq a b = (case (a, b) of
       (None, None) \<Rightarrow> True
     | (Some x, Some y) \<Rightarrow> eq x y
     | _ \<Rightarrow> False)"

text \<open>The comparison of lengths and the loop over the indices.\<close>

definition equal_slice :: "('a \<Rightarrow> 'b \<Rightarrow> bool) \<Rightarrow> 'a list \<Rightarrow> 'b list \<Rightarrow> bool" where
  "equal_slice eq as bs \<longleftrightarrow> length as = length bs \<and> list_all2 eq as bs"

text \<open>
  The comparison of sizes and the loop over the entries of the first map; \<open>b[key]\<close> is nil for a
  key that is missing.
\<close>

definition equal_map :: "('a \<Rightarrow> 'b \<Rightarrow> bool) \<Rightarrow> (string, 'a option) gomap \<Rightarrow> (string, 'b option) gomap \<Rightarrow> bool" where
  "equal_map eq as bs \<longleftrightarrow> length as = length bs \<and> (\<forall>(k, a) \<in> set as. equal_ptr eq a (ptr_at bs k))"

section \<open>Leaves\<close>

definition effectiveSchemaNamespace :: "schema \<Rightarrow> string" where
  "effectiveSchemaNamespace s = (if s_namespace s = '''' then DefaultNamespace else s_namespace s)"

definition effectiveServiceNamespace :: "service \<Rightarrow> string" where
  "effectiveServiceNamespace v = (if svc_namespace v = '''' then DefaultNamespace else svc_namespace v)"

definition effectiveRetryBaseDelay :: "edge \<Rightarrow> duration" where
  "effectiveRetryBaseDelay e = (if e_retry_base_delay e = 0 then DefaultRetryBaseDelay else e_retry_base_delay e)"

definition serviceID :: "schema \<Rightarrow> svc_ref option \<Rightarrow> string" where
  "serviceID s p = (case p of None \<Rightarrow> '''' | Some r \<Rightarrow> svc_name (s_svc s r))"

definition edgeIdentity :: "schema \<Rightarrow> edge option \<Rightarrow> string" where
  "edgeIdentity s p = (case p of None \<Rightarrow> ''<nil>''
     | Some e \<Rightarrow> identifyOp s (e_from e) @ ''->'' @ identifyOp s (e_to e))"

definition equalMetricFaultLink :: "metric_fault_link \<Rightarrow> metric_fault_link \<Rightarrow> bool" where
  "equalMetricFaultLink a b \<longleftrightarrow> fl_kind a = fl_kind b \<and> feq (fl_delta a) (fl_delta b)
     \<and> feq (fl_value a) (fl_value b) \<and> fl_has_value a = fl_has_value b"

definition equalStackSample :: "stack_sample \<Rightarrow> stack_sample \<Rightarrow> bool" where
  "equalStackSample a b \<longleftrightarrow> feq (st_weight a) (st_weight b) \<and> st_frames a = st_frames b"

definition equalProfile :: "profile_spec \<Rightarrow> profile_spec \<Rightarrow> bool" where
  "equalProfile a b \<longleftrightarrow> pr_enabled a = pr_enabled b \<and> pr_sample_rate a = pr_sample_rate b
     \<and> equal_slice equalStackSample (pr_baseline a) (pr_baseline b)
     \<and> equal_slice equalStackSample (pr_incident a) (pr_incident b)
     \<and> equal_ptr (=) (pr_when_fault a) (pr_when_fault b)"

definition equalMetricSpec :: "metric_spec \<Rightarrow> metric_spec \<Rightarrow> bool" where
  "equalMetricSpec a b \<longleftrightarrow> m_name a = m_name b \<and> m_type a = m_type b \<and> m_unit a = m_unit b
     \<and> feq (m_baseline a) (m_baseline b) \<and> m_condition a = m_condition b
     \<and> deepEqualAttributes (m_attributes a) (m_attributes b)
     \<and> equal_ptr equalMetricFaultLink (m_when_fault a) (m_when_fault b)"

definition equalObservableMetricSpec :: "observable_metric \<Rightarrow> observable_metric \<Rightarrow> bool" where
  "equalObservableMetricSpec a b \<longleftrightarrow> om_name a = om_name b \<and> om_type a = om_type b \<and> om_unit a = om_unit b
     \<and> feq (om_baseline a) (om_baseline b) \<and> deepEqualAttributes (om_attributes a) (om_attributes b)
     \<and> equal_ptr equalMetricFaultLink (om_when_fault a) (om_when_fault b)
     \<and> equal_ptr (\<lambda>x y. src_accumulator x = src_accumulator y \<and> src_minus x = src_minus y)
         (om_source a) (om_source b)"

definition equalStateUpdate :: "state_update \<Rightarrow> state_update \<Rightarrow> bool" where
  "equalStateUpdate a b \<longleftrightarrow> su_key a = su_key b \<and> feq (su_delta a) (su_delta b) \<and> su_condition a = su_condition b
     \<and> equal_ptr equalMetricFaultLink (su_when_fault a) (su_when_fault b)"

definition equalLogEventSpec :: "log_event \<Rightarrow> log_event \<Rightarrow> bool" where
  "equalLogEventSpec a b \<longleftrightarrow> le_name a = le_name b \<and> le_severity a = le_severity b
     \<and> le_condition a = le_condition b \<and> le_body a = le_body b
     \<and> deepEqualAttributes (le_attributes a) (le_attributes b)"

definition equalLatency :: "latency_dist \<Rightarrow> latency_dist \<Rightarrow> bool" where
  "equalLatency a b \<longleftrightarrow> l_distribution a = l_distribution b \<and> l_p50 a = l_p50 b \<and> l_p95 a = l_p95 b"

definition equalSeverity :: "severity_params \<Rightarrow> severity_params \<Rightarrow> bool" where
  "equalSeverity a b \<longleftrightarrow> feq (sev_probability a) (sev_probability b) \<and> feq (sev_multiplier a) (sev_multiplier b)
     \<and> sev_add a = sev_add b \<and> feq (sev_value a) (sev_value b)"

definition equalSchedulePoint :: "schedule_point \<Rightarrow> schedule_point \<Rightarrow> bool" where
  "equalSchedulePoint a b \<longleftrightarrow> sp_at a = sp_at b \<and> feq (sp_intensity a) (sp_intensity b)"

section \<open>Call nodes and steps\<close>

fun equalEdge :: "schema \<Rightarrow> schema \<Rightarrow> edge option \<Rightarrow> edge option \<Rightarrow> bool"
and equalRecoveryPolicy :: "schema \<Rightarrow> schema \<Rightarrow> recovery option \<Rightarrow> recovery option \<Rightarrow> bool"
and equal_fallbacks :: "schema \<Rightarrow> schema \<Rightarrow> edge option list \<Rightarrow> edge option list \<Rightarrow> bool" where
  "equalEdge sa sb (Some (Edge ra fa ta pa la ea oa na ba da wa)) (Some (Edge rb fb tb pb lb eb ob nb bb db wb)) =
     (identifyOp sa fa = identifyOp sb fb \<and> identifyOp sa ta = identifyOp sb tb \<and> pa = pb \<and> equalLatency la lb
      \<and> feq ea eb \<and> oa = ob \<and> na = nb \<and> ba = bb
      \<and> effectiveRetryBaseDelay (Edge ra fa ta pa la ea oa na ba da wa)
        = effectiveRetryBaseDelay (Edge rb fb tb pb lb eb ob nb bb db wb)
      \<and> equalRecoveryPolicy sa sb wa wb)"
| "equalEdge sa sb None None = True"
| "equalEdge sa sb _ _ = False"
| "equalRecoveryPolicy sa sb (Some (Recovery fsa acta dra)) (Some (Recovery fsb actb drb)) =
     (acta = actb \<and> deepEqualAttributes dra drb \<and> equal_fallbacks sa sb fsa fsb)"
| "equalRecoveryPolicy sa sb None None = True"
| "equalRecoveryPolicy sa sb _ _ = False"
| "equal_fallbacks sa sb (a # as) (b # bs) = (equalEdge sa sb a b \<and> equal_fallbacks sa sb as bs)"
| "equal_fallbacks sa sb [] [] = True"
| "equal_fallbacks sa sb _ _ = False"

fun equalCallNode :: "schema \<Rightarrow> schema \<Rightarrow> call_node option \<Rightarrow> call_node option \<Rightarrow> bool"
and equalCalls :: "schema \<Rightarrow> schema \<Rightarrow> call_node option list \<Rightarrow> call_node option list \<Rightarrow> bool" where
  "equalCallNode sa sb (Some (CallNode ea pa)) (Some (CallNode eb pb)) =
     (equalEdge sa sb ea eb \<and> equalCalls sa sb pa pb)"
| "equalCallNode sa sb None None = True"
| "equalCallNode sa sb _ _ = False"
| "equalCalls sa sb (a # as) (b # bs) = (equalCallNode sa sb a b \<and> equalCalls sa sb as bs)"
| "equalCalls sa sb [] [] = True"
| "equalCalls sa sb _ _ = False"

fun equalStep :: "schema \<Rightarrow> schema \<Rightarrow> step option \<Rightarrow> step option \<Rightarrow> bool"
and equalSteps :: "schema \<Rightarrow> schema \<Rightarrow> step option list \<Rightarrow> step option list \<Rightarrow> bool" where
  "equalStep sa sb (Some (Step oa pa)) (Some (Step ob pb)) =
     (identifyOp sa oa = identifyOp sb ob \<and> equalSteps sa sb pa pb)"
| "equalStep sa sb None None = True"
| "equalStep sa sb _ _ = False"
| "equalSteps sa sb (a # as) (b # bs) = (equalStep sa sb a b \<and> equalSteps sa sb as bs)"
| "equalSteps sa sb [] [] = True"
| "equalSteps sa sb _ _ = False"

section \<open>Services, journeys and faults\<close>

definition equalOperation :: "schema \<Rightarrow> schema \<Rightarrow> op_ref \<Rightarrow> op_ref \<Rightarrow> bool" where
  "equalOperation sa sb a b \<longleftrightarrow> identifyOp sa (Some a) = identifyOp sb (Some b)
     \<and> equalCalls sa sb (op_calls (s_op sa a)) (op_calls (s_op sb b))
     \<and> equal_slice equalLogEventSpec (op_log_events (s_op sa a)) (op_log_events (s_op sb b))
     \<and> equal_slice equalMetricSpec (op_metrics (s_op sa a)) (op_metrics (s_op sb b))
     \<and> equal_slice equalStateUpdate (op_state_updates (s_op sa a)) (op_state_updates (s_op sb b))
     \<and> equal_ptr equalProfile (op_profile (s_op sa a)) (op_profile (s_op sb b))"

definition equalService :: "schema \<Rightarrow> schema \<Rightarrow> svc_ref \<Rightarrow> svc_ref \<Rightarrow> bool" where
  "equalService sa sb ra rb \<longleftrightarrow> (let a = s_svc sa ra; b = s_svc sb rb in
     svc_name a = svc_name b \<and> effectiveServiceNamespace a = effectiveServiceNamespace b
     \<and> svc_kind a = svc_kind b \<and> svc_replicas a = svc_replicas b \<and> svc_language a = svc_language b
     \<and> svc_framework a = svc_framework b \<and> svc_version a = svc_version b
     \<and> equal_slice equalObservableMetricSpec (svc_metrics a) (svc_metrics b)
     \<and> equal_map (equalOperation sa sb) (svc_operations a) (svc_operations b))"

definition equalJourney :: "schema \<Rightarrow> schema \<Rightarrow> journey \<Rightarrow> journey \<Rightarrow> bool" where
  "equalJourney sa sb a b \<longleftrightarrow> j_name a = j_name b \<and> feq (j_weight a) (j_weight b)
     \<and> equalSteps sa sb (j_steps a) (j_steps b)"

definition equalFaultTarget :: "schema \<Rightarrow> schema \<Rightarrow> fault_target \<Rightarrow> fault_target \<Rightarrow> bool" where
  "equalFaultTarget sa sb a b \<longleftrightarrow> ft_kind a = ft_kind b \<and> (case ft_kind a of
       TargetNode \<Rightarrow> serviceID sa (ft_service a) = serviceID sb (ft_service b)
     | TargetOperation \<Rightarrow> identifyOp sa (ft_operation a) = identifyOp sb (ft_operation b)
     | TargetEdge \<Rightarrow> edgeIdentity sa (ft_edge a) = edgeIdentity sb (ft_edge b)
     | TargetOther _ \<Rightarrow> serviceID sa (ft_service a) = serviceID sb (ft_service b)
         \<and> identifyOp sa (ft_operation a) = identifyOp sb (ft_operation b)
         \<and> edgeIdentity sa (ft_edge a) = edgeIdentity sb (ft_edge b))"

definition equalFaultSpec :: "schema \<Rightarrow> schema \<Rightarrow> fault_spec \<Rightarrow> fault_spec \<Rightarrow> bool" where
  "equalFaultSpec sa sb a b \<longleftrightarrow> f_kind a = f_kind b \<and> equalFaultTarget sa sb (f_target a) (f_target b)
     \<and> equalSeverity (f_severity a) (f_severity b)
     \<and> equal_slice equalSchedulePoint (f_schedule a) (f_schedule b)"

definition Equal :: "schema option \<Rightarrow> schema option \<Rightarrow> bool" where
  "Equal pa pb = equal_ptr (\<lambda>sa sb.
     effectiveSchemaNamespace sa = effectiveSchemaNamespace sb
     \<and> equal_map (equalService sa sb) (s_services sa) (s_services sb)
     \<and> equal_map (equalJourney sa sb) (s_journeys sa) (s_journeys sb)
     \<and> equal_slice (equalFaultSpec sa sb) (s_faults sa) (s_faults sb)) pa pb"

section \<open>Overlays\<close>

text \<open>Both overlays index the pointers of one heap, that of \<open>s\<close>.\<close>

definition equalFaultSpecMap ::
  "schema \<Rightarrow> ('k, fault_spec list) gomap \<Rightarrow> ('k, fault_spec list) gomap \<Rightarrow> bool" where
  "equalFaultSpecMap s as bs \<longleftrightarrow> length as = length bs \<and> (\<forall>(k, a) \<in> set as.
     case map_of bs k of None \<Rightarrow> False | Some b \<Rightarrow> equal_slice (equalFaultSpec s s) a b)"

definition FaultOverlayEqual :: "schema \<Rightarrow> fault_overlay option \<Rightarrow> fault_overlay option \<Rightarrow> bool" where
  "FaultOverlayEqual s pa pb = equal_ptr (\<lambda>a b.
     equalFaultSpecMap s (nodeFaults a) (nodeFaults b)
     \<and> equalFaultSpecMap s (operationFaults a) (operationFaults b)
     \<and> equalFaultSpecMap s (edgeFaults a) (edgeFaults b)) pa pb"

section \<open>schema_methods.go\<close>

definition FindServiceByName :: "schema \<Rightarrow> string \<Rightarrow> svc_ref option \<times> bool" where
  "FindServiceByName s sid = (case map_of (s_services s) sid of None \<Rightarrow> (None, False) | Some p \<Rightarrow> (p, True))"

definition JourneyNames :: "schema \<Rightarrow> string list" where
  "JourneyNames s = sort_strings (map fst (s_journeys s))"

end
