(* ===== verification/Topology_Validate.thy ===== *)
theory Topology_Validate
  imports Topology_Graph
begin

text \<open>
  topology/validate.go: every validator of a schema as the list of the errors it returns, in the
  order of the code, and \<open>Validate\<close>, which joins them. Where several validators range
  over the services and their operations, every range visits them in the order of the model's
  association lists.
\<close>

section \<open>Identity of services and operations\<close>

definition svc_path :: "string \<Rightarrow> string" where
  "svc_path sid = ''services.'' @ sid"

definition validateMapKeyConsistency :: "schema \<Rightarrow> topo_error list" where
  "validateMapKeyConsistency s =
     concat (map (\<lambda>(sid, p). case p of
         None \<Rightarrow> [newValidationError (svc_path sid) ''R-STR-1'' ''service is nil'']
       | Some r \<Rightarrow> when_err (svc_name (s_svc s r) \<noteq> sid)
           (newValidationErrorf (svc_path sid) ''R-STR-1''
              ''name mismatch (key=%s, Service.Name=%s)'' [AStr sid, AStr (svc_name (s_svc s r))]))
       (s_services s))"

definition validateBackPointer :: "schema \<Rightarrow> string \<Rightarrow> svc_ref \<Rightarrow> string \<Rightarrow> op_ref \<Rightarrow> topo_error list" where
  "validateBackPointer s sid r name op =
     (let path = op_path sid name; o' = s_op s op in
      when_err (op_service o' \<noteq> Some r)
        (newValidationErrorf path ''R-STR-2'' ''Service back-pointer points to %q, expected %q''
           [AStr (serviceName s (op_service o')), AStr sid])
      @ when_err (op_name o' \<noteq> name)
        (newValidationErrorf path ''R-STR-2'' ''operation name mismatch (key=%s, Operation.Name=%s)''
           [AStr name, AStr (op_name o')])
      @ when_err (ptr_at (svc_operations (s_svc s r)) (op_name o') \<noteq> Some op)
        (newValidationErrorf path ''R-STR-2'' ''operation is not reachable by its own name %q''
           [AStr (op_name o')]))"

definition validateBackPointers :: "schema \<Rightarrow> topo_error list" where
  "validateBackPointers s =
     concat (map (\<lambda>(sid, r).
       concat (map (\<lambda>(name, p). case p of
           None \<Rightarrow> [newValidationError (op_path sid name) ''R-STR-2'' ''operation is nil'']
         | Some op \<Rightarrow> validateBackPointer s sid r name op)
         (svc_operations (s_svc s r))))
       (service_entries s))"

section \<open>References\<close>

text \<open>\<open>_, ok := opSet[p]\<close>: nil is no key of the set.\<close>

definition in_op_set :: "schema \<Rightarrow> op_ref option \<Rightarrow> bool" where
  "in_op_set s p \<longleftrightarrow> (case p of None \<Rightarrow> False | Some op \<Rightarrow> op \<in> operationSet s)"

definition validateEdgeEndpoints :: "schema \<Rightarrow> edge option \<Rightarrow> string \<Rightarrow> topo_error list" where
  "validateEdgeEndpoints s p path = (case p of
       None \<Rightarrow> [newValidationError path ''R-STR-3'' ''edge is nil'']
     | Some e \<Rightarrow>
         when_err (\<not> in_op_set s (e_from e))
           (newValidationErrorf (path @ ''.from'') ''R-STR-3'' ''operation %q is not in schema''
              [AStr (identifyOp s (e_from e))])
         @ when_err (\<not> in_op_set s (e_to e))
           (newValidationErrorf (path @ ''.to'') ''R-STR-3'' ''operation %q is not in schema''
              [AStr (identifyOp s (e_to e))]))"

fun validateNoOrphanCallNode :: "schema \<Rightarrow> string \<Rightarrow> call_node \<Rightarrow> topo_error list" where
  "validateNoOrphanCallNode s nodePath (CallNode e ps) =
     opt_list (\<lambda>ed. validateEdgeEndpoints s (Some ed) nodePath
       @ concat_indexed (\<lambda>j f. validateEdgeEndpoints s f
           (index_path (nodePath @ ''.on_failure.fallback'') j)) (fallbacks ed)) e
     @ concat_indexed (\<lambda>i p. opt_list (validateNoOrphanCallNode s
         (index_path (nodePath @ ''.parallel'') i)) p) ps"

definition validateNoOrphanCallReferences ::
  "schema \<Rightarrow> call_node option list \<Rightarrow> string \<Rightarrow> topo_error list" where
  "validateNoOrphanCallReferences s nodes path =
     concat_indexed (\<lambda>i n. opt_list (validateNoOrphanCallNode s (index_path path i)) n) nodes"

definition validateNoOrphanReferences :: "schema \<Rightarrow> topo_error list" where
  "validateNoOrphanReferences s =
     concat (map (\<lambda>(sid, name, op).
       validateNoOrphanCallReferences s (op_calls (s_op s op)) (op_path sid name @ ''.calls''))
       (operation_entries s))"

section \<open>Journeys\<close>

fun validateStepReachable :: "schema \<Rightarrow> string \<Rightarrow> step \<Rightarrow> topo_error list" where
  "validateStepReachable s stepPath (Step op ps) =
     when_err ((op \<noteq> None) = (ps \<noteq> []))
       (newValidationError stepPath ''R-STR-5'' ''exactly one of Op or Parallel is required'')
     @ opt_list (\<lambda>r. when_err (r \<notin> operationSet s)
         (newValidationErrorf (stepPath @ ''.op'') ''R-STR-5'' ''operation %q is not in schema''
            [AStr (identifyOp s (Some r))])) op
     @ concat_indexed (\<lambda>i p. case p of
           None \<Rightarrow> [newValidationError (index_path (stepPath @ ''.parallel'') i) ''R-STR-5'' ''step is nil'']
         | Some st \<Rightarrow> validateStepReachable s (index_path (stepPath @ ''.parallel'') i) st) ps"

definition validateStepsReachable :: "schema \<Rightarrow> step option list \<Rightarrow> string \<Rightarrow> topo_error list" where
  "validateStepsReachable s steps path =
     concat_indexed (\<lambda>i p. case p of
         None \<Rightarrow> [newValidationError (index_path path i) ''R-STR-5'' ''step is nil'']
       | Some st \<Rightarrow> validateStepReachable s (index_path path i) st) steps"

definition journey_path :: "string \<Rightarrow> string" where
  "journey_path name = ''journeys.'' @ name"

definition validateJourneyReachability :: "schema \<Rightarrow> topo_error list" where
  "validateJourneyReachability s =
     concat (map (\<lambda>(name, p). case p of
         None \<Rightarrow> [newValidationError (journey_path name) ''R-STR-5'' ''journey is nil'']
       | Some j \<Rightarrow> validateStepsReachable s (j_steps j) (journey_path name @ ''.steps''))
       (s_journeys s))"

section \<open>Fault targets\<close>

text \<open>The number of non-nil target pointers, and the switch on the kind of the target.\<close>

definition target_count :: "fault_target \<Rightarrow> nat" where
  "target_count t =
     (if ft_service t = None then 0 else 1) + (if ft_operation t = None then 0 else 1)
     + (if ft_edge t = None then 0 else 1)"

definition validateFaultTargetKind :: "schema \<Rightarrow> fault_target \<Rightarrow> string \<Rightarrow> topo_error list" where
  "validateFaultTargetKind s t path = (case ft_kind t of
       TargetNode \<Rightarrow> (case ft_service t of
           None \<Rightarrow> [newValidationError path ''R-STR-6'' ''node target requires Service'']
         | Some r \<Rightarrow> when_err (\<not> serviceInSchema s r)
             (newValidationErrorf path ''R-STR-6'' ''service %q is not in schema''
                [AStr (svc_name (s_svc s r))]))
     | TargetOperation \<Rightarrow> (case ft_operation t of
           None \<Rightarrow> [newValidationError path ''R-STR-6'' ''operation target requires Operation'']
         | Some op \<Rightarrow> when_err (op \<notin> operationSet s)
             (newValidationErrorf path ''R-STR-6'' ''operation %q is not in schema''
                [AStr (identifyOp s (Some op))]))
     | TargetEdge \<Rightarrow> (case ft_edge t of
           None \<Rightarrow> [newValidationError path ''R-STR-6'' ''edge target requires Edge'']
         | Some e \<Rightarrow> when_err (e_ref e \<notin> edgeSet s)
             (newValidationError path ''R-STR-6'' ''edge is not in schema''))
     | TargetOther k \<Rightarrow> [newValidationErrorf (path @ ''.kind'') ''R-STR-6''
         ''unsupported target kind %d'' [AInt k]])"

definition validateFaultTarget :: "schema \<Rightarrow> fault_target \<Rightarrow> string \<Rightarrow> topo_error list" where
  "validateFaultTarget s t path =
     (if target_count t \<noteq> 1 then
        [newValidationErrorf path ''R-STR-6'' ''exactly one target pointer is required, got %d''
           [AInt (int (target_count t))]]
      else validateFaultTargetKind s t path)"

definition validateFaultTargets :: "schema \<Rightarrow> topo_error list" where
  "validateFaultTargets s =
     concat_indexed (\<lambda>i f. validateFaultTarget s (f_target f) (index_path ''faults'' i @ ''.target''))
       (s_faults s)"

section \<open>Shape of the call trees\<close>

fun validateCallNodeVariant :: "string \<Rightarrow> call_node \<Rightarrow> topo_error list" where
  "validateCallNodeVariant nodePath (CallNode e ps) =
     when_err ((e \<noteq> None) = (ps \<noteq> []))
       (newValidationError nodePath ''R-STR-7'' ''exactly one of Edge or Parallel is required'')
     @ concat_indexed (\<lambda>i p. case p of
           None \<Rightarrow> [newValidationError (index_path (nodePath @ ''.parallel'') i) ''R-STR-7'' ''call node is nil'']
         | Some n \<Rightarrow> validateCallNodeVariant (index_path (nodePath @ ''.parallel'') i) n) ps"

definition validateCallNodeVariantList :: "call_node option list \<Rightarrow> string \<Rightarrow> topo_error list" where
  "validateCallNodeVariantList nodes path =
     concat_indexed (\<lambda>i p. case p of
         None \<Rightarrow> [newValidationError (index_path path i) ''R-STR-7'' ''call node is nil'']
       | Some n \<Rightarrow> validateCallNodeVariant (index_path path i) n) nodes"

definition validateCallNodeVariants :: "schema \<Rightarrow> topo_error list" where
  "validateCallNodeVariants s =
     concat (map (\<lambda>(sid, name, op).
       validateCallNodeVariantList (op_calls (s_op s op)) (op_path sid name @ ''.calls''))
       (operation_entries s))"

section \<open>Ownership of recovery policies\<close>

fun validateRecoveryPolicyOwnershipForEdge :: "schema \<Rightarrow> edge \<Rightarrow> string \<Rightarrow> topo_error list" where
  "validateRecoveryPolicyOwnershipForEdge s (Edge r from to p l er tmo rt bo bd None) path = []"
| "validateRecoveryPolicyOwnershipForEdge s
     (Edge r from to p l er tmo rt bo bd (Some (Recovery fs act dr))) path =
     concat_indexed (\<lambda>i q. case q of
         None \<Rightarrow> [newValidationError (index_path (path @ ''.on_failure.fallback'') i) ''R-STR-8''
             ''fallback edge is nil'']
       | Some f \<Rightarrow>
           when_err (e_from f \<noteq> from)
             (newValidationErrorf (index_path (path @ ''.on_failure.fallback'') i) ''R-STR-8''
                ''From mismatch: got %s, expected %s''
                [AStr (identifyOp s (e_from f)), AStr (identifyOp s from)])
           @ validateRecoveryPolicyOwnershipForEdge s f
               (index_path (path @ ''.on_failure.fallback'') i)) fs"

definition validateRecoveryPolicyOwnership :: "schema \<Rightarrow> topo_error list" where
  "validateRecoveryPolicyOwnership s =
     concat (map (\<lambda>(p, path). opt_list (\<lambda>e. validateRecoveryPolicyOwnershipForEdge s e path) p)
       (forEachOutgoingEdgeWithPath s))"

section \<open>Domain ranges\<close>

text \<open>The integer behind a metric type, for the messages.\<close>

fun metric_type_ord :: "metric_type \<Rightarrow> int" where
  "metric_type_ord MetricCounter = 0"
| "metric_type_ord MetricGauge = 1"
| "metric_type_ord MetricHistogram = 2"
| "metric_type_ord MetricObservableGauge = 3"
| "metric_type_ord MetricObservableCounter = 4"
| "metric_type_ord InvalidMetricType = -1"

definition validateMetricFaultLink :: "metric_fault_link option \<Rightarrow> string \<Rightarrow> topo_error list" where
  "validateMetricFaultLink p path = opt_list (\<lambda>link.
     when_err (\<not> validFaultKind (fl_kind link))
       (newValidationErrorf (path @ ''.kind'') ''D-ENUM'' ''unsupported fault kind %d'' [AInt (-1)])
     @ when_err (\<not> validFloatMetricValue (fl_delta link))
       (newValidationErrorf (path @ ''.delta'') ''D-METRIC'' ''delta must be finite, got %g''
          [AFloat (fl_delta link)])
     @ when_err (fl_has_value link \<and> \<not> validFloatMetricValue (fl_value link))
       (newValidationErrorf (path @ ''.value'') ''D-METRIC'' ''value must be finite, got %g''
          [AFloat (fl_value link)])) p"

text \<open>The two checks of a name, with the rule and the noun of the message.\<close>

definition validateName :: "string \<Rightarrow> string \<Rightarrow> string \<Rightarrow> string \<Rightarrow> topo_error list" where
  "validateName name path rule noun =
     when_err (name = '''')
       (newValidationError (path @ ''.name'') rule (noun @ '' name must be non-empty''))
     @ when_err (120 < length name)
       (newValidationErrorf (path @ ''.name'') rule (noun @ '' name must be <= 120 bytes, got %d'')
          [AInt (int (length name))])"

definition validateObservableMetricSpec :: "observable_metric \<Rightarrow> string \<Rightarrow> topo_error list" where
  "validateObservableMetricSpec m path =
     validateName (om_name m) path ''D-METRIC'' ''metric''
     @ when_err (\<not> validObservableMetricType (om_type m))
       (newValidationErrorf (path @ ''.type'') ''D-ENUM'' ''unsupported service metric type %d''
          [AInt (metric_type_ord (om_type m))])
     @ when_err (\<not> validFloatMetricValue (om_baseline m))
       (newValidationErrorf (path @ ''.baseline'') ''D-METRIC'' ''baseline must be finite, got %g''
          [AFloat (om_baseline m)])
     @ validateMetricFaultLink (om_when_fault m) (path @ ''.when_fault'')
     @ opt_list (\<lambda>src.
         when_err (src_accumulator src = '''')
           (newValidationError (path @ ''.source.accumulator'') ''D-METRIC''
              ''accumulator key must be non-empty'')
         @ when_err (src_minus src \<noteq> '''' \<and> om_type m \<noteq> MetricObservableGauge)
           (newValidationError (path @ ''.source.minus'') ''D-METRIC''
              ''minus is only supported for observable_gauge'')) (om_source m)"

definition validateStackSample :: "stack_sample \<Rightarrow> string \<Rightarrow> topo_error list" where
  "validateStackSample st path =
     when_err (st_frames st = [])
       (newValidationError (path @ ''.frames'') ''D-PROFILE'' ''frames must be non-empty'')
     @ when_err (\<not> validFloatMetricValue (st_weight st) \<or> flt (st_weight st) (Fin 0))
       (newValidationErrorf (path @ ''.weight'') ''D-PROFILE'' ''weight must be finite and >= 0, got %g''
          [AFloat (st_weight st)])"

definition validateLogEvent :: "log_event \<Rightarrow> string \<Rightarrow> topo_error list" where
  "validateLogEvent ev path =
     validateName (le_name ev) path ''D-LOG'' ''log event''
     @ when_err (\<not> validLogSeverity (le_severity ev))
       (newValidationErrorf (path @ ''.severity'') ''D-ENUM'' ''unsupported log severity %d'' [AInt (-1)])
     @ when_err (\<not> validLogCondition (le_condition ev))
       (newValidationErrorf (path @ ''.condition'') ''D-ENUM'' ''unsupported log condition %d'' [AInt (-1)])"

definition validateMetric :: "metric_spec \<Rightarrow> string \<Rightarrow> topo_error list" where
  "validateMetric m path =
     validateName (m_name m) path ''D-METRIC'' ''metric''
     @ when_err (\<not> validSyncMetricType (m_type m))
       (newValidationErrorf (path @ ''.type'') ''D-ENUM'' ''unsupported operation metric type %d''
          [AInt (metric_type_ord (m_type m))])
     @ when_err (\<not> validLogCondition (m_condition m))
       (newValidationErrorf (path @ ''.condition'') ''D-ENUM'' ''unsupported metric condition %d'' [AInt (-1)])
     @ when_err (\<not> validFloatMetricValue (m_baseline m))
       (newValidationErrorf (path @ ''.baseline'') ''D-METRIC'' ''baseline must be finite, got %g''
          [AFloat (m_baseline m)])
     @ validateMetricFaultLink (m_when_fault m) (path @ ''.when_fault'')"

definition validateStateUpdate :: "state_update \<Rightarrow> string \<Rightarrow> topo_error list" where
  "validateStateUpdate u path =
     when_err (su_key u = '''')
       (newValidationError (path @ ''.key'') ''D-METRIC'' ''state update key must be non-empty'')
     @ when_err (\<not> validFloatMetricValue (su_delta u))
       (newValidationErrorf (path @ ''.delta'') ''D-METRIC'' ''delta must be finite, got %g''
          [AFloat (su_delta u)])
     @ when_err (\<not> validLogCondition (su_condition u))
       (newValidationErrorf (path @ ''.condition'') ''D-ENUM'' ''unsupported state update condition %d''
          [AInt (-1)])
     @ validateMetricFaultLink (su_when_fault u) (path @ ''.when_fault'')"

definition validateProfile :: "profile_spec \<Rightarrow> string \<Rightarrow> topo_error list" where
  "validateProfile p path =
     (if \<not> pr_enabled p then []
      else when_err (pr_baseline p = [])
          (newValidationError (path @ ''.baseline'') ''D-PROFILE''
             ''baseline must be non-empty when profile is enabled'')
        @ when_err (pr_sample_rate p \<le> 0)
          (newValidationErrorf (path @ ''.sample_rate'') ''D-PROFILE'' ''sample_rate must be > 0, got %d''
             [AInt (pr_sample_rate p)])
        @ concat_indexed (\<lambda>i st. validateStackSample st (index_path (path @ ''.baseline'') i)) (pr_baseline p)
        @ concat_indexed (\<lambda>i st. validateStackSample st (index_path (path @ ''.incident'') i)) (pr_incident p)
        @ opt_list (\<lambda>k.
            when_err (\<not> validFaultKind k)
              (newValidationErrorf (path @ ''.when_fault.kind'') ''D-ENUM'' ''unsupported fault kind %d''
                 [AInt (-1)])
            @ when_err (pr_incident p = [])
              (newValidationError (path @ ''.incident'') ''D-PROFILE''
                 ''incident stacks required when when_fault is set'')) (pr_when_fault p))"

text \<open>One operation and one service of the loops of validateDomainRanges.\<close>

definition validateOperationDomain :: "operation \<Rightarrow> string \<Rightarrow> topo_error list" where
  "validateOperationDomain o' path =
     validateName (op_name o') path ''D-OP'' ''operation''
     @ concat_indexed (\<lambda>i ev. validateLogEvent ev (index_path (path @ ''.log_events'') i)) (op_log_events o')
     @ concat_indexed (\<lambda>i m. validateMetric m (index_path (path @ ''.metrics'') i)) (op_metrics o')
     @ concat_indexed (\<lambda>i u. validateStateUpdate u (index_path (path @ ''.state_updates'') i)) (op_state_updates o')
     @ opt_list (\<lambda>p. validateProfile p (path @ ''.profile'')) (op_profile o')"

definition validateServiceDomain :: "schema \<Rightarrow> string \<Rightarrow> svc_ref \<Rightarrow> topo_error list" where
  "validateServiceDomain s sid r =
     (let path = svc_path sid; svc = s_svc s r in
      when_err (svc_replicas svc < 1)
        (newValidationErrorf (path @ ''.replicas'') ''D-1'' ''must be >= 1, got %d'' [AInt (svc_replicas svc)])
      @ when_err (\<not> validServiceKind (svc_kind svc))
        (newValidationErrorf (path @ ''.kind'') ''D-ENUM'' ''unsupported service kind %d'' [AInt (-1)])
      @ when_err (svc_operations svc = [])
        (newValidationError (path @ ''.operations'') ''D-12'' ''must contain at least one operation'')
      @ concat_indexed (\<lambda>i m. validateObservableMetricSpec m (index_path (path @ ''.metrics'') i))
          (svc_metrics svc)
      @ concat (map (\<lambda>(name, p). opt_list (\<lambda>op.
            validateOperationDomain (s_op s op) (op_path sid name)) p) (svc_operations svc)))"

definition validateEdgeDomain :: "edge option \<Rightarrow> string \<Rightarrow> topo_error list" where
  "validateEdgeDomain p path = opt_list (\<lambda>e.
     when_err (\<not> validProtocol (e_protocol e))
       (newValidationErrorf (path @ ''.protocol'') ''D-ENUM'' ''unsupported protocol %d'' [AInt (-1)])
     @ when_err (\<not> validProbability (e_error_rate e))
       (newValidationErrorf (path @ ''.error_rate'') ''D-2'' ''must be in [0,1], got %g''
          [AFloat (e_error_rate e)])
     @ when_err (e_timeout e < 0)
       (newValidationErrorf (path @ ''.timeout'') ''D-3'' ''must be >= 0, got %s'' [ADur (e_timeout e)])
     @ when_err (e_retries e < 0)
       (newValidationErrorf (path @ ''.retries'') ''D-4'' ''must be >= 0, got %d'' [AInt (e_retries e)])
     @ when_err (e_retry_base_delay e < 0)
       (newValidationErrorf (path @ ''.retry_base_delay'') ''D-4'' ''must be >= 0, got %s''
          [ADur (e_retry_base_delay e)])
     @ when_err (l_p50 (e_latency e) < 0)
       (newValidationErrorf (path @ ''.latency.p50'') ''D-6'' ''must be >= 0, got %s''
          [ADur (l_p50 (e_latency e))])
     @ when_err (l_p95 (e_latency e) < l_p50 (e_latency e))
       (newValidationErrorf (path @ ''.latency'') ''D-5'' ''p95 (%s) must be >= p50 (%s)''
          [ADur (l_p95 (e_latency e)), ADur (l_p50 (e_latency e))])
     @ when_err (\<not> validLatencyDistribution (l_distribution (e_latency e)))
       (newValidationErrorf (path @ ''.latency.distribution'') ''D-7''
          ''unsupported %q; allowed: constant/lognormal/normal/exponential''
          [AStr (l_distribution (e_latency e))])
     @ when_err (\<not> validBackoff (e_retry_backoff e))
       (newValidationErrorf (path @ ''.retry_backoff'') ''D-ENUM'' ''unsupported backoff policy %d''
          [AInt (-1)])
     @ opt_list (\<lambda>rp. when_err (\<not> validExhausted (rp_on_exhausted rp))
         (newValidationErrorf (path @ ''.on_failure.on_exhausted'') ''D-ENUM''
            ''unsupported exhausted action %d'' [AInt (-1)])) (e_on_failure e)) p"

definition validateJourneyDomain :: "string \<Rightarrow> journey \<Rightarrow> topo_error list" where
  "validateJourneyDomain name j =
     when_err (j_name j \<noteq> name)
       (newValidationErrorf (journey_path name @ ''.name'') ''D-JOURNEY''
          ''name mismatch (key=%s, Journey.Name=%s)'' [AStr name, AStr (j_name j)])
     @ when_err (fle (j_weight j) (Fin 0))
       (newValidationErrorf (journey_path name @ ''.weight'') ''D-10'' ''must be > 0, got %g''
          [AFloat (j_weight j)])
     @ when_err (j_steps j = [])
       (newValidationError (journey_path name @ ''.steps'') ''D-11'' ''must contain at least one step'')"

text \<open>\<open>previous\<close> is the time of the point before, \<open>None\<close> at index 0.\<close>

fun validateFaultSchedule_from ::
  "nat \<Rightarrow> duration option \<Rightarrow> schedule_point list \<Rightarrow> string \<Rightarrow> topo_error list" where
  "validateFaultSchedule_from i previous [] path = []"
| "validateFaultSchedule_from i previous (point # rest) path =
     when_err (sp_at point < 0)
       (newValidationErrorf (index_path path i @ ''.at'') ''D-15'' ''must be >= 0, got %s''
          [ADur (sp_at point)])
     @ (case previous of None \<Rightarrow> [] | Some prev \<Rightarrow>
         when_err (sp_at point \<le> prev)
           (newValidationErrorf (index_path path i @ ''.at'') ''D-15''
              ''must be strictly greater than previous schedule point %s, got %s''
              [ADur prev, ADur (sp_at point)]))
     @ when_err (is_nan (sp_intensity point) \<or> is_inf (sp_intensity point)
           \<or> flt (sp_intensity point) (Fin 0))
       (newValidationErrorf (index_path path i @ ''.intensity'') ''D-15''
          ''must be finite and >= 0, got %g'' [AFloat (sp_intensity point)])
     @ validateFaultSchedule_from (Suc i) (Some (sp_at point)) rest path"

definition validateFaultSchedule :: "schedule_point list \<Rightarrow> string \<Rightarrow> topo_error list" where
  "validateFaultSchedule schedule path = validateFaultSchedule_from 0 None schedule path"

definition validateFaultDomain :: "fault_spec \<Rightarrow> string \<Rightarrow> topo_error list" where
  "validateFaultDomain f path =
     when_err (\<not> validFaultKind (f_kind f))
       (newValidationErrorf (path @ ''.kind'') ''D-ENUM'' ''unsupported fault kind %d'' [AInt (-1)])
     @ when_err (\<not> validProbability (sev_probability (f_severity f)))
       (newValidationErrorf (path @ ''.severity.probability'') ''D-8'' ''must be in [0,1], got %g''
          [AFloat (sev_probability (f_severity f))])
     @ when_err (f_kind f = FaultLatencyInflation \<and> fle (sev_multiplier (f_severity f)) (Fin 0))
       (newValidationErrorf (path @ ''.severity.multiplier'') ''D-9''
          ''must be > 0 for latency_inflation, got %g'' [AFloat (sev_multiplier (f_severity f))])
     @ validateFaultSchedule (f_schedule f) (path @ ''.schedule'')"

definition no_services_error :: topo_error where
  "no_services_error = newValidationError ''services'' ''D-13'' ''must contain at least one service''"

definition no_journeys_error :: topo_error where
  "no_journeys_error = newValidationError ''journeys'' ''D-14'' ''must contain at least one journey''"

definition validateDomainRanges :: "schema \<Rightarrow> topo_error list" where
  "validateDomainRanges s =
     when_err (s_services s = []) no_services_error
     @ when_err (s_journeys s = []) no_journeys_error
     @ concat (map (\<lambda>(sid, r). validateServiceDomain s sid r) (service_entries s))
     @ concat (map (\<lambda>(p, path). validateEdgeDomain p path) (forEachOutgoingEdgeWithPath s))
     @ concat (map (\<lambda>(name, p). opt_list (validateJourneyDomain name) p) (s_journeys s))
     @ concat_indexed (\<lambda>i f. validateFaultDomain f (index_path ''faults'' i)) (s_faults s)"

section \<open>Validate\<close>

text \<open>\<open>None\<close> as the schema is the nil pointer.\<close>

definition validation_errors :: "schema \<Rightarrow> topo_error list" where
  "validation_errors s =
     validateMapKeyConsistency s @ validateBackPointers s @ validateNoOrphanReferences s
     @ validateDAG s @ validateJourneyReachability s @ validateFaultTargets s
     @ validateCallNodeVariants s @ validateRecoveryPolicyOwnership s @ validateDomainRanges s"

definition Validate :: "schema option \<Rightarrow> topo_error option" where
  "Validate p = errors_Join (case p of
       None \<Rightarrow> [newValidationError ''schema'' ''R-STR-1'' ''schema is nil'',
         no_services_error, no_journeys_error]
     | Some s \<Rightarrow> validation_errors s)"

end
