(* ===== verification/Topology_Wellformed.thy ===== *)
theory Topology_Wellformed
  imports Topology_Validate
begin

text \<open>
  What Validate promises, stated without walks and paths: \<open>schema_ok\<close>, a conjunction of
  declarative well-formedness predicates over services, operations, call trees, journeys and
  faults, and the proof that Validate reports no error exactly for these schemas.
\<close>

section \<open>The specification\<close>

text \<open>The maps of a schema are Go maps: their keys are distinct.\<close>

definition maps_ok :: "schema \<Rightarrow> bool" where
  "maps_ok s \<longleftrightarrow> gomap_ok (s_services s) \<and> gomap_ok (s_journeys s)
     \<and> (\<forall>r. gomap_ok (svc_operations (s_svc s r)))"

text \<open>Every service is stored under its name, every operation under its name in its service.\<close>

definition identity_ok :: "schema \<Rightarrow> bool" where
  "identity_ok s \<longleftrightarrow> (\<forall>(sid, p) \<in> set (s_services s). \<exists>r. p = Some r \<and> svc_name (s_svc s r) = sid
     \<and> (\<forall>(name, q) \<in> set (svc_operations (s_svc s r)). \<exists>op. q = Some op
          \<and> op_service (s_op s op) = Some r \<and> op_name (s_op s op) = name))"

text \<open>A call node is either one edge or a non-empty group of nodes, down the tree.\<close>

inductive node_shape :: "call_node \<Rightarrow> bool" where
  leaf: "node_shape (CallNode (Some e) [])"
| group: "ps \<noteq> [] \<Longrightarrow> \<forall>p \<in> set ps. \<exists>n. p = Some n \<and> node_shape n \<Longrightarrow> node_shape (CallNode None ps)"

inductive_simps node_shape_iff: "node_shape (CallNode e ps)"

inductive step_shape :: "schema \<Rightarrow> step \<Rightarrow> bool" for s where
  leaf: "op \<in> operationSet s \<Longrightarrow> step_shape s (Step (Some op) [])"
| group: "ps \<noteq> [] \<Longrightarrow> \<forall>p \<in> set ps. \<exists>t. p = Some t \<and> step_shape s t \<Longrightarrow> step_shape s (Step None ps)"

inductive_simps step_shape_iff: "step_shape s (Step op ps)"

text \<open>The fallbacks of an edge are edges from its own source, at every depth of nesting.\<close>

inductive owned :: "edge \<Rightarrow> bool" where
  "\<forall>p \<in> set (fallbacks e). \<exists>f. p = Some f \<and> e_from f = e_from e \<and> owned f \<Longrightarrow> owned e"

inductive_simps owned_iff: "owned e"

definition endpoints_ok :: "schema \<Rightarrow> edge \<Rightarrow> bool" where
  "endpoints_ok s e \<longleftrightarrow> in_op_set s (e_from e) \<and> in_op_set s (e_to e)"

definition edge_domain_ok :: "edge \<Rightarrow> bool" where
  "edge_domain_ok e \<longleftrightarrow> validProtocol (e_protocol e) \<and> validProbability (e_error_rate e)
     \<and> 0 \<le> e_timeout e \<and> 0 \<le> e_retries e \<and> 0 \<le> e_retry_base_delay e
     \<and> 0 \<le> l_p50 (e_latency e) \<and> l_p50 (e_latency e) \<le> l_p95 (e_latency e)
     \<and> validLatencyDistribution (l_distribution (e_latency e)) \<and> validBackoff (e_retry_backoff e)
     \<and> (\<forall>rp. e_on_failure e = Some rp \<longrightarrow> validExhausted (rp_on_exhausted rp))"

definition calls_ok :: "schema \<Rightarrow> call_node option list \<Rightarrow> bool" where
  "calls_ok s calls \<longleftrightarrow> (\<forall>p \<in> set calls. \<exists>n. p = Some n \<and> node_shape n)
     \<and> (\<forall>e \<in> set (forEachEdgeInCalls calls). endpoints_ok s e \<and> owned e \<and> edge_domain_ok e)"

definition name_ok :: "string \<Rightarrow> bool" where
  "name_ok n \<longleftrightarrow> n \<noteq> '''' \<and> length n \<le> 120"

definition link_ok :: "metric_fault_link \<Rightarrow> bool" where
  "link_ok l \<longleftrightarrow> validFaultKind (fl_kind l) \<and> validFloatMetricValue (fl_delta l)
     \<and> (fl_has_value l \<longrightarrow> validFloatMetricValue (fl_value l))"

definition log_event_ok :: "log_event \<Rightarrow> bool" where
  "log_event_ok ev \<longleftrightarrow> name_ok (le_name ev) \<and> validLogSeverity (le_severity ev)
     \<and> validLogCondition (le_condition ev)"

definition metric_ok :: "metric_spec \<Rightarrow> bool" where
  "metric_ok m \<longleftrightarrow> name_ok (m_name m) \<and> validSyncMetricType (m_type m)
     \<and> validLogCondition (m_condition m) \<and> validFloatMetricValue (m_baseline m)
     \<and> pred_option link_ok (m_when_fault m)"

definition state_update_ok :: "state_update \<Rightarrow> bool" where
  "state_update_ok u \<longleftrightarrow> su_key u \<noteq> '''' \<and> validFloatMetricValue (su_delta u)
     \<and> validLogCondition (su_condition u) \<and> pred_option link_ok (su_when_fault u)"

definition stack_ok :: "stack_sample \<Rightarrow> bool" where
  "stack_ok st \<longleftrightarrow> st_frames st \<noteq> [] \<and> is_fin (st_weight st) \<and> fle (Fin 0) (st_weight st)"

definition profile_ok :: "profile_spec \<Rightarrow> bool" where
  "profile_ok p \<longleftrightarrow> (pr_enabled p \<longrightarrow> pr_baseline p \<noteq> [] \<and> 0 < pr_sample_rate p
     \<and> list_all stack_ok (pr_baseline p) \<and> list_all stack_ok (pr_incident p)
     \<and> pred_option (\<lambda>k. validFaultKind k \<and> pr_incident p \<noteq> []) (pr_when_fault p))"

definition operation_ok :: "operation \<Rightarrow> bool" where
  "operation_ok o' \<longleftrightarrow> name_ok (op_name o') \<and> list_all log_event_ok (op_log_events o')
     \<and> list_all metric_ok (op_metrics o') \<and> list_all state_update_ok (op_state_updates o')
     \<and> pred_option profile_ok (op_profile o')"

definition observable_ok :: "observable_metric \<Rightarrow> bool" where
  "observable_ok m \<longleftrightarrow> name_ok (om_name m) \<and> validObservableMetricType (om_type m)
     \<and> validFloatMetricValue (om_baseline m) \<and> pred_option link_ok (om_when_fault m)
     \<and> pred_option (\<lambda>src. src_accumulator src \<noteq> ''''
          \<and> (src_minus src \<noteq> '''' \<longrightarrow> om_type m = MetricObservableGauge)) (om_source m)"

definition service_ok :: "service \<Rightarrow> bool" where
  "service_ok svc \<longleftrightarrow> 1 \<le> svc_replicas svc \<and> validServiceKind (svc_kind svc)
     \<and> svc_operations svc \<noteq> [] \<and> list_all observable_ok (svc_metrics svc)"

definition journey_ok :: "schema \<Rightarrow> string \<Rightarrow> journey \<Rightarrow> bool" where
  "journey_ok s name j \<longleftrightarrow> j_name j = name \<and> \<not> fle (j_weight j) (Fin 0) \<and> j_steps j \<noteq> []
     \<and> (\<forall>p \<in> set (j_steps j). \<exists>t. p = Some t \<and> step_shape s t)"

fun target_ok :: "schema \<Rightarrow> target_kind \<Rightarrow> svc_ref option \<Rightarrow> op_ref option \<Rightarrow> edge option \<Rightarrow> bool" where
  "target_ok s TargetNode (Some r) None None \<longleftrightarrow> serviceInSchema s r"
| "target_ok s TargetOperation None (Some op) None \<longleftrightarrow> op \<in> operationSet s"
| "target_ok s TargetEdge None None (Some e) \<longleftrightarrow> e_ref e \<in> edgeSet s"
| "target_ok s _ _ _ _ \<longleftrightarrow> False"

definition schedule_ok :: "schedule_point list \<Rightarrow> bool" where
  "schedule_ok ps \<longleftrightarrow> sorted_wrt (<) (map sp_at ps)
     \<and> (\<forall>p \<in> set ps. 0 \<le> sp_at p \<and> is_fin (sp_intensity p) \<and> fle (Fin 0) (sp_intensity p))"

definition fault_ok :: "schema \<Rightarrow> fault_spec \<Rightarrow> bool" where
  "fault_ok s f \<longleftrightarrow> target_ok s (ft_kind (f_target f)) (ft_service (f_target f))
       (ft_operation (f_target f)) (ft_edge (f_target f))
     \<and> validFaultKind (f_kind f) \<and> validProbability (sev_probability (f_severity f))
     \<and> (f_kind f = FaultLatencyInflation \<longrightarrow> \<not> fle (sev_multiplier (f_severity f)) (Fin 0))
     \<and> schedule_ok (f_schedule f)"

definition schema_ok :: "schema \<Rightarrow> bool" where
  "schema_ok s \<longleftrightarrow> s_services s \<noteq> [] \<and> s_journeys s \<noteq> [] \<and> identity_ok s
     \<and> (\<forall>sid r. (sid, Some r) \<in> set (s_services s) \<longrightarrow> service_ok (s_svc s r))
     \<and> (\<forall>op \<in> operationSet s. operation_ok (s_op s op) \<and> calls_ok s (op_calls (s_op s op)))
     \<and> acyclic (op_graph s)
     \<and> (\<forall>(name, p) \<in> set (s_journeys s). \<exists>j. p = Some j \<and> journey_ok s name j)
     \<and> (\<forall>f \<in> set (s_faults s). fault_ok s f)"

section \<open>Identity\<close>

lemma validateBackPointer_ok:
  assumes "gomap_ok (svc_operations (s_svc s r))" and "(name, Some op) \<in> set (svc_operations (s_svc s r))"
  shows "validateBackPointer s sid r name op = [] \<longleftrightarrow>
    op_service (s_op s op) = Some r \<and> op_name (s_op s op) = name"
  using assms by (auto simp: validateBackPointer_def Let_def ptr_at_Some map_of_gomap)

lemma ball_entries:
  "(\<forall>(sid, p) \<in> set (s_services s). \<exists>r. p = Some r \<and> A sid r)
     \<and> (\<forall>(sid, r) \<in> set (service_entries s). B sid r)
   \<longleftrightarrow> (\<forall>(sid, p) \<in> set (s_services s). \<exists>r. p = Some r \<and> A sid r \<and> B sid r)"
  by (fastforce simp: service_entries_iff)

lemma identity_validators:
  assumes "maps_ok s"
  shows "validateMapKeyConsistency s = [] \<and> validateBackPointers s = [] \<longleftrightarrow> identity_ok s"
proof -
  have "validateMapKeyConsistency s = [] \<longleftrightarrow>
      (\<forall>(sid, p) \<in> set (s_services s). \<exists>r. p = Some r \<and> svc_name (s_svc s r) = sid)"
    by (force simp: validateMapKeyConsistency_def split: option.splits)
  moreover have "validateBackPointers s = [] \<longleftrightarrow> (\<forall>(sid, r) \<in> set (service_entries s).
      \<forall>(name, q) \<in> set (svc_operations (s_svc s r)). \<exists>op. q = Some op
        \<and> op_service (s_op s op) = Some r \<and> op_name (s_op s op) = name)"
  proof -
    have "(case q of None \<Rightarrow> [newValidationError (op_path sid name) ''R-STR-2'' ''operation is nil'']
         | Some op \<Rightarrow> validateBackPointer s sid r name op) = []
       \<longleftrightarrow> (\<exists>op. q = Some op \<and> op_service (s_op s op) = Some r \<and> op_name (s_op s op) = name)"
      if "(name, q) \<in> set (svc_operations (s_svc s r))" for sid r name q
      using assms that by (cases q) (simp_all add: maps_ok_def validateBackPointer_ok)
    then show ?thesis
      unfolding validateBackPointers_def concat_map_Nil
      by (intro ball_cong refl) (simp add: split_beta concat_map_Nil del: concat_eq_Nil_conv)
  qed
  ultimately show ?thesis
    unfolding identity_ok_def by (simp only: ball_entries)
qed

text \<open>An operation is stored once, so the walk of the operations visits it once.\<close>

lemma distinct_operation_entries:
  assumes "maps_ok s"
  shows "distinct (map (\<lambda>(sid, name, op). (sid, name)) (operation_entries s))"
proof -
  let ?key = "\<lambda>(sid, name, op). (sid, name)"
  let ?ops = "\<lambda>sid m. concat (map (\<lambda>(name, p). map ?key (opt_list (\<lambda>op. [(sid, name, op)]) p)) m)"
  have svcs: "distinct (map fst (service_entries s))"
  proof -
    have "map fst (service_entries s)
        = concat (map (\<lambda>(sid, p). map fst (opt_list (\<lambda>r. [(sid, r)]) p)) (s_services s))"
      by (simp add: service_entries_def map_concat comp_def case_prod_unfold)
    also have "distinct \<dots>"
      using assms by (intro distinct_concat_keys [where g = "\<lambda>k. k"])
        (auto simp: maps_ok_def gomap_ok_def opt_list_def split: option.splits)
    finally show ?thesis .
  qed
  have ops: "distinct (?ops sid (svc_operations (s_svc s r)))" for sid r
    using assms by (intro distinct_concat_keys [where g = snd])
      (auto simp: maps_ok_def gomap_ok_def opt_list_def split: option.splits)
  have "map ?key (operation_entries s)
      = concat (map (\<lambda>(sid, r). ?ops sid (svc_operations (s_svc s r))) (service_entries s))"
    by (simp add: operation_entries_def map_concat comp_def case_prod_unfold)
  also have "distinct \<dots>"
    using svcs ops by (intro distinct_concat_keys [where g = fst])
      (auto simp: opt_list_def split: option.splits)
  finally show ?thesis .
qed

lemma identity_okD:
  assumes "identity_ok s" and "(sid, name, op) \<in> set (operation_entries s)"
  shows "\<exists>r. op_service (s_op s op) = Some r \<and> svc_name (s_svc s r) = sid \<and> op_name (s_op s op) = name
    \<and> (sid, Some r) \<in> set (s_services s)"
proof -
  from assms(2) obtain r where "(sid, Some r) \<in> set (s_services s)"
    and "(name, Some op) \<in> set (svc_operations (s_svc s r))"
    by (auto simp: operation_entries_iff)
  with assms(1) show ?thesis by (fastforce simp: identity_ok_def)
qed

lemma distinct_allSchemaOperations:
  assumes "maps_ok s" and "identity_ok s"
  shows "distinct (allSchemaOperations s)"
proof -
  have "inj_on (\<lambda>(sid, name, op). op) (set (operation_entries s))"
  proof (rule inj_onI, clarsimp)
    fix sid name sid' name' op
    assume "(sid, name, op) \<in> set (operation_entries s)" "(sid', name', op) \<in> set (operation_entries s)"
    from this [THEN identity_okD [OF assms(2)]] show "sid = sid' \<and> name = name'" by auto
  qed
  moreover have "distinct (operation_entries s)"
    using distinct_operation_entries [OF assms(1)] by (simp add: distinct_map)
  ultimately show ?thesis by (simp add: allSchemaOperations_def distinct_map)
qed

section \<open>Trees\<close>

lemma nth_indexed_iff:
  "(\<forall>i < length ps. \<exists>x. ps ! i = Some x \<and> P x) \<longleftrightarrow> (\<forall>p \<in> set ps. \<exists>x. p = Some x \<and> P x)"
  by (simp add: all_set_conv_all_nth)

lemma validateCallNodeVariant_ok: "validateCallNodeVariant path n = [] \<longleftrightarrow> node_shape n"
proof (induction path n rule: validateCallNodeVariant.induct)
  case (1 path e ps)
  have "(\<exists>n. ps ! i = Some n \<and> validateCallNodeVariant (index_path (path @ ''.parallel'') i) n = [])
      \<longleftrightarrow> (\<exists>n. ps ! i = Some n \<and> node_shape n)" if "i < length ps" for i
    using "1.IH" [of "ps ! i" _ i] nth_mem [OF that] by (cases "ps ! i") auto
  then have "validateCallNodeVariant path (CallNode e ps) = [] \<longleftrightarrow>
      (e \<noteq> None) \<noteq> (ps \<noteq> []) \<and> (\<forall>i < length ps. \<exists>n. ps ! i = Some n \<and> node_shape n)"
    by (simp add: ok_simps)
  then show ?case
    unfolding nth_indexed_iff node_shape_iff by (cases e; cases "ps = []") auto
qed

lemma validateStepReachable_ok: "validateStepReachable s path t = [] \<longleftrightarrow> step_shape s t"
proof (induction s path t rule: validateStepReachable.induct)
  case (1 s path op ps)
  have "(\<exists>n. ps ! i = Some n \<and> validateStepReachable s (index_path (path @ ''.parallel'') i) n = [])
      \<longleftrightarrow> (\<exists>n. ps ! i = Some n \<and> step_shape s n)" if "i < length ps" for i
    using "1.IH" [of "ps ! i" _ i] nth_mem [OF that] by (cases "ps ! i") auto
  then have "validateStepReachable s path (Step op ps) = [] \<longleftrightarrow>
      (op \<noteq> None) \<noteq> (ps \<noteq> []) \<and> pred_option (\<lambda>r. r \<in> operationSet s) op
      \<and> (\<forall>i < length ps. \<exists>n. ps ! i = Some n \<and> step_shape s n)"
    by (cases op) (simp_all add: ok_simps)
  then show ?case
    unfolding nth_indexed_iff step_shape_iff by (cases op; cases "ps = []") auto
qed

lemma validateRecoveryPolicyOwnershipForEdge_ok:
  "validateRecoveryPolicyOwnershipForEdge s e path = [] \<longleftrightarrow> owned e"
proof (induction s e path rule: validateRecoveryPolicyOwnershipForEdge.induct)
  case (1 s r src to p l er tmo rt bo bd path)
  then show ?case by (subst owned_iff) (simp add: fallbacks_def)
next
  case (2 s r src to p l er tmo rt bo bd fs act dr path)
  have "(\<exists>f. fs ! i = Some f \<and> e_from f = src
        \<and> validateRecoveryPolicyOwnershipForEdge s f (index_path (path @ ''.on_failure.fallback'') i) = [])
      \<longleftrightarrow> (\<exists>f. fs ! i = Some f \<and> e_from f = src \<and> owned f)" if "i < length fs" for i
    using "2.IH" [of "fs ! i" _ i] nth_mem [OF that] by (cases "fs ! i") auto
  then show ?case
    by (subst owned_iff) (simp add: ok_simps fallbacks_def nth_indexed_iff)
qed

section \<open>Edges\<close>

lemma validateEdgeEndpoints_ok:
  "validateEdgeEndpoints s p path = [] \<longleftrightarrow> (\<exists>e. p = Some e \<and> endpoints_ok s e)"
  by (auto simp: validateEdgeEndpoints_def endpoints_ok_def split: option.splits)

lemma validateEdgeDomain_ok: "validateEdgeDomain (Some e) path = [] \<longleftrightarrow> edge_domain_ok e"
  by (cases "e_on_failure e") (auto simp: validateEdgeDomain_def edge_domain_ok_def ok_simps)

text \<open>The orphan check runs over the edges of the walk with paths.\<close>

lemma concat_map_indexed: "concat (map_indexed f xs) = concat_indexed f xs"
  by (simp add: map_indexed_def concat_indexed_def)

lemma concat_map_of_concat_indexed:
  "concat (map g (concat_indexed f xs)) = concat_indexed (\<lambda>i x. concat (map g (f i x))) xs"
  by (simp add: concat_indexed_def concat_map_concat comp_def case_prod_unfold)

lemma concat_map_of_map_indexed:
  "concat (map g (map_indexed f xs)) = concat_indexed (\<lambda>i x. g (f i x)) xs"
  by (simp add: concat_indexed_def map_indexed_def comp_def case_prod_unfold)

lemma validateNoOrphanCallNode_walk:
  "validateNoOrphanCallNode s path n
   = concat (map (\<lambda>(p, q). validateEdgeEndpoints s p q) (edges_in_node_with_path path n))"
proof (induction s path n rule: validateNoOrphanCallNode.induct)
  case (1 s path e ps)
  have "opt_list (validateNoOrphanCallNode s (index_path (path @ ''.parallel'') i)) p
      = concat (map (\<lambda>(p, q). validateEdgeEndpoints s p q)
          (opt_list (edges_in_node_with_path (index_path (path @ ''.parallel'') i)) p))"
    if "p \<in> set ps" for i p
    using "1.IH" that by (cases p) auto
  then show ?case
    by (cases e) (simp_all add: concat_map_of_concat_indexed concat_map_of_map_indexed
        cong: concat_indexed_cong)
qed

lemma validateNoOrphanReferences_walk:
  "validateNoOrphanReferences s
   = concat (map (\<lambda>(p, q). validateEdgeEndpoints s p q) (forEachOutgoingEdgeWithPath s))"
proof -
  have "opt_list (validateNoOrphanCallNode s q) n
      = concat (map (\<lambda>(p, q). validateEdgeEndpoints s p q) (opt_list (edges_in_node_with_path q) n))" for q n
    by (cases n) (simp_all add: validateNoOrphanCallNode_walk)
  then show ?thesis
    by (simp add: validateNoOrphanReferences_def validateNoOrphanCallReferences_def
        forEachOutgoingEdgeWithPath_def forEachCallEdgeWithPath_def concat_map_concat comp_def
        concat_map_of_concat_indexed case_prod_unfold)
qed

text \<open>A nil edge of the walk is a nil fallback of an edge of the walk.\<close>

lemma nil_edge_in_node:
  "(None, q) \<in> set (edges_in_node_with_path path n) \<Longrightarrow>
   \<exists>e \<in> set (edges_in_node n). None \<in> set (fallbacks e)"
proof (induction path n rule: edges_in_node_with_path.induct)
  case (1 path e ps)
  show ?case
  proof (cases "\<exists>ed. e = Some ed \<and> None \<in> set (fallbacks ed)")
    case True
    then show ?thesis by auto
  next
    case False
    then have "(None, q) \<notin> set (opt_list (\<lambda>ed. (Some ed, path) #
       map_indexed (\<lambda>j f. (f, index_path (path @ ''.on_failure.fallback'') j)) (fallbacks ed)) e)"
      by (cases e) (auto simp: set_map_indexed, metis nth_mem)
    with "1.prems" obtain i where i: "i < length ps" "(None, q) \<in> set (opt_list (edges_in_node_with_path
        (index_path (path @ ''.parallel'') i)) (ps ! i))"
      by (auto simp: set_concat_indexed)
    then obtain m where m: "i < length ps" "ps ! i = Some m"
      "(None, q) \<in> set (edges_in_node_with_path (index_path (path @ ''.parallel'') i) m)"
      by (cases "ps ! i") auto
    from m "1.IH" [of "ps ! i" m i] obtain ed where "ed \<in> set (edges_in_node m)" "None \<in> set (fallbacks ed)"
      using nth_mem [OF m(1)] by auto
    moreover have "set (edges_in_node m) \<subseteq> set (edges_in_node (CallNode e ps))"
      using nth_mem [OF m(1)] m(2) by force
    ultimately show ?thesis by blast
  qed
qed

lemma edges_walk_ok:
  assumes "\<And>e. G e \<Longrightarrow> owned e"
  shows "(\<forall>(p, q) \<in> set (forEachOutgoingEdgeWithPath s). \<exists>e. p = Some e \<and> G e)
    \<longleftrightarrow> (\<forall>e \<in> set (forEachOutgoingEdge s). G e)" (is "?L \<longleftrightarrow> ?R")
proof
  assume ?L
  then show ?R
    unfolding forEachOutgoingEdgeWithPath_edges [symmetric] by (auto split: option.splits)
next
  assume R: ?R
  have "p \<noteq> None" if pq: "(p, q) \<in> set (forEachOutgoingEdgeWithPath s)" for p q
  proof
    assume "p = None"
    with pq obtain op m path where "op \<in> operationSet s" "Some m \<in> set (op_calls (s_op s op))"
      and nil: "(None, q) \<in> set (edges_in_node_with_path path m)"
    proof -
      from \<open>p = None\<close> pq obtain sid name op' where entry: "(sid, name, op') \<in> set (operation_entries s)"
        and "(None, q) \<in> set (forEachCallEdgeWithPath (op_calls (s_op s op')) (op_path sid name @ ''.calls''))"
        by (auto simp: forEachOutgoingEdgeWithPath_def)
      then obtain i where i: "i < length (op_calls (s_op s op'))"
        and "(None, q) \<in> set (opt_list (edges_in_node_with_path (index_path (op_path sid name @ ''.calls'') i))
          (op_calls (s_op s op') ! i))"
        by (auto simp: forEachCallEdgeWithPath_def set_concat_indexed)
      then show thesis
        using that [of op'] entry nth_mem [OF i] by (cases "op_calls (s_op s op') ! i") (auto simp: operationSet_iff)
    qed
    then have sub: "set (edges_in_node m) \<subseteq> set (forEachOutgoingEdge s)"
      by (force simp: forEachOutgoingEdge_def forEachEdgeInCalls_def operationSet_def)
    from nil_edge_in_node [OF nil] obtain e where "e \<in> set (edges_in_node m)" "None \<in> set (fallbacks e)"
      by blast
    with sub R assms have "owned e" by blast
    with \<open>None \<in> set (fallbacks e)\<close> show False by (subst (asm) owned_iff) auto
  qed
  moreover have "G e" if "(Some e, q) \<in> set (forEachOutgoingEdgeWithPath s)" for e q
    using R that unfolding forEachOutgoingEdgeWithPath_edges [symmetric] by force
  ultimately show ?L by fastforce
qed

section \<open>Leaves\<close>

lemma validateName_ok [ok_simps]: "validateName n path rule noun = [] \<longleftrightarrow> name_ok n"
  by (auto simp: validateName_def name_ok_def)

lemma validateMetricFaultLink_ok [ok_simps]:
  "validateMetricFaultLink p path = [] \<longleftrightarrow> pred_option link_ok p"
  by (cases p) (auto simp: validateMetricFaultLink_def link_ok_def)

lemma concat_indexed_list_all:
  "(\<And>i x. f i x = [] \<longleftrightarrow> P x) \<Longrightarrow> concat_indexed f xs = [] \<longleftrightarrow> list_all P xs"
  by (simp add: concat_indexed_empty list_all_length)

lemma validateLogEvent_ok: "validateLogEvent ev path = [] \<longleftrightarrow> log_event_ok ev"
  by (simp add: validateLogEvent_def log_event_ok_def ok_simps)

lemma validateMetric_ok: "validateMetric m path = [] \<longleftrightarrow> metric_ok m"
  by (simp add: validateMetric_def metric_ok_def ok_simps)

lemma validateStateUpdate_ok: "validateStateUpdate u path = [] \<longleftrightarrow> state_update_ok u"
  by (simp add: validateStateUpdate_def state_update_ok_def ok_simps)

lemma validateObservableMetricSpec_ok: "validateObservableMetricSpec m path = [] \<longleftrightarrow> observable_ok m"
  by (cases "om_source m") (auto simp: validateObservableMetricSpec_def observable_ok_def ok_simps)

lemma validateStackSample_ok: "validateStackSample st path = [] \<longleftrightarrow> stack_ok st"
  by (cases "st_weight st") (auto simp: validateStackSample_def stack_ok_def validFloatMetricValue_def)

lemma validateProfile_ok: "validateProfile p path = [] \<longleftrightarrow> profile_ok p"
  by (cases "pr_when_fault p")
    (auto simp: validateProfile_def profile_ok_def concat_indexed_list_all [OF validateStackSample_ok])

lemma validateOperationDomain_ok: "validateOperationDomain o' path = [] \<longleftrightarrow> operation_ok o'"
  by (cases "op_profile o'") (simp_all add: validateOperationDomain_def operation_ok_def ok_simps(1-)
      concat_indexed_list_all [OF validateLogEvent_ok] concat_indexed_list_all [OF validateMetric_ok]
      concat_indexed_list_all [OF validateStateUpdate_ok] validateProfile_ok
      del: concat_indexed_empty)

lemma validateServiceDomain_ok:
  "validateServiceDomain s sid r = [] \<longleftrightarrow> service_ok (s_svc s r)
     \<and> (\<forall>name op. (name, Some op) \<in> set (svc_operations (s_svc s r)) \<longrightarrow> operation_ok (s_op s op))"
  by (auto simp: validateServiceDomain_def service_ok_def Let_def ok_simps validateOperationDomain_ok
      validateObservableMetricSpec_ok list_all_length Ball_def split_paired_All simp del: concat_eq_Nil_conv)

section \<open>Journeys and faults\<close>

lemma validateStepsReachable_ok:
  "validateStepsReachable s steps path = [] \<longleftrightarrow> (\<forall>p \<in> set steps. \<exists>t. p = Some t \<and> step_shape s t)"
  by (simp add: validateStepsReachable_def ok_simps validateStepReachable_ok nth_indexed_iff)

lemma validateCallNodeVariantList_ok:
  "validateCallNodeVariantList nodes path = [] \<longleftrightarrow> (\<forall>p \<in> set nodes. \<exists>n. p = Some n \<and> node_shape n)"
  by (simp add: validateCallNodeVariantList_def ok_simps validateCallNodeVariant_ok nth_indexed_iff)

lemma validateJourneyDomain_ok:
  "validateJourneyDomain name j = [] \<longleftrightarrow> j_name j = name \<and> \<not> fle (j_weight j) (Fin 0) \<and> j_steps j \<noteq> []"
  by (simp add: validateJourneyDomain_def)

lemma validateFaultTarget_ok:
  "validateFaultTarget s t path = [] \<longleftrightarrow> target_ok s (ft_kind t) (ft_service t) (ft_operation t) (ft_edge t)"
  by (cases "ft_kind t"; cases "ft_service t"; cases "ft_operation t"; cases "ft_edge t")
    (simp_all add: validateFaultTarget_def validateFaultTargetKind_def target_count_def)

lemma validateFaultSchedule_from_ok:
  "validateFaultSchedule_from i prev ps path = [] \<longleftrightarrow> schedule_ok ps
     \<and> (\<forall>t. prev = Some t \<longrightarrow> (\<forall>p \<in> set ps. t < sp_at p))"
proof (induction i prev ps path rule: validateFaultSchedule_from.induct)
  case (1 i previous path)
  then show ?case by (simp add: schedule_ok_def)
next
  case (2 i previous point rest path)
  then show ?case
    by (cases previous; cases "sp_intensity point") (auto 0 4 simp: schedule_ok_def intro: less_trans)
qed

lemma concat_map_pair_Nil:
  "concat (map (\<lambda>(a, b). f a b) xs) = [] \<longleftrightarrow> (\<forall>a b. (a, b) \<in> set xs \<longrightarrow> f a b = [])"
  by (induction xs) auto

lemma concat_map_triple_Nil:
  "concat (map (\<lambda>(a, b, c). f a b c) xs) = [] \<longleftrightarrow> (\<forall>a b c. (a, b, c) \<in> set xs \<longrightarrow> f a b c = [])"
  by (induction xs) auto

lemma fault_validators:
  "validateFaultTargets s = [] \<and> concat_indexed (\<lambda>i f. validateFaultDomain f (index_path ''faults'' i)) (s_faults s) = []
   \<longleftrightarrow> (\<forall>f \<in> set (s_faults s). fault_ok s f)"
proof -
  have "validateFaultTarget s (f_target f) path = [] \<and> validateFaultDomain f path' = [] \<longleftrightarrow> fault_ok s f"
    for f path path'
    by (auto simp: validateFaultTarget_ok validateFaultDomain_def validateFaultSchedule_def
        validateFaultSchedule_from_ok fault_ok_def)
  then show ?thesis
    unfolding validateFaultTargets_def concat_indexed_empty all_set_conv_all_nth by blast
qed

lemma journey_validators:
  "validateJourneyReachability s = [] \<and> concat (map (\<lambda>(name, p). opt_list (validateJourneyDomain name) p) (s_journeys s)) = []
   \<longleftrightarrow> (\<forall>(name, p) \<in> set (s_journeys s). \<exists>j. p = Some j \<and> journey_ok s name j)"
proof -
  have "(case p of None \<Rightarrow> [newValidationError (journey_path name) ''R-STR-5'' ''journey is nil'']
       | Some j \<Rightarrow> validateStepsReachable s (j_steps j) (journey_path name @ ''.steps'')) = []
       \<and> opt_list (validateJourneyDomain name) p = [] \<longleftrightarrow> (\<exists>j. p = Some j \<and> journey_ok s name j)" for name p
    by (cases p) (auto simp: journey_ok_def validateStepsReachable_ok validateJourneyDomain_ok)
  then show ?thesis
    unfolding validateJourneyReachability_def concat_map_pair_Nil by (simp add: Ball_def) blast
qed

section \<open>Validate\<close>

lemma operations_of_entries:
  "(\<forall>sid r. (sid, Some r) \<in> set (s_services s) \<longrightarrow>
      (\<forall>name op. (name, Some op) \<in> set (svc_operations (s_svc s r)) \<longrightarrow> P op))
   \<longleftrightarrow> (\<forall>op \<in> operationSet s. P op)"
  by (auto simp: operationSet_iff operation_entries_iff)

lemma service_validators:
  "concat (map (\<lambda>(sid, r). validateServiceDomain s sid r) (service_entries s)) = []
   \<longleftrightarrow> (\<forall>sid r. (sid, Some r) \<in> set (s_services s) \<longrightarrow> service_ok (s_svc s r))
     \<and> (\<forall>op \<in> operationSet s. operation_ok (s_op s op))"
  unfolding operations_of_entries [symmetric]
  unfolding concat_map_pair_Nil by (auto simp: service_entries_iff validateServiceDomain_ok)

text \<open>The call checks without and with the ranges of the edges.\<close>

lemma edge_validators:
  assumes "\<And>e path. chk (Some e) path = [] \<longleftrightarrow> D e" and "\<And>path. chk None path = []"
  shows "validateNoOrphanReferences s = [] \<and> validateRecoveryPolicyOwnership s = []
      \<and> concat (map (\<lambda>(p, path). chk p path) (forEachOutgoingEdgeWithPath s)) = []
    \<longleftrightarrow> (\<forall>op \<in> operationSet s. \<forall>e \<in> set (forEachEdgeInCalls (op_calls (s_op s op))).
          endpoints_ok s e \<and> owned e \<and> D e)"
proof -
  let ?G = "\<lambda>e. endpoints_ok s e \<and> owned e \<and> D e"
  have "validateNoOrphanReferences s = [] \<and> validateRecoveryPolicyOwnership s = []
      \<and> concat (map (\<lambda>(p, path). chk p path) (forEachOutgoingEdgeWithPath s)) = []
      \<longleftrightarrow> (\<forall>(p, q) \<in> set (forEachOutgoingEdgeWithPath s). \<exists>e. p = Some e \<and> ?G e)"
    unfolding validateNoOrphanReferences_walk validateRecoveryPolicyOwnership_def concat_map_Nil
    using assms by (fastforce simp: validateEdgeEndpoints_ok opt_list_Nil
        validateRecoveryPolicyOwnershipForEdge_ok)
  also have "\<dots> \<longleftrightarrow> (\<forall>e \<in> set (forEachOutgoingEdge s). ?G e)"
    by (rule edges_walk_ok) simp
  also have "\<dots> \<longleftrightarrow> (\<forall>op \<in> operationSet s. \<forall>e \<in> set (forEachEdgeInCalls (op_calls (s_op s op))). ?G e)"
    by (simp add: forEachOutgoingEdge_def operationSet_def)
  finally show ?thesis .
qed

lemma variant_validators:
  "validateCallNodeVariants s = [] \<longleftrightarrow>
     (\<forall>op \<in> operationSet s. \<forall>p \<in> set (op_calls (s_op s op)). \<exists>n. p = Some n \<and> node_shape n)"
  unfolding validateCallNodeVariants_def concat_map_triple_Nil
  by (auto simp: validateCallNodeVariantList_ok operationSet_iff)

lemma structural_call_validators:
  "validateNoOrphanReferences s = [] \<and> validateRecoveryPolicyOwnership s = [] \<and> validateCallNodeVariants s = []
   \<longleftrightarrow> (\<forall>op \<in> operationSet s. (\<forall>p \<in> set (op_calls (s_op s op)). \<exists>n. p = Some n \<and> node_shape n)
     \<and> (\<forall>e \<in> set (forEachEdgeInCalls (op_calls (s_op s op))). endpoints_ok s e \<and> owned e))"
  using edge_validators [of "\<lambda>_ _. []" "\<lambda>_. True" s] variant_validators [of s]
  by (simp add: concat_map_pair_Nil del: concat_eq_Nil_conv) blast

lemma call_validators:
  "validateNoOrphanReferences s = [] \<and> validateRecoveryPolicyOwnership s = [] \<and> validateCallNodeVariants s = []
     \<and> concat (map (\<lambda>(p, path). validateEdgeDomain p path) (forEachOutgoingEdgeWithPath s)) = []
   \<longleftrightarrow> (\<forall>op \<in> operationSet s. calls_ok s (op_calls (s_op s op)))"
proof -
  have "validateEdgeDomain None path = []" for path by (simp add: validateEdgeDomain_def)
  then show ?thesis
    using edge_validators [of validateEdgeDomain, OF validateEdgeDomain_ok] variant_validators [of s]
    unfolding calls_ok_def by blast
qed

lemma validation_errors_ok:
  assumes "maps_ok s"
  shows "validation_errors s = [] \<longleftrightarrow> schema_ok s"
proof -
  have "validateDAG s = [] \<longleftrightarrow> acyclic (op_graph s)" if "identity_ok s"
    using validateDAG_iff [OF distinct_allSchemaOperations [OF assms that]] .
  then show ?thesis
    unfolding validation_errors_def validateDomainRanges_def schema_ok_def
      identity_validators [OF assms, symmetric] fault_validators [symmetric] journey_validators [symmetric]
      ball_conj_distrib call_validators [symmetric]
    using service_validators [of s] identity_validators [OF assms]
    by (simp only: append_is_Nil_conv when_err_empty) blast
qed

lemma op_graphI:
  assumes "schema_ok s" and "op \<in> operationSet s" and "ed \<in> set (forEachEdgeInCalls (op_calls (s_op s op)))"
  shows "\<exists>t. e_to ed = Some t \<and> t \<in> operationSet s \<and> (op, t) \<in> op_graph s"
proof -
  from assms have "endpoints_ok s ed" by (auto simp: schema_ok_def calls_ok_def)
  then obtain t where t: "e_to ed = Some t" "t \<in> operationSet s"
    by (auto simp: endpoints_ok_def in_op_set_def split: option.splits)
  with assms show ?thesis by (force simp: op_graph_def outgoingTargets_def)
qed

lemma Validate_ok: "maps_ok s \<Longrightarrow> Validate (Some s) = None \<Longrightarrow> schema_ok s"
  using validation_errors_ok by (simp add: Validate_def)

text \<open>
  C1: Validate accepts a schema exactly when it is well-formed: every validator, over its walk of
  services, call trees, journeys and faults, reports nothing if and only if the declarative
  specification holds; the order in which Go ranges over the maps does not matter.
\<close>

theorem Validate_iff_schema_ok:
  assumes "maps_ok s"
  shows "Validate (Some s) = None \<longleftrightarrow> schema_ok s"
  using validation_errors_ok [OF assms] by (simp add: Validate_def)

end
