(* ===== verification/Topology_Parse.thy ===== *)
theory Topology_Parse
  imports Topology_Wellformed
begin

text \<open>
  topology/parse.go: building a schema from the decoded YAML and resolving its references. The
  decoder (gopkg.in/yaml.v3), the reader and the file system are parameters of \<open>Parse\<close>. A
  function that returns \<open>(*T, error)\<close> returns a sum, the error on the left. The second half
  shows which validators can never fail on a schema that the resolution accepts.
\<close>

section \<open>Defaults\<close>

definition stringDefault :: "string \<Rightarrow> string \<Rightarrow> string" where
  "stringDefault s d = (if s = '''' then d else s)"

text \<open>\<open>intDefault\<close>, \<open>float64Default\<close> and \<open>durationDefault\<close>.\<close>

definition ptrDefault :: "'a option \<Rightarrow> 'a \<Rightarrow> 'a" where
  "ptrDefault p d = (case p of None \<Rightarrow> d | Some x \<Rightarrow> x)"

section \<open>Leaves\<close>

definition resolveLatency :: "raw_latency_dist option \<Rightarrow> latency_dist" where
  "resolveLatency p = (case p of
       None \<Rightarrow> \<lparr>l_distribution = ''constant'', l_p50 = 0, l_p95 = 0\<rparr>
     | Some rl \<Rightarrow>
         (let p50 = ptrDefault (rl_p50 rl) 0 in
          \<lparr>l_distribution = stringDefault (rl_distribution rl) ''constant'', l_p50 = p50,
           l_p95 = ptrDefault (rl_p95 rl) p50\<rparr>))"

definition resolveSeverity :: "raw_severity option \<Rightarrow> severity_params" where
  "resolveSeverity p = (case p of
       None \<Rightarrow> \<lparr>sev_probability = Fin 0, sev_multiplier = Fin 0, sev_add = 0, sev_value = Fin 0\<rparr>
     | Some rs \<Rightarrow> \<lparr>sev_probability = ptrDefault (rsev_probability rs) (Fin 0),
         sev_multiplier = ptrDefault (rsev_multiplier rs) (Fin 0),
         sev_add = ptrDefault (rsev_add rs) 0, sev_value = ptrDefault (rsev_value rs) (Fin 0)\<rparr>)"

definition resolveFaultSchedule :: "raw_fault_schedule option list \<Rightarrow> schedule_point list" where
  "resolveFaultSchedule raw = map (\<lambda>p. case p of
       None \<Rightarrow> \<lparr>sp_at = 0, sp_intensity = Fin 1\<rparr>
     | Some point \<Rightarrow> \<lparr>sp_at = ptrDefault (rsp_at point) 0,
         sp_intensity = ptrDefault (rsp_intensity point) (Fin 1)\<rparr>) raw"

text \<open>The loops over \<open>[]*T\<close> that skip nil entries.\<close>

definition non_nil :: "'a option list \<Rightarrow> 'a list" where
  "non_nil ps = concat (map (opt_list (\<lambda>x. [x])) ps)"

definition resolveLogEvents :: "raw_log_event option list \<Rightarrow> log_event list" where
  "resolveLogEvents raws = map (\<lambda>raw. \<lparr>le_name = rle_name raw, le_severity = parseLogSeverity (rle_severity raw),
       le_condition = parseLogCondition (rle_condition raw), le_body = rle_body raw,
       le_attributes = rle_attributes raw\<rparr>) (non_nil raws)"

definition resolveMetricFaultLink :: "raw_metric_fault_link option \<Rightarrow> metric_fault_link option" where
  "resolveMetricFaultLink p = map_option (\<lambda>raw. \<lparr>fl_kind = parseFaultKind (rfl_kind raw),
       fl_delta = ptrDefault (rfl_delta raw) (Fin 0), fl_value = ptrDefault (rfl_value raw) (Fin 0),
       fl_has_value = (rfl_value raw \<noteq> None)\<rparr>) p"

definition resolveMetrics :: "raw_metric option list \<Rightarrow> metric_spec list" where
  "resolveMetrics raws = map (\<lambda>raw. \<lparr>m_name = rm_name raw, m_type = parseMetricType (rm_type raw),
       m_unit = rm_unit raw, m_baseline = ptrDefault (rm_baseline raw) (Fin 0),
       m_condition = parseLogCondition (rm_condition raw), m_attributes = rm_attributes raw,
       m_when_fault = resolveMetricFaultLink (rm_when_fault raw)\<rparr>) (non_nil raws)"

definition resolveObservableMetrics :: "raw_metric option list \<Rightarrow> observable_metric list" where
  "resolveObservableMetrics raws = map (\<lambda>raw. \<lparr>om_name = rm_name raw, om_type = parseMetricType (rm_type raw),
       om_unit = rm_unit raw, om_baseline = ptrDefault (rm_baseline raw) (Fin 0),
       om_attributes = rm_attributes raw, om_when_fault = resolveMetricFaultLink (rm_when_fault raw),
       om_source = map_option (\<lambda>src. \<lparr>src_accumulator = rsrc_accumulator src,
         src_minus = rsrc_minus src\<rparr>) (rm_source raw)\<rparr>) (non_nil raws)"

definition resolveStateUpdates :: "raw_state_update option list \<Rightarrow> state_update list" where
  "resolveStateUpdates raws = map (\<lambda>raw. \<lparr>su_key = rsu_key raw, su_delta = ptrDefault (rsu_delta raw) (Fin 0),
       su_condition = parseLogCondition (rsu_condition raw),
       su_when_fault = resolveMetricFaultLink (rsu_when_fault raw)\<rparr>) (non_nil raws)"

definition resolveStacks :: "raw_stack option list \<Rightarrow> stack_sample list" where
  "resolveStacks raws = map (\<lambda>raw. \<lparr>st_frames = rst_frames raw, st_weight = rst_weight raw\<rparr>) (non_nil raws)"

definition resolveProfile :: "raw_profile option \<Rightarrow> profile_spec option" where
  "resolveProfile p = map_option (\<lambda>raw. \<lparr>pr_enabled = rpr_enabled raw,
       pr_sample_rate = ptrDefault (rpr_sample_rate raw) 100, pr_baseline = resolveStacks (rpr_baseline raw),
       pr_incident = resolveStacks (rpr_incident raw),
       pr_when_fault = map_option parseFaultKind (rpr_when_fault raw)\<rparr>) p"

section \<open>Services and operations\<close>

definition empty_raw_service :: raw_service where
  "empty_raw_service = \<lparr>rs_namespace = '''', rs_kind = '''', rs_replicas = None, rs_language = '''',
     rs_framework = '''', rs_version = '''', rs_metrics = [], rs_operations = []\<rparr>"

definition empty_raw_operation :: raw_operation where
  "empty_raw_operation = \<lparr>ro_name = '''', ro_calls = [], ro_log_events = [], ro_metrics = [],
     ro_state_updates = [], ro_profile = None\<rparr>"

definition empty_raw_journey :: raw_journey where
  "empty_raw_journey = \<lparr>rj_steps = [], rj_weight = None\<rparr>"

text \<open>
  The loop over the raw operations of a service: each allocates an operation and stores it under
  its name, replacing an operation of the same name.
\<close>

definition build_operations :: "string \<Rightarrow> raw_operation option list \<Rightarrow> (string, op_ref option) gomap" where
  "build_operations name ros =
     fold (\<lambda>(i, ro). AList.update (ro_name (ptrDefault ro empty_raw_operation)) (Some (OpRef name i)))
       (enumerate 0 ros) []"

definition build_service :: "string \<Rightarrow> string \<Rightarrow> raw_service \<Rightarrow> service" where
  "build_service ns name rs =
     \<lparr>svc_name = name, svc_namespace = stringDefault (rs_namespace rs) ns,
      svc_kind = parseServiceKind (rs_kind rs), svc_replicas = ptrDefault (rs_replicas rs) 1,
      svc_language = rs_language rs, svc_framework = rs_framework rs, svc_version = rs_version rs,
      svc_operations = build_operations name (rs_operations rs),
      svc_metrics = resolveObservableMetrics (rs_metrics rs)\<rparr>"

definition build_operation :: "string \<Rightarrow> raw_operation \<Rightarrow> operation" where
  "build_operation name ro =
     \<lparr>op_name = ro_name ro, op_service = Some (SvcRef name), op_calls = [],
      op_log_events = resolveLogEvents (ro_log_events ro), op_metrics = resolveMetrics (ro_metrics ro),
      op_state_updates = resolveStateUpdates (ro_state_updates ro), op_profile = resolveProfile (ro_profile ro)\<rparr>"

definition raw_service_at :: "raw_schema \<Rightarrow> string \<Rightarrow> raw_service" where
  "raw_service_at raw name = ptrDefault (ptr_at (raw_services raw) name) empty_raw_service"

definition raw_operation_at :: "raw_service \<Rightarrow> nat \<Rightarrow> raw_operation" where
  "raw_operation_at rs i =
     (if i < length (rs_operations rs) then ptrDefault (rs_operations rs ! i) empty_raw_operation
      else empty_raw_operation)"

text \<open>The heap holds the allocated objects at their addresses.\<close>

fun service_at :: "string \<Rightarrow> raw_schema \<Rightarrow> svc_ref \<Rightarrow> service" where
  "service_at ns raw (SvcRef name) = build_service ns name (raw_service_at raw name)"

fun operation_at :: "raw_schema \<Rightarrow> op_ref \<Rightarrow> operation" where
  "operation_at raw (OpRef name i) = build_operation name (raw_operation_at (raw_service_at raw name) i)"

definition buildSchema :: "raw_schema \<Rightarrow> schema" where
  "buildSchema raw =
     (let ns = stringDefault (raw_namespace raw) DefaultNamespace in
      \<lparr>s_namespace = ns,
       s_services = map (\<lambda>(name, rs). (name, Some (SvcRef name))) (raw_services raw),
       s_journeys = [], s_faults = [],
       s_svc = service_at ns raw, s_op = operation_at raw\<rparr>)"

section \<open>Lookups\<close>

definition lookupOperation :: "schema \<Rightarrow> string \<Rightarrow> string \<Rightarrow> topo_error + op_ref" where
  "lookupOperation s svcName opName =
     (let path = ''operation:'' @ svcName @ ''.'' @ opName in
      case ptr_at (s_services s) svcName of
        None \<Rightarrow> Inl (newParseErrorf (path @ ''.service'') ''service %q not found'' [AStr svcName])
      | Some r \<Rightarrow> (case ptr_at (svc_operations (s_svc s r)) opName of
            None \<Rightarrow> Inl (newParseErrorf (path @ ''.operation'') ''operation %q on service %q not found''
              [AStr opName, AStr svcName])
          | Some op \<Rightarrow> Inr op))"

definition lookupOperationAtPath ::
  "schema \<Rightarrow> string \<Rightarrow> string \<Rightarrow> string \<Rightarrow> topo_error + op_ref" where
  "lookupOperationAtPath s svcName opName path =
     (if svcName = '''' then Inl (newParseError (path @ ''.service'') ''service is required'')
      else if opName = '''' then Inl (newParseError (path @ ''.operation'') ''operation is required'')
      else case lookupOperation s svcName opName of
          Inr op \<Rightarrow> Inr op
        | Inl (ParseError p m inner) \<Rightarrow>
            if p = ''operation:'' @ svcName @ ''.'' @ opName @ ''.service''
            then Inl (newParseErrorf (path @ ''.service'') ''service %q not found'' [AStr svcName])
            else if p = ''operation:'' @ svcName @ ''.'' @ opName @ ''.operation''
            then Inl (newParseErrorf (path @ ''.operation'') ''operation %q on service %q not found''
              [AStr opName, AStr svcName])
            else Inl (ParseError p m inner)
        | Inl err \<Rightarrow> Inl err)"

definition parseOperationRef :: "string \<Rightarrow> string \<Rightarrow> topo_error + (string \<times> string)" where
  "parseOperationRef spec path = (case str_cut ''.'' spec of
       Some (svcName, opName) \<Rightarrow>
         if svcName = '''' \<or> opName = ''''
         then Inl (newParseError path ''operation reference must be \"<svc>.<op>\"'')
         else Inr (svcName, opName)
     | None \<Rightarrow> Inl (newParseError path ''operation reference must be \"<svc>.<op>\"''))"

section \<open>Call nodes\<close>

text \<open>The errors and the values of a loop that appends to \<open>errs\<close> or to its result.\<close>

definition lefts :: "('e + 'a) list \<Rightarrow> 'e list" where
  "lefts rs = concat (map (\<lambda>r. case r of Inl e \<Rightarrow> [e] | Inr _ \<Rightarrow> []) rs)"

definition rights :: "('e + 'a) list \<Rightarrow> 'a list" where
  "rights rs = concat (map (\<lambda>r. case r of Inl _ \<Rightarrow> [] | Inr a \<Rightarrow> [a]) rs)"

text \<open>
  The edge of a call node is allocated by the node at \<open>path\<close>; the path is its address.
\<close>

fun resolveCallNode :: "schema \<Rightarrow> op_ref \<Rightarrow> string \<Rightarrow> raw_call_node \<Rightarrow> topo_error + call_node"
and resolveRecoveryPolicy :: "schema \<Rightarrow> op_ref \<Rightarrow> string \<Rightarrow> raw_recovery \<Rightarrow> topo_error + recovery" where
  "resolveCallNode s owningOp path (RawCallNode to par proto lat er tmo rts rbo rbd onf) =
     (if (to \<noteq> None) = (par \<noteq> []) then
        Inl (newParseError path ''exactly one of 'to' or 'parallel' is required (R-STR-7)'')
      else if par \<noteq> [] then
        (let rs = map_indexed (\<lambda>i child. case child of
               None \<Rightarrow> Inl (newParseError (index_path (path @ ''.parallel'') i) ''call node is required'')
             | Some rc \<Rightarrow> resolveCallNode s owningOp (index_path (path @ ''.parallel'') i) rc) par
         in case errors_Join (lefts rs) of
              Some err \<Rightarrow> Inl err
            | None \<Rightarrow> Inr (CallNode None (map Some (rights rs))))
      else case lookupOperationAtPath s (rct_service (the to)) (rct_operation (the to)) (path @ ''.to'') of
          Inl err \<Rightarrow> Inl err
        | Inr targetOp \<Rightarrow>
            (let mk = Edge path (Some owningOp) (Some targetOp) (parseProtocol proto) (resolveLatency lat)
                   (ptrDefault er (Fin 0)) (ptrDefault tmo 0) (ptrDefault rts 0) (parseBackoff rbo)
                   (ptrDefault rbd DefaultRetryBaseDelay)
             in case onf of
                  None \<Rightarrow> Inr (CallNode (Some (mk None)) [])
                | Some rp \<Rightarrow> (case resolveRecoveryPolicy s owningOp (path @ ''.on_failure'') rp of
                      Inl err \<Rightarrow> Inl err
                    | Inr p \<Rightarrow> Inr (CallNode (Some (mk (Some p))) []))))"
| "resolveRecoveryPolicy s owningOp path (RawRecovery fbs act dr) =
     (let rs = map_indexed (\<lambda>i fb. case fb of
            None \<Rightarrow> Inl (newParseError (index_path (path @ ''.fallback'') i) ''call node is required'')
          | Some rc \<Rightarrow> (case resolveCallNode s owningOp (index_path (path @ ''.fallback'') i) rc of
                Inl err \<Rightarrow> Inl err
              | Inr (CallNode None _) \<Rightarrow> Inl (newParseError (index_path (path @ ''.fallback'') i)
                  ''fallback must be a single edge call'')
              | Inr (CallNode (Some e) _) \<Rightarrow> Inr (Edge (e_ref e) (Some owningOp) (e_to e) (e_protocol e)
                  (e_latency e) (e_error_rate e) (e_timeout e) (e_retries e) (e_retry_backoff e)
                  (e_retry_base_delay e) (e_on_failure e)))) fbs
      in case errors_Join (lefts rs) of
           Some err \<Rightarrow> Inl err
         | None \<Rightarrow> Inr (Recovery (map Some (rights rs)) (parseExhaustedAction act) dr))"

definition resolveCallNodePtr ::
  "schema \<Rightarrow> op_ref \<Rightarrow> string \<Rightarrow> raw_call_node option \<Rightarrow> topo_error + call_node" where
  "resolveCallNodePtr s owningOp path p = (case p of
       None \<Rightarrow> Inl (newParseError path ''call node is required'')
     | Some rc \<Rightarrow> resolveCallNode s owningOp path rc)"

section \<open>Steps\<close>

fun resolveStep :: "schema \<Rightarrow> string \<Rightarrow> raw_step \<Rightarrow> topo_error + step" where
  "resolveStep s path (RawStep svc opn par) =
     (if (svc \<noteq> '''' \<or> opn \<noteq> '''') = (par \<noteq> []) then
        Inl (newParseError path ''exactly one of service/operation or 'parallel' is required'')
      else if par \<noteq> [] then
        (let rs = map_indexed (\<lambda>i child. case child of
               None \<Rightarrow> Inl (newParseError (index_path (path @ ''.parallel'') i) ''step is required'')
             | Some rs \<Rightarrow> resolveStep s (index_path (path @ ''.parallel'') i) rs) par
         in case errors_Join (lefts rs) of
              Some err \<Rightarrow> Inl err
            | None \<Rightarrow> Inr (Step None (map Some (rights rs))))
      else if svc = '''' then Inl (newParseError (path @ ''.service'') ''service is required'')
      else if opn = '''' then Inl (newParseError (path @ ''.operation'') ''operation is required'')
      else case lookupOperationAtPath s svc opn path of
          Inl err \<Rightarrow> Inl err
        | Inr op \<Rightarrow> Inr (Step (Some op) []))"

definition resolveStepPtr :: "schema \<Rightarrow> string \<Rightarrow> raw_step option \<Rightarrow> topo_error + step" where
  "resolveStepPtr s path p = (case p of
       None \<Rightarrow> Inl (newParseError path ''step is required'')
     | Some rs \<Rightarrow> resolveStep s path rs)"

section \<open>Fault targets\<close>

text \<open>The first non-nil result of a loop that returns it.\<close>

fun first_some :: "'a option list \<Rightarrow> 'a option" where
  "first_some [] = None"
| "first_some (None # ps) = first_some ps"
| "first_some (Some x # ps) = Some x"

definition edge_between :: "op_ref \<Rightarrow> op_ref \<Rightarrow> edge \<Rightarrow> bool" where
  "edge_between from to e \<longleftrightarrow> e_from e = Some from \<and> e_to e = Some to"

fun find_edge_in_node :: "op_ref \<Rightarrow> op_ref \<Rightarrow> call_node \<Rightarrow> edge option" where
  "find_edge_in_node from to (CallNode e ps) =
     (case (case e of None \<Rightarrow> None
            | Some ed \<Rightarrow> if edge_between from to ed then Some ed
                else find (edge_between from to) (non_nil (fallbacks ed))) of
        Some found \<Rightarrow> Some found
      | None \<Rightarrow> first_some (map (\<lambda>p. case p of None \<Rightarrow> None | Some n \<Rightarrow> find_edge_in_node from to n) ps))"

definition findEdgeInCalls :: "call_node option list \<Rightarrow> op_ref \<Rightarrow> op_ref \<Rightarrow> edge option" where
  "findEdgeInCalls nodes from to =
     first_some (map (\<lambda>p. case p of None \<Rightarrow> None | Some n \<Rightarrow> find_edge_in_node from to n) nodes)"

definition findEdge :: "schema \<Rightarrow> op_ref \<Rightarrow> op_ref \<Rightarrow> edge option" where
  "findEdge s from to =
     first_some (map (\<lambda>op. findEdgeInCalls (op_calls (s_op s op)) from to) (allSchemaOperations s))"

definition resolveEdgeTarget :: "schema \<Rightarrow> string \<Rightarrow> string \<Rightarrow> topo_error + fault_target" where
  "resolveEdgeTarget s rest path = (case str_cut ''->'' rest of
       None \<Rightarrow> Inl (newParseError path ''edge target must be \"edge:<svc>.<op>-><svc>.<op>\"'')
     | Some (fromSpec, toSpec) \<Rightarrow>
         if fromSpec = '''' \<or> toSpec = ''''
         then Inl (newParseError path ''edge target must be \"edge:<svc>.<op>-><svc>.<op>\"'')
         else case parseOperationRef fromSpec (path @ ''.from'') of
             Inl err \<Rightarrow> Inl err
           | Inr (fromSvc, fromOp) \<Rightarrow> (case parseOperationRef toSpec (path @ ''.to'') of
               Inl err \<Rightarrow> Inl err
             | Inr (toSvc, toOp) \<Rightarrow> (case lookupOperationAtPath s fromSvc fromOp (path @ ''.from'') of
                 Inl err \<Rightarrow> Inl err
               | Inr from \<Rightarrow> (case lookupOperationAtPath s toSvc toOp (path @ ''.to'') of
                   Inl err \<Rightarrow> Inl err
                 | Inr to \<Rightarrow> (case findEdge s from to of
                     None \<Rightarrow> Inl (newParseErrorf path ''edge %s.%s->%s.%s not found''
                       [AStr fromSvc, AStr fromOp, AStr toSvc, AStr toOp])
                   | Some e \<Rightarrow> Inr \<lparr>ft_kind = TargetEdge, ft_service = None, ft_operation = None,
                       ft_edge = Some e\<rparr>)))))"

definition resolveFaultTarget :: "schema \<Rightarrow> string \<Rightarrow> string \<Rightarrow> topo_error + fault_target" where
  "resolveFaultTarget s spec path =
     (let bad = newParseError path
            ''target must be \"node:<svc>\", \"operation:<svc>.<op>\", or \"edge:<from>-><to>\"''
      in case str_cut '':'' spec of
           None \<Rightarrow> Inl bad
         | Some (kind, rest) \<Rightarrow>
             if rest = '''' then Inl bad
             else if kind = ''node'' then (case ptr_at (s_services s) rest of
                 None \<Rightarrow> Inl (newParseErrorf path ''service %q not found'' [AStr rest])
               | Some r \<Rightarrow> Inr \<lparr>ft_kind = TargetNode, ft_service = Some r, ft_operation = None,
                   ft_edge = None\<rparr>)
             else if kind = ''operation'' then (case parseOperationRef rest path of
                 Inl err \<Rightarrow> Inl err
               | Inr (svcName, opName) \<Rightarrow> (case lookupOperationAtPath s svcName opName path of
                   Inl err \<Rightarrow> Inl err
                 | Inr op \<Rightarrow> Inr \<lparr>ft_kind = TargetOperation, ft_service = None, ft_operation = Some op,
                     ft_edge = None\<rparr>))
             else if kind = ''edge'' then resolveEdgeTarget s rest path
             else Inl (newParseErrorf path ''unsupported target kind %q'' [AStr kind]))"

section \<open>resolveReferences\<close>

text \<open>
  One raw operation: its calls are resolved and stored in the operation that its name denotes, so
  of two raw operations of one name the later one sets the calls.
\<close>

definition resolve_operation ::
  "string \<Rightarrow> nat \<Rightarrow> raw_operation \<Rightarrow> schema \<times> topo_error list \<Rightarrow> schema \<times> topo_error list" where
  "resolve_operation svcName opIndex ro = (\<lambda>(s, errs).
     case ptr_at (s_services s) svcName of
       None \<Rightarrow> (s, errs)
     | Some r \<Rightarrow> (case ptr_at (svc_operations (s_svc s r)) (ro_name ro) of
           None \<Rightarrow> (s, errs)
         | Some op \<Rightarrow>
             (let rs = map_indexed (\<lambda>i rc. resolveCallNodePtr s op (index_path
                    (index_path (''services.'' @ svcName @ ''.operations'') opIndex @ ''.calls'') i) rc)
                    (ro_calls ro)
              in (s\<lparr>s_op := (s_op s)(op := (s_op s op)\<lparr>op_calls := map Some (rights rs)\<rparr>)\<rparr>,
                  errs @ lefts rs))))"

definition resolve_service ::
  "string \<Rightarrow> raw_service option \<Rightarrow> schema \<times> topo_error list \<Rightarrow> schema \<times> topo_error list" where
  "resolve_service svcName p = (case p of
       None \<Rightarrow> (\<lambda>st. st)
     | Some rs \<Rightarrow> fold (\<lambda>(i, ro) st. case ro of None \<Rightarrow> st | Some o' \<Rightarrow> resolve_operation svcName i o' st)
         (enumerate 0 (rs_operations rs)))"

definition resolve_journey :: "schema \<Rightarrow> string \<Rightarrow> raw_journey option \<Rightarrow> journey \<times> topo_error list" where
  "resolve_journey s name p =
     (let rj = ptrDefault p empty_raw_journey;
          rs = map_indexed (\<lambda>i st. resolveStepPtr s (index_path (journey_path name @ ''.steps'') i) st)
                 (rj_steps rj)
      in (\<lparr>j_name = name, j_steps = map Some (rights rs), j_weight = ptrDefault (rj_weight rj) (Fin 1)\<rparr>,
          lefts rs))"

definition resolve_fault :: "schema \<Rightarrow> nat \<Rightarrow> raw_fault option \<Rightarrow> topo_error + fault_spec" where
  "resolve_fault s i p = (case p of
       None \<Rightarrow> Inl (newParseError (index_path ''faults'' i) ''fault spec is required'')
     | Some rf \<Rightarrow> (case resolveFaultTarget s (rf_target rf) (index_path ''faults'' i @ ''.target'') of
           Inl err \<Rightarrow> Inl err
         | Inr target \<Rightarrow> Inr \<lparr>f_target = target, f_kind = parseFaultKind (rf_kind rf),
             f_severity = resolveSeverity (rf_severity rf),
             f_schedule = resolveFaultSchedule (rf_schedule rf)\<rparr>))"

definition resolveReferences :: "schema \<Rightarrow> raw_schema \<Rightarrow> schema \<times> topo_error option" where
  "resolveReferences s raw =
     (let (s1, errs1) = fold (\<lambda>(name, rs). resolve_service name rs) (raw_services raw) (s, []);
          js = map (\<lambda>(name, rj). (name, resolve_journey s1 name rj)) (raw_journeys raw);
          s2 = s1\<lparr>s_journeys := map (\<lambda>(name, j, errs). (name, Some j)) js\<rparr>;
          fs = map_indexed (\<lambda>i rf. resolve_fault s2 i rf) (raw_faults raw)
      in (s2\<lparr>s_faults := rights fs\<rparr>,
          errors_Join (errs1 @ concat (map (\<lambda>(name, j, errs). errs) js) @ lefts fs)))"

section \<open>Parse\<close>

datatype parse_failure = ReadFailed string | OpenFailed string string | ParseFailed topo_error

definition decodeRaw :: "(string \<Rightarrow> bool \<Rightarrow> string + raw_schema) \<Rightarrow> string \<Rightarrow> bool \<Rightarrow> topo_error + raw_schema" where
  "decodeRaw yaml data strict = (case yaml data strict of
       Inl err \<Rightarrow> Inl (ParseError ''<root>'' (Msg ''yaml decode failed'' []) (Some err))
     | Inr raw \<Rightarrow> Inr raw)"

definition parse_raw :: "raw_schema \<Rightarrow> topo_error + schema" where
  "parse_raw raw = (case resolveReferences (buildSchema raw) raw of
       (s, Some err) \<Rightarrow> Inl err
     | (s, None) \<Rightarrow> (case Validate (Some s) of
           Some err \<Rightarrow> Inl err
         | None \<Rightarrow> Inr s))"

definition Parse ::
  "(string \<Rightarrow> bool \<Rightarrow> string + raw_schema) \<Rightarrow> string + string \<Rightarrow> parse_failure + schema" where
  "Parse yaml reader = (case reader of
       Inl err \<Rightarrow> Inl (ReadFailed err)
     | Inr data \<Rightarrow> (case decodeRaw yaml data False of
           Inl err \<Rightarrow> Inl (ParseFailed err)
         | Inr raw \<Rightarrow> (case parse_raw raw of
               Inl err \<Rightarrow> Inl (ParseFailed err)
             | Inr s \<Rightarrow> Inr s)))"

text \<open>\<open>os_open\<close> is the file system: the reader of a path, or the error of opening it.\<close>

definition ParseFile ::
  "(string \<Rightarrow> bool \<Rightarrow> string + raw_schema) \<Rightarrow> (string \<Rightarrow> string + (string + string)) \<Rightarrow> string \<Rightarrow>
   parse_failure + schema" where
  "ParseFile yaml os_open path = (case os_open path of
       Inl err \<Rightarrow> Inl (OpenFailed path err)
     | Inr reader \<Rightarrow> Parse yaml reader)"

end
