(* ===== verification/Topology_Resolve.thy ===== *)
theory Topology_Resolve
  imports Topology_Parse
begin

text \<open>
  What the resolution of topology/parse.go establishes. The references of an accepted schema are
  live, the trees are well shaped and the fallbacks are owned by construction, so after
  resolveReferences the only validators that can still report are validateDAG and
  validateDomainRanges.
\<close>

section \<open>Results of loops\<close>

lemma lefts_Nil [ok_simps]: "lefts rs = [] \<longleftrightarrow> (\<forall>r \<in> set rs. \<exists>a. r = Inr a)"
  by (induction rs) (auto simp: lefts_def split: sum.splits)

lemma set_rights: "a \<in> set (rights rs) \<longleftrightarrow> Inr a \<in> set rs"
  by (induction rs) (auto simp: rights_def split: sum.splits)

lemma rights_Nil: "lefts rs = [] \<Longrightarrow> rights rs = [] \<longleftrightarrow> rs = []"
  by (induction rs) (auto simp: rights_def lefts_def split: sum.splits)

lemma rights_map_indexed:
  assumes "a \<in> set (rights (map_indexed (\<lambda>i p. case p of None \<Rightarrow> Inl (err i) | Some x \<Rightarrow> g i x) ps))"
  obtains i x where "Some x \<in> set ps" and "g i x = Inr a"
proof -
  from assms obtain i where i: "i < length ps"
    and eq: "Inr a = (case ps ! i of None \<Rightarrow> Inl (err i) | Some x \<Rightarrow> g i x)"
    by (auto simp: set_rights set_map_indexed)
  from eq obtain x where "ps ! i = Some x" "g i x = Inr a" by (auto split: option.splits)
  with nth_mem [OF i] show thesis by (intro that [of x i]) auto
qed

lemma rights_nonempty: "lefts (map_indexed f xs) = [] \<Longrightarrow> xs \<noteq> [] \<Longrightarrow> rights (map_indexed f xs) \<noteq> []"
proof
  assume "lefts (map_indexed f xs) = []" "xs \<noteq> []" "rights (map_indexed f xs) = []"
  then have "map_indexed f xs = []" by (simp add: rights_Nil)
  then have "length (map_indexed f xs) = 0" by (simp only: list.size)
  with \<open>xs \<noteq> []\<close> show False by simp
qed

section \<open>Lookups\<close>

lemma lookup_live:
  assumes "lookupOperationAtPath s svc opn path = Inr op"
  shows "op \<in> operationSet s"
proof -
  from assms have "lookupOperation s svc opn = Inr op"
    by (auto simp: lookupOperationAtPath_def split: if_splits sum.splits topo_error.splits)
  then obtain r where "ptr_at (s_services s) svc = Some r" "ptr_at (svc_operations (s_svc s r)) opn = Some op"
    by (auto simp: lookupOperation_def Let_def split: option.splits)
  then show ?thesis
    unfolding operationSet_iff operation_entries_iff by (auto dest!: ptr_at_in_set)
qed

lemma lookup_service_live: "ptr_at (s_services s) svc = Some r \<Longrightarrow> serviceInSchema s r"
  by (force simp: serviceInSchema_def dest: ptr_at_in_set)

section \<open>Call nodes\<close>

text \<open>An edge, its fallbacks, the fallbacks of these, and so on.\<close>

fun edges_deep :: "edge \<Rightarrow> edge list" where
  "edges_deep (Edge r src to p l er tmo rts bo bd onf) = Edge r src to p l er tmo rts bo bd onf
     # (case onf of None \<Rightarrow> [] | Some (Recovery fs act dr) \<Rightarrow> concat (map (opt_list edges_deep) fs))"

lemma edges_deep_fallbacks: "edges_deep e = e # concat (map (opt_list edges_deep) (fallbacks e))"
  by (cases e) (simp add: fallbacks_def split: option.split recovery.split)

definition resolved_edge :: "schema \<Rightarrow> op_ref \<Rightarrow> edge \<Rightarrow> bool" where
  "resolved_edge s op e \<longleftrightarrow> (\<forall>f \<in> set (edges_deep e). endpoints_ok s f) \<and> owned e \<and> e_from e = Some op"

lemma resolved_edgeD: "resolved_edge s op e \<Longrightarrow> endpoints_ok s e \<and> owned e"
  by (simp add: resolved_edge_def edges_deep_fallbacks [of e])

definition resolved_node :: "schema \<Rightarrow> op_ref \<Rightarrow> call_node \<Rightarrow> bool" where
  "resolved_node s op n \<longleftrightarrow> node_shape n \<and> (\<forall>e \<in> set (edges_in_node n). resolved_edge s op e)"

definition resolved_fallbacks :: "schema \<Rightarrow> op_ref \<Rightarrow> recovery \<Rightarrow> bool" where
  "resolved_fallbacks s op rp \<longleftrightarrow> (\<forall>p \<in> set (rp_fallback rp). \<exists>f. p = Some f \<and> resolved_edge s op f)"

lemma resolved_leaf:
  assumes "e_from e = Some op" and "op \<in> operationSet s" and "e_to e = Some t" and "t \<in> operationSet s"
    and "\<forall>rp. e_on_failure e = Some rp \<longrightarrow> resolved_fallbacks s op rp"
  shows "resolved_node s op (CallNode (Some e) [])"
proof -
  have fb: "\<forall>p \<in> set (fallbacks e). \<exists>f. p = Some f \<and> resolved_edge s op f"
    using assms(5) by (cases "e_on_failure e") (auto simp: fallbacks_def resolved_fallbacks_def)
  then have "owned e"
    using assms(1) by (subst owned_iff) (auto simp: resolved_edge_def)
  moreover have "endpoints_ok s f" if "p \<in> set (fallbacks e)" "f \<in> set (opt_list edges_deep p)" for f p
    using fb that by (fastforce simp: resolved_edge_def)
  ultimately have "resolved_edge s op e"
    using assms by (auto simp: resolved_edge_def endpoints_ok_def in_op_set_def edges_deep_fallbacks [of e])
  moreover have "resolved_edge s op f" if "p \<in> set (fallbacks e)" "f \<in> set (opt_list (\<lambda>f. [f]) p)" for f p
    using fb that by fastforce
  ultimately show ?thesis
    by (auto simp: resolved_node_def node_shape_iff)
qed

lemma resolved_group:
  assumes "ns \<noteq> []" and "\<And>n. n \<in> set ns \<Longrightarrow> resolved_node s op n"
  shows "resolved_node s op (CallNode None (map Some ns))"
  using assms by (auto simp: resolved_node_def node_shape_iff)

lemma resolved_retarget:
  assumes "resolved_node s op (CallNode (Some e) ps)"
  shows "resolved_edge s op (Edge (e_ref e) (Some op) (e_to e) (e_protocol e) (e_latency e) (e_error_rate e)
    (e_timeout e) (e_retries e) (e_retry_backoff e) (e_retry_base_delay e) (e_on_failure e))"
proof -
  have "resolved_edge s op e" using assms by (simp add: resolved_node_def)
  then show ?thesis by (cases e) (simp add: resolved_edge_def endpoints_ok_def)
qed

lemma resolveCallNode_resolved:
  "op \<in> operationSet s \<Longrightarrow> resolveCallNode s op path rc = Inr n \<Longrightarrow> resolved_node s op n"
  "op \<in> operationSet s \<Longrightarrow> resolveRecoveryPolicy s op path rp = Inr p \<Longrightarrow> resolved_fallbacks s op p"
proof (induction s op path rc and s op path rp arbitrary: n and p
    rule: resolveCallNode_resolveRecoveryPolicy.induct)
  case (1 s op path to par proto lat er tmo rts rbo rbd onf)
  show ?case
  proof (cases "par = []")
    case False
    let ?rs = "map_indexed (\<lambda>i child. case child of
               None \<Rightarrow> Inl (newParseError (index_path (path @ ''.parallel'') i) ''call node is required'')
             | Some rc \<Rightarrow> resolveCallNode s op (index_path (path @ ''.parallel'') i) rc) par"
    from False "1.prems" have n: "to = None" "lefts ?rs = []" "n = CallNode None (map Some (rights ?rs))"
      by (auto simp: Let_def split: if_splits option.splits)
    have "resolved_node s op m" if "m \<in> set (rights ?rs)" for m
    proof -
      from that obtain i rc where "Some rc \<in> set par"
        and "resolveCallNode s op (index_path (path @ ''.parallel'') i) rc = Inr m"
        by (rule rights_map_indexed)
      with "1.IH"(1) n False "1.prems"(1) show ?thesis by simp
    qed
    with n False show ?thesis
      by (auto intro!: resolved_group simp: rights_nonempty)
  next
    case True
    with "1.prems" obtain tgt t where to: "to = Some tgt"
      "lookupOperationAtPath s (rct_service tgt) (rct_operation tgt) (path @ ''.to'') = Inr t"
      by (auto split: if_splits sum.splits)
    show ?thesis
    proof (cases onf)
      case None
      with "1.prems" True to lookup_live [OF to(2)] show ?thesis
        by (auto simp: Let_def intro!: resolved_leaf)
    next
      case (Some rp)
      with "1.prems" True to obtain p where "resolveRecoveryPolicy s op (path @ ''.on_failure'') rp = Inr p"
        by (auto simp: Let_def split: sum.splits)
      with "1.prems" True to lookup_live [OF to(2)] Some "1.IH"(2) show ?thesis
        by (auto simp: Let_def intro!: resolved_leaf)
    qed
  qed
next
  case (2 s op path fbs act dr)
  let ?g = "\<lambda>i rc. case resolveCallNode s op (index_path (path @ ''.fallback'') i) rc of
        Inl err \<Rightarrow> Inl err
      | Inr (CallNode None _) \<Rightarrow> Inl (newParseError (index_path (path @ ''.fallback'') i)
          ''fallback must be a single edge call'')
      | Inr (CallNode (Some e) _) \<Rightarrow> Inr (Edge (e_ref e) (Some op) (e_to e) (e_protocol e)
          (e_latency e) (e_error_rate e) (e_timeout e) (e_retries e) (e_retry_backoff e)
          (e_retry_base_delay e) (e_on_failure e))"
  let ?rs = "map_indexed (\<lambda>i fb. case fb of
      None \<Rightarrow> Inl (newParseError (index_path (path @ ''.fallback'') i) ''call node is required'')
    | Some rc \<Rightarrow> ?g i rc) fbs"
  from "2.prems"(2) have p: "p = Recovery (map Some (rights ?rs)) (parseExhaustedAction act) dr"
    by (auto simp: Let_def split: option.splits)
  have "resolved_edge s op f" if f: "f \<in> set (rights ?rs)" for f
  proof -
    from f obtain i rc where rc: "Some rc \<in> set fbs" and g: "?g i rc = Inr f"
      by (rule rights_map_indexed)
    then obtain e ps where n: "resolveCallNode s op (index_path (path @ ''.fallback'') i) rc = Inr (CallNode (Some e) ps)"
      by (auto split: sum.splits call_node.splits option.splits)
    with "2.IH" [OF rc refl "2.prems"(1) n] g show ?thesis
      by (auto dest: resolved_retarget)
  qed
  with p show ?case by (simp add: resolved_fallbacks_def)
qed

section \<open>Steps and fault targets\<close>

lemma resolveStep_shape: "resolveStep s path rs = Inr t \<Longrightarrow> step_shape s t"
proof (induction s path rs arbitrary: t rule: resolveStep.induct)
  case (1 s path svc opn par)
  show ?case
  proof (cases "par = []")
    case False
    let ?rs = "map_indexed (\<lambda>i child. case child of
               None \<Rightarrow> Inl (newParseError (index_path (path @ ''.parallel'') i) ''step is required'')
             | Some rs \<Rightarrow> resolveStep s (index_path (path @ ''.parallel'') i) rs) par"
    from False "1.prems" have n: "svc = []" "opn = []" "lefts ?rs = []" "t = Step None (map Some (rights ?rs))"
      by (auto simp: Let_def split: if_splits option.splits)
    have "step_shape s m" if "m \<in> set (rights ?rs)" for m
    proof -
      from that obtain i rs where "Some rs \<in> set par"
        and "resolveStep s (index_path (path @ ''.parallel'') i) rs = Inr m"
        by (rule rights_map_indexed)
      with "1.IH" n False show ?thesis by simp
    qed
    with n False show ?thesis
      by (auto intro!: step_shape.group simp: rights_nonempty)
  next
    case True
    with "1.prems" show ?thesis
      by (auto simp: step_shape_iff dest: lookup_live split: if_splits sum.splits)
  qed
qed

lemma first_some_append: "first_some (xs @ ys) = (case first_some xs of None \<Rightarrow> first_some ys | Some x \<Rightarrow> Some x)"
  by (induction xs rule: first_some.induct) auto

lemma find_append: "find P (xs @ ys) = (case find P xs of None \<Rightarrow> find P ys | Some x \<Rightarrow> Some x)"
  by (induction xs) auto

lemma find_concat: "find P (concat xss) = first_some (map (find P) xss)"
proof (induction xss)
  case (Cons xs xss)
  then show ?case by (cases "find P xs") (simp_all add: find_append)
qed simp

text \<open>findEdge returns the first edge of the walk between the two operations.\<close>

lemma find_edge_in_node_walk: "find_edge_in_node src tgt n = find (edge_between src tgt) (edges_in_node n)"
proof (induction src tgt n rule: find_edge_in_node.induct)
  case (1 src tgt e ps)
  let ?P = "edge_between src tgt"
  have pre: "find ?P (opt_list (\<lambda>ed. ed # concat (map (opt_list (\<lambda>f. [f])) (fallbacks ed))) e)
      = (case e of None \<Rightarrow> None | Some ed \<Rightarrow> if ?P ed then Some ed else find ?P (non_nil (fallbacks ed)))"
    by (cases e) (simp_all add: non_nil_def)
  show ?case
  proof (cases "find ?P (opt_list (\<lambda>ed. ed # concat (map (opt_list (\<lambda>f. [f])) (fallbacks ed))) e)")
    case None
    then have "map (\<lambda>p. case p of None \<Rightarrow> None | Some n \<Rightarrow> find_edge_in_node src tgt n) ps
        = map (find ?P) (map (opt_list edges_in_node) ps)"
      using "1.IH" unfolding pre by (auto split: option.splits)
    then have "first_some (map (\<lambda>p. case p of None \<Rightarrow> None | Some n \<Rightarrow> find_edge_in_node src tgt n) ps)
        = find ?P (concat (map (opt_list edges_in_node) ps))"
      unfolding find_concat by (rule arg_cong)
    with None pre show ?thesis by (simp add: find_append)
  next
    case (Some found)
    moreover from Some have "(case e of None \<Rightarrow> None | Some ed \<Rightarrow> if ?P ed then Some ed
        else find ?P (non_nil (fallbacks ed))) = Some found"
      unfolding pre .
    ultimately show ?thesis by (simp add: find_append)
  qed
qed

lemma findEdge_walk: "findEdge s src tgt = find (edge_between src tgt) (forEachOutgoingEdge s)"
proof -
  have "findEdgeInCalls nodes src tgt = find (edge_between src tgt) (forEachEdgeInCalls nodes)" for nodes
  proof -
    have "map (\<lambda>p. case p of None \<Rightarrow> None | Some n \<Rightarrow> find_edge_in_node src tgt n) nodes
        = map (find (edge_between src tgt)) (map (opt_list edges_in_node) nodes)"
      by (auto simp: find_edge_in_node_walk split: option.splits)
    then show ?thesis
      unfolding findEdgeInCalls_def forEachEdgeInCalls_def find_concat by (rule arg_cong)
  qed
  then show ?thesis
    by (simp add: findEdge_def forEachOutgoingEdge_def find_concat comp_def)
qed

lemma findEdge_live:
  assumes "findEdge s src tgt = Some e"
  shows "e_ref e \<in> edgeSet s"
  using assms by (auto simp: findEdge_walk edgeSet_def find_Some_iff)

lemma resolveFaultTarget_live:
  assumes "resolveFaultTarget s spec path = Inr t"
  shows "target_ok s (ft_kind t) (ft_service t) (ft_operation t) (ft_edge t)"
  using assms
  by (auto simp: resolveFaultTarget_def resolveEdgeTarget_def Let_def lookup_live lookup_service_live
      findEdge_live split: option.splits if_splits sum.splits)

section \<open>buildSchema\<close>

definition raw_maps_ok :: "raw_schema \<Rightarrow> bool" where
  "raw_maps_ok raw \<longleftrightarrow> gomap_ok (raw_services raw) \<and> gomap_ok (raw_journeys raw)"

lemma set_update_subset: "set (AList.update k v m) \<subseteq> insert (k, v) (set m)"
  by (induction m) auto

lemma build_operations_entry:
  assumes "(name, q) \<in> set (build_operations sname ros)"
  shows "\<exists>i < length ros. q = Some (OpRef sname i) \<and> ro_name (ptrDefault (ros ! i) empty_raw_operation) = name"
proof -
  have "(name, q) \<in> set (fold (\<lambda>(i, ro). AList.update (ro_name (ptrDefault ro empty_raw_operation))
      (Some (OpRef sname i))) es m) \<Longrightarrow> (name, q) \<in> set m \<or> (\<exists>(i, ro) \<in> set es.
      q = Some (OpRef sname i) \<and> ro_name (ptrDefault ro empty_raw_operation) = name)" for es m
    by (induction es arbitrary: m) (use set_update_subset in \<open>fastforce\<close>)+
  with assms show ?thesis
    unfolding build_operations_def by (fastforce simp: in_set_enumerate_eq)
qed

lemma gomap_ok_build_operations: "gomap_ok (build_operations sname ros)"
proof -
  have "gomap_ok m \<Longrightarrow> gomap_ok (fold (\<lambda>(i, ro). AList.update (ro_name (ptrDefault ro empty_raw_operation))
      (Some (OpRef sname i))) es m)" for es m
    by (induction es arbitrary: m) (auto simp: case_prod_unfold)
  then show ?thesis by (simp add: build_operations_def)
qed

lemma gomap_ok_service_at: "gomap_ok (svc_operations (service_at ns raw r))"
  by (cases r) (simp add: build_service_def gomap_ok_build_operations)

lemma op_calls_operation_at: "op_calls (operation_at raw op) = []"
  by (cases op) (simp add: build_operation_def)

lemma buildSchema_maps:
  assumes "raw_maps_ok raw"
  shows "maps_ok (buildSchema raw)"
  using assms gomap_ok_service_at
  by (auto simp: maps_ok_def buildSchema_def raw_maps_ok_def Let_def gomap_ok_def comp_def case_prod_unfold)

lemma buildSchema_identity: "identity_ok (buildSchema raw)"
proof -
  have "\<exists>op. q = Some op \<and> op_service (s_op (buildSchema raw) op) = Some (SvcRef sname)
      \<and> op_name (s_op (buildSchema raw) op) = name"
    if "(name, q) \<in> set (svc_operations (s_svc (buildSchema raw) (SvcRef sname)))" for name q sname
    using that by (auto simp: buildSchema_def Let_def build_service_def build_operation_def raw_operation_at_def
        dest!: build_operations_entry)
  then show ?thesis
    by (auto simp: identity_ok_def) (auto simp: buildSchema_def Let_def build_service_def)
qed

section \<open>resolveReferences\<close>

text \<open>What the resolution of the calls keeps, and what it adds for the operations of the schema.\<close>

definition same_shape :: "schema \<Rightarrow> schema \<Rightarrow> bool" where
  "same_shape s t \<longleftrightarrow> s_services t = s_services s \<and> s_svc t = s_svc s
     \<and> (\<forall>r. op_name (s_op t r) = op_name (s_op s r) \<and> op_service (s_op t r) = op_service (s_op s r))"

definition calls_resolved :: "schema \<Rightarrow> bool" where
  "calls_resolved s \<longleftrightarrow> (\<forall>op \<in> operationSet s. \<forall>p \<in> set (op_calls (s_op s op)).
     \<exists>n. p = Some n \<and> resolved_node s op n)"

lemma same_shape_refl [simp]: "same_shape s s"
  by (simp add: same_shape_def)

lemma same_shape_trans: "same_shape s t \<Longrightarrow> same_shape t u \<Longrightarrow> same_shape s u"
  by (simp add: same_shape_def)

lemma same_shape_entries: "same_shape s t \<Longrightarrow> operation_entries t = operation_entries s"
  by (simp add: same_shape_def operation_entries_def service_entries_def)

lemma same_shape_operationSet: "same_shape s t \<Longrightarrow> operationSet t = operationSet s"
  by (simp add: same_shape_entries operationSet_def allSchemaOperations_def)

lemma same_shape_resolved: "same_shape s t \<Longrightarrow> resolved_node t = resolved_node s"
proof -
  assume "same_shape s t"
  then have "in_op_set t = in_op_set s"
    by (simp add: in_op_set_def same_shape_operationSet fun_eq_iff split: option.splits)
  then show "resolved_node t = resolved_node s"
    by (simp add: resolved_node_def resolved_edge_def endpoints_ok_def fun_eq_iff)
qed

lemma same_shape_identity: "same_shape s t \<Longrightarrow> identity_ok s \<Longrightarrow> identity_ok t"
  by (simp add: same_shape_def identity_ok_def)

lemma same_shape_step: "same_shape s t \<Longrightarrow> step_shape t = step_shape s"
proof -
  assume s: "same_shape s t"
  have "step_shape u x \<Longrightarrow> operationSet u = operationSet v \<Longrightarrow> step_shape v x" for u v x
    by (induction rule: step_shape.induct) (auto simp: step_shape_iff)
  with same_shape_operationSet [OF s] show ?thesis by (auto simp: fun_eq_iff)
qed

lemma resolve_operation_inv:
  assumes "resolve_operation svcName i ro (s, errs) = (t, errs')" and "calls_resolved s"
  shows "same_shape s t \<and> calls_resolved t"
proof (cases "t = s")
  case False
  with assms(1) obtain r op where op: "ptr_at (s_services s) svcName = Some r"
    "ptr_at (svc_operations (s_svc s r)) (ro_name ro) = Some op"
    by (auto simp: resolve_operation_def split: option.splits)
  let ?rs = "map_indexed (\<lambda>k rc. resolveCallNodePtr s op (index_path
      (index_path (''services.'' @ svcName @ ''.operations'') i @ ''.calls'') k) rc) (ro_calls ro)"
  from assms(1) op have t: "t = s\<lparr>s_op := (s_op s)(op := (s_op s op)\<lparr>op_calls := map Some (rights ?rs)\<rparr>)\<rparr>"
    by (simp add: resolve_operation_def Let_def)
  then have shape: "same_shape s t" by (simp add: same_shape_def)
  have "op \<in> operationSet s"
    using op unfolding operationSet_iff operation_entries_iff by (auto dest!: ptr_at_in_set)
  then have "resolved_node s op n" if "n \<in> set (rights ?rs)" for n
    using that by (auto simp: set_rights set_map_indexed resolveCallNodePtr_def split: option.splits
        dest!: sym [of "Inr n"] resolveCallNode_resolved(1))
  with assms(2) shape have "calls_resolved t"
    by (auto simp: calls_resolved_def same_shape_operationSet same_shape_resolved t)
  with shape show ?thesis by simp
qed (use assms in simp)

lemma resolve_services_inv:
  assumes "fold (\<lambda>(name, rs). resolve_service name rs) svcs (s, errs) = (t, errs')" and "calls_resolved s"
  shows "same_shape s t \<and> calls_resolved t"
proof -
  have ops: "same_shape s t \<and> calls_resolved t"
    if "fold (\<lambda>(i, ro) st. case ro of None \<Rightarrow> st | Some o' \<Rightarrow> resolve_operation svcName i o' st) es (s, errs)
      = (t, errs')" "calls_resolved s" for es svcName s errs t errs'
    using that
  proof (induction es arbitrary: s errs)
    case (Cons e es)
    obtain u errs1 where u: "(case e of (i, ro) \<Rightarrow> \<lambda>st. case ro of None \<Rightarrow> st | Some o' \<Rightarrow>
        resolve_operation svcName i o' st) (s, errs) = (u, errs1)" by fastforce
    then have "same_shape s u \<and> calls_resolved u"
      using Cons.prems(2) resolve_operation_inv by (fastforce split: prod.splits option.splits)
    with Cons.IH [of u errs1] Cons.prems(1) u show ?case by (auto intro: same_shape_trans)
  qed simp
  show ?thesis
    using assms
  proof (induction svcs arbitrary: s errs)
    case (Cons e es)
    obtain name rs where e: "e = (name, rs)" by fastforce
    obtain u errs1 where u: "resolve_service name rs (s, errs) = (u, errs1)" by fastforce
    then have "same_shape s u \<and> calls_resolved u"
      using Cons.prems(2) ops by (fastforce simp: resolve_service_def split: option.splits)
    with Cons.IH [of u errs1] Cons.prems(1) u e show ?case by (auto intro: same_shape_trans)
  qed simp
qed

lemma resolveReferences_result:
  assumes "resolveReferences (buildSchema raw) raw = (s, None)" and "raw_maps_ok raw"
  shows "maps_ok s" and "identity_ok s" and "calls_resolved s"
    and "\<forall>(name, p) \<in> set (s_journeys s). \<exists>j. p = Some j \<and> (\<forall>p \<in> set (j_steps j). \<exists>t. p = Some t \<and> step_shape s t)"
    and "\<forall>f \<in> set (s_faults s). target_ok s (ft_kind (f_target f)) (ft_service (f_target f))
      (ft_operation (f_target f)) (ft_edge (f_target f))"
proof -
  obtain s1 errs1 where s1: "fold (\<lambda>(name, rs). resolve_service name rs) (raw_services raw)
      (buildSchema raw, []) = (s1, errs1)" by fastforce
  define js where "js = map (\<lambda>(name, rj). (name, resolve_journey s1 name rj)) (raw_journeys raw)"
  define s2 where "s2 = s1\<lparr>s_journeys := map (\<lambda>(name, j, errs). (name, Some j)) js\<rparr>"
  define fs where "fs = map_indexed (\<lambda>i rf. resolve_fault s2 i rf) (raw_faults raw)"
  have s: "s = s2\<lparr>s_faults := rights fs\<rparr>"
    using assms(1) s1 by (simp add: resolveReferences_def js_def s2_def fs_def Let_def)
  have "calls_resolved (buildSchema raw)"
    by (simp add: calls_resolved_def buildSchema_def Let_def op_calls_operation_at)
  then have inv: "same_shape (buildSchema raw) s1" "calls_resolved s1"
    using resolve_services_inv [OF s1] by auto
  have s12: "same_shape s1 s" "s_op s = s_op s1" "same_shape s2 s"
    by (simp_all add: s s2_def same_shape_def)
  show "identity_ok s"
    using buildSchema_identity inv(1) s12(1) by (blast intro: same_shape_identity)
  show "calls_resolved s"
    using inv(2) s12 by (auto simp: calls_resolved_def same_shape_operationSet same_shape_resolved)
  have "map fst (s_journeys s) = map fst (raw_journeys raw)"
    by (simp add: s s2_def js_def comp_def case_prod_unfold)
  then show "maps_ok s"
    using buildSchema_maps [OF assms(2)] assms(2) inv(1) s12(1)
    by (simp add: maps_ok_def raw_maps_ok_def same_shape_def gomap_ok_def)
  have step: "step_shape s t" if "resolveStepPtr s1 path p = Inr t" for path p t
    using that same_shape_step [OF s12(1)]
    by (auto simp: resolveStepPtr_def dest: resolveStep_shape split: option.splits)
  have "\<exists>t. q = Some t \<and> step_shape s t"
    if "q \<in> set (j_steps (fst (resolve_journey s1 name rj)))" for q name rj
    using that by (auto simp: resolve_journey_def Let_def set_rights set_map_indexed
        dest!: sym [of "Inr _"] intro: step)
  then show "\<forall>(name, p) \<in> set (s_journeys s). \<exists>j. p = Some j
      \<and> (\<forall>p \<in> set (j_steps j). \<exists>t. p = Some t \<and> step_shape s t)"
    by (auto simp: s s2_def js_def case_prod_unfold)
  have edges: "edgeSet s = edgeSet s2"
    by (simp add: edgeSet_def forEachOutgoingEdge_def allSchemaOperations_def operation_entries_def
        service_entries_def s)
  have tgt: "target_ok s k a b c = target_ok s2 k a b c" for k a b c
    using same_shape_operationSet [OF s12(3)] edges
    by (cases "(s, k, a, b, c)" rule: target_ok.cases) (auto simp: serviceInSchema_def s)
  show "\<forall>f \<in> set (s_faults s). target_ok s (ft_kind (f_target f)) (ft_service (f_target f))
      (ft_operation (f_target f)) (ft_edge (f_target f))"
    unfolding tgt
  proof
    fix f assume "f \<in> set (s_faults s)"
    then obtain i where "resolve_fault s2 i (raw_faults raw ! i) = Inr f"
      by (auto simp: s fs_def set_rights set_map_indexed dest: sym)
    then show "target_ok s2 (ft_kind (f_target f)) (ft_service (f_target f))
      (ft_operation (f_target f)) (ft_edge (f_target f))"
      by (auto simp: resolve_fault_def split: option.splits sum.splits dest: resolveFaultTarget_live)
  qed
qed

text \<open>
  C11: Whatever YAML is decoded, when resolveReferences reports no error then the schema it has
  built satisfies every structural invariant R-STR-1, 2, 3, 5, 6, 7 and 8 by construction: the
  validators of identity, back pointers, orphan references, journeys, fault targets, call shapes
  and recovery ownership all report nothing, and Validate reduces to the cycle check and the
  domain ranges.
\<close>

theorem resolve_establishes_structure:
  assumes "raw_maps_ok raw" and "resolveReferences (buildSchema raw) raw = (s, None)"
  shows "Validate (Some s) = errors_Join (validateDAG s @ validateDomainRanges s)"
proof -
  note r = resolveReferences_result [OF assms(2,1)]
  have "validateMapKeyConsistency s = []" "validateBackPointers s = []"
    using identity_validators [OF r(1)] r(2) by simp_all
  moreover have "validateNoOrphanReferences s = []" "validateRecoveryPolicyOwnership s = []"
    "validateCallNodeVariants s = []"
  proof -
    have "(\<forall>p \<in> set (op_calls (s_op s op)). \<exists>n. p = Some n \<and> node_shape n)
        \<and> (\<forall>e \<in> set (forEachEdgeInCalls (op_calls (s_op s op))). endpoints_ok s e \<and> owned e)"
      if "op \<in> operationSet s" for op
      using r(3) that by (fastforce simp: calls_resolved_def resolved_node_def forEachEdgeInCalls_def
          dest: resolved_edgeD)
    with structural_call_validators [of s] show "validateNoOrphanReferences s = []"
      "validateRecoveryPolicyOwnership s = []" "validateCallNodeVariants s = []" by blast+
  qed
  moreover have "validateJourneyReachability s = []"
    unfolding validateJourneyReachability_def concat_map_pair_Nil
    using r(4) by (fastforce simp: validateStepsReachable_ok split: option.splits)
  moreover have "validateFaultTargets s = []"
    using r(5) by (simp add: validateFaultTargets_def ok_simps validateFaultTarget_ok)
  ultimately show ?thesis
    by (simp add: Validate_def validation_errors_def)
qed

text \<open>
  C8: Parsing is sound: a schema that the pipeline of Parse returns is well-formed, its call
  graph has no cycle, and every reference, range and name satisfies the specification.
\<close>

theorem parse_raw_sound:
  assumes "raw_maps_ok raw" and "parse_raw raw = Inr s"
  shows "schema_ok s"
proof -
  from assms(2) have "resolveReferences (buildSchema raw) raw = (s, None)" and "Validate (Some s) = None"
    by (auto simp: parse_raw_def split: prod.splits option.splits)
  with Validate_ok [OF resolveReferences_result(1) [OF _ assms(1)]] show ?thesis by simp
qed

end
