(* ===== verification/Topology_Marshal.thy ===== *)
theory Topology_Marshal
  imports Topology_Equal Topology_Resolve
begin

text \<open>
  topology/marshal.go: a resolved schema is turned back into the raw YAML shape, leaving out what
  the parser would fill in. The second half shows what parsing the result gives back.
\<close>

section \<open>Leaves\<close>

text \<open>\<open>if x != 0 { raw.X = ptr(x) }\<close>; the comparison of floats keeps a NaN and drops both zeros.\<close>

definition ptrInt_unless :: "int \<Rightarrow> int \<Rightarrow> int option" where
  "ptrInt_unless d x = (if x = d then None else Some x)"

definition ptrFloat64_unless :: "f64 \<Rightarrow> f64 \<Rightarrow> f64 option" where
  "ptrFloat64_unless d x = (if feq x d then None else Some x)"

definition marshalMetricFaultLink :: "metric_fault_link option \<Rightarrow> raw_metric_fault_link option" where
  "marshalMetricFaultLink p = map_option (\<lambda>link. \<lparr>rfl_kind = fault_kind_String (fl_kind link),
     rfl_delta = (if fl_has_value link then None else ptrFloat64_unless (Fin 0) (fl_delta link)),
     rfl_value = (if fl_has_value link then Some (fl_value link) else None)\<rparr>) p"

definition marshalStacks :: "stack_sample list \<Rightarrow> raw_stack option list" where
  "marshalStacks stacks = map (\<lambda>stack. Some \<lparr>rst_frames = st_frames stack, rst_weight = st_weight stack\<rparr>) stacks"

definition marshalProfile :: "profile_spec option \<Rightarrow> raw_profile option" where
  "marshalProfile p = map_option (\<lambda>spec. \<lparr>rpr_enabled = pr_enabled spec,
     rpr_sample_rate = (if pr_sample_rate spec \<noteq> 0 \<and> pr_sample_rate spec \<noteq> 100
       then Some (pr_sample_rate spec) else None),
     rpr_baseline = marshalStacks (pr_baseline spec), rpr_incident = marshalStacks (pr_incident spec),
     rpr_when_fault = map_option fault_kind_String (pr_when_fault spec)\<rparr>) p"

definition marshalLogEvents :: "log_event list \<Rightarrow> raw_log_event option list" where
  "marshalLogEvents events = map (\<lambda>ev. Some \<lparr>rle_name = le_name ev,
     rle_severity = (if le_severity ev \<noteq> SeverityInfo then log_severity_String (le_severity ev) else ''''),
     rle_condition = (if le_condition ev \<noteq> ConditionAlways then log_condition_String (le_condition ev) else ''''),
     rle_body = le_body ev, rle_attributes = le_attributes ev\<rparr>) events"

definition marshalMetrics :: "metric_spec list \<Rightarrow> raw_metric option list" where
  "marshalMetrics metrics = map (\<lambda>m. Some \<lparr>rm_name = m_name m, rm_type = metric_type_String (m_type m),
     rm_unit = m_unit m, rm_baseline = ptrFloat64_unless (Fin 0) (m_baseline m),
     rm_condition = (if m_condition m \<noteq> ConditionAlways then log_condition_String (m_condition m) else ''''),
     rm_attributes = m_attributes m, rm_when_fault = marshalMetricFaultLink (m_when_fault m),
     rm_source = None\<rparr>) metrics"

definition marshalObservableMetrics :: "observable_metric list \<Rightarrow> raw_metric option list" where
  "marshalObservableMetrics metrics = map (\<lambda>m. Some \<lparr>rm_name = om_name m,
     rm_type = metric_type_String (om_type m), rm_unit = om_unit m,
     rm_baseline = ptrFloat64_unless (Fin 0) (om_baseline m), rm_condition = '''',
     rm_attributes = om_attributes m, rm_when_fault = marshalMetricFaultLink (om_when_fault m),
     rm_source = map_option (\<lambda>src. \<lparr>rsrc_accumulator = src_accumulator src, rsrc_minus = src_minus src\<rparr>)
       (om_source m)\<rparr>) metrics"

definition marshalStateUpdates :: "state_update list \<Rightarrow> raw_state_update option list" where
  "marshalStateUpdates updates = map (\<lambda>u. Some \<lparr>rsu_key = su_key u,
     rsu_delta = ptrFloat64_unless (Fin 0) (su_delta u),
     rsu_condition = (if su_condition u \<noteq> ConditionAlways then log_condition_String (su_condition u) else ''''),
     rsu_when_fault = marshalMetricFaultLink (su_when_fault u)\<rparr>) updates"

definition marshalLatency :: "latency_dist \<Rightarrow> raw_latency_dist option" where
  "marshalLatency l =
     (let distribution = (if l_distribution l = '''' then ''constant'' else l_distribution l) in
      if distribution = ''constant'' \<and> l_p50 l = 0 \<and> l_p95 l = 0 then None
      else Some \<lparr>rl_distribution = (if distribution \<noteq> ''constant'' then distribution else ''''),
        rl_p50 = (if l_p50 l \<noteq> 0 then Some (l_p50 l) else None),
        rl_p95 = (if l_p95 l \<noteq> 0 \<and> l_p95 l \<noteq> l_p50 l then Some (l_p95 l) else None)\<rparr>)"

definition marshalSeverity :: "severity_params \<Rightarrow> raw_severity option" where
  "marshalSeverity v =
     (if feq (sev_probability v) (Fin 0) \<and> feq (sev_multiplier v) (Fin 0) \<and> sev_add v = 0 \<and> feq (sev_value v) (Fin 0)
      then None
      else Some \<lparr>rsev_probability = ptrFloat64_unless (Fin 0) (sev_probability v),
        rsev_multiplier = ptrFloat64_unless (Fin 0) (sev_multiplier v),
        rsev_add = ptrInt_unless 0 (sev_add v), rsev_value = ptrFloat64_unless (Fin 0) (sev_value v)\<rparr>)"

definition marshalFaultSchedule :: "schedule_point list \<Rightarrow> raw_fault_schedule option list" where
  "marshalFaultSchedule schedule = map (\<lambda>point. Some \<lparr>rsp_at = Some (sp_at point),
     rsp_intensity = Some (sp_intensity point)\<rparr>) schedule"

section \<open>Calls and steps\<close>

definition empty_raw_call_node :: raw_call_node where
  "empty_raw_call_node = RawCallNode None [] '''' None None None None '''' None None"

definition marshalCallTarget :: "schema \<Rightarrow> op_ref option \<Rightarrow> raw_call_target" where
  "marshalCallTarget s p = (case p of
       None \<Rightarrow> \<lparr>rct_service = '''', rct_operation = ''''\<rparr>
     | Some op \<Rightarrow> \<lparr>rct_service = serviceID s (op_service (s_op s op)), rct_operation = op_name (s_op s op)\<rparr>)"

fun marshalEdge :: "schema \<Rightarrow> edge \<Rightarrow> raw_call_node" where
  "marshalEdge s (Edge r src to p l er tmo rts bo bd onf) =
     RawCallNode (Some (marshalCallTarget s to)) [] (protocol_String p) (marshalLatency l)
       (ptrFloat64_unless (Fin 0) er) (ptrInt_unless 0 tmo) (ptrInt_unless 0 rts)
       (if bo = BackoffExponential then '''' else backoff_policy_String bo)
       (if bd \<noteq> 0 \<and> bd \<noteq> DefaultRetryBaseDelay then Some bd else None)
       (case onf of
          None \<Rightarrow> None
        | Some (Recovery fs act dr) \<Rightarrow> Some (RawRecovery
            (map (\<lambda>f. Some (case f of None \<Rightarrow> empty_raw_call_node | Some e \<Rightarrow> marshalEdge s e)) fs)
            (if act \<noteq> ExhaustedPropagate then exhausted_action_String act else '''') dr))"

fun marshalCallNode :: "schema \<Rightarrow> call_node \<Rightarrow> raw_call_node" where
  "marshalCallNode s (CallNode e ps) = (case e of
       Some ed \<Rightarrow> marshalEdge s ed
     | None \<Rightarrow> RawCallNode None
         (map (\<lambda>p. Some (case p of None \<Rightarrow> empty_raw_call_node | Some n \<Rightarrow> marshalCallNode s n)) ps)
         '''' None None None None '''' None None)"

definition marshalCallNodes :: "schema \<Rightarrow> call_node option list \<Rightarrow> raw_call_node option list" where
  "marshalCallNodes s nodes = map (\<lambda>p. Some (case p of None \<Rightarrow> empty_raw_call_node | Some n \<Rightarrow> marshalCallNode s n)) nodes"

fun marshalStep :: "schema \<Rightarrow> step \<Rightarrow> raw_step" where
  "marshalStep s (Step p ps) = (case p of
       Some op \<Rightarrow> RawStep (serviceID s (op_service (s_op s op))) (op_name (s_op s op)) []
     | None \<Rightarrow> RawStep '''' '''' (map (\<lambda>q. Some (case q of None \<Rightarrow> RawStep '''' '''' [] | Some t \<Rightarrow> marshalStep s t)) ps))"

definition marshalSteps :: "schema \<Rightarrow> step option list \<Rightarrow> raw_step option list" where
  "marshalSteps s steps = map (\<lambda>q. Some (case q of None \<Rightarrow> RawStep '''' '''' [] | Some t \<Rightarrow> marshalStep s t)) steps"

section \<open>Services, journeys and faults\<close>

definition marshalOperations :: "schema \<Rightarrow> (string, op_ref option) gomap \<Rightarrow> raw_operation option list" where
  "marshalOperations s ops = map (\<lambda>name. Some (case ptr_at ops name of
       None \<Rightarrow> empty_raw_operation\<lparr>ro_name := name\<rparr>
     | Some r \<Rightarrow> (let op = s_op s r in
         \<lparr>ro_name = op_name op, ro_calls = marshalCallNodes s (op_calls op),
          ro_log_events = marshalLogEvents (op_log_events op), ro_metrics = marshalMetrics (op_metrics op),
          ro_state_updates = marshalStateUpdates (op_state_updates op),
          ro_profile = marshalProfile (op_profile op)\<rparr>))) (sort_strings (map fst ops))"

definition marshalService :: "schema \<Rightarrow> svc_ref option \<Rightarrow> string \<Rightarrow> raw_service" where
  "marshalService s p schemaNamespace = (case p of
       None \<Rightarrow> empty_raw_service
     | Some r \<Rightarrow> (let svc = s_svc s r in
         \<lparr>rs_namespace = (if svc_namespace svc \<noteq> '''' \<and> svc_namespace svc \<noteq> schemaNamespace
            then svc_namespace svc else ''''),
          rs_kind = service_kind_String (svc_kind svc), rs_replicas = ptrInt_unless 1 (svc_replicas svc),
          rs_language = svc_language svc, rs_framework = svc_framework svc, rs_version = svc_version svc,
          rs_metrics = marshalObservableMetrics (svc_metrics svc),
          rs_operations = marshalOperations s (svc_operations svc)\<rparr>))"

definition marshalJourney :: "schema \<Rightarrow> journey option \<Rightarrow> raw_journey" where
  "marshalJourney s p = (case p of
       None \<Rightarrow> empty_raw_journey
     | Some j \<Rightarrow> \<lparr>rj_steps = marshalSteps s (j_steps j), rj_weight = ptrFloat64_unless (Fin 1) (j_weight j)\<rparr>)"

definition marshalFaultTarget :: "schema \<Rightarrow> fault_target \<Rightarrow> string" where
  "marshalFaultTarget s t = (case ft_kind t of
       TargetNode \<Rightarrow> ''node:'' @ serviceID s (ft_service t)
     | TargetOperation \<Rightarrow> ''operation:'' @ identifyOp s (ft_operation t)
     | TargetEdge \<Rightarrow> (case ft_edge t of
           None \<Rightarrow> ''edge:''
         | Some e \<Rightarrow> ''edge:'' @ identifyOp s (e_from e) @ ''->'' @ identifyOp s (e_to e))
     | TargetOther _ \<Rightarrow> ''unknown:'')"

definition marshalFault :: "schema \<Rightarrow> fault_spec \<Rightarrow> raw_fault" where
  "marshalFault s f = \<lparr>rf_target = marshalFaultTarget s (f_target f), rf_kind = fault_kind_String (f_kind f),
     rf_severity = marshalSeverity (f_severity f), rf_schedule = marshalFaultSchedule (f_schedule f)\<rparr>"

text \<open>The maps are filled in the order of the sorted keys.\<close>

definition MarshalYAML :: "schema \<Rightarrow> raw_schema" where
  "MarshalYAML s =
     \<lparr>raw_namespace = (if s_namespace s = '''' \<or> s_namespace s = DefaultNamespace then '''' else s_namespace s),
      raw_services = map (\<lambda>sid. (sid, Some (marshalService s (ptr_at (s_services s) sid) (effectiveSchemaNamespace s))))
        (sort_strings (map fst (s_services s))),
      raw_journeys = map (\<lambda>name. (name, Some (marshalJourney s (ptr_at (s_journeys s) name))))
        (sort_strings (map fst (s_journeys s))),
      raw_faults = map (\<lambda>f. Some (marshalFault s f)) (s_faults s)\<rparr>"

section \<open>The fields that are written\<close>

text \<open>
  The struct tags of raw.go decide what the encoder writes of this: a field tagged \<open>omitempty\<close> is
  left out when it is a nil pointer, a zero, an empty string, or an empty slice or map, and is zero
  when it is read back. Only a non-nil empty map differs from the zero that replaces it (a nil and
  an empty slice are one list): the attributes of a metric and of a log event, and the default
  response of a recovery policy.
\<close>

fun written_map :: "attributes \<Rightarrow> attributes" where
  "written_map (Some []) = None"
| "written_map a = a"

definition written_metric :: "raw_metric \<Rightarrow> raw_metric" where
  "written_metric rm = rm\<lparr>rm_attributes := written_map (rm_attributes rm)\<rparr>"

definition written_log_event :: "raw_log_event \<Rightarrow> raw_log_event" where
  "written_log_event ev = ev\<lparr>rle_attributes := written_map (rle_attributes ev)\<rparr>"

fun written_call_node :: "raw_call_node \<Rightarrow> raw_call_node"
and written_recovery :: "raw_recovery \<Rightarrow> raw_recovery" where
  "written_call_node (RawCallNode to par proto lat er tmo rts rbo rbd onf) =
     RawCallNode to (map (map_option written_call_node) par) proto lat er tmo rts rbo rbd
       (map_option written_recovery onf)"
| "written_recovery (RawRecovery fbs act dr) =
     RawRecovery (map (map_option written_call_node) fbs) act (written_map dr)"

definition written_operation :: "raw_operation \<Rightarrow> raw_operation" where
  "written_operation ro = ro\<lparr>ro_calls := map (map_option written_call_node) (ro_calls ro),
     ro_log_events := map (map_option written_log_event) (ro_log_events ro),
     ro_metrics := map (map_option written_metric) (ro_metrics ro)\<rparr>"

definition written_service :: "raw_service \<Rightarrow> raw_service" where
  "written_service rs = rs\<lparr>rs_metrics := map (map_option written_metric) (rs_metrics rs),
     rs_operations := map (map_option written_operation) (rs_operations rs)\<rparr>"

definition written :: "raw_schema \<Rightarrow> raw_schema" where
  "written raw = raw\<lparr>raw_services := map (\<lambda>(sid, p). (sid, map_option written_service p)) (raw_services raw)\<rparr>"

text \<open>
  The encoder \<open>encode\<close> and the decoder \<open>yaml\<close> of gopkg.in/yaml.v3 on a document: decoding what
  was encoded gives the fields that were written. The encoder has an order of its own for the keys of
  a map and the maps that are read back are ranged over in any order, so the services and the
  journeys come in some order.
\<close>

definition same_entries :: "raw_schema \<Rightarrow> raw_schema \<Rightarrow> bool" where
  "same_entries a b \<longleftrightarrow> raw_namespace a = raw_namespace b \<and> mset (raw_services a) = mset (raw_services b)
     \<and> mset (raw_journeys a) = mset (raw_journeys b) \<and> raw_faults a = raw_faults b"

definition reads_back :: "(raw_schema \<Rightarrow> string) \<Rightarrow> (string \<Rightarrow> bool \<Rightarrow> string + raw_schema) \<Rightarrow> raw_schema \<Rightarrow> bool" where
  "reads_back encode yaml raw \<longleftrightarrow>
     (case yaml (encode raw) False of Inl _ \<Rightarrow> False | Inr read \<Rightarrow> same_entries read (written raw))"

end
