(* ===== verification/Topology_Marshal_Parts.thy ===== *)
theory Topology_Marshal_Parts
  imports Topology_Marshal
begin

text \<open>
  The parts of the round trip from a schema to YAML and back: the leaves, the edges, call nodes and
  steps, and the resolution of a schema none of whose references fails. A part comes back equal when
  the YAML form can express it; the predicates \<open>portable_...\<close> say what that takes.
\<close>

section \<open>What the YAML form can express\<close>

text \<open>A negative zero that is written is read back as a zero, so it counts as one it cannot.\<close>

text \<open>
  Attribute values that equal themselves and keep their type in YAML: maps with distinct keys, no
  NaN, and no float without a fraction, which is written as an integer and read back as one.
\<close>

fun whole :: "f64 \<Rightarrow> bool" where
  "whole (Fin r) = (snd (quotient_of r) = 1)"
| "whole FNegZero = True"
| "whole _ = False"

fun plain :: "any \<Rightarrow> bool" where
  "plain (AnyFloat x) = (\<not> is_nan x \<and> \<not> whole x)"
| "plain (AnyList xs) = (\<forall>x \<in> set xs. plain x)"
| "plain (AnyMap m) = (distinct (map fst m) \<and> (\<forall>(k, v) \<in> set m. plain v))"
| "plain _ = True"

text \<open>A map that is not nil has an entry, otherwise it is left out of the YAML.\<close>

definition plain_attributes :: "attributes \<Rightarrow> bool" where
  "plain_attributes a = pred_option (\<lambda>m. m \<noteq> [] \<and> plain (AnyMap m)) a"

lemma deepEqual_refl: "plain a \<Longrightarrow> deepEqual a a"
proof (induction a)
  case (AnyList xs)
  then show ?case by (auto simp: zip_same_conv_map)
next
  case (AnyMap m)
  have "case map_of m k of None \<Rightarrow> False | Some b \<Rightarrow> deepEqual v b" if "(k, v) \<in> set m" for k v
  proof -
    have "map_of m k = Some v" using AnyMap.prems that by simp
    moreover have "deepEqual v v" using AnyMap.prems that by (intro AnyMap.IH [OF that]) (auto simp: snds.simps)
    ultimately show ?thesis by simp
  qed
  then show ?case by auto
qed auto

lemma deepEqualAttributes_refl: "plain_attributes a \<Longrightarrow> deepEqualAttributes a a"
  by (cases a) (simp_all add: deepEqualAttributes_def plain_attributes_def deepEqual_refl del: deepEqual.simps plain.simps)

definition portable_link :: "metric_fault_link \<Rightarrow> bool" where
  "portable_link l \<longleftrightarrow> validFaultKind (fl_kind l) \<and> \<not> is_nan (fl_delta l) \<and> \<not> is_nan (fl_value l)
     \<and> feq (if fl_has_value l then fl_delta l else fl_value l) (Fin 0) \<and> (fl_has_value l \<longrightarrow> fl_value l \<noteq> FNegZero)"

definition portable_log_event :: "log_event \<Rightarrow> bool" where
  "portable_log_event ev \<longleftrightarrow> validLogSeverity (le_severity ev) \<and> validLogCondition (le_condition ev)
     \<and> plain_attributes (le_attributes ev)"

definition portable_metric :: "metric_spec \<Rightarrow> bool" where
  "portable_metric m \<longleftrightarrow> validSyncMetricType (m_type m) \<and> validLogCondition (m_condition m)
     \<and> \<not> is_nan (m_baseline m) \<and> plain_attributes (m_attributes m) \<and> pred_option portable_link (m_when_fault m)"

definition portable_observable :: "observable_metric \<Rightarrow> bool" where
  "portable_observable m \<longleftrightarrow> validObservableMetricType (om_type m) \<and> \<not> is_nan (om_baseline m)
     \<and> plain_attributes (om_attributes m) \<and> pred_option portable_link (om_when_fault m)"

definition portable_update :: "state_update \<Rightarrow> bool" where
  "portable_update u \<longleftrightarrow> \<not> is_nan (su_delta u) \<and> validLogCondition (su_condition u)
     \<and> pred_option portable_link (su_when_fault u)"

definition portable_profile :: "profile_spec \<Rightarrow> bool" where
  "portable_profile p \<longleftrightarrow> pr_sample_rate p \<noteq> 0 \<and> pred_option validFaultKind (pr_when_fault p)
     \<and> (\<forall>st \<in> set (pr_baseline p) \<union> set (pr_incident p). \<not> is_nan (st_weight st) \<and> st_weight st \<noteq> FNegZero)"

definition portable_operation :: "operation \<Rightarrow> bool" where
  "portable_operation op \<longleftrightarrow> list_all portable_log_event (op_log_events op)
     \<and> list_all portable_metric (op_metrics op) \<and> list_all portable_update (op_state_updates op)
     \<and> pred_option portable_profile (op_profile op)"

definition portable_edge :: "edge \<Rightarrow> bool" where
  "portable_edge e \<longleftrightarrow> validProtocol (e_protocol e) \<and> \<not> is_nan (e_error_rate e) \<and> validBackoff (e_retry_backoff e)
     \<and> l_distribution (e_latency e) \<noteq> '''' \<and> (l_p95 (e_latency e) = 0 \<longrightarrow> l_p50 (e_latency e) = 0)
     \<and> pred_option (\<lambda>rp. validExhausted (rp_on_exhausted rp) \<and> plain_attributes (rp_default_response rp)) (e_on_failure e)"

definition portable_fault :: "fault_spec \<Rightarrow> bool" where
  "portable_fault f \<longleftrightarrow> validFaultKind (f_kind f) \<and> \<not> is_nan (sev_probability (f_severity f))
     \<and> \<not> is_nan (sev_multiplier (f_severity f)) \<and> \<not> is_nan (sev_value (f_severity f))
     \<and> (\<forall>p \<in> set (f_schedule f). \<not> is_nan (sp_intensity p) \<and> sp_intensity p \<noteq> FNegZero)"

section \<open>Leaves\<close>

lemma non_nil_map [simp]: "non_nil (map (\<lambda>x. Some (f x)) xs) = map f xs"
  by (induction xs) (simp_all add: non_nil_def)

lemma equal_slice_map: "(\<And>x. x \<in> set xs \<Longrightarrow> eq x (f x)) \<Longrightarrow> equal_slice eq xs (map f xs)"
  by (simp add: equal_slice_def list.rel_map list.rel_refl_strong)

lemma equal_ptr_map: "(\<And>x. p = Some x \<Longrightarrow> eq x (f x)) \<Longrightarrow> equal_ptr eq p (map_option f p)"
  by (simp add: equal_ptr_def split: option.split)

lemma ptrDefault_simps [simp]: "ptrDefault None d = d" "ptrDefault (Some x) d = x"
  by (simp_all add: ptrDefault_def)

lemma ptrFloat64_default: "\<not> is_nan x \<Longrightarrow> feq x (ptrDefault (ptrFloat64_unless d x) d)"
  by (simp add: ptrFloat64_unless_def)

lemma ptrInt_default [simp]: "ptrDefault (ptrInt_unless d x) d = x"
  by (simp add: ptrInt_unless_def)

lemma link_round_trip:
  assumes "pred_option portable_link p"
  shows "equal_ptr equalMetricFaultLink p (resolveMetricFaultLink (marshalMetricFaultLink p))"
  using assms ptrFloat64_default [of _ "Fin 0"]
  by (auto simp: resolveMetricFaultLink_def marshalMetricFaultLink_def option.map_comp comp_def
      equalMetricFaultLink_def portable_link_def fault_kind.parse_show feq_sym intro!: equal_ptr_map)

lemma condition_round_trip: "validLogCondition c \<Longrightarrow>
  parseLogCondition (if c \<noteq> ConditionAlways then log_condition_String c else '''') = c"
  using log_condition.parse_show [of c] by (simp add: parseLogCondition_def)

lemma severity_round_trip: "validLogSeverity v \<Longrightarrow>
  parseLogSeverity (if v \<noteq> SeverityInfo then log_severity_String v else '''') = v"
  using log_severity.parse_show [of v] by (simp add: parseLogSeverity_def)

lemma log_events_round_trip:
  assumes "list_all portable_log_event evs"
  shows "equal_slice equalLogEventSpec evs (resolveLogEvents (marshalLogEvents evs))"
  using assms condition_round_trip severity_round_trip
  by (auto simp: resolveLogEvents_def marshalLogEvents_def equalLogEventSpec_def portable_log_event_def list_all_iff
      deepEqualAttributes_refl comp_def intro!: equal_slice_map)

lemma metrics_round_trip:
  assumes "list_all portable_metric ms"
  shows "equal_slice equalMetricSpec ms (resolveMetrics (marshalMetrics ms))"
  using assms condition_round_trip
  by (auto simp: resolveMetrics_def marshalMetrics_def equalMetricSpec_def portable_metric_def list_all_iff
      deepEqualAttributes_refl ptrFloat64_default link_round_trip metric_type.parse_show comp_def
      intro!: equal_slice_map)

lemma observable_metrics_round_trip:
  assumes "list_all portable_observable ms"
  shows "equal_slice equalObservableMetricSpec ms (resolveObservableMetrics (marshalObservableMetrics ms))"
  using assms
  by (auto simp: resolveObservableMetrics_def marshalObservableMetrics_def equalObservableMetricSpec_def
      portable_observable_def list_all_iff deepEqualAttributes_refl ptrFloat64_default link_round_trip
      metric_type.parse_show comp_def option.map_comp intro!: equal_slice_map equal_ptr_map)

lemma state_updates_round_trip:
  assumes "list_all portable_update us"
  shows "equal_slice equalStateUpdate us (resolveStateUpdates (marshalStateUpdates us))"
  using assms condition_round_trip
  by (auto simp: resolveStateUpdates_def marshalStateUpdates_def equalStateUpdate_def portable_update_def list_all_iff
      ptrFloat64_default link_round_trip comp_def intro!: equal_slice_map)

lemma profile_round_trip:
  assumes "pred_option portable_profile p"
  shows "equal_ptr equalProfile p (resolveProfile (marshalProfile p))"
  using assms
  by (auto simp: resolveProfile_def marshalProfile_def equalProfile_def portable_profile_def option.map_comp comp_def
      resolveStacks_def marshalStacks_def equalStackSample_def fault_kind.parse_show
      intro!: equal_ptr_map equal_slice_map)

lemma latency_round_trip: "portable_edge e \<Longrightarrow> resolveLatency (marshalLatency (e_latency e)) = e_latency e"
  by (auto simp: resolveLatency_def marshalLatency_def Let_def portable_edge_def stringDefault_def
      intro!: latency_dist.equality)

lemma backoff_round_trip: "validBackoff b \<Longrightarrow>
  parseBackoff (if b = BackoffExponential then '''' else backoff_policy_String b) = b"
  using backoff.parse_show [of b] by (simp add: parseBackoff_def)

lemma exhausted_round_trip: "validExhausted a \<Longrightarrow>
  parseExhaustedAction (if a \<noteq> ExhaustedPropagate then exhausted_action_String a else '''') = a"
  using exhausted.parse_show [of a] by (simp add: parseExhaustedAction_def)

lemma severity_params_round_trip:
  assumes "portable_fault f"
  shows "equalSeverity (f_severity f) (resolveSeverity (marshalSeverity (f_severity f)))"
  using assms by (auto simp: resolveSeverity_def marshalSeverity_def equalSeverity_def portable_fault_def
      ptrFloat64_default)

lemma schedule_round_trip:
  assumes "portable_fault f"
  shows "equal_slice equalSchedulePoint (f_schedule f) (resolveFaultSchedule (marshalFaultSchedule (f_schedule f)))"
  using assms by (auto simp: resolveFaultSchedule_def marshalFaultSchedule_def equalSchedulePoint_def
      portable_fault_def comp_def intro!: equal_slice_map)

section \<open>Loops\<close>

lemma equal_fallbacks_all: "equal_fallbacks sa sb as bs = list_all2 (equalEdge sa sb) as bs"
  by (induction as arbitrary: bs) (case_tac bs; simp)+

lemma equalCalls_all: "equalCalls sa sb as bs = list_all2 (equalCallNode sa sb) as bs"
  by (induction as arbitrary: bs) (case_tac bs; simp)+

lemma equalSteps_all: "equalSteps sa sb as bs = list_all2 (equalStep sa sb) as bs"
  by (induction as arbitrary: bs) (case_tac bs; simp)+

lemma collect_Inr [simp]: "lefts (map Inr ys) = []" "rights (map Inr ys) = ys"
  by (induction ys) (simp_all add: lefts_def rights_def)

text \<open>A loop none of whose iterations fails collects their results.\<close>

lemma collect_ok:
  assumes "\<And>i. i < length xs \<Longrightarrow> \<exists>y. g i (xs ! i) = Inr y \<and> R (xs ! i) y"
  shows "lefts (map_indexed g xs) = [] \<and> list_all2 R xs (rights (map_indexed g xs))"
proof -
  obtain ys where ys: "length ys = length xs" "\<forall>i < length xs. g i (xs ! i) = Inr (ys ! i) \<and> R (xs ! i) (ys ! i)"
    using assms Skolem_list_nth [of "length xs" "\<lambda>i y. g i (xs ! i) = Inr y \<and> R (xs ! i) y"] by auto
  then have "map_indexed g xs = map Inr ys" by (intro nth_equalityI) auto
  with ys show ?thesis by (simp add: list_all2_conv_all_nth)
qed

lemma collect_map_ok:
  assumes "\<And>i x. x \<in> set xs \<Longrightarrow> \<exists>y. g i (f x) = Inr y \<and> R x y"
  shows "lefts (map_indexed g (map f xs)) = [] \<and> list_all2 R xs (rights (map_indexed g (map f xs)))"
proof -
  have "map_indexed g (map f xs) = map_indexed (\<lambda>i x. g i (f x)) xs"
    by (intro nth_equalityI) auto
  with collect_ok [of xs "\<lambda>i x. g i (f x)" R] assms show ?thesis by simp
qed

section \<open>Calls\<close>

text \<open>
  The operation \<open>op'\<close> of \<open>t\<close> stands for the operation \<open>op\<close> of \<open>s\<close>: it is what the names of
  \<open>op\<close> denote in \<open>t\<close>, and it has these names.
\<close>

definition twin :: "schema \<Rightarrow> schema \<Rightarrow> op_ref \<Rightarrow> op_ref \<Rightarrow> bool" where
  "twin s t op op' \<longleftrightarrow> serviceID s (op_service (s_op s op)) \<noteq> '''' \<and> op_name (s_op s op) \<noteq> ''''
     \<and> lookupOperation t (serviceID s (op_service (s_op s op))) (op_name (s_op s op)) = Inr op'
     \<and> identifyOp s (Some op) = identifyOp t (Some op')"

definition mirrors :: "schema \<Rightarrow> schema \<Rightarrow> bool" where
  "mirrors s t \<longleftrightarrow> (\<forall>op \<in> operationSet s. \<exists>op'. twin s t op op')"

lemma lookup_twin: "twin s t op op' \<Longrightarrow>
  lookupOperationAtPath t (rct_service (marshalCallTarget s (Some op))) (rct_operation (marshalCallTarget s (Some op))) path = Inr op'"
  by (simp add: twin_def lookupOperationAtPath_def marshalCallTarget_def)

definition edge_expressible :: "schema \<Rightarrow> schema \<Rightarrow> op_ref \<Rightarrow> edge \<Rightarrow> bool" where
  "edge_expressible s t op' f \<longleftrightarrow> portable_edge f \<and> (\<exists>op \<in> operationSet s. e_to f = Some op)
     \<and> identifyOp s (e_from f) = identifyOp t (Some op') \<and> (\<forall>p \<in> set (fallbacks f). p \<noteq> None)"

lemma delay_round_trip:
  "effectiveRetryBaseDelay (Edge r src to p l er tmo rts bo bd onf) =
   effectiveRetryBaseDelay (Edge r' src' to' p' l' er' tmo' rts' bo'
     (ptrDefault (if bd \<noteq> 0 \<and> bd \<noteq> DefaultRetryBaseDelay then Some bd else None) DefaultRetryBaseDelay) onf')"
  by (auto simp: effectiveRetryBaseDelay_def)

lemma edge_round_trip:
  assumes t: "mirrors s t"
  shows "\<forall>f \<in> set (edges_deep e). edge_expressible s t op' f \<Longrightarrow>
    \<exists>e'. resolveCallNode t op' path (marshalEdge s e) = Inr (CallNode (Some e') [])
      \<and> e_from e' = Some op' \<and> equalEdge s t (Some e) (Some e')"
  using t
proof (induction s e arbitrary: path rule: marshalEdge.induct)
  case (1 s r src to p l er tmo rts bo bd onf)
  let ?e = "Edge r src to p l er tmo rts bo bd onf"
  have e: "edge_expressible s t op' ?e" using "1.prems"(1) edges_deep_fallbacks [of ?e] by simp
  then obtain op where op: "to = Some op" "op \<in> operationSet s" by (auto simp: edge_expressible_def)
  with "1.prems"(2) obtain op'' where op'': "twin s t op op''" unfolding mirrors_def by blast
  note leaf = latency_round_trip [of ?e] backoff_round_trip [of bo] protocol.parse_show [of p]
    ptrFloat64_default [of er "Fin 0"] ptrInt_default [of 0]
  show ?case
  proof (cases onf)
    case None
    with e op op'' leaf show ?thesis
      by (auto simp: lookup_twin edge_expressible_def portable_edge_def twin_def effectiveRetryBaseDelay_def equalLatency_def)
  next
    case (Some rp)
    obtain fs act dr where rp: "rp = Recovery fs act dr" by (cases rp)
    let ?m = "\<lambda>f. Some (case f of None \<Rightarrow> empty_raw_call_node | Some e \<Rightarrow> marshalEdge s e)"
    have rec: "\<exists>gs. resolveRecoveryPolicy t op' rpath (RawRecovery (map ?m fs)
          (if act \<noteq> ExhaustedPropagate then exhausted_action_String act else '''') dr) = Inr (Recovery (map Some gs) act dr)
        \<and> list_all2 (equalEdge s t) fs (map Some gs)" for rpath
    proof -
      let ?g = "\<lambda>i fb. case fb of
            None \<Rightarrow> Inl (newParseError (index_path (rpath @ ''.fallback'') i) ''call node is required'')
          | Some rc \<Rightarrow> (case resolveCallNode t op' (index_path (rpath @ ''.fallback'') i) rc of
                Inl err \<Rightarrow> Inl err
              | Inr (CallNode None _) \<Rightarrow> Inl (newParseError (index_path (rpath @ ''.fallback'') i)
                  ''fallback must be a single edge call'')
              | Inr (CallNode (Some e) _) \<Rightarrow> Inr (Edge (e_ref e) (Some op') (e_to e) (e_protocol e)
                  (e_latency e) (e_error_rate e) (e_timeout e) (e_retries e) (e_retry_backoff e)
                  (e_retry_base_delay e) (e_on_failure e)))"
      have "\<exists>y. ?g i (?m f) = Inr y \<and> equalEdge s t f (Some y)" if f: "f \<in> set fs" for i f
      proof -
        from e f Some rp obtain fe where fe: "f = Some fe" by (auto simp: edge_expressible_def fallbacks_def)
        with f Some rp "1.prems"(1) have "\<forall>h \<in> set (edges_deep fe). edge_expressible s t op' h"
          by (force simp: edges_deep_fallbacks [of ?e] fallbacks_def)
        with "1.IH" [OF Some rp f fe _ "1.prems"(2)] obtain e' where
          "resolveCallNode t op' (index_path (rpath @ ''.fallback'') i) (marshalEdge s fe) = Inr (CallNode (Some e') [])"
          "e_from e' = Some op'" "equalEdge s t (Some fe) (Some e')" by blast
        with fe show ?thesis by (cases e') simp
      qed
      from collect_map_ok [where R = "\<lambda>f y. equalEdge s t f (Some y)" and g = ?g, OF this]
      have "lefts (map_indexed ?g (map ?m fs)) = []"
        "list_all2 (equalEdge s t) fs (map Some (rights (map_indexed ?g (map ?m fs))))"
        by (simp_all add: list_all2_map2)
      moreover have "parseExhaustedAction (if act \<noteq> ExhaustedPropagate then exhausted_action_String act else '''') = act"
        using e Some rp by (intro exhausted_round_trip) (simp add: edge_expressible_def portable_edge_def)
      ultimately show ?thesis
        unfolding resolveRecoveryPolicy.simps Let_def errors_Join_def by auto
    qed
    then obtain gs where "resolveRecoveryPolicy t op' (path @ ''.on_failure'') (RawRecovery (map ?m fs)
          (if act \<noteq> ExhaustedPropagate then exhausted_action_String act else '''') dr) = Inr (Recovery (map Some gs) act dr)"
      "list_all2 (equalEdge s t) fs (map Some gs)" by blast
    with e op op'' leaf Some rp show ?thesis
      by (auto simp: lookup_twin edge_expressible_def portable_edge_def twin_def
          equalLatency_def equal_fallbacks_all deepEqualAttributes_refl Let_def simp del: resolveRecoveryPolicy.simps
          split del: if_split intro!: delay_round_trip)
  qed
qed

text \<open>A node all of whose edges can be expressed.\<close>

lemma node_round_trip:
  assumes t: "mirrors s t"
  shows "node_shape n \<Longrightarrow> \<forall>e \<in> set (edges_in_node n). \<forall>f \<in> set (edges_deep e). edge_expressible s t op' f \<Longrightarrow>
    \<exists>n'. resolveCallNode t op' path (marshalCallNode s n) = Inr n' \<and> equalCallNode s t (Some n) (Some n')"
proof (induction n arbitrary: path rule: node_shape.induct)
  case (leaf e)
  from edge_round_trip [OF t, of e op' path] leaf obtain e' where
    "resolveCallNode t op' path (marshalEdge s e) = Inr (CallNode (Some e') [])" "equalEdge s t (Some e) (Some e')"
    by auto
  then show ?case by simp
next
  case (group ps)
  let ?g = "\<lambda>i child. case child of
               None \<Rightarrow> Inl (newParseError (index_path (path @ ''.parallel'') i) ''call node is required'')
             | Some rc \<Rightarrow> resolveCallNode t op' (index_path (path @ ''.parallel'') i) rc"
  let ?m = "\<lambda>p. Some (case p of None \<Rightarrow> empty_raw_call_node | Some n \<Rightarrow> marshalCallNode s n)"
  have "\<exists>y. ?g i (?m p) = Inr y \<and> equalCallNode s t p (Some y)" if p: "p \<in> set ps" for i p
  proof -
    from group.IH p obtain n where n: "p = Some n" "(\<forall>e \<in> set (edges_in_node n). \<forall>f \<in> set (edges_deep e).
        edge_expressible s t op' f) \<longrightarrow> (\<forall>path. \<exists>n'. resolveCallNode t op' path (marshalCallNode s n) = Inr n'
        \<and> equalCallNode s t (Some n) (Some n'))"
      using bspec [OF group.IH p] by (elim exE conjE) (rule that)
    have "set (edges_in_node n) \<subseteq> set (edges_in_node (CallNode None ps))" using p n(1) by force
    with group.prems have "\<forall>e \<in> set (edges_in_node n). \<forall>f \<in> set (edges_deep e). edge_expressible s t op' f" by blast
    with n show ?thesis by auto
  qed
  from collect_map_ok [where R = "\<lambda>p y. equalCallNode s t p (Some y)" and g = ?g, OF this]
  have "lefts (map_indexed ?g (map ?m ps)) = []"
    "list_all2 (equalCallNode s t) ps (map Some (rights (map_indexed ?g (map ?m ps))))"
    by (simp_all add: list_all2_map2)
  with group.hyps show ?case by (auto simp: equalCalls_all Let_def errors_Join_def)
qed

section \<open>Steps\<close>

lemma step_round_trip:
  assumes t: "mirrors s t"
  shows "step_shape s st \<Longrightarrow>
    \<exists>st'. resolveStep t path (marshalStep s st) = Inr st' \<and> equalStep s t (Some st) (Some st')"
proof (induction st arbitrary: path rule: step_shape.induct)
  case (leaf op)
  with t obtain op' where op': "twin s t op op'" unfolding mirrors_def by blast
  from lookup_twin [OF this, of path] op' show ?case by (simp add: twin_def marshalCallTarget_def)
next
  case (group ps)
  let ?g = "\<lambda>i child. case child of
               None \<Rightarrow> Inl (newParseError (index_path (path @ ''.parallel'') i) ''step is required'')
             | Some rs \<Rightarrow> resolveStep t (index_path (path @ ''.parallel'') i) rs"
  let ?m = "\<lambda>q. Some (case q of None \<Rightarrow> RawStep '''' '''' [] | Some t \<Rightarrow> marshalStep s t)"
  have "\<exists>y. ?g i (?m p) = Inr y \<and> equalStep s t p (Some y)" if p: "p \<in> set ps" for i p
    using group.IH p by fastforce
  from collect_map_ok [where R = "\<lambda>p y. equalStep s t p (Some y)" and g = ?g, OF this]
  have "lefts (map_indexed ?g (map ?m ps)) = []"
    "list_all2 (equalStep s t) ps (map Some (rights (map_indexed ?g (map ?m ps))))"
    by (simp_all add: list_all2_map2)
  with group.hyps show ?case by (auto simp: equalSteps_all identifyOp_def Let_def errors_Join_def)
qed

section \<open>Resolving a schema of distinct operations\<close>

lemma lookups_cong:
  assumes "s_services t = s_services s" and "s_svc t = s_svc s"
  shows "lookupOperationAtPath t = lookupOperationAtPath s"
proof -
  have eq: "lookupOperation t = lookupOperation s" unfolding lookupOperation_def assms ..
  show ?thesis unfolding lookupOperationAtPath_def eq ..
qed

lemma resolveCallNode_cong:
  assumes "s_services t = s_services s" and "s_svc t = s_svc s"
  shows "resolveCallNode t op path rc = resolveCallNode s op path rc"
    and "resolveRecoveryPolicy t op path rp = resolveRecoveryPolicy s op path rp"
  using assms
proof (induction s op path rc and s op path rp rule: resolveCallNode_resolveRecoveryPolicy.induct)
  case (1 s op path to par proto lat er tmo rts rbo rbd onf)
  have "map_indexed (\<lambda>i child. case child of
               None \<Rightarrow> Inl (newParseError (index_path (path @ ''.parallel'') i) ''call node is required'')
             | Some rc \<Rightarrow> resolveCallNode t op (index_path (path @ ''.parallel'') i) rc) par
      = map_indexed (\<lambda>i child. case child of
               None \<Rightarrow> Inl (newParseError (index_path (path @ ''.parallel'') i) ''call node is required'')
             | Some rc \<Rightarrow> resolveCallNode s op (index_path (path @ ''.parallel'') i) rc) par" if "(to \<noteq> None) \<noteq> (par \<noteq> [])" "par \<noteq> []"
    using 1 that by (intro map_indexed_cong) (auto split: option.split)
  with 1 show ?case by (auto simp: lookups_cong [OF 1(3,4)] Let_def split: option.split sum.split)
next
  case (2 s op path fbs act dr)
  have "map_indexed (\<lambda>i fb. case fb of
            None \<Rightarrow> Inl (newParseError (index_path (path @ ''.fallback'') i) ''call node is required'')
          | Some rc \<Rightarrow> (case resolveCallNode t op (index_path (path @ ''.fallback'') i) rc of
                Inl err \<Rightarrow> Inl err
              | Inr (CallNode None _) \<Rightarrow> Inl (newParseError (index_path (path @ ''.fallback'') i)
                  ''fallback must be a single edge call'')
              | Inr (CallNode (Some e) _) \<Rightarrow> Inr (Edge (e_ref e) (Some op) (e_to e) (e_protocol e)
                  (e_latency e) (e_error_rate e) (e_timeout e) (e_retries e) (e_retry_backoff e)
                  (e_retry_base_delay e) (e_on_failure e)))) fbs
      = map_indexed (\<lambda>i fb. case fb of
            None \<Rightarrow> Inl (newParseError (index_path (path @ ''.fallback'') i) ''call node is required'')
          | Some rc \<Rightarrow> (case resolveCallNode s op (index_path (path @ ''.fallback'') i) rc of
                Inl err \<Rightarrow> Inl err
              | Inr (CallNode None _) \<Rightarrow> Inl (newParseError (index_path (path @ ''.fallback'') i)
                  ''fallback must be a single edge call'')
              | Inr (CallNode (Some e) _) \<Rightarrow> Inr (Edge (e_ref e) (Some op) (e_to e) (e_protocol e)
                  (e_latency e) (e_error_rate e) (e_timeout e) (e_retries e) (e_retry_backoff e)
                  (e_retry_base_delay e) (e_on_failure e)))) fbs"
    using 2 by (intro map_indexed_cong) (auto split: option.split)
  then show ?case by (simp only: resolveRecoveryPolicy.simps)
qed

definition raw_calls :: "schema \<Rightarrow> string \<Rightarrow> nat \<Rightarrow> raw_operation \<Rightarrow> (topo_error + call_node) list" where
  "raw_calls s sid i ro = map_indexed (\<lambda>j rc. resolveCallNodePtr s (OpRef sid i) (index_path
     (index_path (''services.'' @ sid @ ''.operations'') i @ ''.calls'') j) rc) (ro_calls ro)"

text \<open>Each raw operation of the service resolves into the operation at its index, which \<open>F\<close> describes.\<close>

definition service_resolves :: "schema \<Rightarrow> (op_ref \<Rightarrow> operation) \<Rightarrow> string \<Rightarrow> raw_service \<Rightarrow> bool" where
  "service_resolves t F sid rs \<longleftrightarrow> (\<forall>i < length (rs_operations rs). \<exists>ro r. rs_operations rs ! i = Some ro
     \<and> ptr_at (s_services t) sid = Some r \<and> ptr_at (svc_operations (s_svc t r)) (ro_name ro) = Some (OpRef sid i)
     \<and> lefts (raw_calls t sid i ro) = []
     \<and> F (OpRef sid i) = (s_op t (OpRef sid i))\<lparr>op_calls := map Some (rights (raw_calls t sid i ro))\<rparr>)"

abbreviation resolved_ops :: "schema \<Rightarrow> (op_ref \<Rightarrow> operation) \<Rightarrow> op_ref set \<Rightarrow> schema" where
  "resolved_ops t F P \<equiv> t\<lparr>s_op := override_on (s_op t) F P\<rparr>"

lemma resolve_operation_step:
  assumes "ptr_at (s_services t) sid = Some r" and "ptr_at (svc_operations (s_svc t r)) (ro_name ro) = Some (OpRef sid i)"
    and "lefts (raw_calls t sid i ro) = []"
    and "F (OpRef sid i) = (s_op t (OpRef sid i))\<lparr>op_calls := map Some (rights (raw_calls t sid i ro))\<rparr>"
  shows "resolve_operation sid i ro (resolved_ops t F P, errs) = (resolved_ops t F (insert (OpRef sid i) P), errs)"
proof -
  have "resolveCallNodePtr (resolved_ops t F P) = resolveCallNodePtr t"
    by (intro ext) (simp add: resolveCallNodePtr_def resolveCallNode_cong(1) [of "resolved_ops t F P" t] split: option.split)
  moreover have "(override_on (s_op t) F P)(OpRef sid i := (override_on (s_op t) F P (OpRef sid i))
      \<lparr>op_calls := map Some (rights (raw_calls t sid i ro))\<rparr>) = override_on (s_op t) F (insert (OpRef sid i) P)"
    using assms(4) by (auto simp: override_on_def)
  ultimately show ?thesis
    using assms(1-3) by (simp add: resolve_operation_def raw_calls_def Let_def)
qed

lemma resolve_service_ok:
  assumes "service_resolves t F sid rs"
  shows "resolve_service sid (Some rs) (resolved_ops t F P, errs)
    = (resolved_ops t F (P \<union> OpRef sid ` {..< length (rs_operations rs)}), errs)"
proof -
  have "fold (\<lambda>(i, ro) st. case ro of None \<Rightarrow> st | Some o' \<Rightarrow> resolve_operation sid i o' st) es (resolved_ops t F Q, errs)
      = (resolved_ops t F (Q \<union> OpRef sid ` fst ` set es), errs)"
    if "set es \<subseteq> set (enumerate 0 (rs_operations rs))" for es Q
    using that
  proof (induction es arbitrary: Q)
    case (Cons e es)
    obtain i p where e: "e = (i, p)" by force
    with Cons.prems have i: "i < length (rs_operations rs)" "p = rs_operations rs ! i"
      by (auto simp: in_set_enumerate_eq)
    then obtain ro r where "p = Some ro" "ptr_at (s_services t) sid = Some r"
      "ptr_at (svc_operations (s_svc t r)) (ro_name ro) = Some (OpRef sid i)" "lefts (raw_calls t sid i ro) = []"
      "F (OpRef sid i) = (s_op t (OpRef sid i))\<lparr>op_calls := map Some (rights (raw_calls t sid i ro))\<rparr>"
      using assms by (fastforce simp: service_resolves_def)
    with e Cons.IH [of "insert (OpRef sid i) Q"] Cons.prems show ?case by (simp add: resolve_operation_step)
  qed simp
  moreover have "fst ` set (enumerate 0 (rs_operations rs)) = {..< length (rs_operations rs)}"
    using map_fst_enumerate [of 0 "rs_operations rs"] by (metis atLeast_upt length_enumerate add_0 set_map)
  ultimately show ?thesis by (simp add: resolve_service_def)
qed

lemma resolve_services_ok:
  assumes "\<forall>(sid, p) \<in> set svcs. \<exists>rs. p = Some rs \<and> service_resolves t F sid rs"
  shows "\<exists>Q. fold (\<lambda>(sid, p). resolve_service sid p) svcs (resolved_ops t F P, errs) = (resolved_ops t F Q, errs)
    \<and> P \<subseteq> Q \<and> (\<forall>(sid, p) \<in> set svcs. OpRef sid ` {..< length (rs_operations (the p))} \<subseteq> Q)"
  using assms
proof (induction svcs arbitrary: P)
  case (Cons sv svcs)
  obtain sid rs where sv: "sv = (sid, Some rs)" "service_resolves t F sid rs" using Cons.prems by auto
  let ?P = "P \<union> OpRef sid ` {..< length (rs_operations rs)}"
  obtain Q where Q: "fold (\<lambda>(sid, p). resolve_service sid p) svcs (resolved_ops t F ?P, errs) = (resolved_ops t F Q, errs)"
    "?P \<subseteq> Q" "\<forall>(sid, p) \<in> set svcs. OpRef sid ` {..< length (rs_operations (the p))} \<subseteq> Q"
    using Cons.IH [of ?P] Cons.prems by auto
  then show ?case using sv(1) by (intro exI [of _ Q]) (simp add: resolve_service_ok [OF sv(2)])
qed auto

end
