(* ===== verification/Topology_Roundtrip.thy ===== *)
theory Topology_Roundtrip
  imports Topology_Marshal_Parts
begin

text \<open>
  Marshalling a schema that the parser has built and parsing the result gives an equal schema,
  for schemas that the YAML form can express: \<open>portable\<close> lists what it cannot.
\<close>

section \<open>The schema that the marshalled YAML builds\<close>

lemma update_new: "k \<notin> fst ` set m \<Longrightarrow> AList.update k v m = m @ [(k, v)]"
  by (induction m) auto

lemma build_operations_distinct:
  "distinct (map (\<lambda>ro. ro_name (ptrDefault ro empty_raw_operation)) ros) \<Longrightarrow>
   build_operations sid ros = map (\<lambda>(i, ro). (ro_name (ptrDefault ro empty_raw_operation), Some (OpRef sid i))) (enumerate 0 ros)"
proof (induction ros rule: rev_induct)
  case (snoc ro ros)
  have "build_operations sid (ros @ [ro]) = AList.update (ro_name (ptrDefault ro empty_raw_operation))
      (Some (OpRef sid (length ros))) (build_operations sid ros)"
    by (simp add: build_operations_def enumerate_append_eq)
  moreover have "ro_name (ptrDefault ro empty_raw_operation) \<notin> fst ` set (map (\<lambda>(i, ro).
      (ro_name (ptrDefault ro empty_raw_operation), Some (OpRef sid i))) (enumerate 0 ros))"
    using snoc.prems by (force simp: in_set_enumerate_eq image_iff)
  ultimately show ?case using snoc by (simp add: update_new enumerate_append_eq)
qed (simp add: build_operations_def)

lemma ptr_at_in_gomap: "gomap_ok m \<Longrightarrow> (k, Some v) \<in> set m \<Longrightarrow> ptr_at m k = Some v"
  by (simp add: ptr_at_Some map_of_gomap)

lemma ptr_at_mapped: "k \<in> set ks \<Longrightarrow> ptr_at (map (\<lambda>k. (k, Some (f k))) ks) k = Some (f k)"
  by (induction ks) (auto simp: ptr_at_def)

text \<open>The sorted names of the operations of a service, and the raw operation of each.\<close>

definition op_names :: "schema \<Rightarrow> svc_ref \<Rightarrow> string list" where
  "op_names s r = sort_strings (map fst (svc_operations (s_svc s r)))"

definition marshalled_op :: "schema \<Rightarrow> op_ref \<Rightarrow> raw_operation" where
  "marshalled_op s r = (let op = s_op s r in
     \<lparr>ro_name = op_name op, ro_calls = marshalCallNodes s (op_calls op),
      ro_log_events = marshalLogEvents (op_log_events op), ro_metrics = marshalMetrics (op_metrics op),
      ro_state_updates = marshalStateUpdates (op_state_updates op), ro_profile = marshalProfile (op_profile op)\<rparr>)"

lemma marshalOperations_nth:
  assumes "schema_ok s" and "maps_ok s" and "(sid, Some r) \<in> set (s_services s)" and "i < length (op_names s r)"
  obtains op where "op \<in> operationSet s" and "op_service (s_op s op) = Some r" and "svc_name (s_svc s r) = sid"
    and "op_name (s_op s op) = op_names s r ! i"
    and "ptr_at (svc_operations (s_svc s r)) (op_names s r ! i) = Some op"
    and "marshalOperations s (svc_operations (s_svc s r)) ! i = Some (marshalled_op s op)"
proof -
  let ?name = "op_names s r ! i"
  have "?name \<in> set (op_names s r)" using assms(4) by simp
  then obtain q where q: "(?name, q) \<in> set (svc_operations (s_svc s r))" by (auto simp: op_names_def)
  with assms(1,3) obtain op where op: "q = Some op" "op_service (s_op s op) = Some r" "op_name (s_op s op) = ?name"
    "svc_name (s_svc s r) = sid"
    by (fastforce simp: schema_ok_def identity_ok_def)
  then have at: "ptr_at (svc_operations (s_svc s r)) ?name = Some op"
    using assms(2) q by (simp add: maps_ok_def ptr_at_in_gomap)
  have "op \<in> operationSet s"
    using assms(3) q op(1) unfolding operationSet_iff operation_entries_iff by blast
  moreover have "marshalOperations s (svc_operations (s_svc s r)) ! i = Some (marshalled_op s op)"
    using assms(4) at by (simp add: marshalOperations_def op_names_def marshalled_op_def Let_def)
  ultimately show ?thesis using that op at by blast
qed

lemma op_names_distinct: "maps_ok s \<Longrightarrow> distinct (op_names s r)"
  by (simp add: op_names_def maps_ok_def gomap_ok_def)

lemma length_marshalOperations [simp]: "length (marshalOperations s (svc_operations (s_svc s r))) = length (op_names s r)"
  by (simp add: marshalOperations_def op_names_def)

lemma built_operations:
  assumes "schema_ok s" and "maps_ok s" and "(sid, Some r) \<in> set (s_services s)"
  shows "build_operations sid' (marshalOperations s (svc_operations (s_svc s r)))
    = map (\<lambda>(i, name). (name, Some (OpRef sid' i))) (enumerate 0 (op_names s r))"
proof -
  let ?ros = "marshalOperations s (svc_operations (s_svc s r))"
  have names: "ro_name (ptrDefault (?ros ! i) empty_raw_operation) = op_names s r ! i" if "i < length (op_names s r)" for i
    by (rule marshalOperations_nth [OF assms that]) (simp add: marshalled_op_def Let_def)
  then have "map (\<lambda>ro. ro_name (ptrDefault ro empty_raw_operation)) ?ros = op_names s r"
    by (intro nth_equalityI) auto
  with op_names_distinct [OF assms(2)] have
    "build_operations sid' ?ros = map (\<lambda>(i, ro). (ro_name (ptrDefault ro empty_raw_operation), Some (OpRef sid' i))) (enumerate 0 ?ros)"
    by (intro build_operations_distinct) simp
  also have "\<dots> = map (\<lambda>(i, name). (name, Some (OpRef sid' i))) (enumerate 0 (op_names s r))"
    using names by (intro nth_equalityI) (simp_all add: nth_enumerate_eq)
  finally show ?thesis .
qed

text \<open>
  What is read back are the same maps, with the entries in some order: \<open>ids\<close> is the order of the
  services, \<open>ns\<close> that of the journeys.
\<close>

definition marshalled :: "schema \<Rightarrow> string list \<Rightarrow> string list \<Rightarrow> raw_schema" where
  "marshalled s ids ns = (MarshalYAML s)
     \<lparr>raw_services := map (\<lambda>sid. (sid, Some (marshalService s (ptr_at (s_services s) sid) (effectiveSchemaNamespace s)))) ids,
      raw_journeys := map (\<lambda>name. (name, Some (marshalJourney s (ptr_at (s_journeys s) name)))) ns\<rparr>"

definition orders :: "schema \<Rightarrow> string list \<Rightarrow> string list \<Rightarrow> bool" where
  "orders s ids ns \<longleftrightarrow> mset ids = mset (map fst (s_services s)) \<and> mset ns = mset (map fst (s_journeys s))"

lemma orders_set: "orders s ids ns \<Longrightarrow> set ids = fst ` set (s_services s) \<and> set ns = fst ` set (s_journeys s)"
  by (metis orders_def set_map set_mset_mset)

lemma orders_distinct: "orders s ids ns \<Longrightarrow> maps_ok s \<Longrightarrow> distinct ids \<and> distinct ns"
  by (metis orders_def mset_eq_imp_distinct_iff maps_ok_def gomap_ok_def)

lemma orders_length: "orders s ids ns \<Longrightarrow> length ids = length (s_services s) \<and> length ns = length (s_journeys s)"
  by (metis orders_def mset_eq_length length_map)

definition remade :: "schema \<Rightarrow> string list \<Rightarrow> string list \<Rightarrow> schema" where
  "remade s ids ns = buildSchema (marshalled s ids ns)"

lemma remade_simps:
  "s_services (remade s ids ns) = map (\<lambda>sid. (sid, Some (SvcRef sid))) ids"
  "s_namespace (remade s ids ns) = effectiveSchemaNamespace s"
  by (simp_all add: remade_def buildSchema_def marshalled_def MarshalYAML_def Let_def stringDefault_def effectiveSchemaNamespace_def)

lemma raw_service_remade:
  assumes o: "orders s ids ns" and "maps_ok s" and "(sid, Some r) \<in> set (s_services s)"
  shows "raw_service_at (marshalled s ids ns) sid = marshalService s (Some r) (effectiveSchemaNamespace s)"
proof -
  have mem: "sid \<in> set ids" using assms(3) orders_set [OF o] by force
  have r: "ptr_at (s_services s) sid = Some r"
    by (rule ptr_at_in_gomap) (use assms in \<open>simp_all add: maps_ok_def\<close>)
  have svcs: "raw_services (marshalled s ids ns) = map (\<lambda>sid. (sid, Some (marshalService s (ptr_at (s_services s) sid)
      (effectiveSchemaNamespace s)))) ids"
    by (simp add: marshalled_def MarshalYAML_def)
  show ?thesis unfolding raw_service_at_def svcs ptr_at_mapped [OF mem] r by simp
qed

lemma remade_service:
  assumes o: "orders s ids ns" and "maps_ok s" and "(sid, Some r) \<in> set (s_services s)"
  shows "s_svc (remade s ids ns) (SvcRef sid)
    = build_service (effectiveSchemaNamespace s) sid (marshalService s (Some r) (effectiveSchemaNamespace s))"
  using raw_service_remade [OF assms] remade_simps(2) [of s ids ns]
  by (simp add: remade_def buildSchema_def Let_def)

lemma remade_lookup:
  assumes o: "orders s ids ns" and "schema_ok s" and "maps_ok s" and "(sid, Some r) \<in> set (s_services s)" and "i < length (op_names s r)"
  shows "ptr_at (s_services (remade s ids ns)) sid = Some (SvcRef sid)"
    and "ptr_at (svc_operations (s_svc (remade s ids ns) (SvcRef sid))) (op_names s r ! i) = Some (OpRef sid i)"
proof -
  have "sid \<in> set ids" using assms(4) orders_set [OF o] by force
  then show "ptr_at (s_services (remade s ids ns)) sid = Some (SvcRef sid)" by (simp add: remade_simps ptr_at_mapped)
  have ops: "svc_operations (s_svc (remade s ids ns) (SvcRef sid)) = map (\<lambda>(i, name). (name, Some (OpRef sid i))) (enumerate 0 (op_names s r))"
    by (simp add: remade_service [OF o assms(3,4)] build_service_def marshalService_def Let_def built_operations [OF assms(2-4)])
  have "gomap_ok (map (\<lambda>(i, name). (name, Some (OpRef sid i))) (enumerate 0 (op_names s r)))"
    using op_names_distinct [OF assms(3)] by (simp add: gomap_ok_def comp_def case_prod_unfold)
  moreover have "(op_names s r ! i, Some (OpRef sid i)) \<in> set (map (\<lambda>(i, name). (name, Some (OpRef sid i))) (enumerate 0 (op_names s r)))"
    using assms(5) by (force simp: in_set_enumerate_eq)
  ultimately show "ptr_at (svc_operations (s_svc (remade s ids ns) (SvcRef sid))) (op_names s r ! i) = Some (OpRef sid i)"
    unfolding ops by (rule ptr_at_in_gomap)
qed

lemma remade_op:
  assumes o: "orders s ids ns" and "schema_ok s" and "maps_ok s" and "(sid, Some r) \<in> set (s_services s)" and "i < length (op_names s r)"
    and "marshalOperations s (svc_operations (s_svc s r)) ! i = Some ro"
  shows "s_op (remade s ids ns) (OpRef sid i) = build_operation sid ro"
  using assms by (simp add: remade_def buildSchema_def Let_def raw_service_remade [OF o] raw_operation_at_def
      marshalService_def)

section \<open>Portable schemas\<close>

text \<open>
  What the YAML form cannot express: names that its target strings would split elsewhere, NaN,
  a delta beside a value, and what validation does not see in nested fallbacks.
\<close>

definition portable :: "schema \<Rightarrow> bool" where
  "portable s \<longleftrightarrow>
     (\<forall>(sid, p) \<in> set (s_services s). sid \<noteq> '''' \<and> CHR ''.'' \<notin> set sid \<and> CHR ''>'' \<notin> set sid
       \<and> pred_option (\<lambda>r. svc_namespace (s_svc s r) \<noteq> '''' \<and> list_all portable_observable (svc_metrics (s_svc s r))) p)
     \<and> (\<forall>op \<in> operationSet s. CHR ''>'' \<notin> set (op_name (s_op s op)) \<and> portable_operation (s_op s op)
       \<and> (\<forall>e \<in> set (forEachEdgeInCalls (op_calls (s_op s op))). list_all portable_edge (edges_deep e)))
     \<and> (\<forall>(name, p) \<in> set (s_journeys s). pred_option (\<lambda>j. \<not> is_nan (j_weight j)) p)
     \<and> list_all portable_fault (s_faults s)"

text \<open>What the parser establishes beyond validity: the sources and targets of the edges at every
  depth, and that the edge of a fault is an edge of the walk.\<close>

definition linked :: "schema \<Rightarrow> bool" where
  "linked s \<longleftrightarrow>
     (\<forall>op \<in> operationSet s. \<forall>e \<in> set (forEachEdgeInCalls (op_calls (s_op s op))). \<forall>f \<in> set (edges_deep e).
        e_from f = Some op \<and> (\<exists>u \<in> operationSet s. e_to f = Some u) \<and> (\<forall>p \<in> set (fallbacks f). p \<noteq> None))
     \<and> (\<forall>f \<in> set (s_faults s). \<forall>e. ft_edge (f_target f) = Some e \<longrightarrow> e \<in> set (forEachOutgoingEdge s))"

lemma twin_remade:
  assumes o: "orders s ids ns" and s: "schema_ok s" "maps_ok s" "portable s" and t: "same_shape (remade s ids ns) t"
    and svc: "(sid, Some r) \<in> set (s_services s)" and i: "i < length (op_names s r)"
  obtains op where "op \<in> operationSet s" and "twin s t op (OpRef sid i)"
    and "ptr_at (svc_operations (s_svc s r)) (op_names s r ! i) = Some op"
    and "marshalOperations s (svc_operations (s_svc s r)) ! i = Some (marshalled_op s op)"
proof -
  obtain op where op: "op \<in> operationSet s" "op_service (s_op s op) = Some r" "svc_name (s_svc s r) = sid"
    "op_name (s_op s op) = op_names s r ! i" "ptr_at (svc_operations (s_svc s r)) (op_names s r ! i) = Some op"
    "marshalOperations s (svc_operations (s_svc s r)) ! i = Some (marshalled_op s op)"
    by (rule marshalOperations_nth [OF s(1,2) svc i])
  note at = remade_lookup [OF o s(1,2) svc i]
  have "lookupOperation t sid (op_names s r ! i) = Inr (OpRef sid i)"
    using at t by (simp add: lookupOperation_def same_shape_def Let_def)
  moreover have "op_name (s_op s op) \<noteq> ''''"
    using s(1) op(1) by (simp add: schema_ok_def operation_ok_def name_ok_def)
  moreover have "sid \<noteq> ''''" using s(3) svc by (fastforce simp: portable_def)
  moreover have "s_op (remade s ids ns) (OpRef sid i) = build_operation sid (marshalled_op s op)"
    by (rule remade_op [OF o s(1,2) svc i op(6)])
  then have "identifyOp t (Some (OpRef sid i)) = sid @ ''.'' @ op_names s r ! i"
    using t op(4) by (simp add: identifyOp_def same_shape_def build_operation_def marshalled_op_def Let_def
        remade_service [OF o s(2) svc] build_service_def)
  moreover have "identifyOp s (Some op) = sid @ ''.'' @ op_names s r ! i"
    using op by (simp add: identifyOp_def)
  ultimately have "twin s t op (OpRef sid i)"
    using op(2-4) by (simp add: twin_def serviceID_def)
  with op that show ?thesis by blast
qed

lemma operation_index:
  assumes "maps_ok s" and "op \<in> operationSet s"
  obtains sid r i where "(sid, Some r) \<in> set (s_services s)" and "i < length (op_names s r)"
    and "ptr_at (svc_operations (s_svc s r)) (op_names s r ! i) = Some op"
proof -
  from assms(2) obtain sid name where "(sid, name, op) \<in> set (operation_entries s)" by (auto simp: operationSet_iff)
  then obtain r where r: "(sid, Some r) \<in> set (s_services s)" "(name, Some op) \<in> set (svc_operations (s_svc s r))"
    unfolding operation_entries_iff by blast
  then have "name \<in> set (op_names s r)" by (force simp: op_names_def)
  then obtain i where i: "i < length (op_names s r)" "op_names s r ! i = name" by (auto simp: in_set_conv_nth)
  moreover have "ptr_at (svc_operations (s_svc s r)) name = Some op"
    by (rule ptr_at_in_gomap) (use assms(1) r(2) in \<open>simp_all add: maps_ok_def\<close>)
  ultimately show ?thesis using that r(1) by blast
qed

lemma mirrors_remade:
  assumes o: "orders s ids ns" and s: "schema_ok s" "maps_ok s" "portable s" and t: "same_shape (remade s ids ns) t"
  shows "mirrors s t"
  unfolding mirrors_def
proof
  fix op
  assume "op \<in> operationSet s"
  from operation_index [OF s(2) this] obtain sid r i where at: "(sid, Some r) \<in> set (s_services s)"
    "i < length (op_names s r)" "ptr_at (svc_operations (s_svc s r)) (op_names s r ! i) = Some op" by blast
  obtain op' where "twin s t op' (OpRef sid i)" "ptr_at (svc_operations (s_svc s r)) (op_names s r ! i) = Some op'"
    by (rule twin_remade [OF o s t at(1,2)])
  with at(3) show "\<exists>op'. twin s t op op'" by auto
qed

text \<open>The calls of an operation are resolved without an error into equal calls.\<close>

lemma calls_round_trip:
  assumes o: "orders s ids ns" and s: "schema_ok s" "maps_ok s" "portable s" "linked s" and t: "same_shape (remade s ids ns) t"
    and op: "op \<in> operationSet s" "twin s t op (OpRef sid i)"
  shows "lefts (raw_calls t sid i (marshalled_op s op)) = []"
    and "equalCalls s t (op_calls (s_op s op)) (map Some (rights (raw_calls t sid i (marshalled_op s op))))"
proof -
  let ?m = "\<lambda>p. Some (case p of None \<Rightarrow> empty_raw_call_node | Some n \<Rightarrow> marshalCallNode s n)"
  let ?g = "\<lambda>j rc. resolveCallNodePtr t (OpRef sid i) (index_path
     (index_path (''services.'' @ sid @ ''.operations'') i @ ''.calls'') j) rc"
  have "\<exists>y. ?g j (?m p) = Inr y \<and> equalCallNode s t p (Some y)" if p: "p \<in> set (op_calls (s_op s op))" for j p
  proof -
    from s(1) op(1) p obtain n where n: "p = Some n" "node_shape n" by (fastforce simp: schema_ok_def calls_ok_def)
    have "edge_expressible s t (OpRef sid i) f" if "e \<in> set (edges_in_node n)" "f \<in> set (edges_deep e)" for e f
    proof -
      have e: "e \<in> set (forEachEdgeInCalls (op_calls (s_op s op)))"
        using that(1) p n(1) by (force simp: forEachEdgeInCalls_def)
      with s(3) op(1) that(2) have "portable_edge f" by (auto simp: portable_def list_all_iff)
      moreover have "e_from f = Some op \<and> (\<exists>u \<in> operationSet s. e_to f = Some u) \<and> (\<forall>p \<in> set (fallbacks f). p \<noteq> None)"
        using s(4) op(1) e that(2) by (auto simp: linked_def)
      ultimately show ?thesis using op(2) by (simp add: edge_expressible_def twin_def)
    qed
    with node_round_trip [OF mirrors_remade [OF o s(1-3) t] n(2)] n(1) show ?thesis
      by (simp add: resolveCallNodePtr_def)
  qed
  from collect_map_ok [where R = "\<lambda>p y. equalCallNode s t p (Some y)" and g = ?g, OF this]
  show "lefts (raw_calls t sid i (marshalled_op s op)) = []"
    and "equalCalls s t (op_calls (s_op s op)) (map Some (rights (raw_calls t sid i (marshalled_op s op))))"
    by (simp_all add: raw_calls_def marshalled_op_def marshalCallNodes_def Let_def equalCalls_all list_all2_map2)
qed

section \<open>Services\<close>

text \<open>A schema whose operations are the resolved marshalled ones.\<close>

definition rebuilt :: "schema \<Rightarrow> string list \<Rightarrow> string list \<Rightarrow> schema \<Rightarrow> bool" where
  "rebuilt s ids ns t \<longleftrightarrow> same_shape (remade s ids ns) t \<and> (\<forall>sid r i op. (sid, Some r) \<in> set (s_services s) \<longrightarrow>
     i < length (op_names s r) \<longrightarrow> ptr_at (svc_operations (s_svc s r)) (op_names s r ! i) = Some op \<longrightarrow>
     s_op t (OpRef sid i) = (build_operation sid (marshalled_op s op))
       \<lparr>op_calls := map Some (rights (raw_calls t sid i (marshalled_op s op)))\<rparr>)"

lemma raw_calls_cong:
  assumes "s_services t = s_services s" and "s_svc t = s_svc s"
  shows "raw_calls t = raw_calls s"
proof -
  have "resolveCallNodePtr t = resolveCallNodePtr s"
    by (intro ext) (simp add: resolveCallNodePtr_def resolveCallNode_cong(1) [OF assms] split: option.split)
  then show ?thesis unfolding raw_calls_def by simp
qed

lemma rebuilt_cong:
  assumes "rebuilt s ids ns t" and "s_services u = s_services t" and "s_svc u = s_svc t" and "s_op u = s_op t"
  shows "rebuilt s ids ns u"
  using assms raw_calls_cong [OF assms(2,3)] by (simp add: rebuilt_def same_shape_def)

lemma services_rebuilt:
  assumes o: "orders s ids ns" and s: "schema_ok s" "maps_ok s" "portable s" "linked s"
  shows "\<exists>t. fold (\<lambda>(sid, p). resolve_service sid p) (raw_services (marshalled s ids ns)) (remade s ids ns, []) = (t, [])
    \<and> rebuilt s ids ns t \<and> s_namespace t = effectiveSchemaNamespace s"
proof -
  let ?t = "remade s ids ns"
  define F where "F = (\<lambda>ref. case ref of OpRef sid i \<Rightarrow> (s_op ?t ref)\<lparr>op_calls := map Some (rights (raw_calls ?t sid i
     (raw_operation_at (raw_service_at (marshalled s ids ns) sid) i)))\<rparr>)"
  have raw_op: "raw_operation_at (raw_service_at (marshalled s ids ns) sid) i = marshalled_op s op"
    if "(sid, Some r) \<in> set (s_services s)" "i < length (op_names s r)"
      "marshalOperations s (svc_operations (s_svc s r)) ! i = Some (marshalled_op s op)" for sid r i op
    using that by (simp add: raw_service_remade [OF o s(2)] raw_operation_at_def marshalService_def Let_def)
  have resolves: "service_resolves ?t F sid (marshalService s (Some r) (effectiveSchemaNamespace s))"
    if svc: "(sid, Some r) \<in> set (s_services s)" for sid r
    unfolding service_resolves_def
  proof (intro allI impI)
    fix i
    assume "i < length (rs_operations (marshalService s (Some r) (effectiveSchemaNamespace s)))"
    then have i: "i < length (op_names s r)" by (simp add: marshalService_def Let_def)
    obtain op where op: "op \<in> operationSet s" "twin s ?t op (OpRef sid i)"
      "marshalOperations s (svc_operations (s_svc s r)) ! i = Some (marshalled_op s op)"
      "ptr_at (svc_operations (s_svc s r)) (op_names s r ! i) = Some op"
      by (rule twin_remade [OF o s(1-3) same_shape_refl svc i])
    have "op_name (s_op s op) = op_names s r ! i"
      using op(4) s(1) svc by (fastforce simp: schema_ok_def identity_ok_def dest!: ptr_at_in_set)
    then have "ro_name (marshalled_op s op) = op_names s r ! i" by (simp add: marshalled_op_def Let_def)
    with op(3) remade_lookup [OF o s(1,2) svc i] calls_round_trip(1) [OF o s same_shape_refl op(1,2)] raw_op [OF svc i op(3)]
    show "\<exists>ro r'. rs_operations (marshalService s (Some r) (effectiveSchemaNamespace s)) ! i = Some ro
        \<and> ptr_at (s_services ?t) sid = Some r' \<and> ptr_at (svc_operations (s_svc ?t r')) (ro_name ro) = Some (OpRef sid i)
        \<and> lefts (raw_calls ?t sid i ro) = []
        \<and> F (OpRef sid i) = (s_op ?t (OpRef sid i))\<lparr>op_calls := map Some (rights (raw_calls ?t sid i ro))\<rparr>"
      by (simp add: marshalService_def Let_def F_def)
  qed
  have svcs: "\<exists>rs. p = Some rs \<and> (\<exists>r. (sid, Some r) \<in> set (s_services s) \<and> rs = marshalService s (Some r) (effectiveSchemaNamespace s))"
    if "(sid, p) \<in> set (raw_services (marshalled s ids ns))" for sid p
  proof -
    from that obtain q where q: "(sid, q) \<in> set (s_services s)"
      "p = Some (marshalService s (ptr_at (s_services s) sid) (effectiveSchemaNamespace s))"
      using orders_set [OF o] by (auto simp: marshalled_def)
    from s(1) q(1) obtain r where "q = Some r" by (fastforce simp: schema_ok_def identity_ok_def)
    moreover from this q(1) s(2) have "ptr_at (s_services s) sid = Some r" by (simp add: maps_ok_def ptr_at_in_gomap)
    ultimately show ?thesis using q by auto
  qed
  have "\<forall>(sid, p) \<in> set (raw_services (marshalled s ids ns)). \<exists>rs. p = Some rs \<and> service_resolves ?t F sid rs"
    using svcs resolves by fastforce
  from resolve_services_ok [OF this, of "{}" "[]"] obtain Q where
    Q: "fold (\<lambda>(sid, p). resolve_service sid p) (raw_services (marshalled s ids ns)) (resolved_ops ?t F {}, []) = (resolved_ops ?t F Q, [])"
    "\<forall>(sid, p) \<in> set (raw_services (marshalled s ids ns)). OpRef sid ` {..< length (rs_operations (the p))} \<subseteq> Q" by blast
  let ?u = "resolved_ops ?t F Q"
  have "rebuilt s ids ns ?u"
    unfolding rebuilt_def
  proof (intro conjI allI impI)
    show "same_shape ?t ?u" by (simp add: same_shape_def override_on_def F_def split: op_ref.split)
    fix sid r i op
    assume at: "(sid, Some r) \<in> set (s_services s)" "i < length (op_names s r)"
      "ptr_at (svc_operations (s_svc s r)) (op_names s r ! i) = Some op"
    then have m: "marshalOperations s (svc_operations (s_svc s r)) ! i = Some (marshalled_op s op)"
      by (simp add: marshalOperations_def op_names_def marshalled_op_def Let_def)
    have live: "sid \<in> set ids" using at(1) orders_set [OF o] by force
    have "ptr_at (s_services s) sid = Some r" using at(1) s(2) by (simp add: maps_ok_def ptr_at_in_gomap)
    then have "(sid, Some (marshalService s (Some r) (effectiveSchemaNamespace s))) \<in> set (raw_services (marshalled s ids ns))"
      using live by (simp add: marshalled_def image_iff)
    with Q(2) at(2) have "OpRef sid i \<in> Q" by (fastforce simp: marshalService_def Let_def)
    then have "s_op ?u (OpRef sid i) = F (OpRef sid i)" by simp
    also have "\<dots> = (build_operation sid (marshalled_op s op))
        \<lparr>op_calls := map Some (rights (raw_calls ?t sid i (marshalled_op s op)))\<rparr>"
      by (simp add: F_def raw_op [OF at(1,2) m] remade_op [OF o s(1,2) at(1,2) m])
    also have "raw_calls ?t = raw_calls ?u" by (rule raw_calls_cong) simp_all
    finally show "s_op ?u (OpRef sid i) = (build_operation sid (marshalled_op s op))
        \<lparr>op_calls := map Some (rights (raw_calls ?u sid i (marshalled_op s op)))\<rparr>" .
  qed
  moreover have "resolved_ops ?t F {} = ?t" by simp
  ultimately show ?thesis using Q(1) by (intro exI [of _ ?u]) (simp add: remade_simps)
qed

lemma same_length_op_names: "length (op_names s r) = length (svc_operations (s_svc s r))"
  by (simp add: op_names_def)

lemma operation_equal:
  assumes o: "orders s ids ns" and s: "schema_ok s" "maps_ok s" "portable s" "linked s" and t: "rebuilt s ids ns t"
    and at: "(sid, Some r) \<in> set (s_services s)" "i < length (op_names s r)"
      "ptr_at (svc_operations (s_svc s r)) (op_names s r ! i) = Some op"
  shows "equalOperation s t op (OpRef sid i)"
proof -
  have shape: "same_shape (remade s ids ns) t" using t by (simp add: rebuilt_def)
  obtain op2 where "twin s t op2 (OpRef sid i)" "op2 \<in> operationSet s"
    "ptr_at (svc_operations (s_svc s r)) (op_names s r ! i) = Some op2"
    by (rule twin_remade [OF o s(1-3) shape at(1,2)])
  with at(3) have tw: "twin s t op (OpRef sid i)" and op: "op \<in> operationSet s" by simp_all
  have cell: "s_op t (OpRef sid i) = (build_operation sid (marshalled_op s op))
       \<lparr>op_calls := map Some (rights (raw_calls t sid i (marshalled_op s op)))\<rparr>"
    using t at by (simp add: rebuilt_def)
  have "portable_operation (s_op s op)" using s(3) op by (simp add: portable_def)
  then have p: "list_all portable_log_event (op_log_events (s_op s op))" "list_all portable_metric (op_metrics (s_op s op))"
    "list_all portable_update (op_state_updates (s_op s op))" "pred_option portable_profile (op_profile (s_op s op))"
    by (simp_all add: portable_operation_def)
  show ?thesis
    using tw calls_round_trip(2) [OF o s shape op tw] log_events_round_trip [OF p(1)] metrics_round_trip [OF p(2)]
      state_updates_round_trip [OF p(3)] profile_round_trip [OF p(4)]
    by (simp add: equalOperation_def cell build_operation_def marshalled_op_def Let_def twin_def)
qed

lemma service_equal:
  assumes o: "orders s ids ns" and s: "schema_ok s" "maps_ok s" "portable s" "linked s" and t: "rebuilt s ids ns t"
    and svc: "(sid, Some r) \<in> set (s_services s)"
  shows "equalService s t r (SvcRef sid)"
proof -
  have cell: "s_svc t (SvcRef sid) = build_service (effectiveSchemaNamespace s) sid (marshalService s (Some r) (effectiveSchemaNamespace s))"
    using t remade_service [OF o s(2) svc] by (simp add: rebuilt_def same_shape_def)
  let ?ops = "map (\<lambda>(i, name). (name, Some (OpRef sid i))) (enumerate 0 (op_names s r))"
  have "equal_ptr (equalOperation s t) p (ptr_at ?ops name)" if mem: "(name, p) \<in> set (svc_operations (s_svc s r))" for name p
  proof -
    from mem s(1) svc obtain op where p: "p = Some op" by (fastforce simp: schema_ok_def identity_ok_def)
    have "name \<in> set (op_names s r)" using mem by (force simp: op_names_def)
    then obtain i where i: "i < length (op_names s r)" "op_names s r ! i = name" by (auto simp: in_set_conv_nth)
    have "ptr_at (svc_operations (s_svc s r)) (op_names s r ! i) = Some op"
      unfolding i(2) by (rule ptr_at_in_gomap) (use s(2) mem p in \<open>simp_all add: maps_ok_def\<close>)
    with operation_equal [OF o s t svc i(1)] have "equalOperation s t op (OpRef sid i)" by simp
    moreover have "ptr_at ?ops name = Some (OpRef sid i)"
      using remade_lookup(2) [OF o s(1,2) svc i(1)] i(2)
      by (simp add: remade_service [OF o s(2) svc] build_service_def marshalService_def Let_def built_operations [OF s(1,2) svc])
    ultimately show ?thesis by (simp add: p equal_ptr_def)
  qed
  then have ops: "equal_map (equalOperation s t) (svc_operations (s_svc s r)) ?ops"
    by (auto simp: equal_map_def same_length_op_names)
  from s(1) svc have "service_ok (s_svc s r)" "svc_name (s_svc s r) = sid"
    by (fastforce simp: schema_ok_def identity_ok_def)+
  moreover from s(3) svc have "svc_namespace (s_svc s r) \<noteq> ''''" "list_all portable_observable (svc_metrics (s_svc s r))"
    by (fastforce simp: portable_def)+
  ultimately show ?thesis
    using ops observable_metrics_round_trip service_kind.parse_show
    by (auto simp: equalService_def Let_def cell build_service_def marshalService_def built_operations [OF s(1,2) svc]
        effectiveServiceNamespace_def effectiveSchemaNamespace_def stringDefault_def service_ok_def)
qed

lemma services_equal:
  assumes o: "orders s ids ns" and s: "schema_ok s" "maps_ok s" "portable s" "linked s" and t: "rebuilt s ids ns t"
  shows "equal_map (equalService s t) (s_services s) (s_services t)"
proof -
  have svcs: "s_services t = map (\<lambda>sid. (sid, Some (SvcRef sid))) ids"
    using t by (simp add: rebuilt_def same_shape_def remade_simps)
  have "equal_ptr (equalService s t) p (ptr_at (s_services t) sid)" if mem: "(sid, p) \<in> set (s_services s)" for sid p
  proof -
    from mem s(1) obtain r where p: "p = Some r" by (fastforce simp: schema_ok_def identity_ok_def)
    have "sid \<in> set ids" using mem orders_set [OF o] by force
    then have "ptr_at (s_services t) sid = Some (SvcRef sid)" unfolding svcs by (rule ptr_at_mapped)
    with service_equal [OF o s t] mem p show ?thesis by (simp add: equal_ptr_def)
  qed
  with orders_length [OF o] show ?thesis by (auto simp: equal_map_def svcs)
qed

section \<open>Journeys\<close>

lemma journey_equal:
  assumes o: "orders s ids ns" and s: "schema_ok s" "maps_ok s" "portable s" and t: "same_shape (remade s ids ns) t"
    and j: "(name, Some j) \<in> set (s_journeys s)"
  shows "\<exists>j'. resolve_journey t name (Some (marshalJourney s (Some j))) = (j', []) \<and> equalJourney s t j j'"
proof -
  let ?g = "\<lambda>i st. resolveStepPtr t (index_path (journey_path name @ ''.steps'') i) st"
  let ?m = "\<lambda>q. Some (case q of None \<Rightarrow> RawStep '''' '''' [] | Some t \<Rightarrow> marshalStep s t)"
  from s(1) j have ok: "journey_ok s name j" by (fastforce simp: schema_ok_def)
  have "\<exists>y. ?g i (?m p) = Inr y \<and> equalStep s t p (Some y)" if p: "p \<in> set (j_steps j)" for i p
  proof -
    from ok p obtain st where "p = Some st" "step_shape s st" by (auto simp: journey_ok_def)
    with step_round_trip [OF mirrors_remade [OF o s t]] show ?thesis by (simp add: resolveStepPtr_def)
  qed
  from collect_map_ok [where R = "\<lambda>p y. equalStep s t p (Some y)" and g = ?g, OF this]
  have steps: "lefts (map_indexed ?g (marshalSteps s (j_steps j))) = []"
    "equalSteps s t (j_steps j) (map Some (rights (map_indexed ?g (marshalSteps s (j_steps j)))))"
    by (simp_all add: marshalSteps_def equalSteps_all list_all2_map2)
  have "\<not> is_nan (j_weight j)" using s(3) j by (fastforce simp: portable_def)
  with steps ok show ?thesis
    by (simp add: resolve_journey_def marshalJourney_def Let_def equalJourney_def journey_ok_def ptrFloat64_default)
qed

section \<open>Faults\<close>

lemma equalRecoveryPolicy_fallbacks: "equalRecoveryPolicy sa sb p q \<Longrightarrow>
  list_all2 (equalEdge sa sb) (case p of None \<Rightarrow> [] | Some rp \<Rightarrow> rp_fallback rp) (case q of None \<Rightarrow> [] | Some rp \<Rightarrow> rp_fallback rp)"
  by (cases "(sa, sb, p, q)" rule: equalRecoveryPolicy.cases) (auto simp: equal_fallbacks_all)

lemma equalEdge_fallbacks: "equalEdge sa sb (Some e) (Some e') \<Longrightarrow> list_all2 (equalEdge sa sb) (fallbacks e) (fallbacks e')"
  by (cases e; cases e') (simp add: fallbacks_def equalRecoveryPolicy_fallbacks)

text \<open>Equal call trees contain equal edges, in the same order.\<close>

lemma equal_fallback_walk:
  "list_all2 (equalEdge sa sb) ps qs \<Longrightarrow>
   list_all2 (\<lambda>e e'. equalEdge sa sb (Some e) (Some e')) (concat (map (opt_list (\<lambda>f. [f])) ps)) (concat (map (opt_list (\<lambda>f. [f])) qs))"
proof (induction rule: list_all2_induct)
  case (Cons p ps q qs)
  then show ?case by (cases p; cases q) (auto simp: opt_list_def)
qed simp

lemma equal_node_walk:
  "equalCallNode sa sb (Some n) (Some n') \<Longrightarrow>
   list_all2 (\<lambda>e e'. equalEdge sa sb (Some e) (Some e')) (edges_in_node n) (edges_in_node n')"
proof (induction n arbitrary: n')
  case (CallNode eo ps)
  obtain eo' ps' where n': "n' = CallNode eo' ps'" by (cases n')
  with CallNode.prems have eo: "equalEdge sa sb eo eo'" and ps: "list_all2 (equalCallNode sa sb) ps ps'"
    by (simp_all add: equalCalls_all)
  have "list_all2 (\<lambda>e e'. equalEdge sa sb (Some e) (Some e'))
      (opt_list (\<lambda>ed. ed # concat (map (opt_list (\<lambda>f. [f])) (fallbacks ed))) eo)
      (opt_list (\<lambda>ed. ed # concat (map (opt_list (\<lambda>f. [f])) (fallbacks ed))) eo')"
    using eo by (cases eo; cases eo') (auto simp: opt_list_def equal_fallback_walk equalEdge_fallbacks)
  moreover have "list_all2 (\<lambda>e e'. equalEdge sa sb (Some e) (Some e'))
      (concat (map (opt_list edges_in_node) ps)) (concat (map (opt_list edges_in_node) ps'))"
    using ps CallNode.IH
  proof (induction rule: list_all2_induct)
    case (Cons p ps q qs)
    have "list_all2 (\<lambda>e e'. equalEdge sa sb (Some e) (Some e')) (opt_list edges_in_node p) (opt_list edges_in_node q)"
      using Cons.hyps(1) Cons.prems by (cases p; cases q) (auto simp: opt_list_def)
    moreover have "list_all2 (\<lambda>e e'. equalEdge sa sb (Some e) (Some e'))
        (concat (map (opt_list edges_in_node) ps)) (concat (map (opt_list edges_in_node) qs))"
      by (rule Cons.IH) (use Cons.prems in auto)
    ultimately show ?case by (simp add: list_all2_appendI)
  qed simp
  ultimately show ?case by (simp add: n' list_all2_appendI)
qed

lemma equal_calls_walk:
  "equalCalls sa sb calls calls' \<Longrightarrow>
   list_all2 (\<lambda>e e'. equalEdge sa sb (Some e) (Some e')) (forEachEdgeInCalls calls) (forEachEdgeInCalls calls')"
  unfolding equalCalls_all forEachEdgeInCalls_def
proof (induction rule: list_all2_induct)
  case (Cons p ps q qs)
  have "list_all2 (\<lambda>e e'. equalEdge sa sb (Some e) (Some e')) (opt_list edges_in_node p) (opt_list edges_in_node q)"
    using Cons.hyps(1) by (cases p; cases q) (auto simp: opt_list_def equal_node_walk)
  with Cons.IH show ?case by (simp add: list_all2_appendI)
qed simp

lemma list_all2_in_set1: "list_all2 P xs ys \<Longrightarrow> x \<in> set xs \<Longrightarrow> \<exists>y \<in> set ys. P x y"
  by (induction rule: list_all2_induct) auto

lemma list_all2_in_set2: "list_all2 P xs ys \<Longrightarrow> y \<in> set ys \<Longrightarrow> \<exists>x \<in> set xs. P x y"
  by (induction rule: list_all2_induct) auto

lemma equalEdge_ends: "equalEdge sa sb (Some e) (Some e') \<Longrightarrow>
  identifyOp sa (e_from e) = identifyOp sb (e_from e') \<and> identifyOp sa (e_to e) = identifyOp sb (e_to e')"
  by (cases e; cases e') simp

lemma str_cut_arrow: "CHR ''>'' \<notin> set a \<Longrightarrow> str_cut ''->'' (a @ ''->'' @ b) = Some (a, b)"
proof (induction a)
  case (Cons c a)
  then have "\<not> prefix ''->'' (c # a @ ''->'' @ b)" by (cases a) (auto simp: prefix_Cons)
  with Cons show ?case by simp
qed simp

text \<open>Without dots in the names of services, the printed name of an operation identifies it.\<close>

lemma identifyOp_inj:
  assumes "identity_ok t" and "maps_ok t" and "\<forall>(sid, p) \<in> set (s_services t). CHR ''.'' \<notin> set sid"
    and "a \<in> operationSet t" and "b \<in> operationSet t" and "identifyOp t (Some a) = identifyOp t (Some b)"
  shows "a = b"
proof -
  obtain sa na sb nb where e: "(sa, na, a) \<in> set (operation_entries t)" "(sb, nb, b) \<in> set (operation_entries t)"
    using assms(4,5) by (auto simp: operationSet_iff)
  have "identifyOp t (Some x) = sid @ ''.'' @ n \<and> CHR ''.'' \<notin> set sid" if "(sid, n, x) \<in> set (operation_entries t)" for sid n x
    using identity_okD [OF assms(1) that] assms(3) by (auto simp: identifyOp_def)
  with e have names: "identifyOp t (Some a) = sa @ ''.'' @ na" "identifyOp t (Some b) = sb @ ''.'' @ nb"
    and dots: "CHR ''.'' \<notin> set sa" "CHR ''.'' \<notin> set sb" by blast+
  have "sa @ ''.'' @ na = sb @ ''.'' @ nb" using assms(6) unfolding names .
  then have "str_cut ''.'' (sa @ ''.'' @ na) = str_cut ''.'' (sb @ ''.'' @ nb)" by (rule arg_cong)
  moreover have "str_cut ''.'' (sa @ ''.'' @ na) = Some (sa, na)" "str_cut ''.'' (sb @ ''.'' @ nb) = Some (sb, nb)"
    using str_cut_char [OF dots(1), of na] str_cut_char [OF dots(2), of nb] by (simp_all only: append.simps)
  ultimately have eq: "sa = sb" "na = nb" by simp_all
  have "inj_on (\<lambda>(sid, name, op). (sid, name)) (set (operation_entries t))"
    using distinct_operation_entries [OF assms(2)] by (simp add: distinct_map)
  from inj_onD [OF this _ e] eq show ?thesis by simp
qed

lemma raw_maps_marshalled: "orders s ids ns \<Longrightarrow> maps_ok s \<Longrightarrow> raw_maps_ok (marshalled s ids ns)"
  using orders_distinct by (simp add: raw_maps_ok_def marshalled_def gomap_ok_def comp_def)

lemma rebuilt_structure:
  assumes o: "orders s ids ns" and "maps_ok s" and "rebuilt s ids ns t" and "s_journeys t = js" and "gomap_ok js"
  shows "identity_ok t" and "maps_ok t"
proof -
  have shape: "same_shape (remade s ids ns) t" using assms(3) by (simp add: rebuilt_def)
  then show "identity_ok t" by (rule same_shape_identity) (simp add: remade_def buildSchema_identity)
  have "maps_ok (remade s ids ns)" using buildSchema_maps [OF raw_maps_marshalled [OF o assms(2)]] by (simp add: remade_def)
  with shape assms(4,5) show "maps_ok t" by (simp add: maps_ok_def same_shape_def)
qed

lemma twin_live: "twin s t op op' \<Longrightarrow> op' \<in> operationSet t"
  using lookup_twin lookup_live by blast

lemma edge_target_found:
  assumes o: "orders s ids ns" and s: "schema_ok s" "maps_ok s" "portable s" "linked s" and t: "rebuilt s ids ns t" "calls_resolved t" "identity_ok t" "maps_ok t"
    and e: "e \<in> set (forEachOutgoingEdge s)"
  obtains op u op' u' e' where "e_from e = Some op" and "e_to e = Some u" and "op \<in> operationSet s" and "u \<in> operationSet s"
    and "twin s t op op'" and "twin s t u u'" and "findEdge t op' u' = Some e'" and "e_from e' = Some op'" and "e_to e' = Some u'"
proof -
  have shape: "same_shape (remade s ids ns) t" using t(1) by (simp add: rebuilt_def)
  note mirror = mirrors_remade [OF o s(1-3) shape]
  obtain op where op: "op \<in> operationSet s" "e \<in> set (forEachEdgeInCalls (op_calls (s_op s op)))"
    using e by (auto simp: forEachOutgoingEdge_def operationSet_def)
  with s(4) obtain u where u: "e_from e = Some op" "e_to e = Some u" "u \<in> operationSet s"
    by (fastforce simp: linked_def edges_deep_fallbacks [of e])
  obtain sid r i where at: "(sid, Some r) \<in> set (s_services s)" "i < length (op_names s r)"
    "ptr_at (svc_operations (s_svc s r)) (op_names s r ! i) = Some op" by (rule operation_index [OF s(2) op(1)])
  obtain op2 where "twin s t op2 (OpRef sid i)" "ptr_at (svc_operations (s_svc s r)) (op_names s r ! i) = Some op2"
    by (rule twin_remade [OF o s(1-3) shape at(1,2)])
  with at(3) have tw: "twin s t op (OpRef sid i)" by simp
  obtain u' where tu: "twin s t u u'" using mirror u(3) by (auto simp: mirrors_def)
  have "equalCalls s t (op_calls (s_op s op)) (op_calls (s_op t (OpRef sid i)))"
    using operation_equal [OF o s t(1) at] by (simp add: equalOperation_def)
  from list_all2_in_set1 [OF equal_calls_walk [OF this] op(2)] obtain e' where e': "e' \<in> set (forEachEdgeInCalls (op_calls (s_op t (OpRef sid i))))"
    "equalEdge s t (Some e) (Some e')" by blast
  note live = twin_live [OF tw] twin_live [OF tu]
  have "resolved_edge t (OpRef sid i) e'"
    using t(2) live(1) e'(1) by (fastforce simp: calls_resolved_def resolved_node_def forEachEdgeInCalls_def)
  then have ends: "e_from e' = Some (OpRef sid i)" "in_op_set t (e_to e')"
    using resolved_edgeD by (auto simp: resolved_edge_def endpoints_ok_def)
  then obtain v where v: "e_to e' = Some v" "v \<in> operationSet t" by (auto simp: in_op_set_def split: option.splits)
  have "\<forall>(sid, p) \<in> set (s_services t). CHR ''.'' \<notin> set sid"
    using s(3) shape orders_set [OF o] by (auto simp: same_shape_def remade_simps portable_def)
  moreover have "identifyOp t (Some v) = identifyOp t (Some u')"
    using equalEdge_ends [OF e'(2)] v(1) u(2) tu by (simp add: twin_def)
  ultimately have "v = u'" by (intro identifyOp_inj [OF t(3,4) _ v(2) live(2)])
  with ends v have "edge_between (OpRef sid i) u' e'" by (simp add: edge_between_def)
  moreover have "e' \<in> set (forEachOutgoingEdge t)"
    using e'(1) live(1) by (auto simp: forEachOutgoingEdge_def operationSet_def)
  ultimately have "findEdge t (OpRef sid i) u' \<noteq> None" by (auto simp: findEdge_walk find_None_iff)
  then obtain f where f: "findEdge t (OpRef sid i) u' = Some f" by blast
  then have "edge_between (OpRef sid i) u' f" by (auto simp: findEdge_walk find_Some_iff)
  with f tw tu op(1) u that show ?thesis by (auto simp: edge_between_def)
qed

text \<open>The names that a target string carries denote the operation again.\<close>

lemma operation_target:
  assumes s: "schema_ok s" "portable s" and op: "op \<in> operationSet s" "twin s t op op'"
  obtains sid name where "identifyOp s (Some op) = sid @ ''.'' @ name" and "CHR ''>'' \<notin> set (identifyOp s (Some op))"
    and "parseOperationRef (identifyOp s (Some op)) path = Inr (sid, name)"
    and "lookupOperationAtPath t sid name path = Inr op'"
proof -
  from op(1) obtain sid name where e: "(sid, name, op) \<in> set (operation_entries s)" by (auto simp: operationSet_iff)
  have "identity_ok s" using s(1) by (simp add: schema_ok_def)
  from identity_okD [OF this e] obtain r where r: "op_service (s_op s op) = Some r" "svc_name (s_svc s r) = sid"
    "op_name (s_op s op) = name" "(sid, Some r) \<in> set (s_services s)" by blast
  from s(2) r(4) have sid: "sid \<noteq> ''''" "CHR ''.'' \<notin> set sid" "CHR ''>'' \<notin> set sid" by (fastforce simp: portable_def)+
  have name: "name \<noteq> ''''" "CHR ''>'' \<notin> set name"
    using s op(1) r(3) by (auto simp: portable_def schema_ok_def operation_ok_def name_ok_def)
  have id: "identifyOp s (Some op) = sid @ ''.'' @ name" using r by (simp add: identifyOp_def)
  have "str_cut ''.'' (sid @ ''.'' @ name) = Some (sid, name)"
    using str_cut_char [OF sid(2), of name] by (simp only: append.simps)
  then have "parseOperationRef (identifyOp s (Some op)) path = Inr (sid, name)"
    using sid name by (simp add: parseOperationRef_def id)
  moreover have "lookupOperationAtPath t sid name path = Inr op'"
    using lookup_twin [OF op(2), of path] r by (simp add: marshalCallTarget_def serviceID_def)
  ultimately show ?thesis using that id sid name by simp
qed

lemma fault_equal:
  assumes o: "orders s ids ns" and s: "schema_ok s" "maps_ok s" "portable s" "linked s" and t: "rebuilt s ids ns t" "calls_resolved t" "identity_ok t" "maps_ok t"
    and f: "f \<in> set (s_faults s)"
  shows "\<exists>f'. resolve_fault t i (Some (marshalFault s f)) = Inr f' \<and> equalFaultSpec s t f f'"
proof -
  have shape: "same_shape (remade s ids ns) t" using t(1) by (simp add: rebuilt_def)
  have ok: "fault_ok s f" and p: "portable_fault f"
    using s(1,3) f by (auto simp: schema_ok_def portable_def list_all_iff)
  let ?path = "index_path ''faults'' i @ ''.target''"
  have "\<exists>t'. resolveFaultTarget t (marshalFaultTarget s (f_target f)) ?path = Inr t' \<and> equalFaultTarget s t (f_target f) t'"
  proof (cases "ft_kind (f_target f)")
    case TargetNode
    with ok obtain r where r: "ft_service (f_target f) = Some r" "serviceInSchema s r"
      by (cases "ft_service (f_target f)"; cases "ft_operation (f_target f)"; cases "ft_edge (f_target f)")
        (auto simp: fault_ok_def)
    then obtain sid where sid: "(sid, Some r) \<in> set (s_services s)" by (auto simp: serviceInSchema_def)
    with s(1) have name: "svc_name (s_svc s r) = sid" by (fastforce simp: schema_ok_def identity_ok_def)
    have "sid \<noteq> ''''" using s(3) sid by (fastforce simp: portable_def)
    moreover have "ptr_at (s_services t) sid = Some (SvcRef sid)"
      using shape sid orders_set [OF o] by (force simp: same_shape_def remade_simps intro!: ptr_at_mapped)
    moreover have "svc_name (s_svc t (SvcRef sid)) = sid"
      using shape remade_service [OF o s(2) sid] by (simp add: same_shape_def build_service_def)
    ultimately show ?thesis
      using TargetNode r name str_cut_char [of "CHR '':''" "''node''" sid]
      by (simp add: resolveFaultTarget_def marshalFaultTarget_def serviceID_def equalFaultTarget_def Let_def)
  next
    case TargetOperation
    with ok obtain op where op: "ft_operation (f_target f) = Some op" "op \<in> operationSet s"
      by (cases "ft_service (f_target f)"; cases "ft_operation (f_target f)"; cases "ft_edge (f_target f)")
        (auto simp: fault_ok_def)
    obtain op' where tw: "twin s t op op'" using mirrors_remade [OF o s(1-3) shape] op(2) by (auto simp: mirrors_def)
    obtain sid name where id: "identifyOp s (Some op) = sid @ ''.'' @ name"
      and target: "parseOperationRef (identifyOp s (Some op)) ?path = Inr (sid, name)" "lookupOperationAtPath t sid name ?path = Inr op'"
      by (rule operation_target [OF s(1,3) op(2) tw, where path = ?path])
    have "identifyOp t (Some op') \<noteq> ''''" using id tw unfolding twin_def by (metis Nil_is_append_conv list.distinct(1))
    with target show ?thesis
      using TargetOperation op tw str_cut_char [of "CHR '':''" "''operation''" "identifyOp s (Some op)"]
      by (simp add: resolveFaultTarget_def marshalFaultTarget_def equalFaultTarget_def twin_def Let_def)
  next
    case TargetEdge
    with ok obtain e where e: "ft_edge (f_target f) = Some e"
      by (cases "ft_service (f_target f)"; cases "ft_operation (f_target f)"; cases "ft_edge (f_target f)")
        (auto simp: fault_ok_def)
    with s(4) f have walk: "e \<in> set (forEachOutgoingEdge s)" by (auto simp: linked_def)
    obtain op u op' u' e' where ends: "e_from e = Some op" "e_to e = Some u" "op \<in> operationSet s" "u \<in> operationSet s"
      "twin s t op op'" "twin s t u u'" "findEdge t op' u' = Some e'" "e_from e' = Some op'" "e_to e' = Some u'"
      by (rule edge_target_found [OF o s t walk])
    obtain sa na where a: "identifyOp s (Some op) = sa @ ''.'' @ na" "CHR ''>'' \<notin> set (identifyOp s (Some op))"
      "parseOperationRef (identifyOp s (Some op)) (?path @ ''.from'') = Inr (sa, na)"
      "lookupOperationAtPath t sa na (?path @ ''.from'') = Inr op'"
      by (rule operation_target [OF s(1,3) ends(3,5), where path = "?path @ ''.from''"])
    obtain sb nb where b: "identifyOp s (Some u) = sb @ ''.'' @ nb"
      "parseOperationRef (identifyOp s (Some u)) (?path @ ''.to'') = Inr (sb, nb)"
      "lookupOperationAtPath t sb nb (?path @ ''.to'') = Inr u'"
      by (rule operation_target [OF s(1,3) ends(4,6), where path = "?path @ ''.to''"])
    let ?rest = "identifyOp s (Some op) @ ''->'' @ identifyOp s (Some u)"
    have "identifyOp s (Some op) \<noteq> ''''" "identifyOp s (Some u) \<noteq> ''''" using a(1) b(1) by simp_all
    with a(3,4) b(2,3) ends(7) str_cut_arrow [OF a(2), of "identifyOp s (Some u)"]
    have "resolveEdgeTarget t ?rest ?path = Inr \<lparr>ft_kind = TargetEdge, ft_service = None, ft_operation = None, ft_edge = Some e'\<rparr>"
      unfolding resolveEdgeTarget_def by simp
    moreover have "str_cut '':'' (''edge:'' @ ?rest) = Some (''edge'', ?rest)"
      using str_cut_char [of "CHR '':''" "''edge''" ?rest] by simp
    moreover have "?rest \<noteq> ''''" by simp
    ultimately have "resolveFaultTarget t (marshalFaultTarget s (f_target f)) ?path
        = Inr \<lparr>ft_kind = TargetEdge, ft_service = None, ft_operation = None, ft_edge = Some e'\<rparr>"
      using TargetEdge e ends(1,2) by (simp add: resolveFaultTarget_def marshalFaultTarget_def Let_def)
    with TargetEdge e ends show ?thesis by (simp add: equalFaultTarget_def edgeIdentity_def twin_def)
  next
    case (TargetOther k)
    with ok show ?thesis by (simp add: fault_ok_def)
  qed
  moreover have "parseFaultKind (fault_kind_String (f_kind f)) = f_kind f"
    using p by (simp add: portable_fault_def fault_kind.parse_show)
  ultimately show ?thesis
    using severity_params_round_trip [OF p] schedule_round_trip [OF p]
    by (auto simp: resolve_fault_def marshalFault_def equalFaultSpec_def)
qed

section \<open>The round trip\<close>

text \<open>The comparisons look at the second schema only through the names of its operations.\<close>

lemma equalStep_cong:
  assumes "identifyOp t = identifyOp u"
  shows "equalStep s t a b = equalStep s u a b" and "equalSteps s t as bs = equalSteps s u as bs"
  using assms by (induction s t a b and s t as bs rule: equalStep_equalSteps.induct) simp_all

lemma equalSteps_cong: "identifyOp t = identifyOp u \<Longrightarrow> equalSteps s t = equalSteps s u"
  using equalStep_cong(2) by blast

lemma equalFaultSpec_cong:
  assumes "identifyOp t = identifyOp u" and "s_svc t = s_svc u"
  shows "equalFaultSpec s t = equalFaultSpec s u"
proof -
  have eqs: "serviceID t = serviceID u" "edgeIdentity t = edgeIdentity u"
    unfolding serviceID_def edgeIdentity_def assms by simp_all
  show ?thesis unfolding equalFaultSpec_def equalFaultTarget_def assms eqs ..
qed

lemma marshal_resolves:
  assumes o: "orders s ids ns" and s: "schema_ok s" "maps_ok s" "portable s" "linked s"
  shows "\<exists>t. resolveReferences (remade s ids ns) (marshalled s ids ns) = (t, None) \<and> Equal (Some s) (Some t)"
proof -
  let ?raw = "marshalled s ids ns"
  obtain t1 where t1: "fold (\<lambda>(sid, p). resolve_service sid p) (raw_services ?raw) (remade s ids ns, []) = (t1, [])"
    "rebuilt s ids ns t1" "s_namespace t1 = effectiveSchemaNamespace s" using services_rebuilt [OF o s] by blast
  have shape: "same_shape (remade s ids ns) t1" using t1(2) by (simp add: rebuilt_def)
  have journeys: "raw_journeys ?raw = map (\<lambda>name. (name, Some (marshalJourney s (ptr_at (s_journeys s) name)))) ns"
    by (simp add: marshalled_def MarshalYAML_def)
  let ?j = "\<lambda>name. resolve_journey t1 name (Some (marshalJourney s (ptr_at (s_journeys s) name)))"
  have j: "snd (?j name) = [] \<and> (\<forall>j. (name, Some j) \<in> set (s_journeys s) \<longrightarrow> equalJourney s t1 j (fst (?j name)))"
    if name: "name \<in> fst ` set (s_journeys s)" for name
  proof -
    from name s(1) obtain j where mem: "(name, Some j) \<in> set (s_journeys s)" by (fastforce simp: schema_ok_def)
    have at: "ptr_at (s_journeys s) name = Some j"
      by (rule ptr_at_in_gomap) (use s(2) mem in \<open>simp_all add: maps_ok_def\<close>)
    have uniq: "j2 = j" if "(name, Some j2) \<in> set (s_journeys s)" for j2
      using ptr_at_in_gomap [OF _ that] s(2) at by (simp add: maps_ok_def)
    from journey_equal [OF o s(1-3) shape mem] obtain j' where "?j name = (j', [])" "equalJourney s t1 j j'"
      unfolding at by blast
    with uniq show ?thesis by auto
  qed
  let ?js = "map (\<lambda>name. (name, Some (fst (?j name)))) ns"
  let ?t2 = "t1\<lparr>s_journeys := ?js\<rparr>"
  have js_ok: "gomap_ok ?js" using orders_distinct [OF o s(2)] by (simp add: gomap_ok_def comp_def)
  have t2: "rebuilt s ids ns ?t2" by (rule rebuilt_cong [OF t1(2)]) simp_all
  have "calls_resolved (remade s ids ns)"
    by (simp add: calls_resolved_def remade_def buildSchema_def Let_def op_calls_operation_at)
  from resolve_services_inv [OF t1(1) this] have "calls_resolved t1" by simp
  moreover have "same_shape t1 ?t2" by (simp add: same_shape_def)
  ultimately have resolved: "calls_resolved ?t2"
    by (simp add: calls_resolved_def same_shape_operationSet same_shape_resolved)
  note maps2 = rebuilt_structure [OF o s(2) t2 _ js_ok]
  let ?g = "\<lambda>i rf. resolve_fault ?t2 i rf" and ?m = "\<lambda>f. Some (marshalFault s f)"
  have "\<exists>y. ?g i (?m f) = Inr y \<and> equalFaultSpec s ?t2 f y" if "f \<in> set (s_faults s)" for i f
    by (rule fault_equal [OF o s t2 resolved _ _ that]) (simp_all add: maps2)
  from collect_map_ok [where R = "equalFaultSpec s ?t2" and g = ?g, OF this]
  have faults: "lefts (map_indexed ?g (raw_faults ?raw)) = []"
    "list_all2 (equalFaultSpec s ?t2) (s_faults s) (rights (map_indexed ?g (raw_faults ?raw)))"
    by (simp_all add: marshalled_def MarshalYAML_def)
  let ?t = "?t2\<lparr>s_faults := rights (map_indexed ?g (raw_faults ?raw))\<rparr>"
  let ?rjs = "map (\<lambda>(name, rj). (name, resolve_journey t1 name rj)) (raw_journeys ?raw)"
  have rjs: "?rjs = map (\<lambda>name. (name, ?j name)) ns" by (simp add: journeys)
  have "map (\<lambda>(name, j, errs). (name, Some j)) ?rjs = ?js"
    unfolding rjs by (simp add: case_prod_unfold)
  moreover have "concat (map (\<lambda>(name, j, errs). errs) ?rjs) = []"
    unfolding rjs using j orders_set [OF o] by (auto simp: case_prod_unfold)
  ultimately have result: "resolveReferences (remade s ids ns) ?raw = (?t, None)"
    using t1(1) faults(1) by (simp add: resolveReferences_def Let_def)
  have ids: "identifyOp ?t = identifyOp t1" "identifyOp ?t = identifyOp ?t2"
    by (simp_all add: identifyOp_def fun_eq_iff split: option.split)
  have "rebuilt s ids ns ?t" by (rule rebuilt_cong [OF t1(2)]) simp_all
  from services_equal [OF o s this] have "equal_map (equalService s ?t) (s_services s) (s_services ?t)" .
  moreover have "equal_map (equalJourney s ?t) (s_journeys s) (s_journeys ?t)"
  proof -
    have "equal_ptr (equalJourney s ?t) p (ptr_at ?js name)" if mem: "(name, p) \<in> set (s_journeys s)" for name p
    proof -
      from mem s(1) obtain jn where p: "p = Some jn" by (fastforce simp: schema_ok_def)
      have "name \<in> fst ` set (s_journeys s)" using mem by force
      with j mem p have "equalJourney s t1 jn (fst (?j name))" by blast
      moreover have "ptr_at ?js name = Some (fst (?j name))" by (rule ptr_at_mapped) (use mem orders_set [OF o] in force)
      moreover have "equalSteps s ?t = equalSteps s t1" by (rule equalSteps_cong) (simp add: ids)
      ultimately show ?thesis by (simp add: p equal_ptr_def equalJourney_def)
    qed
    with orders_length [OF o] show ?thesis by (auto simp: equal_map_def)
  qed
  moreover have "equal_slice (equalFaultSpec s ?t) (s_faults s) (s_faults ?t)"
  proof -
    have "equalFaultSpec s ?t = equalFaultSpec s ?t2"
      by (rule equalFaultSpec_cong [OF ids(2)]) simp
    with faults(2) show ?thesis by (simp add: equal_slice_def list_all2_lengthD)
  qed
  ultimately have "Equal (Some s) (Some ?t)"
    using t1(3) by (simp add: Equal_def equal_ptr_def) (simp add: effectiveSchemaNamespace_def DefaultNamespace_def)
  with result show ?thesis by blast
qed

end
