(* ===== verification/Topology_Reparse.thy ===== *)
theory Topology_Reparse
  imports Topology_Roundtrip
begin

text \<open>
  The round trip through the whole pipeline of Parse: the schema that is built from the marshalled
  YAML is accepted by Validate, because validity carries over to an equal schema.
\<close>

section \<open>What the parser establishes\<close>

lemma owned_deep: "owned e \<Longrightarrow> f \<in> set (edges_deep e) \<Longrightarrow> e_from f = e_from e \<and> (\<forall>p \<in> set (fallbacks f). p \<noteq> None)"
proof (induction e arbitrary: f rule: owned.induct)
  case (1 e)
  show ?case
  proof (cases "f = e")
    case False
    with "1.prems" obtain g where g: "Some g \<in> set (fallbacks e)" "f \<in> set (edges_deep g)"
      by (auto simp: edges_deep_fallbacks [of e] opt_list_def split: option.splits)
    with "1.IH" show ?thesis by fastforce
  qed (use "1.IH" in auto)
qed

lemma resolveFaultTarget_walk:
  "resolveFaultTarget s spec path = Inr t \<Longrightarrow> ft_edge t = Some e \<Longrightarrow> e \<in> set (forEachOutgoingEdge s)"
  by (auto simp: resolveFaultTarget_def resolveEdgeTarget_def Let_def findEdge_walk find_Some_iff
      split: option.splits if_splits sum.splits)

lemma parsed_linked:
  assumes "resolveReferences (buildSchema raw) raw = (s, None)" and "raw_maps_ok raw"
  shows "linked s"
  unfolding linked_def
proof (intro conjI ballI allI impI)
  fix op e f
  assume op: "op \<in> operationSet s" and e: "e \<in> set (forEachEdgeInCalls (op_calls (s_op s op)))"
    and f: "f \<in> set (edges_deep e)"
  from resolveReferences_result(3) [OF assms] op e have r: "resolved_edge s op e"
    by (fastforce simp: calls_resolved_def resolved_node_def forEachEdgeInCalls_def)
  with owned_deep [OF _ f] show src: "e_from f = Some op" and "\<And>p. p \<in> set (fallbacks f) \<Longrightarrow> p \<noteq> None"
    by (auto simp: resolved_edge_def)
  from r f have "endpoints_ok s f" by (simp add: resolved_edge_def)
  then show "\<exists>u \<in> operationSet s. e_to f = Some u"
    by (auto simp: endpoints_ok_def in_op_set_def split: option.splits)
next
  fix f e
  assume f: "f \<in> set (s_faults s)" and e: "ft_edge (f_target f) = Some e"
  obtain u fs where u: "s = u\<lparr>s_faults := rights fs\<rparr>" "fs = map_indexed (\<lambda>i rf. resolve_fault u i rf) (raw_faults raw)"
    using assms(1) by (auto simp: resolveReferences_def Let_def split: prod.splits)
  with f obtain i where "resolve_fault u i (raw_faults raw ! i) = Inr f"
    by (auto simp: set_rights set_map_indexed dest: sym)
  with e have "e \<in> set (forEachOutgoingEdge u)"
    by (auto simp: resolve_fault_def dest: resolveFaultTarget_walk split: option.splits sum.splits)
  then show "e \<in> set (forEachOutgoingEdge s)"
    by (simp add: u(1) forEachOutgoingEdge_def allSchemaOperations_def operation_entries_def service_entries_def)
qed

section \<open>Validity carries over to an equal schema\<close>

lemma feq_cases: "feq x y \<Longrightarrow> x = y \<or> {x, y} = {Fin 0, FNegZero}"
  by (cases x; cases y) (auto simp: feq_def fle_def)

lemma feq_valid:
  assumes "feq x y"
  shows "validProbability y = validProbability x" and "validFloatMetricValue y = validFloatMetricValue x"
    and "is_fin y = is_fin x" and "fle (Fin 0) y = fle (Fin 0) x" and "fle y (Fin 0) = fle x (Fin 0)"
  using feq_cases [OF assms]
  by (auto simp: validProbability_def validFloatMetricValue_def is_fin_def fle_def doubleton_eq_iff)

lemma equal_slice_all:
  assumes "equal_slice eq xs ys" and "list_all P xs" and "\<And>x y. eq x y \<Longrightarrow> P x \<Longrightarrow> Q y"
  shows "list_all Q ys"
proof -
  have "list_all2 eq xs ys" using assms(1) by (simp add: equal_slice_def)
  then show ?thesis using assms(2) by (induction rule: list_all2_induct) (auto intro: assms(3))
qed

lemma equal_ptr_pred:
  "equal_ptr eq p q \<Longrightarrow> pred_option P p \<Longrightarrow> (\<And>x y. eq x y \<Longrightarrow> P x \<Longrightarrow> Q y) \<Longrightarrow> pred_option Q q"
  by (auto simp: equal_ptr_def split: option.splits)

lemma equal_link_ok: "equalMetricFaultLink a b \<Longrightarrow> link_ok a \<Longrightarrow> link_ok b"
  using feq_valid [of "fl_delta a" "fl_delta b"] feq_valid [of "fl_value a" "fl_value b"]
  by (simp add: equalMetricFaultLink_def link_ok_def)

lemma equal_stack_ok: "equalStackSample a b \<Longrightarrow> stack_ok a \<Longrightarrow> stack_ok b"
  using feq_valid [of "st_weight a" "st_weight b"] by (simp add: equalStackSample_def stack_ok_def)

lemma equal_slice_Nil: "equal_slice eq xs ys \<Longrightarrow> ys = [] \<longleftrightarrow> xs = []"
  by (auto simp: equal_slice_def)

lemma equal_profile_ok:
  assumes "equalProfile a b" and "profile_ok a"
  shows "profile_ok b"
  unfolding profile_ok_def
proof (intro impI conjI)
  from assms(1) have eq: "pr_enabled b = pr_enabled a" "pr_sample_rate b = pr_sample_rate a"
    "equal_slice equalStackSample (pr_baseline a) (pr_baseline b)"
    "equal_slice equalStackSample (pr_incident a) (pr_incident b)" "equal_ptr (=) (pr_when_fault a) (pr_when_fault b)"
    by (simp_all add: equalProfile_def)
  assume "pr_enabled b"
  with assms(2) eq(1) have ok: "pr_baseline a \<noteq> []" "0 < pr_sample_rate a" "list_all stack_ok (pr_baseline a)"
    "list_all stack_ok (pr_incident a)" "pred_option (\<lambda>k. validFaultKind k \<and> pr_incident a \<noteq> []) (pr_when_fault a)"
    by (simp_all add: profile_ok_def)
  show "pr_baseline b \<noteq> []" "0 < pr_sample_rate b" using ok(1,2) eq(2) equal_slice_Nil [OF eq(3)] by simp_all
  show "list_all stack_ok (pr_baseline b)" by (rule equal_slice_all [OF eq(3) ok(3) equal_stack_ok])
  show "list_all stack_ok (pr_incident b)" by (rule equal_slice_all [OF eq(4) ok(4) equal_stack_ok])
  show "pred_option (\<lambda>k. validFaultKind k \<and> pr_incident b \<noteq> []) (pr_when_fault b)"
    using equal_ptr_pred [OF eq(5) ok(5)] equal_slice_Nil [OF eq(4)] by simp
qed

lemma equal_operation_ok:
  assumes "equalOperation s t a b" and "operation_ok (s_op s a)" and "op_name (s_op t b) = op_name (s_op s a)"
  shows "operation_ok (s_op t b)"
  unfolding operation_ok_def
proof (intro conjI)
  from assms(1) have eq: "equal_slice equalLogEventSpec (op_log_events (s_op s a)) (op_log_events (s_op t b))"
    "equal_slice equalMetricSpec (op_metrics (s_op s a)) (op_metrics (s_op t b))"
    "equal_slice equalStateUpdate (op_state_updates (s_op s a)) (op_state_updates (s_op t b))"
    "equal_ptr equalProfile (op_profile (s_op s a)) (op_profile (s_op t b))"
    by (simp_all add: equalOperation_def)
  from assms(2) have ok: "name_ok (op_name (s_op s a))" "list_all log_event_ok (op_log_events (s_op s a))"
    "list_all metric_ok (op_metrics (s_op s a))" "list_all state_update_ok (op_state_updates (s_op s a))"
    "pred_option profile_ok (op_profile (s_op s a))"
    by (simp_all add: operation_ok_def)
  show "name_ok (op_name (s_op t b))" using ok(1) assms(3) by simp
  show "list_all log_event_ok (op_log_events (s_op t b))"
    by (rule equal_slice_all [OF eq(1) ok(2)]) (simp add: equalLogEventSpec_def log_event_ok_def)
  show "list_all metric_ok (op_metrics (s_op t b))"
    by (rule equal_slice_all [OF eq(2) ok(3)])
      (auto simp: equalMetricSpec_def metric_ok_def dest: feq_valid(2) elim: equal_ptr_pred intro: equal_link_ok)
  show "list_all state_update_ok (op_state_updates (s_op t b))"
    by (rule equal_slice_all [OF eq(3) ok(4)])
      (auto simp: equalStateUpdate_def state_update_ok_def dest: feq_valid(2) elim: equal_ptr_pred intro: equal_link_ok)
  show "pred_option profile_ok (op_profile (s_op t b))"
    by (rule equal_ptr_pred [OF eq(4) ok(5) equal_profile_ok])
qed

lemma equal_edge_domain: "equalEdge s t (Some a) (Some b) \<Longrightarrow> edge_domain_ok a \<Longrightarrow> edge_domain_ok b"
  by (cases "(s, t, e_on_failure a, e_on_failure b)" rule: equalRecoveryPolicy.cases; cases a; cases b)
    (auto simp: edge_domain_ok_def equalLatency_def dest: feq_valid(1) simp: effectiveRetryBaseDelay_def DefaultRetryBaseDelay_def
      millisecond_def split: if_splits)

section \<open>Equal schemas\<close>

lemma list_all2_all: "list_all2 R xs ys \<Longrightarrow> (\<And>x y. R x y \<Longrightarrow> x \<in> set xs \<Longrightarrow> Q y) \<Longrightarrow> \<forall>y \<in> set ys. Q y"
  by (induction rule: list_all2_induct) auto

lemma equal_map_entries:
  assumes "equal_map eq as bs" and "gomap_ok as" and "gomap_ok bs" and "\<forall>(k, p) \<in> set as. p \<noteq> None"
    and "(k, q) \<in> set bs"
  obtains a b where "q = Some b" and "(k, Some a) \<in> set as" and "eq a b"
proof -
  have len: "length as = length bs" and eq: "\<forall>(k, a) \<in> set as. equal_ptr eq a (ptr_at bs k)"
    using assms(1) by (simp_all add: equal_map_def)
  have sub: "fst ` set as \<subseteq> fst ` set bs"
  proof
    fix k assume "k \<in> fst ` set as"
    then obtain p where p: "(k, p) \<in> set as" by auto
    with assms(4) obtain x where "p = Some x" by fastforce
    with eq p have "equal_ptr eq (Some x) (ptr_at bs k)" by fastforce
    then have "ptr_at bs k \<noteq> None" by (auto simp: equal_ptr_def split: option.splits)
    then obtain y where "ptr_at bs k = Some y" by blast
    then show "k \<in> fst ` set bs" by (force dest: ptr_at_in_set)
  qed
  have "fst ` set as = fst ` set bs"
  proof (rule card_subset_eq [OF _ sub])
    have "card (fst ` set as) = length as" "card (fst ` set bs) = length bs"
      using assms(2,3) distinct_card [of "map fst as"] distinct_card [of "map fst bs"] by (simp_all add: gomap_ok_def)
    with len show "card (fst ` set as) = card (fst ` set bs)" by simp
  qed simp
  with assms(5) obtain p where p: "(k, p) \<in> set as" by force
  with assms(4) obtain a where a: "p = Some a" by fastforce
  with eq p have "equal_ptr eq (Some a) (ptr_at bs k)" by fastforce
  moreover have "ptr_at bs k = q"
    using assms(3,5) by (cases q) (auto simp: ptr_at_def map_of_gomap)
  ultimately obtain b where "q = Some b" "eq a b" by (auto simp: equal_ptr_def split: option.splits)
  with that p a show ?thesis by blast
qed

definition well_built :: "schema \<Rightarrow> bool" where
  "well_built t \<longleftrightarrow> maps_ok t \<and> identity_ok t \<and> calls_resolved t
     \<and> (\<forall>(name, p) \<in> set (s_journeys t). \<exists>j. p = Some j \<and> (\<forall>p \<in> set (j_steps j). \<exists>st. p = Some st \<and> step_shape t st))
     \<and> (\<forall>f \<in> set (s_faults t). target_ok t (ft_kind (f_target f)) (ft_service (f_target f))
          (ft_operation (f_target f)) (ft_edge (f_target f)))"

text \<open>Every service and every operation of the second schema has an equal one in the first.\<close>

lemma equal_service_of:
  assumes "Equal (Some s) (Some t)" and "maps_ok s" "schema_ok s" "maps_ok t" and "(sid, q) \<in> set (s_services t)"
  obtains r r' where "q = Some r'" and "(sid, Some r) \<in> set (s_services s)" and "equalService s t r r'"
proof -
  have "equal_map (equalService s t) (s_services s) (s_services t)" using assms(1) by (simp add: Equal_def equal_ptr_def)
  moreover have "\<forall>(k, p) \<in> set (s_services s). p \<noteq> None" using assms(3) by (fastforce simp: schema_ok_def identity_ok_def)
  ultimately show ?thesis
    using equal_map_entries [OF _ _ _ _ assms(5), of "equalService s t" "s_services s"] assms(2,4) that
    by (fastforce simp: maps_ok_def)
qed

lemma equal_operation_of:
  assumes "Equal (Some s) (Some t)" and "maps_ok s" "schema_ok s" "maps_ok t" and "op' \<in> operationSet t"
  obtains op sid r where "op \<in> operationSet s" and "equalOperation s t op op'"
proof -
  from assms(5) obtain sid name where "(sid, name, op') \<in> set (operation_entries t)" by (auto simp: operationSet_iff)
  then obtain r' where r': "(sid, Some r') \<in> set (s_services t)" "(name, Some op') \<in> set (svc_operations (s_svc t r'))"
    unfolding operation_entries_iff by blast
  obtain r r2 where r: "Some r' = Some r2" "(sid, Some r) \<in> set (s_services s)" "equalService s t r r2"
    by (rule equal_service_of [OF assms(1-4) r'(1)])
  then have ops: "equal_map (equalOperation s t) (svc_operations (s_svc s r)) (svc_operations (s_svc t r'))"
    by (simp add: equalService_def Let_def)
  have "\<forall>(k, p) \<in> set (svc_operations (s_svc s r)). p \<noteq> None"
    using assms(3) r(2) by (fastforce simp: schema_ok_def identity_ok_def)
  then obtain op x where "Some op' = Some x" "(name, Some op) \<in> set (svc_operations (s_svc s r))" "equalOperation s t op x"
    using equal_map_entries [OF ops _ _ _ r'(2)] assms(2,4) by (metis maps_ok_def)
  with r(2) that show ?thesis unfolding operationSet_iff operation_entries_iff by blast
qed

lemma equal_services_ok:
  assumes "Equal (Some s) (Some t)" and "maps_ok s" "schema_ok s" "maps_ok t" and "(sid, Some r') \<in> set (s_services t)"
  shows "service_ok (s_svc t r')"
proof -
  obtain r r2 where r: "Some r' = Some r2" "(sid, Some r) \<in> set (s_services s)" "equalService s t r r2"
    by (rule equal_service_of [OF assms])
  then have ok: "service_ok (s_svc s r)" using assms(3) by (auto simp: schema_ok_def)
  have eq: "svc_kind (s_svc t r') = svc_kind (s_svc s r)" "svc_replicas (s_svc t r') = svc_replicas (s_svc s r)"
    "length (svc_operations (s_svc t r')) = length (svc_operations (s_svc s r))"
    "equal_slice equalObservableMetricSpec (svc_metrics (s_svc s r)) (svc_metrics (s_svc t r'))"
    using r by (simp_all add: equalService_def Let_def equal_map_def)
  have "list_all observable_ok (svc_metrics (s_svc t r'))"
  proof (rule equal_slice_all [OF eq(4)])
    show "list_all observable_ok (svc_metrics (s_svc s r))" using ok by (simp add: service_ok_def)
    fix a b assume "equalObservableMetricSpec a b" "observable_ok a"
    then show "observable_ok b"
      unfolding equalObservableMetricSpec_def observable_ok_def
      by (auto dest: feq_valid(2) elim: equal_ptr_pred intro: equal_link_ok)
  qed
  moreover have "svc_operations (s_svc t r') \<noteq> []" using ok eq(3) by (auto simp: service_ok_def)
  ultimately show ?thesis using ok eq(1,2) by (simp add: service_ok_def)
qed

lemma equal_fault_ok:
  assumes "equalFaultSpec s t f g" and "fault_ok s f" and "target_ok t (ft_kind (f_target g)) (ft_service (f_target g))
    (ft_operation (f_target g)) (ft_edge (f_target g))"
  shows "fault_ok t g"
proof -
  from assms(1) have eq: "f_kind g = f_kind f" "feq (sev_probability (f_severity f)) (sev_probability (f_severity g))"
    "feq (sev_multiplier (f_severity f)) (sev_multiplier (f_severity g))"
    "equal_slice equalSchedulePoint (f_schedule f) (f_schedule g)"
    by (simp_all add: equalFaultSpec_def equalSeverity_def)
  from assms(2) have ok: "sorted_wrt (<) (map sp_at (f_schedule f))"
    "list_all (\<lambda>p. 0 \<le> sp_at p \<and> is_fin (sp_intensity p) \<and> fle (Fin 0) (sp_intensity p)) (f_schedule f)"
    by (auto simp: fault_ok_def schedule_ok_def list_all_iff)
  have "map sp_at (f_schedule g) = map sp_at (f_schedule f)"
    using eq(4) by (auto simp: equal_slice_def equalSchedulePoint_def list_all2_conv_all_nth intro: nth_equalityI)
  moreover have "list_all (\<lambda>p. 0 \<le> sp_at p \<and> is_fin (sp_intensity p) \<and> fle (Fin 0) (sp_intensity p)) (f_schedule g)"
    by (rule equal_slice_all [OF eq(4) ok(2)]) (auto simp: equalSchedulePoint_def dest: feq_valid(3,4))
  ultimately have "schedule_ok (f_schedule g)" using ok(1) by (auto simp: schedule_ok_def list_all_iff)
  with assms eq feq_valid(1) [OF eq(2)] feq_valid(5) [OF eq(3)] show ?thesis by (simp add: fault_ok_def)
qed

text \<open>The walk of the operation graph of \<open>t\<close> follows an edge of the graph of \<open>s\<close>.\<close>

lemma equal_acyclic:
  assumes eq: "Equal (Some s) (Some t)" and s: "maps_ok s" "schema_ok s" "portable s" and t: "maps_ok t"
  shows "acyclic (op_graph t)"
proof -
  have ids: "identity_ok s" using s(2) by (simp add: schema_ok_def)
  have dots: "\<forall>(sid, p) \<in> set (s_services s). CHR ''.'' \<notin> set sid" using s(3) by (auto simp: portable_def)
  have "\<forall>x \<in> operationSet t. \<exists>op. op \<in> operationSet s \<and> equalOperation s t op x"
    using equal_operation_of [OF eq s(1,2) t] by metis
  then obtain f where f: "\<And>x. x \<in> operationSet t \<Longrightarrow> f x \<in> operationSet s \<and> equalOperation s t (f x) x"
    using bchoice by metis
  have step: "(f x, f y) \<in> op_graph s" if xy: "(x, y) \<in> op_graph t" for x y
  proof -
    from xy have xyt: "x \<in> operationSet t" "y \<in> operationSet t" by (simp_all add: op_graph_def)
    from xy obtain e' where e': "e' \<in> set (forEachEdgeInCalls (op_calls (s_op t x)))" "e_to e' = Some y"
      by (auto simp: op_graph_def outgoingTargets_def opt_list_def split: option.splits)
    have "equalCalls s t (op_calls (s_op s (f x))) (op_calls (s_op t x))" using f [OF xyt(1)] by (simp add: equalOperation_def)
    from list_all2_in_set2 [OF equal_calls_walk [OF this] e'(1)] obtain e where
      e: "e \<in> set (forEachEdgeInCalls (op_calls (s_op s (f x))))" "equalEdge s t (Some e) (Some e')" by blast
    from op_graphI [OF s(2) _ e(1)] f [OF xyt(1)] obtain v where v: "e_to e = Some v" "v \<in> operationSet s" "(f x, v) \<in> op_graph s"
      by blast
    have "identifyOp s (Some v) = identifyOp s (Some (f y))"
      using equalEdge_ends [OF e(2)] e'(2) v(1) f [OF xyt(2)] by (simp add: equalOperation_def)
    then have "v = f y" by (intro identifyOp_inj [OF ids s(1) dots v(2)]) (use f xyt in auto)
    with v(3) show ?thesis by simp
  qed
  have "(f x, f y) \<in> (op_graph s)\<^sup>+" if "(x, y) \<in> (op_graph t)\<^sup>+" for x y
    using that by (induction rule: trancl_induct) (auto intro: step trancl_into_trancl)
  moreover have "acyclic (op_graph s)" using s(2) by (simp add: schema_ok_def)
  ultimately show ?thesis unfolding acyclic_def by blast
qed

lemma equal_schema_ok:
  assumes eq: "Equal (Some s) (Some t)" and s: "maps_ok s" "schema_ok s" "portable s" and t: "well_built t"
  shows "schema_ok t"
  unfolding schema_ok_def
proof (intro conjI allI impI ballI)
  from t have maps: "maps_ok t" and ids: "identity_ok t" and calls: "calls_resolved t" by (simp_all add: well_built_def)
  from eq have svcs: "equal_map (equalService s t) (s_services s) (s_services t)"
    and js: "equal_map (equalJourney s t) (s_journeys s) (s_journeys t)"
    and fs: "equal_slice (equalFaultSpec s t) (s_faults s) (s_faults t)"
    by (simp_all add: Equal_def equal_ptr_def)
  show "s_services t \<noteq> []" "s_journeys t \<noteq> []" using svcs js s(2) by (auto simp: equal_map_def schema_ok_def)
  show "identity_ok t" by (rule ids)
  show "acyclic (op_graph t)" by (rule equal_acyclic [OF eq s maps])
  show "service_ok (s_svc t r')" if "(sid, Some r') \<in> set (s_services t)" for sid r'
    by (rule equal_services_ok [OF eq s(1,2) maps that])
  fix op' assume op': "op' \<in> operationSet t"
  obtain op where op: "op \<in> operationSet s" "equalOperation s t op op'"
    by (rule equal_operation_of [OF eq s(1,2) maps op'])
  have sop: "operation_ok (s_op s op)" "calls_ok s (op_calls (s_op s op))" using s(2) op(1) by (simp_all add: schema_ok_def)
  have "op_name (s_op t op') = op_name (s_op s op)" 
  proof -
    obtain sid name sid' name' where e: "(sid, name, op) \<in> set (operation_entries s)" "(sid', name', op') \<in> set (operation_entries t)"
      using op(1) op' by (auto simp: operationSet_iff)
    obtain sid'' r r'' where "(sid'', Some r'') \<in> set (s_services t)" by (use e(2) in \<open>auto simp: operation_entries_iff\<close>)
    from identity_okD [OF ids e(2)] obtain r' where r': "op_service (s_op t op') = Some r'" "svc_name (s_svc t r') = sid'"
      "op_name (s_op t op') = name'" "(sid', Some r') \<in> set (s_services t)" by blast
    have "identity_ok s" using s(2) by (simp add: schema_ok_def)
    from identity_okD [OF this e(1)] obtain r where r: "op_service (s_op s op) = Some r" "svc_name (s_svc s r) = sid"
      "op_name (s_op s op) = name" "(sid, Some r) \<in> set (s_services s)" by blast
    obtain r1 r2 where "(sid', Some r1) \<in> set (s_services s)" by (rule equal_service_of [OF eq s(1,2) maps r'(4)])
    then have dots: "CHR ''.'' \<notin> set sid" "CHR ''.'' \<notin> set sid'" using s(3) r(4) by (auto simp: portable_def)
    have "sid @ ''.'' @ name = sid' @ ''.'' @ name'" using op(2) r r' by (simp add: equalOperation_def identifyOp_def)
    then have "str_cut ''.'' (sid @ ''.'' @ name) = str_cut ''.'' (sid' @ ''.'' @ name')" by (rule arg_cong)
    moreover have "str_cut ''.'' (sid @ ''.'' @ name) = Some (sid, name)" "str_cut ''.'' (sid' @ ''.'' @ name') = Some (sid', name')"
      using str_cut_char [OF dots(1), of name] str_cut_char [OF dots(2), of name'] by (simp_all only: append.simps)
    ultimately show ?thesis using r(3) r'(3) by simp
  qed
  with equal_operation_ok [OF op(2) sop(1)] show "operation_ok (s_op t op')" by simp
  have cs: "equalCalls s t (op_calls (s_op s op)) (op_calls (s_op t op'))" using op(2) by (simp add: equalOperation_def)
  have "endpoints_ok t e' \<and> owned e' \<and> edge_domain_ok e'" if "e' \<in> set (forEachEdgeInCalls (op_calls (s_op t op')))" for e'
  proof -
    from list_all2_in_set2 [OF equal_calls_walk [OF cs] that] obtain e where
      "e \<in> set (forEachEdgeInCalls (op_calls (s_op s op)))" "equalEdge s t (Some e) (Some e')" by blast
    with sop(2) have "edge_domain_ok e'" by (auto simp: calls_ok_def intro: equal_edge_domain)
    moreover have "resolved_edge t op' e'"
      using calls op' that by (fastforce simp: calls_resolved_def resolved_node_def forEachEdgeInCalls_def)
    ultimately show ?thesis by (simp add: resolved_edgeD)
  qed
  moreover have "\<exists>n. p = Some n \<and> node_shape n" if "p \<in> set (op_calls (s_op t op'))" for p
    using calls op' that by (fastforce simp: calls_resolved_def resolved_node_def)
  ultimately show "calls_ok t (op_calls (s_op t op'))" by (auto simp: calls_ok_def)
next
  from t have maps: "maps_ok t" by (simp add: well_built_def)
  from eq have js: "equal_map (equalJourney s t) (s_journeys s) (s_journeys t)" by (simp add: Equal_def equal_ptr_def)
  fix e assume e: "e \<in> set (s_journeys t)"
  obtain name q where nq: "e = (name, q)" by force
  have "\<forall>(k, p) \<in> set (s_journeys s). p \<noteq> None" using s(2) by (fastforce simp: schema_ok_def)
  then obtain j j' where j: "q = Some j'" "(name, Some j) \<in> set (s_journeys s)" "equalJourney s t j j'"
    using equal_map_entries [OF js _ _ _, of name q] s(1) maps e nq by (metis maps_ok_def)
  from s(2) j(2) have ok: "journey_ok s name j" by (fastforce simp: schema_ok_def)
  have "j_steps j' \<noteq> []" using j(3) ok by (auto simp: equalJourney_def equalSteps_all journey_ok_def)
  moreover have "\<forall>p \<in> set (j_steps j'). \<exists>st. p = Some st \<and> step_shape t st"
    using t e nq j(1) by (fastforce simp: well_built_def)
  ultimately have "journey_ok t name j'"
    using ok j(3) feq_valid(5) by (auto simp: journey_ok_def equalJourney_def)
  with nq j(1) show "case e of (name, p) \<Rightarrow> \<exists>j. p = Some j \<and> journey_ok t name j" by simp
next
  from eq have fs: "list_all2 (equalFaultSpec s t) (s_faults s) (s_faults t)"
    by (simp add: Equal_def equal_ptr_def equal_slice_def)
  fix g assume g: "g \<in> set (s_faults t)"
  from list_all2_in_set2 [OF fs g] obtain f where f: "f \<in> set (s_faults s)" "equalFaultSpec s t f g" by blast
  show "fault_ok t g"
    by (rule equal_fault_ok [OF f(2)]) (use s(2) f(1) t g in \<open>auto simp: schema_ok_def well_built_def\<close>)
qed

lemma validation_errors_None: "maps_ok s \<Longrightarrow> schema_ok s \<Longrightarrow> Validate (Some s) = None"
  using validation_errors_ok by (simp add: Validate_def)

section \<open>Nothing is lost in writing\<close>

text \<open>The fields that the encoder leaves out of a portable schema are zero anyway.\<close>

lemma written_map_plain: "plain_attributes a \<Longrightarrow> written_map a = a"
  by (cases a rule: written_map.cases) (simp_all add: plain_attributes_def)

lemma written_metrics:
  "list_all portable_metric ms \<Longrightarrow> map (map_option written_metric) (marshalMetrics ms) = marshalMetrics ms"
  "list_all portable_observable oms \<Longrightarrow> map (map_option written_metric) (marshalObservableMetrics oms) = marshalObservableMetrics oms"
  by (simp_all add: marshalMetrics_def marshalObservableMetrics_def written_metric_def list_all_iff portable_metric_def
      portable_observable_def written_map_plain)

lemma written_log_events:
  "list_all portable_log_event evs \<Longrightarrow> map (map_option written_log_event) (marshalLogEvents evs) = marshalLogEvents evs"
  by (simp add: marshalLogEvents_def written_log_event_def list_all_iff portable_log_event_def written_map_plain)

lemma written_empty: "written_call_node empty_raw_call_node = empty_raw_call_node"
  by (simp add: empty_raw_call_node_def)

lemma written_edge:
  "\<forall>f \<in> set (edges_deep e). portable_edge f \<Longrightarrow> written_call_node (marshalEdge s e) = marshalEdge s e"
proof (induction s e rule: marshalEdge.induct)
  case (1 s r src to p l er tmo rts bo bd onf)
  let ?e = "Edge r src to p l er tmo rts bo bd onf"
  show ?case
  proof (cases onf)
    case (Some rp)
    obtain fs act dr where rp: "rp = Recovery fs act dr" by (cases rp)
    have "portable_edge ?e" using "1.prems" edges_deep_fallbacks [of ?e] by simp
    with Some rp have "written_map dr = dr" by (simp add: portable_edge_def written_map_plain)
    moreover have "written_call_node (case f of None \<Rightarrow> empty_raw_call_node | Some e \<Rightarrow> marshalEdge s e)
        = (case f of None \<Rightarrow> empty_raw_call_node | Some e \<Rightarrow> marshalEdge s e)" if f: "f \<in> set fs" for f
    proof (cases f)
      case (Some fe)
      with f \<open>onf = Some rp\<close> rp "1.prems" have "\<forall>h \<in> set (edges_deep fe). portable_edge h"
        by (force simp: edges_deep_fallbacks [of ?e] fallbacks_def)
      with "1.IH" [OF \<open>onf = Some rp\<close> rp f Some] Some show ?thesis by simp
    qed (simp add: written_empty)
    ultimately show ?thesis using Some rp by simp
  qed simp
qed

lemma written_node:
  "node_shape n \<Longrightarrow> \<forall>e \<in> set (edges_in_node n). \<forall>f \<in> set (edges_deep e). portable_edge f \<Longrightarrow>
   written_call_node (marshalCallNode s n) = marshalCallNode s n"
proof (induction n rule: node_shape.induct)
  case (leaf e)
  then show ?case by (simp add: written_edge)
next
  case (group ps)
  have "written_call_node (marshalCallNode s n) = marshalCallNode s n" if p: "Some n \<in> set ps" for n
  proof -
    have "set (edges_in_node n) \<subseteq> set (edges_in_node (CallNode None ps))" using p by force
    with bspec [OF group.IH p] group.prems show ?thesis by fastforce
  qed
  then show ?case by (auto simp: written_empty split: option.split)
qed

lemma written_calls:
  assumes "calls_ok s calls" and "\<forall>e \<in> set (forEachEdgeInCalls calls). list_all portable_edge (edges_deep e)"
  shows "map (map_option written_call_node) (marshalCallNodes s calls) = marshalCallNodes s calls"
proof -
  have "written_call_node (marshalCallNode s n) = marshalCallNode s n" if n: "Some n \<in> set calls" for n
  proof (rule written_node)
    show "node_shape n" using assms(1) n by (fastforce simp: calls_ok_def)
    show "\<forall>e \<in> set (edges_in_node n). \<forall>f \<in> set (edges_deep e). portable_edge f"
      using assms(2) n by (force simp: forEachEdgeInCalls_def list_all_iff)
  qed
  then show ?thesis by (auto simp: marshalCallNodes_def written_empty split: option.split)
qed

lemma written_operations:
  assumes s: "schema_ok s" "maps_ok s" "portable s" and svc: "(sid, Some r) \<in> set (s_services s)"
  shows "map (map_option written_operation) (marshalOperations s (svc_operations (s_svc s r)))
    = marshalOperations s (svc_operations (s_svc s r))"
proof (intro nth_equalityI)
  fix i
  assume "i < length (map (map_option written_operation) (marshalOperations s (svc_operations (s_svc s r))))"
  then have i: "i < length (op_names s r)" by simp
  obtain op where op: "op \<in> operationSet s"
    "marshalOperations s (svc_operations (s_svc s r)) ! i = Some (marshalled_op s op)"
    by (rule marshalOperations_nth [OF s(1,2) svc i])
  from s op(1) have "portable_operation (s_op s op)" "calls_ok s (op_calls (s_op s op))"
    "\<forall>e \<in> set (forEachEdgeInCalls (op_calls (s_op s op))). list_all portable_edge (edges_deep e)"
    by (auto simp: portable_def schema_ok_def)
  then have "written_operation (marshalled_op s op) = marshalled_op s op"
    by (simp add: written_operation_def marshalled_op_def Let_def portable_operation_def written_calls
        written_metrics written_log_events)
  with op(2) i show "map (map_option written_operation) (marshalOperations s (svc_operations (s_svc s r))) ! i
      = marshalOperations s (svc_operations (s_svc s r)) ! i" by simp
qed simp

lemma written_marshalled:
  assumes s: "schema_ok s" "maps_ok s" "portable s"
  shows "written (MarshalYAML s) = MarshalYAML s"
proof -
  have "written_service (marshalService s (ptr_at (s_services s) sid) ns) = marshalService s (ptr_at (s_services s) sid) ns"
    if sid: "sid \<in> fst ` set (s_services s)" for sid ns
  proof -
    from sid s(1) obtain r where r: "(sid, Some r) \<in> set (s_services s)" by (fastforce simp: schema_ok_def identity_ok_def)
    with s(2) have at: "ptr_at (s_services s) sid = Some r" by (simp add: maps_ok_def ptr_at_in_gomap)
    from s(3) r have "list_all portable_observable (svc_metrics (s_svc s r))" by (fastforce simp: portable_def)
    with written_operations [OF s r] show ?thesis
      by (simp add: at marshalService_def Let_def written_service_def written_metrics)
  qed
  then show ?thesis by (simp add: written_def MarshalYAML_def)
qed

text \<open>A log event whose attributes are a map without an entry comes back with a nil map, which differs.\<close>

lemma empty_attributes_lost:
  assumes "le_attributes ev = Some []"
  shows "\<not> equal_slice equalLogEventSpec (ev # evs)
    (resolveLogEvents (map (map_option written_log_event) (marshalLogEvents (ev # evs))))"
  using assms by (simp add: equal_slice_def marshalLogEvents_def written_log_event_def resolveLogEvents_def non_nil_def
      equalLogEventSpec_def deepEqualAttributes_def)

section \<open>The round trip\<close>

text \<open>A map that has the entries of another of this form is of this form itself.\<close>

lemma mset_entries: "mset m = mset (map (\<lambda>k. (k, f k)) ks) \<Longrightarrow> m = map (\<lambda>k. (k, f k)) (map fst m) \<and> mset (map fst m) = mset ks"
proof
  assume m: "mset m = mset (map (\<lambda>k. (k, f k)) ks)"
  then have "set m = set (map (\<lambda>k. (k, f k)) ks)" by (metis set_mset_mset)
  then have "kv = (fst kv, f (fst kv))" if "kv \<in> set m" for kv using that by auto
  then have "map (\<lambda>kv. (fst kv, f (fst kv))) m = m" by (intro map_idI) metis
  then show "m = map (\<lambda>k. (k, f k)) (map fst m)" by (simp add: comp_def)
  from m have "image_mset fst (mset m) = image_mset fst (mset (map (\<lambda>k. (k, f k)) ks))" by simp
  then show "mset (map fst m) = mset ks" by (simp add: multiset.map_comp comp_def)
qed

lemma same_entries_marshalled:
  assumes "same_entries read (MarshalYAML s)"
  obtains ids ns where "orders s ids ns" and "read = marshalled s ids ns"
proof
  let ?f = "\<lambda>sid. Some (marshalService s (ptr_at (s_services s) sid) (effectiveSchemaNamespace s))"
  let ?g = "\<lambda>name. Some (marshalJourney s (ptr_at (s_journeys s) name))"
  have "mset (raw_services read) = mset (map (\<lambda>k. (k, ?f k)) (sort_strings (map fst (s_services s))))"
    using assms by (simp add: same_entries_def MarshalYAML_def)
  note svcs = mset_entries [OF this]
  have "mset (raw_journeys read) = mset (map (\<lambda>k. (k, ?g k)) (sort_strings (map fst (s_journeys s))))"
    using assms by (simp add: same_entries_def MarshalYAML_def)
  note js = mset_entries [OF this]
  show "orders s (map fst (raw_services read)) (map fst (raw_journeys read))"
    using conjunct2 [OF svcs] conjunct2 [OF js] by (simp add: orders_def sort_strings_def)
  have "raw_services (marshalled s (map fst (raw_services read)) (map fst (raw_journeys read))) = raw_services read"
    "raw_journeys (marshalled s (map fst (raw_services read)) (map fst (raw_journeys read))) = raw_journeys read"
    using conjunct1 [OF svcs, symmetric] conjunct1 [OF js, symmetric] by (simp_all add: marshalled_def)
  then show "read = marshalled s (map fst (raw_services read)) (map fst (raw_journeys read))"
    using assms by (intro raw_schema.equality) (simp_all add: same_entries_def marshalled_def)
qed

text \<open>
  C4: Marshalling and parsing are inverse: take a topology that Parse accepts and that the YAML form
  can express (\<open>portable\<close>: no name that a target string would split elsewhere, no NaN, no metric fault
  link with both a delta and a value, no empty map that is not nil and no float that is written as an
  integer among the attributes). Encode the result of MarshalYAML, where the encoder leaves out what
  the struct tags mark as omitempty and the decoder reads the written fields back, the entries of the
  maps in any order; then Parse accepts that text, and gives a schema that Equal accepts as the same.
\<close>

theorem marshal_round_trip:
  assumes "raw_maps_ok raw" and "parse_raw raw = Inr s" and "portable s"
    and yaml: "reads_back encode yaml (MarshalYAML s)"
  shows "\<exists>t. Parse yaml (Inr (encode (MarshalYAML s))) = Inr t \<and> Equal (Some s) (Some t)"
proof -
  from assms(2) have res: "resolveReferences (buildSchema raw) raw = (s, None)" "Validate (Some s) = None"
    by (auto simp: parse_raw_def split: prod.splits option.splits)
  have s: "maps_ok s" by (rule resolveReferences_result(1) [OF res(1) assms(1)])
  have ok: "schema_ok s" by (rule Validate_ok [OF s res(2)])
  obtain read where read: "yaml (encode (MarshalYAML s)) False = Inr read" "same_entries read (MarshalYAML s)"
    using yaml by (auto simp: reads_back_def written_marshalled [OF ok s assms(3)] split: sum.splits)
  obtain ids ns where o: "orders s ids ns" and marshalled: "read = marshalled s ids ns"
    by (rule same_entries_marshalled [OF read(2)])
  obtain t where t: "resolveReferences (remade s ids ns) read = (t, None)" "Equal (Some s) (Some t)"
    using marshal_resolves [OF o ok s assms(3) parsed_linked [OF res(1) assms(1)]] unfolding marshalled by blast
  note built = t(1) [unfolded remade_def marshalled [symmetric]]
  from resolveReferences_result [OF built raw_maps_marshalled [OF o s, folded marshalled]] have wb: "well_built t"
    by (simp add: well_built_def)
  then have "Validate (Some t) = None"
    by (intro validation_errors_None equal_schema_ok [OF t(2) s ok assms(3)]) (simp_all add: well_built_def)
  with built have "parse_raw read = Inr t" by (simp add: parse_raw_def)
  with t(2) read(1) show ?thesis by (simp add: Parse_def decodeRaw_def)
qed

end
