(* ===== verification/Journey_Plan.thy ===== *)
theory Journey_Plan
  imports Topology_Wellformed
begin

text \<open>
  journey/plan.go and journey/errors.go: the Plan tree of a journey and its construction from the
  schema. The construction recurses through the call graph, which the schema's heap does not bound,
  so buildOperationNode takes fuel for the depth of operations; the code's recursion on call nodes
  and steps is structural. The map of the operations on the build path is restored when an
  operation returns, so it is passed as a set. The second half shows that a schema accepted by
  Validate always has its plans, with fuel one above the number of its operations.
\<close>

section \<open>Plans\<close>

datatype node =
  Node (n_service: "svc_ref option") (n_operation: string) (n_edge: "edge option")
    (n_parallel: "node option list") (n_children: "node option list")
    (n_log_events: "log_event list") (n_metrics: "metric_spec list")
    (n_state_updates: "state_update list") (n_profile: "profile_spec option")

record plan =
  p_journey :: string
  p_root :: "node option"

definition parallel_node :: "node option list \<Rightarrow> node" where
  "parallel_node ps = Node None '''' None ps [] [] [] [] None"

definition sequence_node :: "node option list \<Rightarrow> node" where
  "sequence_node cs = Node None '''' None [] cs [] [] [] None"

section \<open>Errors\<close>

text \<open>\<open>OutOfFuel\<close> is no error of the code: it marks a run that the fuel cuts off.\<close>

datatype plan_error = PlanError (pe_kind: string) (pe_path: "string list") (pe_inner: "string option")
  | OutOfFuel

fun join_strings :: "string \<Rightarrow> string list \<Rightarrow> string" where
  "join_strings sep [] = ''''"
| "join_strings sep [x] = x"
| "join_strings sep (x # y # xs) = x @ sep @ join_strings sep (y # xs)"

fun PlanError_Error :: "plan_error option \<Rightarrow> string" where
  "PlanError_Error None = ''journey: BuildPlan: <nil>''"
| "PlanError_Error (Some OutOfFuel) = ''''"
| "PlanError_Error (Some (PlanError kind path inner)) =
     ''journey: BuildPlan: '' @ kind
     @ (if path \<noteq> [] then '' at '' @ join_strings '' -> '' path else '''')
     @ (case inner of None \<Rightarrow> '''' | Some e \<Rightarrow> '': '' @ e)"

datatype execute_error = ExecuteError (ee_kind: string) (ee_inner: "string option")

fun ExecuteError_Error :: "execute_error option \<Rightarrow> string" where
  "ExecuteError_Error None = ''journey: Execute: <nil>''"
| "ExecuteError_Error (Some (ExecuteError kind (Some e))) = ''journey: Execute: '' @ kind @ '': '' @ e"
| "ExecuteError_Error (Some (ExecuteError kind None)) = ''journey: Execute: '' @ kind"

section \<open>Loops that return at the first error\<close>

fun traverse_from :: "nat \<Rightarrow> (nat \<Rightarrow> 'a \<Rightarrow> 'e + 'b) \<Rightarrow> 'a list \<Rightarrow> 'e + 'b list" where
  "traverse_from i f [] = Inr []"
| "traverse_from i f (x # xs) = (case f i x of
       Inl err \<Rightarrow> Inl err
     | Inr y \<Rightarrow> (case traverse_from (Suc i) f xs of Inl err \<Rightarrow> Inl err | Inr ys \<Rightarrow> Inr (y # ys)))"

lemma traverse_from_cong [fundef_cong]:
  "i = j \<Longrightarrow> xs = ys \<Longrightarrow> (\<And>k x. x \<in> set ys \<Longrightarrow> f k x = g k x) \<Longrightarrow> traverse_from i f xs = traverse_from j g ys"
  by (induction ys arbitrary: i j xs) (auto split: sum.splits)

lemma traverse_from_ok:
  "(\<And>k x. x \<in> set xs \<Longrightarrow> \<exists>y. f k x = Inr y \<and> R x y) \<Longrightarrow>
   \<exists>ys. traverse_from i f xs = Inr ys \<and> list_all2 R xs ys"
proof (induction i f xs rule: traverse_from.induct)
  case (2 i f x xs)
  from 2(2) [of x i] obtain y where "f i x = Inr y" "R x y" by auto
  moreover from 2 this obtain ys where "traverse_from (Suc i) f xs = Inr ys" "list_all2 R xs ys" by auto
  ultimately show ?case by simp
qed simp

section \<open>buildPlan\<close>

text \<open>Two functions that recurse on an operation take the builder of operations as an argument.\<close>

type_synonym op_builder =
  "op_ref option \<Rightarrow> edge option \<Rightarrow> op_ref set \<Rightarrow> string list \<Rightarrow> plan_error + node"

definition opLabel :: "schema \<Rightarrow> op_ref option \<Rightarrow> string" where
  "opLabel s p = (case p of
       None \<Rightarrow> ''<nil>''
     | Some op \<Rightarrow> (case op_service (s_op s op) of
           None \<Rightarrow> ''.'' @ op_name (s_op s op)
         | Some r \<Rightarrow> svc_name (s_svc s r) @ ''.'' @ op_name (s_op s op)))"

fun buildCallNode ::
  "schema \<Rightarrow> op_builder \<Rightarrow> op_ref set \<Rightarrow> string list \<Rightarrow> call_node \<Rightarrow> plan_error + node" where
  "buildCallNode s build visiting path (CallNode e ps) =
     (if ps \<noteq> [] then
        (case traverse_from 0 (\<lambda>i p. case p of
               None \<Rightarrow> Inl (PlanError ''nil_call'' (path @ [index_path ''parallel'' i]) None)
             | Some c \<Rightarrow> buildCallNode s build visiting (path @ [index_path ''parallel'' i]) c) ps of
           Inl err \<Rightarrow> Inl err
         | Inr children \<Rightarrow> Inr (parallel_node (map Some children)))
      else case e of
          None \<Rightarrow> Inl (PlanError ''nil_edge'' path None)
        | Some ed \<Rightarrow>
            if e_to ed = None then Inl (PlanError ''nil_edge_to'' path None)
            else build (e_to ed) (Some ed) visiting (path @ [opLabel s (e_to ed)]))"

fun buildOperationNode :: "nat \<Rightarrow> schema \<Rightarrow> op_builder" where
  "buildOperationNode 0 s p edge visiting path = Inl OutOfFuel"
| "buildOperationNode (Suc n) s p edge visiting path = (case p of
       None \<Rightarrow> Inl (PlanError ''nil_operation'' path None)
     | Some op \<Rightarrow>
         if op_service (s_op s op) = None then Inl (PlanError ''nil_operation'' path None)
         else if op \<in> visiting then
           Inl (PlanError ''cycle'' path
             (Some (''operation '' @ opLabel s (Some op) @ '' is already on the build path'')))
         else (case traverse_from 0 (\<lambda>i q. case q of
                 None \<Rightarrow> Inl (PlanError ''nil_call'' (path @ [index_path ''call'' i]) None)
               | Some c \<Rightarrow> buildCallNode s (buildOperationNode n s) (insert op visiting)
                   (path @ [index_path ''call'' i]) c) (op_calls (s_op s op)) of
             Inl err \<Rightarrow> Inl err
           | Inr children \<Rightarrow>
               Inr (Node (op_service (s_op s op)) (op_name (s_op s op)) edge [] (map Some children)
                 (op_log_events (s_op s op)) (op_metrics (s_op s op)) (op_state_updates (s_op s op))
                 (op_profile (s_op s op)))))"

fun buildStepNode ::
  "schema \<Rightarrow> op_builder \<Rightarrow> edge option \<Rightarrow> op_ref set \<Rightarrow> string list \<Rightarrow> step \<Rightarrow> plan_error + node" where
  "buildStepNode s build edge visiting path (Step op ps) =
     (if ps \<noteq> [] then
        (case traverse_from 0 (\<lambda>i p. case p of
               None \<Rightarrow> Inl (PlanError ''nil_step'' (path @ [index_path ''parallel'' i]) None)
             | Some st \<Rightarrow> buildStepNode s build edge visiting (path @ [index_path ''parallel'' i]) st) ps of
           Inl err \<Rightarrow> Inl err
         | Inr children \<Rightarrow> Inr (parallel_node (map Some children)))
      else if op = None then Inl (PlanError ''nil_operation'' path None)
      else build op edge visiting (path @ [opLabel s op]))"

definition buildPlan :: "nat \<Rightarrow> schema \<Rightarrow> string \<Rightarrow> plan_error + plan" where
  "buildPlan n s name = (case map_of (s_journeys s) name of
       None \<Rightarrow> Inl (PlanError ''unknown_journey'' [name] None)
     | Some None \<Rightarrow> Inl (PlanError ''empty_journey'' [name] None)
     | Some (Some j) \<Rightarrow>
         if j_steps j = [] then Inl (PlanError ''empty_journey'' [name] None)
         else (case traverse_from 0 (\<lambda>i p. case p of
                 None \<Rightarrow> Inl (PlanError ''nil_step'' [name, index_path ''step'' i] None)
               | Some st \<Rightarrow> buildStepNode s (buildOperationNode n s) None {} [name, index_path ''step'' i] st)
                 (j_steps j) of
             Inl err \<Rightarrow> Inl err
           | Inr [child] \<Rightarrow> Inr \<lparr>p_journey = name, p_root = Some child\<rparr>
           | Inr children \<Rightarrow> Inr \<lparr>p_journey = name, p_root = Some (sequence_node (map Some children))\<rparr>))"

text \<open>The depth of operations on a build path is at most the number of operations.\<close>

definition plan_fuel :: "schema \<Rightarrow> nat" where
  "plan_fuel s = Suc (length (remdups (allSchemaOperations s)))"

section \<open>The plan is the unfolding of the call graph\<close>

text \<open>
  \<open>unfolds s p e n\<close>: the node is the operation called over the edge, and its children are, in
  order, the nodes of its calls; \<open>unfolds_call\<close> relates a call node to its plan node.
\<close>

inductive unfolds :: "schema \<Rightarrow> op_ref \<Rightarrow> edge option \<Rightarrow> node \<Rightarrow> bool"
  and unfolds_call :: "schema \<Rightarrow> call_node \<Rightarrow> node \<Rightarrow> bool" for s where
  operation: "list_all2 (\<lambda>q m. \<exists>c n. q = Some c \<and> m = Some n \<and> unfolds_call s c n) (op_calls (s_op s op)) cs
    \<Longrightarrow> unfolds s op e (Node (op_service (s_op s op)) (op_name (s_op s op)) e [] cs
         (op_log_events (s_op s op)) (op_metrics (s_op s op)) (op_state_updates (s_op s op))
         (op_profile (s_op s op)))"
| call: "e_to ed = Some t \<Longrightarrow> unfolds s t (Some ed) n \<Longrightarrow> unfolds_call s (CallNode (Some ed) []) n"
| group: "ps \<noteq> [] \<Longrightarrow> list_all2 (\<lambda>q m. \<exists>c n. q = Some c \<and> m = Some n \<and> unfolds_call s c n) ps cs
    \<Longrightarrow> unfolds_call s (CallNode e ps) (parallel_node cs)"

inductive unfolds_step :: "schema \<Rightarrow> step \<Rightarrow> node \<Rightarrow> bool" for s where
  operation: "unfolds s op None n \<Longrightarrow> unfolds_step s (Step (Some op) []) n"
| group: "ps \<noteq> [] \<Longrightarrow> list_all2 (\<lambda>q m. \<exists>c n. q = Some c \<and> m = Some n \<and> unfolds_step s c n) ps cs
    \<Longrightarrow> unfolds_step s (Step op ps) (parallel_node cs)"

lemma buildCallNode_ok:
  assumes "node_shape c"
    and "\<And>ed. ed \<in> set (edges_in_node c) \<Longrightarrow> \<exists>t. e_to ed = Some t
      \<and> (\<forall>q. \<exists>n. build (Some t) (Some ed) visiting q = Inr n \<and> unfolds s t (Some ed) n)"
  shows "\<exists>n. buildCallNode s build visiting path c = Inr n \<and> unfolds_call s c n"
  using assms
proof (induction c arbitrary: path rule: node_shape.induct)
  case (leaf e)
  have "e \<in> set (edges_in_node (CallNode (Some e) []))" by simp
  from leaf [OF this] obtain t n where "e_to e = Some t"
    "build (Some t) (Some e) visiting (path @ [opLabel s (Some t)]) = Inr n" "unfolds s t (Some e) n"
    by blast
  then show ?case by (auto intro: unfolds_unfolds_call.call)
next
  case (group ps)
  let ?f = "\<lambda>i p. case p of
      None \<Rightarrow> Inl (PlanError ''nil_call'' (path @ [index_path ''parallel'' i]) None)
    | Some c \<Rightarrow> buildCallNode s build visiting (path @ [index_path ''parallel'' i]) c"
  have "\<exists>n. ?f i p = Inr n \<and> (\<exists>c. p = Some c \<and> unfolds_call s c n)" if "p \<in> set ps" for i p
  proof -
    from group.IH that obtain c where c: "p = Some c"
      "(\<forall>ed \<in> set (edges_in_node c). \<exists>t. e_to ed = Some t
        \<and> (\<forall>q. \<exists>n. build (Some t) (Some ed) visiting q = Inr n \<and> unfolds s t (Some ed) n)) \<Longrightarrow>
        \<exists>n. buildCallNode s build visiting (path @ [index_path ''parallel'' i]) c = Inr n \<and> unfolds_call s c n"
      by metis
    have "set (edges_in_node c) \<subseteq> set (edges_in_node (CallNode None ps))"
      using that c(1) by force
    then have "\<forall>ed \<in> set (edges_in_node c). \<exists>t. e_to ed = Some t
        \<and> (\<forall>q. \<exists>n. build (Some t) (Some ed) visiting q = Inr n \<and> unfolds s t (Some ed) n)"
      using group.prems by blast
    from c(2) [OF this] c(1) show ?thesis by auto
  qed
  from traverse_from_ok [where i = 0 and f = ?f and xs = ps, OF this] obtain ns where ns: "traverse_from 0 ?f ps = Inr ns"
    "list_all2 (\<lambda>p n. \<exists>c. p = Some c \<and> unfolds_call s c n) ps ns" by blast
  then have "list_all2 (\<lambda>q m. \<exists>c n. q = Some c \<and> m = Some n \<and> unfolds_call s c n) ps (map Some ns)"
    by (auto simp: list_all2_map2 elim: list_all2_mono)
  with ns(1) group.hyps show ?case by (auto intro: unfolds_unfolds_call.group)
qed

lemma finite_reach:
  assumes "finite G"
  shows "finite (G\<^sup>* `` {u})"
proof (rule finite_subset)
  show "G\<^sup>* `` {u} \<subseteq> insert u (snd ` G)"
  proof
    fix v assume "v \<in> G\<^sup>* `` {u}"
    then have "(u, v) \<in> G\<^sup>*" by simp
    then show "v \<in> insert u (snd ` G)" by (cases rule: rtranclE) force+
  qed
qed (use assms in simp)

lemma reach_shrinks:
  assumes "acyclic G" and "finite G" and "(u, v) \<in> G"
  shows "card (G\<^sup>* `` {v}) < card (G\<^sup>* `` {u})"
proof (rule psubset_card_mono)
  show "finite (G\<^sup>* `` {u})" using assms(2) by (rule finite_reach)
  have "u \<notin> G\<^sup>* `` {v}"
    using assms(1,3) by (auto simp: acyclic_def dest: rtrancl_into_trancl2)
  moreover have "G\<^sup>* `` {v} \<subseteq> G\<^sup>* `` {u}" and "u \<in> G\<^sup>* `` {u}"
    using assms(3) by (auto intro: converse_rtrancl_into_rtrancl)
  ultimately show "G\<^sup>* `` {v} \<subset> G\<^sup>* `` {u}" by blast
qed

lemma buildOperationNode_ok:
  assumes s: "schema_ok s" and "op \<in> operationSet s"
    and "\<forall>v \<in> visiting. (v, op) \<in> (op_graph s)\<^sup>+" and "card ((op_graph s)\<^sup>* `` {op}) \<le> fuel"
  shows "\<exists>n. buildOperationNode fuel s (Some op) e visiting path = Inr n \<and> unfolds s op e n"
  using assms(2-)
proof (induction fuel arbitrary: op e visiting path)
  case 0
  have "finite ((op_graph s)\<^sup>* `` {op})"
    by (rule finite_reach [OF op_graph_finite])
  with 0 show ?case by auto
next
  case (Suc fuel)
  let ?G = "op_graph s"
  have acyclic: "acyclic ?G" and ids: "identity_ok s" using s by (auto simp: schema_ok_def)
  from Suc.prems(2) acyclic have fresh: "op \<notin> visiting" by (auto simp: acyclic_def)
  from Suc.prems(1) ids have svc: "op_service (s_op s op) \<noteq> None"
    by (auto simp: operationSet_iff dest!: identity_okD)
  let ?f = "\<lambda>i q. case q of
      None \<Rightarrow> Inl (PlanError ''nil_call'' (path @ [index_path ''call'' i]) None)
    | Some c \<Rightarrow> buildCallNode s (buildOperationNode fuel s) (insert op visiting) (path @ [index_path ''call'' i]) c"
  have call: "\<exists>n. ?f i q = Inr n \<and> (\<exists>c. q = Some c \<and> unfolds_call s c n)"
    if q: "q \<in> set (op_calls (s_op s op))" for i q
  proof -
    from s Suc.prems(1) have "calls_ok s (op_calls (s_op s op))" by (simp add: schema_ok_def)
    with q obtain c where c: "q = Some c" "node_shape c" unfolding calls_ok_def by blast
    have "\<exists>t. e_to ed = Some t \<and> (\<forall>q. \<exists>n. buildOperationNode fuel s (Some t) (Some ed) (insert op visiting) q
        = Inr n \<and> unfolds s t (Some ed) n)" if "ed \<in> set (edges_in_node c)" for ed
    proof -
      have "ed \<in> set (forEachEdgeInCalls (op_calls (s_op s op)))"
        using q c(1) that by (force simp: forEachEdgeInCalls_def)
      from op_graphI [OF s Suc.prems(1) this] obtain t
        where t: "e_to ed = Some t" "t \<in> operationSet s" "(op, t) \<in> ?G" by blast
      have "\<forall>v \<in> insert op visiting. (v, t) \<in> ?G\<^sup>+"
        using Suc.prems(2) t(3) by (auto intro: trancl_into_trancl)
      moreover have "card (?G\<^sup>* `` {t}) \<le> fuel"
        using reach_shrinks [OF acyclic op_graph_finite t(3)] Suc.prems(3) by simp
      ultimately show ?thesis using Suc.IH t by blast
    qed
    from buildCallNode_ok [where build = "buildOperationNode fuel s" and visiting = "insert op visiting" and s = s,
        OF c(2) this] c(1) show ?thesis by auto
  qed
  from traverse_from_ok [where i = 0 and f = ?f and xs = "op_calls (s_op s op)", OF call] obtain ns where ns: "traverse_from 0 ?f (op_calls (s_op s op)) = Inr ns"
    "list_all2 (\<lambda>q n. \<exists>c. q = Some c \<and> unfolds_call s c n) (op_calls (s_op s op)) ns" by blast
  then have "list_all2 (\<lambda>q m. \<exists>c n. q = Some c \<and> m = Some n \<and> unfolds_call s c n)
      (op_calls (s_op s op)) (map Some ns)"
    by (auto simp: list_all2_map2 elim: list_all2_mono)
  with ns(1) fresh svc show ?case by (auto intro: unfolds_unfolds_call.operation)
qed

lemma reach_bound:
  assumes "op \<in> operationSet s"
  shows "card ((op_graph s)\<^sup>* `` {op}) \<le> length (remdups (allSchemaOperations s))"
proof -
  have "(op_graph s)\<^sup>* `` {op} \<subseteq> operationSet s"
    using assms by (auto simp: op_graph_def elim: rtranclE)
  then have "card ((op_graph s)\<^sup>* `` {op}) \<le> card (operationSet s)"
    by (intro card_mono) simp_all
  then show ?thesis by (simp add: operationSet_def length_remdups_card_conv)
qed

lemma buildStepNode_ok:
  assumes s: "schema_ok s" and fuel: "plan_fuel s \<le> fuel" and "step_shape s st"
  shows "\<exists>n. buildStepNode s (buildOperationNode fuel s) None {} path st = Inr n \<and> unfolds_step s st n"
  using assms(3)
proof (induction st arbitrary: path rule: step_shape.induct)
  case (leaf op)
  from reach_bound [OF leaf] fuel have "card ((op_graph s)\<^sup>* `` {op}) \<le> fuel"
    by (simp add: plan_fuel_def)
  then obtain n where "buildOperationNode fuel s (Some op) None {} (path @ [opLabel s (Some op)]) = Inr n"
    "unfolds s op None n"
    using buildOperationNode_ok [OF s leaf, of "{}"] by blast
  then show ?case by (auto intro: unfolds_step.operation)
next
  case (group ps)
  let ?f = "\<lambda>i p. case p of
      None \<Rightarrow> Inl (PlanError ''nil_step'' (path @ [index_path ''parallel'' i]) None)
    | Some st \<Rightarrow> buildStepNode s (buildOperationNode fuel s) None {} (path @ [index_path ''parallel'' i]) st"
  have "\<exists>n. ?f i p = Inr n \<and> (\<exists>c. p = Some c \<and> unfolds_step s c n)" if "p \<in> set ps" for i p
    using group.IH that by force
  from traverse_from_ok [where i = 0 and f = ?f and xs = ps, OF this] obtain ns where ns: "traverse_from 0 ?f ps = Inr ns"
    "list_all2 (\<lambda>p n. \<exists>c. p = Some c \<and> unfolds_step s c n) ps ns" by blast
  then have "list_all2 (\<lambda>q m. \<exists>c n. q = Some c \<and> m = Some n \<and> unfolds_step s c n) ps (map Some ns)"
    by (auto simp: list_all2_map2 elim: list_all2_mono)
  with ns(1) group.hyps show ?case by (auto intro: unfolds_step.group)
qed

definition root_of :: "node list \<Rightarrow> node" where
  "root_of ns = (case ns of [n] \<Rightarrow> n | _ \<Rightarrow> sequence_node (map Some ns))"

lemma buildPlan_unfolds:
  assumes s: "schema_ok s" and "maps_ok s" and "(name, Some j) \<in> set (s_journeys s)"
    and "plan_fuel s \<le> fuel"
  shows "\<exists>ns. buildPlan fuel s name = Inr \<lparr>p_journey = name, p_root = Some (root_of ns)\<rparr>
    \<and> list_all2 (\<lambda>q n. \<exists>st. q = Some st \<and> unfolds_step s st n) (j_steps j) ns"
proof -
  from s assms(3) have j: "j_steps j \<noteq> []" "\<forall>p \<in> set (j_steps j). \<exists>st. p = Some st \<and> step_shape s st"
    by (auto simp: schema_ok_def journey_ok_def)
  have name: "map_of (s_journeys s) name = Some (Some j)"
    using assms(2,3) by (simp add: maps_ok_def map_of_gomap)
  let ?f = "\<lambda>i p. case p of
      None \<Rightarrow> Inl (PlanError ''nil_step'' [name, index_path ''step'' i] None)
    | Some st \<Rightarrow> buildStepNode s (buildOperationNode fuel s) None {} [name, index_path ''step'' i] st"
  have "\<exists>n. ?f i p = Inr n \<and> (\<exists>st. p = Some st \<and> unfolds_step s st n)" if "p \<in> set (j_steps j)" for i p
    using j(2) that buildStepNode_ok [OF s assms(4)] by force
  from traverse_from_ok [where i = 0 and f = ?f and xs = "j_steps j", OF this] obtain ns where ns: "traverse_from 0 ?f (j_steps j) = Inr ns"
    "list_all2 (\<lambda>q n. \<exists>st. q = Some st \<and> unfolds_step s st n) (j_steps j) ns" by blast
  have "buildPlan fuel s name = Inr \<lparr>p_journey = name, p_root = Some (root_of ns)\<rparr>"
    using name j(1) ns(1) by (simp add: buildPlan_def root_of_def split: list.splits)
  with ns(2) show ?thesis by blast
qed

text \<open>
  C12: For a schema that Validate accepts, every journey has a plan: the construction ends without
  an error (in particular it meets no cycle and no nil) for every fuel above the number of
  operations, and the plan is the unfolding of the journey's steps through the call graph, call by
  call in the order of the schema.
\<close>

theorem buildPlan_total:
  assumes "maps_ok s" and "Validate (Some s) = None" and "(name, Some j) \<in> set (s_journeys s)"
    and "plan_fuel s \<le> fuel"
  shows "\<exists>ns. buildPlan fuel s name = Inr \<lparr>p_journey = name, p_root = Some (root_of ns)\<rparr>
    \<and> list_all2 (\<lambda>q n. \<exists>st. q = Some st \<and> unfolds_step s st n) (j_steps j) ns"
  using buildPlan_unfolds [OF Validate_ok [OF assms(1,2)] assms(1,3,4)] .

end
