(* ===== verification/Topology_Demo.thy ===== *)
theory Topology_Demo
  imports Topology_Reparse Journey_Plan
begin

text \<open>
  Two concrete topologies. \<open>small_raw\<close> is decoded YAML: a web service that calls a payment
  service, one journey and one fault. \<open>demo\<close> is a resolved schema: a web service that charges a
  payment service over gRPC with retries and a fallback, and then reads a cache and publishes to a
  queue in parallel. The theorems on parsing, validation and plans are applied to them.
\<close>

section \<open>A topology in YAML form\<close>

definition small_call :: raw_call_node where
  "small_call = RawCallNode (Some \<lparr>rct_service = ''pay'', rct_operation = ''charge''\<rparr>) [] ''grpc''
     None None (Some 200) (Some 2) ''linear'' None
     (Some (RawRecovery [] ''return_default'' None))"

definition small_service :: "string \<Rightarrow> string \<Rightarrow> raw_call_node option list \<Rightarrow> raw_service" where
  "small_service kind opn calls = empty_raw_service\<lparr>rs_kind := kind,
     rs_operations := [Some (empty_raw_operation\<lparr>ro_name := opn, ro_calls := calls\<rparr>)]\<rparr>"

definition small_raw :: raw_schema where
  "small_raw =
     \<lparr>raw_namespace = '''',
      raw_services = [(''web'', Some (small_service ''application'' ''buy'' [Some small_call])),
        (''pay'', Some (small_service ''Database '' ''charge'' []))],
      raw_journeys = [(''j'', Some \<lparr>rj_steps = [Some (RawStep ''web'' ''buy'' [])], rj_weight = None\<rparr>)],
      raw_faults = [Some \<lparr>rf_target = ''node:pay'', rf_kind = ''crash'', rf_severity = Some \<lparr>rsev_probability = Some (Fin 1), rsev_multiplier = None, rsev_add = None, rsev_value = None\<rparr>, rf_schedule = []\<rparr>]\<rparr>"

definition small :: schema where
  "small = fst (resolveReferences (buildSchema small_raw) small_raw)"

lemma small_pair: "resolveReferences (buildSchema small_raw) small_raw = (small, None)"
proof -
  have "snd (resolveReferences (buildSchema small_raw) small_raw) = None" by code_simp
  then show ?thesis by (simp add: small_def prod_eq_iff)
qed

lemma small_valid: "Validate (Some small) = None"
  by code_simp

lemma small_raw_maps: "raw_maps_ok small_raw"
  by (simp add: raw_maps_ok_def small_raw_def)

lemma small_parses: "parse_raw small_raw = Inr small"
  by (simp add: parse_raw_def small_pair small_valid)

section \<open>A resolved schema\<close>

definition demo_call :: "string \<Rightarrow> string \<Rightarrow> string \<Rightarrow> protocol \<Rightarrow> recovery option \<Rightarrow> edge" where
  "demo_call ref svc target proto onf =
     Edge ref (Some (OpRef ''web'' 0)) (Some (OpRef target 0)) proto
       \<lparr>l_distribution = ''constant'', l_p50 = 20 * millisecond, l_p95 = 20 * millisecond\<rparr>
       (Fin 0) (200 * millisecond) 2 BackoffExponential DefaultRetryBaseDelay onf"

definition demo_charge :: edge where
  "demo_charge = demo_call ''charge'' ''web'' ''pay'' ProtocolGRPC
     (Some (Recovery [Some (demo_call ''stale'' ''web'' ''cache'' ProtocolHTTP None)] ExhaustedReturnDefault None))"

definition demo_calls :: "call_node option list" where
  "demo_calls = [Some (CallNode (Some demo_charge) []),
     Some (CallNode None [Some (CallNode (Some (demo_call ''get'' ''web'' ''cache'' ProtocolHTTP None)) []),
       Some (CallNode (Some (demo_call ''pub'' ''web'' ''mq'' ProtocolMessaging None)) [])])]"

definition demo_operation :: "string \<Rightarrow> string \<Rightarrow> call_node option list \<Rightarrow> operation" where
  "demo_operation svc name calls = \<lparr>op_name = name, op_service = Some (SvcRef svc), op_calls = calls,
     op_log_events = [], op_metrics = [], op_state_updates = [], op_profile = None\<rparr>"

fun demo_op :: "op_ref \<Rightarrow> operation" where
  "demo_op (OpRef svc i) =
     (if svc = ''web'' then demo_operation svc ''checkout'' demo_calls
      else if svc = ''pay'' then demo_operation svc ''charge'' []
      else if svc = ''cache'' then demo_operation svc ''get'' []
      else demo_operation svc ''publish'' [])"

fun demo_svc :: "svc_ref \<Rightarrow> service" where
  "demo_svc (SvcRef svc) = \<lparr>svc_name = svc, svc_namespace = DefaultNamespace,
     svc_kind = (if svc = ''cache'' then KindCache else if svc = ''mq'' then KindQueue else KindApplication),
     svc_replicas = 2, svc_language = '''', svc_framework = '''', svc_version = '''',
     svc_operations = [(op_name (demo_op (OpRef svc 0)), Some (OpRef svc 0))], svc_metrics = []\<rparr>"

definition demo_fault :: fault_spec where
  "demo_fault = \<lparr>f_target = \<lparr>ft_kind = TargetEdge, ft_service = None, ft_operation = None, ft_edge = Some demo_charge\<rparr>,
     f_kind = FaultDisconnect,
     f_severity = \<lparr>sev_probability = Fin 1, sev_multiplier = Fin 0, sev_add = 0, sev_value = Fin 0\<rparr>,
     f_schedule = []\<rparr>"

definition demo_journey :: journey where
  "demo_journey = \<lparr>j_name = ''buy'', j_steps = [Some (Step (Some (OpRef ''web'' 0)) [])], j_weight = Fin 1\<rparr>"

definition demo :: schema where
  "demo = \<lparr>s_namespace = DefaultNamespace,
     s_services = map (\<lambda>svc. (svc, Some (SvcRef svc))) [''web'', ''pay'', ''cache'', ''mq''],
     s_journeys = [(''buy'', Some demo_journey)], s_faults = [demo_fault],
     s_svc = demo_svc, s_op = demo_op\<rparr>"

lemma demo_valid: "Validate (Some demo) = None"
  by code_simp

lemma demo_maps: "maps_ok demo"
proof -
  have "gomap_ok (svc_operations (demo_svc r))" for r by (cases r) simp
  then show ?thesis by (simp add: maps_ok_def demo_def)
qed

section \<open>The theorems on them\<close>

lemma Validate_iff_schema_ok_witness:
  "maps_ok demo \<and> Validate (Some demo) = None \<and> schema_ok demo"
  using Validate_iff_schema_ok [OF demo_maps] demo_maps demo_valid by simp

lemma resolve_establishes_structure_witness:
  "raw_maps_ok small_raw \<and> resolveReferences (buildSchema small_raw) small_raw = (small, None)
   \<and> Validate (Some small) = errors_Join (validateDAG small @ validateDomainRanges small)"
  using resolve_establishes_structure [OF small_raw_maps small_pair] small_raw_maps small_pair by blast

lemma parse_raw_sound_witness: "parse_raw small_raw = Inr small \<and> schema_ok small"
  using parse_raw_sound [OF small_raw_maps small_parses] small_parses by blast

lemma buildPlan_total_witness:
  "plan_fuel demo = 5 \<and> (\<exists>ns. buildPlan 5 demo ''buy'' = Inr \<lparr>p_journey = ''buy'', p_root = Some (root_of ns)\<rparr>)"
proof -
  have "plan_fuel demo = 5" by code_simp
  moreover have "(''buy'', Some demo_journey) \<in> set (s_journeys demo)" by (simp add: demo_def)
  ultimately show ?thesis
    using buildPlan_total [OF demo_maps demo_valid, of "''buy''" demo_journey 5] by auto
qed

lemma pred_option_code [code]: "pred_option P x = (case x of None \<Rightarrow> True | Some y \<Rightarrow> P y)"
  by (cases x) auto

lemma small_portable: "portable small"
  by code_simp

text \<open>A codec that knows one document.\<close>

definition small_encode :: "raw_schema \<Rightarrow> string" where
  "small_encode raw = (if raw = MarshalYAML small then ''small.yaml'' else '''')"

definition small_yaml :: "string \<Rightarrow> bool \<Rightarrow> string + raw_schema" where
  "small_yaml data strict = (if data = ''small.yaml'' then Inr (written (MarshalYAML small)) else Inl ''EOF'')"

lemma small_reads_back: "reads_back small_encode small_yaml (MarshalYAML small)"
  by (simp add: reads_back_def same_entries_def small_encode_def small_yaml_def)

lemma marshal_round_trip_witness:
  "parse_raw small_raw = Inr small
   \<and> (\<exists>t. Parse small_yaml (Inr (small_encode (MarshalYAML small))) = Inr t \<and> Equal (Some small) (Some t))"
  using marshal_round_trip [OF small_raw_maps small_parses small_portable small_reads_back] small_parses by blast

section \<open>Dots in names\<close>

text \<open>A client that calls the operation \<open>b.c\<close> of \<open>a\<close>, or the operation \<open>c\<close> of \<open>a.b\<close>.\<close>

definition dotted_raw :: "string \<Rightarrow> string \<Rightarrow> raw_schema" where
  "dotted_raw svc opn =
     \<lparr>raw_namespace = '''',
      raw_services = [(''x'', Some (small_service ''application'' ''go'' [Some (RawCallNode
          (Some \<lparr>rct_service = svc, rct_operation = opn\<rparr>) [] '''' None None None None '''' None None)])),
        (''a'', Some (small_service ''application'' ''b.c'' [])), (''a.b'', Some (small_service ''application'' ''c'' []))],
      raw_journeys = [(''j'', Some \<lparr>rj_steps = [Some (RawStep ''x'' ''go'' [])], rj_weight = None\<rparr>)],
      raw_faults = []\<rparr>"

end
