(* ===== verification/Journey_Run.thy ===== *)
theory Journey_Run
  imports Journey_Plan Topology_Overlay
begin

text \<open>
  The engine of journey/engine.go as a record, the state that one run of the engine threads, and
  journey/replica.go. What the engine reads from outside is an \<open>environment\<close>: the draws of its
  random generator, the readings of the clock and of the context, and the functions of package
  math that are not exactly specified. They are arbitrary streams and functions, so every theorem
  holds for all of them.
\<close>

section \<open>Environment, engine and run\<close>

text \<open>
  \<open>ev_draw i\<close> is what the i-th call on the generator draws: Float64 returns its 53-bit fraction
  in [0,1) and IntN its remainder in [0,n), the ranges package math/rand/v2 documents.
\<close>

record environment =
  ev_draw :: "nat \<Rightarrow> nat"
  ev_elapsed :: "nat \<Rightarrow> duration"
  ev_cancelled :: "nat \<Rightarrow> bool"
  ev_log :: "f64 \<Rightarrow> f64"
  ev_exp :: "f64 \<Rightarrow> f64"
  ev_sqrt :: "f64 \<Rightarrow> f64"
  ev_cos :: "f64 \<Rightarrow> f64"

record engine =
  en_schema :: schema
  en_overlay :: fault_overlay
  en_plans :: "(string, plan) gomap"
  en_journeyKeys :: "string list"
  en_faultIntensity :: f64
  en_targetFaultIntensities :: "(string, f64) gomap"
  en_env :: environment

record 's run =
  r_draws :: nat
  r_reads :: nat
  r_checks :: nat
  r_synth :: 's

text \<open>A step that cannot panic, and a computation that can: \<open>recover\<close> catches its panic value.\<close>

type_synonym ('s, 'a) det = "'s run \<Rightarrow> 'a \<times> 's run"

datatype 'a result = Done 'a | Panic string

type_synonym ('s, 'a) exec = "'s run \<Rightarrow> 'a result \<times> 's run"

definition returns :: "'a \<Rightarrow> ('s, 'a) exec" where
  "returns a st = (Done a, st)"

definition lift :: "('s, 'a) det \<Rightarrow> ('s, 'a) exec" where
  "lift d st = (case d st of (a, st') \<Rightarrow> (Done a, st'))"

definition bind :: "('s, 'a) exec \<Rightarrow> ('a \<Rightarrow> ('s, 'b) exec) \<Rightarrow> ('s, 'b) exec" where
  "bind m f st = (case m st of (Done a, st') \<Rightarrow> f a st' | (Panic p, st') \<Rightarrow> (Panic p, st'))"

definition after :: "('s, 'a) exec \<Rightarrow> ('s, 'b) exec \<Rightarrow> ('s, 'b) exec" where
  "after m n = bind m (\<lambda>_. n)"

text \<open>\<open>for _, x := range xs { ... }\<close> for its effects.\<close>

fun for_each :: "('a \<Rightarrow> ('s, unit) exec) \<Rightarrow> 'a list \<Rightarrow> ('s, unit) exec" where
  "for_each f [] = returns ()"
| "for_each f (x # xs) = after (f x) (for_each f xs)"

section \<open>Randomness\<close>

definition draw :: "engine \<Rightarrow> ('s, nat) det" where
  "draw en st = (ev_draw (en_env en) (r_draws st), st\<lparr>r_draws := Suc (r_draws st)\<rparr>)"

definition unit_fraction :: "nat \<Rightarrow> f64" where
  "unit_fraction u = Fin (of_nat (u mod 2 ^ 53) / 2 ^ 53)"

definition randFloat64 :: "engine \<Rightarrow> ('s, f64) det" where
  "randFloat64 en st = (case draw en st of (u, st') \<Rightarrow> (unit_fraction u, st'))"

definition randIntN :: "engine \<Rightarrow> int \<Rightarrow> ('s, int) det" where
  "randIntN en n st = (if n \<le> 1 then (0, st)
     else case draw en st of (u, st') \<Rightarrow> (int u mod n, st'))"

text \<open>\<open>time.Since(e.startedAt)\<close> and \<open>ctx.Err() != nil\<close>.\<close>

definition elapsed :: "engine \<Rightarrow> ('s, duration) det" where
  "elapsed en st = (ev_elapsed (en_env en) (r_reads st), st\<lparr>r_reads := Suc (r_reads st)\<rparr>)"

definition ctx_cancelled :: "engine \<Rightarrow> ('s, bool) det" where
  "ctx_cancelled en st = (ev_cancelled (en_env en) (r_checks st), st\<lparr>r_checks := Suc (r_checks st)\<rparr>)"

lemma unit_fraction_bounds:
  "is_fin (unit_fraction u)" "0 \<le> fval (unit_fraction u)" "fval (unit_fraction u) < 1"
proof -
  have "of_nat (u mod 2 ^ 53) < (2 ^ 53 :: rat)"
    by (metis mod_less_divisor of_nat_less_iff of_nat_numeral of_nat_power zero_less_numeral zero_less_power)
  then show "fval (unit_fraction u) < 1" by (simp add: unit_fraction_def divide_simps)
qed (simp_all add: unit_fraction_def)

lemma randFloat64_bounds:
  "randFloat64 en st = (x, st') \<Longrightarrow> is_fin x \<and> 0 \<le> fval x \<and> fval x < 1"
  by (auto simp: randFloat64_def draw_def unit_fraction_bounds)

lemma randIntN_bounds: "randIntN en n st = (i, st') \<Longrightarrow> 0 \<le> i \<and> (1 \<le> n \<longrightarrow> i < n)"
  by (auto simp: randIntN_def draw_def split: if_splits)

text \<open>None of these reads touches the synthesizer.\<close>

named_theorems synth_frame "steps that leave the synthesizer's state alone"

lemma randFloat64_synth [synth_frame]: "randFloat64 en st = (x, st') \<Longrightarrow> r_synth st' = r_synth st"
  by (auto simp: randFloat64_def draw_def)

lemma randIntN_synth [synth_frame]: "randIntN en n st = (i, st') \<Longrightarrow> r_synth st' = r_synth st"
  by (auto simp: randIntN_def draw_def split: if_splits)

lemma elapsed_synth [synth_frame]: "elapsed en st = (d, st') \<Longrightarrow> r_synth st' = r_synth st"
  by (auto simp: elapsed_def)

lemma ctx_cancelled_synth [synth_frame]: "ctx_cancelled en st = (b, st') \<Longrightarrow> r_synth st' = r_synth st"
  by (auto simp: ctx_cancelled_def)

end
