(* ===== verification/Journey_Fault.thy ===== *)
theory Journey_Fault
  imports Journey_Run
begin

text \<open>
  journey/fault.go: the faults of a node folded into one summary, the intensity that scales them
  (per target, scheduled, or the global one), and the sampling of latencies.
\<close>

definition defaultEntryLatency :: duration where
  "defaultEntryLatency = 10 * millisecond"

record folded_fault =
  ff_crashed :: bool
  ff_disconnected :: bool
  ff_errorRate :: f64
  ff_errorType :: string
  ff_latencyInflate :: duration

definition no_fault :: folded_fault where
  "no_fault = \<lparr>ff_crashed = False, ff_disconnected = False, ff_errorRate = Fin 0, ff_errorType = '''',
     ff_latencyInflate = 0\<rparr>"

section \<open>Names of targets\<close>

definition operationString :: "schema \<Rightarrow> op_ref option \<Rightarrow> string" where
  "operationString s p = (case p of
       None \<Rightarrow> ''''
     | Some op \<Rightarrow> (case op_service (s_op s op) of
           None \<Rightarrow> ''.'' @ op_name (s_op s op)
         | Some r \<Rightarrow> svc_name (s_svc s r) @ ''.'' @ op_name (s_op s op)))"

definition faultTargetString :: "schema \<Rightarrow> fault_target \<Rightarrow> string" where
  "faultTargetString s t = (case ft_kind t of
       TargetNode \<Rightarrow> (case ft_service t of None \<Rightarrow> '''' | Some r \<Rightarrow> ''node:'' @ svc_name (s_svc s r))
     | TargetOperation \<Rightarrow> (case ft_operation t of
           None \<Rightarrow> '''' | Some op \<Rightarrow> ''operation:'' @ operationString s (Some op))
     | TargetEdge \<Rightarrow> (case ft_edge t of
           None \<Rightarrow> ''''
         | Some e \<Rightarrow> ''edge:'' @ operationString s (e_from e) @ ''->'' @ operationString s (e_to e))
     | TargetOther k \<Rightarrow> '''')"

section \<open>Intensity\<close>

definition clampProbability :: "f64 \<Rightarrow> f64" where
  "clampProbability v =
     (if is_nan v then Fin 0 else if flt v (Fin 0) then Fin 0 else if flt (Fin 1) v then Fin 1 else v)"

text \<open>The loop over the schedule: the last point before the first one that lies in the future.\<close>

fun schedule_intensity :: "duration \<Rightarrow> f64 \<Rightarrow> schedule_point list \<Rightarrow> f64" where
  "schedule_intensity now x [] = x"
| "schedule_intensity now x (p # ps) =
     (if now < sp_at p then x else schedule_intensity now (sp_intensity p) ps)"

definition scheduledFaultIntensity :: "engine \<Rightarrow> schedule_point list \<Rightarrow> ('s, f64) det" where
  "scheduledFaultIntensity en schedule st = (case elapsed en st of (now, st') \<Rightarrow>
     (let x = schedule_intensity now (Fin 0) schedule in
      (if flt x (Fin 0) then Fin 0 else if is_nan x \<or> is_inf x then Fin 0 else x), st'))"

definition faultIntensityFor :: "engine \<Rightarrow> fault_spec \<Rightarrow> ('s, f64) det" where
  "faultIntensityFor en spec st =
     (let target = faultTargetString (en_schema en) (f_target spec) in
      case (if target \<noteq> '''' then map_of (en_targetFaultIntensities en) target else None) of
        Some x \<Rightarrow> (x, st)
      | None \<Rightarrow> if f_schedule spec \<noteq> [] then scheduledFaultIntensity en (f_schedule spec) st
          else (en_faultIntensity en, st))"

definition faultActiveWithIntensity :: "engine \<Rightarrow> fault_spec \<Rightarrow> f64 \<Rightarrow> ('s, bool) det" where
  "faultActiveWithIntensity en spec intensity st =
     (let eff = clampProbability (fmul (sev_probability (f_severity spec)) intensity) in
      if fle eff (Fin 0) then (False, st)
      else if fle (Fin 1) eff then (True, st)
      else case randFloat64 en st of (x, st') \<Rightarrow> (flt x eff, st'))"

definition faultActive :: "engine \<Rightarrow> fault_spec \<Rightarrow> ('s, bool) det" where
  "faultActive en spec st = (case faultIntensityFor en spec st of (x, st') \<Rightarrow>
     faultActiveWithIntensity en spec x st')"

section \<open>Latency\<close>

definition sampleInflation :: "fault_spec \<Rightarrow> f64 \<Rightarrow> duration" where
  "sampleInflation spec intensity0 =
     (let sev = f_severity spec;
          add = (if sev_add sev < 0 then 0 else sev_add sev);
          pos = (if flt intensity0 (Fin 0) then Fin 0 else intensity0);
          intensity = (if is_nan pos \<or> is_inf pos then Fin 0 else pos)
      in if fle (sev_multiplier sev) (Fin 1) then to_int64 (fmul (of_int64 add) intensity)
         else let base = wrap64 (add + to_int64 (fmul (fsub (sev_multiplier sev) (Fin 1))
                    (of_int64 defaultEntryLatency)))
              in to_int64 (fmul (of_int64 base) intensity))"

definition z95 :: f64 where
  "z95 = fround (16448536269514722 / 10 ^ 16)"

definition two_pi :: f64 where
  "two_pi = fround (2 * 314159265358979323846264338327950288419716939937510582097494459 / 10 ^ 62)"

definition sampleLognormal :: "engine \<Rightarrow> duration \<Rightarrow> duration \<Rightarrow> ('s, duration) det" where
  "sampleLognormal en p50 p95 st =
     (if p50 \<le> 0 then (0, st)
      else if p95 \<le> p50 then (p50, st)
      else let ev = en_env en;
               mu = ev_log ev (of_int64 p50);
               sigma = fdiv (ev_log ev (fdiv (of_int64 p95) (of_int64 p50))) z95
           in case randFloat64 en st of (u1, st1) \<Rightarrow>
              (case randFloat64 en st1 of (u2, st2) \<Rightarrow>
                 (let u = (if fle u1 (Fin 0) then Fin (pow2 (-1074)) else u1);
                      z = fmul (ev_sqrt ev (fmul (Fin (-2)) (ev_log ev u))) (ev_cos ev (fmul two_pi u2))
                  in (to_int64 (ev_exp ev (fadd mu (fmul sigma z))), st2))))"

definition sampleUniform :: "engine \<Rightarrow> duration \<Rightarrow> duration \<Rightarrow> ('s, duration) det" where
  "sampleUniform en p50 p95 st =
     (if p95 \<le> p50 then (p50, st)
      else case randFloat64 en st of (x, st') \<Rightarrow>
        (wrap64 (p50 + to_int64 (fmul x (of_int64 (wrap64 (p95 - p50))))), st'))"

definition sampleEdgeLatency :: "engine \<Rightarrow> edge option \<Rightarrow> ('s, duration) det" where
  "sampleEdgeLatency en p st = (case p of
       None \<Rightarrow> (defaultEntryLatency, st)
     | Some e \<Rightarrow>
         (let dist = e_latency e; d = l_distribution dist in
          if d = '''' \<or> d = ''fixed'' then (l_p50 dist, st)
          else if d = ''lognormal'' then sampleLognormal en (l_p50 dist) (l_p95 dist) st
          else if d = ''uniform'' then sampleUniform en (l_p50 dist) (l_p95 dist) st
          else (l_p50 dist, st)))"

section \<open>Folding\<close>

definition defaultFaultErrorType :: "schema \<Rightarrow> node \<Rightarrow> string" where
  "defaultFaultErrorType s n =
     (if (case n_service n of None \<Rightarrow> False
          | Some r \<Rightarrow> svc_kind (s_svc s r) = KindDatabase \<or> svc_kind (s_svc s r) = KindCache)
      then ''db.connection_lost''
      else if (case n_edge n of None \<Rightarrow> False | Some e \<Rightarrow> e_protocol e = ProtocolGRPC)
      then ''grpc.unavailable''
      else ''http.500'')"

text \<open>The branch that the three loops share: an active latency inflation adds its sample.\<close>

definition fold_inflation :: "engine \<Rightarrow> fault_spec \<Rightarrow> f64 \<Rightarrow> folded_fault \<Rightarrow> ('s, folded_fault) det" where
  "fold_inflation en spec x ff st = (case faultActiveWithIntensity en spec x st of (active, st') \<Rightarrow>
     (if active then ff\<lparr>ff_latencyInflate := wrap64 (ff_latencyInflate ff + sampleInflation spec x)\<rparr> else ff,
      st'))"

definition fold_node_fault :: "engine \<Rightarrow> fault_spec \<Rightarrow> folded_fault \<times> 's run \<Rightarrow> folded_fault \<times> 's run" where
  "fold_node_fault en spec = (\<lambda>(ff, st). case faultIntensityFor en spec st of (x, st1) \<Rightarrow>
     (case f_kind spec of
        FaultCrash \<Rightarrow> (case faultActiveWithIntensity en spec x st1 of (active, st2) \<Rightarrow>
          (if active then ff\<lparr>ff_crashed := True\<rparr> else ff, st2))
      | FaultLatencyInflation \<Rightarrow> fold_inflation en spec x ff st1
      | _ \<Rightarrow> (ff, st1)))"

definition fold_edge_fault :: "engine \<Rightarrow> fault_spec \<Rightarrow> folded_fault \<times> 's run \<Rightarrow> folded_fault \<times> 's run" where
  "fold_edge_fault en spec = (\<lambda>(ff, st). case faultIntensityFor en spec st of (x, st1) \<Rightarrow>
     (case f_kind spec of
        FaultDisconnect \<Rightarrow> (case faultActiveWithIntensity en spec x st1 of (active, st2) \<Rightarrow>
          (if active then ff\<lparr>ff_disconnected := True\<rparr> else ff, st2))
      | FaultLatencyInflation \<Rightarrow> fold_inflation en spec x ff st1
      | _ \<Rightarrow> (ff, st1)))"

definition fold_operation_fault ::
  "engine \<Rightarrow> node \<Rightarrow> fault_spec \<Rightarrow> folded_fault \<times> 's run \<Rightarrow> folded_fault \<times> 's run" where
  "fold_operation_fault en n spec = (\<lambda>(ff, st). case faultIntensityFor en spec st of (x, st1) \<Rightarrow>
     (case f_kind spec of
        FaultErrorRateOverride \<Rightarrow>
          (ff\<lparr>ff_errorRate := clampProbability (fmul (sev_value (f_severity spec)) x),
              ff_errorType := defaultFaultErrorType (en_schema en) n\<rparr>, st1)
      | FaultLatencyInflation \<Rightarrow> fold_inflation en spec x ff st1
      | _ \<Rightarrow> (ff, st1)))"

definition edge_base :: "engine \<Rightarrow> node \<Rightarrow> edge \<Rightarrow> folded_fault \<Rightarrow> folded_fault" where
  "edge_base en n e ff =
     (if flt (Fin 0) (e_error_rate e)
      then ff\<lparr>ff_errorRate := clampProbability (e_error_rate e),
              ff_errorType := defaultFaultErrorType (en_schema en) n\<rparr>
      else ff)"

definition foldFaults :: "engine \<Rightarrow> node option \<Rightarrow> ('s, folded_fault) det" where
  "foldFaults en p st0 = (case p of
       None \<Rightarrow> (no_fault, st0)
     | Some n \<Rightarrow>
         (let ov = Some (en_overlay en);
              acc1 = fold (fold_node_fault en) (NodeFaults ov (n_service n)) (no_fault, st0);
              acc2 = (case n_edge n of
                  None \<Rightarrow> acc1
                | Some e \<Rightarrow> fold (fold_edge_fault en) (EdgeFaults ov (Some e))
                    (edge_base en n e (fst acc1), snd acc1))
          in case n_service n of
               None \<Rightarrow> acc2
             | Some r \<Rightarrow> (case ptr_at (svc_operations (s_svc (en_schema en) r)) (n_operation n) of
                   None \<Rightarrow> acc2
                 | Some op \<Rightarrow> fold (fold_operation_fault en n) (OperationFaults ov (Some op)) acc2)))"

text \<open>\<open>faultActiveForKind\<close> of journey/executor.go.\<close>

definition faultActiveForKind :: "folded_fault \<Rightarrow> fault_kind \<Rightarrow> bool" where
  "faultActiveForKind ff k = (case k of
       FaultLatencyInflation \<Rightarrow> 0 < ff_latencyInflate ff
     | FaultCrash \<Rightarrow> ff_crashed ff
     | FaultDisconnect \<Rightarrow> ff_disconnected ff
     | FaultErrorRateOverride \<Rightarrow> flt (Fin 0) (ff_errorRate ff)
     | InvalidFaultKind \<Rightarrow> False)"

end
