(* ===== verification/Synth_Interface.thy ===== *)
theory Synth_Interface
  imports Journey_Run
begin

text \<open>
  synth/interface.go: the inputs of a Synthesizer and its operations, a record of functions on the
  synthesizer's state. Of the OpenTelemetry API the code uses the span context of a context: its
  validity, its span id, and SetAttributes of the span it names. Every operation may panic.
\<close>

section \<open>Span contexts\<close>

text \<open>A trace id and a span id; a span context is valid when neither is zero. The context that
  the engine passes down is modelled by the span context it carries.\<close>

datatype span_context = SpanContext (sc_trace: nat) (sc_span: nat)

definition no_span :: span_context where
  "no_span = SpanContext 0 0"

definition sc_valid :: "span_context \<Rightarrow> bool" where
  "sc_valid c \<longleftrightarrow> sc_trace c \<noteq> 0 \<and> sc_span c \<noteq> 0"

definition hex_digit :: "nat \<Rightarrow> char" where
  "hex_digit d = char_of (if d < 10 then 48 + d else 87 + d)"

fun hex_digits :: "nat \<Rightarrow> nat \<Rightarrow> string" where
  "hex_digits 0 n = []"
| "hex_digits (Suc k) n = hex_digits k (n div 16) @ [hex_digit (n mod 16)]"

text \<open>\<open>SpanID().String()\<close>: the eight bytes in hexadecimal.\<close>

definition sc_span_string :: "span_context \<Rightarrow> string" where
  "sc_span_string c = hex_digits 16 (sc_span c)"

section \<open>Inputs\<close>

record synth_outcome =
  so_success :: bool
  so_statusCode :: int
  so_errorType :: string
  so_endTime :: time
  so_cascaded :: bool

record span_input =
  si_service :: "svc_ref option"
  si_edge :: "edge option"
  si_operation :: string
  si_startTime :: time
  si_instanceIdx :: int
  si_links :: "span_context list"

record metric_input =
  mi_service :: "svc_ref option"
  mi_edge :: "edge option"
  mi_operation :: string
  mi_latency :: duration
  mi_outcome :: synth_outcome
  mi_instanceIdx :: int

record log_input =
  li_service :: "svc_ref option"
  li_severity :: int
  li_eventName :: string
  li_body :: string
  li_instanceIdx :: int
  li_timestamp :: time
  li_attributes :: attributes

record custom_metric_input =
  ci_service :: "svc_ref option"
  ci_operation :: string
  ci_instanceIdx :: int
  ci_name :: string
  ci_type :: metric_type
  ci_unit :: string
  ci_value :: f64
  ci_attributes :: attributes

record state_update_input =
  ui_service :: "svc_ref option"
  ui_operation :: string
  ui_instanceIdx :: int
  ui_key :: string
  ui_delta :: f64

record profile_input =
  pi_service :: "svc_ref option"
  pi_operation :: string
  pi_instanceIdx :: int
  pi_sampleRateHz :: int
  pi_stacks :: "stack_sample list"
  pi_startTime :: time
  pi_endTime :: time
  pi_profileID :: string

section \<open>Operations\<close>

text \<open>
  \<open>sy_Finish\<close> calls the FinishSpanFunc that BeginSpan returned, named by a handle.
\<close>

record ('h, 's) synth_ops =
  sy_BeginSpan :: "span_context \<Rightarrow> span_input \<Rightarrow> 's \<Rightarrow> (span_context \<times> 'h) result \<times> 's"
  sy_Finish :: "'h \<Rightarrow> synth_outcome \<Rightarrow> 's \<Rightarrow> unit result \<times> 's"
  sy_RecordMetric :: "span_context \<Rightarrow> metric_input \<Rightarrow> 's \<Rightarrow> unit result \<times> 's"
  sy_EmitLog :: "span_context \<Rightarrow> log_input \<Rightarrow> 's \<Rightarrow> unit result \<times> 's"
  sy_RecordCustom :: "span_context \<Rightarrow> custom_metric_input \<Rightarrow> 's \<Rightarrow> unit result \<times> 's"
  sy_UpdateState :: "span_context \<Rightarrow> state_update_input \<Rightarrow> 's \<Rightarrow> unit result \<times> 's"
  sy_EmitProfile :: "span_context \<Rightarrow> profile_input \<Rightarrow> 's \<Rightarrow> unit result \<times> 's"
  sy_SetAttribute :: "span_context \<Rightarrow> string \<Rightarrow> string \<Rightarrow> 's \<Rightarrow> unit result \<times> 's"

text \<open>A call of a synthesizer operation inside a run.\<close>

definition on_synth :: "('s \<Rightarrow> 'a result \<times> 's) \<Rightarrow> ('s, 'a) exec" where
  "on_synth f st = (case f (r_synth st) of (r, s') \<Rightarrow> (r, st\<lparr>r_synth := s'\<rparr>))"

end
