(* ===== verification/Journey_Executor.thy ===== *)
theory Journey_Executor
  imports Journey_Fault Synth_Interface
begin

text \<open>
  journey/executor.go, journey/messaging.go and journey/recovery.go: the execution of a plan.
  A node runs as an executor, a function of the context, the parent's outcome and the start time;
  the executors of its children are passed to the functions that call executeNodeAt, so the
  recursion over the plan is structural, and likewise the recursion over nested fallback edges.
  The goroutines of a parallel group run one after the other in the order of the group; the draws
  and readings of the environment are arbitrary, so their results cover every interleaving of the
  shared generator.
\<close>

section \<open>Outcomes\<close>

record outcome =
  o_success :: bool
  o_latency :: duration
  o_statusCode :: int
  o_errorType :: string
  o_cascaded :: bool
  o_primaryFailed :: bool
  o_fallbackAttempts :: "edge option list"
  o_fallbackUsed :: "edge option"
  o_defaultUsed :: bool
  o_silentlySucceeded :: bool

text \<open>The zero Outcome, and one with the fields that the code writes in its literals.\<close>

definition zero_outcome :: outcome where
  "zero_outcome = \<lparr>o_success = False, o_latency = 0, o_statusCode = 0, o_errorType = '''',
     o_cascaded = False, o_primaryFailed = False, o_fallbackAttempts = [], o_fallbackUsed = None,
     o_defaultUsed = False, o_silentlySucceeded = False\<rparr>"

definition mk_outcome :: "bool \<Rightarrow> int \<Rightarrow> string \<Rightarrow> duration \<Rightarrow> outcome" where
  "mk_outcome ok code err latency = zero_outcome
     \<lparr>o_success := ok, o_statusCode := code, o_errorType := err, o_latency := latency\<rparr>"

type_synonym 's executor =
  "span_context \<Rightarrow> outcome option \<Rightarrow> time \<Rightarrow> ('s, outcome) exec"

type_synonym 's fallback_executor = "span_context \<Rightarrow> time \<Rightarrow> ('s, outcome) exec"

definition logEventMatches :: "log_condition \<Rightarrow> bool \<Rightarrow> bool" where
  "logEventMatches c success = (case c of
       ConditionAlways \<Rightarrow> True
     | ConditionOnSuccess \<Rightarrow> success
     | ConditionOnError \<Rightarrow> \<not> success
     | InvalidLogCondition \<Rightarrow> False)"

text \<open>The numbers of \<open>log.Severity\<close>.\<close>

definition toLogSeverity :: "log_severity \<Rightarrow> int" where
  "toLogSeverity s = (case s of SeverityTrace \<Rightarrow> 1 | SeverityDebug \<Rightarrow> 5 | SeverityInfo \<Rightarrow> 9
     | SeverityWarn \<Rightarrow> 13 | SeverityError \<Rightarrow> 17 | SeverityFatal \<Rightarrow> 21 | InvalidLogSeverity \<Rightarrow> 9)"

definition logSeverity :: "outcome \<Rightarrow> int" where
  "logSeverity oc = (if o_success oc then 9 else 17)"

definition outcomeLabel :: "outcome \<Rightarrow> string" where
  "outcomeLabel oc = (if o_success oc then ''success'' else ''failure'')"

definition cloneAttrs :: "attributes \<Rightarrow> attributes" where
  "cloneAttrs a = (case a of None \<Rightarrow> None | Some m \<Rightarrow> Some (map (\<lambda>(k, v). (k, v)) m))"

text \<open>\<open>strconv.Atoi\<close> on the digits after \<open>http.\<close>, with an optional sign.\<close>

definition digit_val :: "char \<Rightarrow> nat option" where
  "digit_val c = (let n = of_char c :: nat in if 48 \<le> n \<and> n \<le> 57 then Some (n - 48) else None)"

fun digits_val :: "nat \<Rightarrow> string \<Rightarrow> nat option" where
  "digits_val acc [] = Some acc"
| "digits_val acc (c # cs) = (case digit_val c of None \<Rightarrow> None | Some d \<Rightarrow> digits_val (10 * acc + d) cs)"

definition atoi :: "string \<Rightarrow> int option" where
  "atoi s =
     (let (neg, ds) = (case s of c # cs \<Rightarrow> if c = CHR ''-'' then (True, cs) else if c = CHR ''+'' then (False, cs)
          else (False, s) | [] \<Rightarrow> (False, []))
      in if ds = [] then None
         else case digits_val 0 ds of
             None \<Rightarrow> None
           | Some n \<Rightarrow> (let i = if neg then - int n else int n in if in_int64 i then Some i else None))"

definition pickStatusCode :: "bool \<Rightarrow> string \<Rightarrow> int" where
  "pickStatusCode failed errorType =
     (if \<not> failed then 200
      else case (if prefix ''http.'' errorType then atoi (drop 5 errorType) else None) of
        Some code \<Rightarrow> code
      | None \<Rightarrow>
          if errorType = ''grpc.unavailable'' then 14
          else if errorType = ''grpc.deadline_exceeded'' then 4
          else if errorType = ''grpc.unauthenticated'' then 16
          else if errorType = ''context_canceled'' then 0
          else 500)"

definition toSynthOutcome :: "outcome \<Rightarrow> time \<Rightarrow> synth_outcome" where
  "toSynthOutcome oc end_t = \<lparr>so_success = o_success oc, so_statusCode = o_statusCode oc,
     so_errorType = o_errorType oc, so_endTime = end_t, so_cascaded = o_cascaded oc\<rparr>"

section \<open>Retries and timeouts\<close>

definition retryBackoffDelay :: "edge option \<Rightarrow> int \<Rightarrow> duration" where
  "retryBackoffDelay p retryAttempt = (case p of
       None \<Rightarrow> 0
     | Some e \<Rightarrow>
         if retryAttempt \<le> 0 then 0
         else let base = (if e_retry_base_delay e = 0 then DefaultRetryBaseDelay else e_retry_base_delay e)
              in case e_retry_backoff e of
                   BackoffConstant \<Rightarrow> base
                 | BackoffLinear \<Rightarrow> wrap64 (retryAttempt * base)
                 | _ \<Rightarrow> wrap64 (wrap64 (2 ^ nat (retryAttempt - 1)) * base))"

definition capLatencyToTimeout :: "edge option \<Rightarrow> duration \<Rightarrow> duration" where
  "capLatencyToTimeout p latency = (case p of
       None \<Rightarrow> latency
     | Some e \<Rightarrow> if 0 < e_timeout e \<and> e_timeout e < latency then e_timeout e else latency)"

definition applyTimeoutFailure :: "edge option \<Rightarrow> outcome \<Rightarrow> outcome" where
  "applyTimeoutFailure p oc =
     (if (case p of None \<Rightarrow> False | Some e \<Rightarrow> e_protocol e = ProtocolGRPC)
      then oc\<lparr>o_success := False, o_statusCode := 4, o_errorType := ''grpc.deadline_exceeded''\<rparr>
      else oc\<lparr>o_success := False, o_statusCode := 504, o_errorType := ''timeout''\<rparr>)"

definition cascade_errors :: "string list" where
  "cascade_errors = [''crashed'', ''connection_refused'', ''context_canceled'', ''timeout'',
     ''grpc.deadline_exceeded'']"

definition shouldCascadeChildren :: "outcome \<Rightarrow> bool" where
  "shouldCascadeChildren oc \<longleftrightarrow> \<not> o_success oc \<and> o_errorType oc \<in> set cascade_errors"

text \<open>\<open>node.Edge != nil && node.Edge.Timeout > 0 && latency > node.Edge.Timeout\<close>\<close>

definition exceeds_timeout :: "edge option \<Rightarrow> duration \<Rightarrow> bool" where
  "exceeds_timeout p latency = (case p of
       None \<Rightarrow> False | Some e \<Rightarrow> 0 < e_timeout e \<and> e_timeout e < latency)"

section \<open>Emission\<close>

text \<open>The stacks of the profile, when the node has one and its span is valid.\<close>

definition profile_stacks :: "profile_spec \<Rightarrow> folded_fault \<Rightarrow> stack_sample list" where
  "profile_stacks p ff = (case pr_when_fault p of
       Some k \<Rightarrow> if faultActiveForKind ff k \<and> pr_incident p \<noteq> [] then pr_incident p else pr_baseline p
     | None \<Rightarrow> pr_baseline p)"

definition active_profile :: "node \<Rightarrow> span_context \<Rightarrow> profile_spec option" where
  "active_profile n ctx = (case n_profile n of
       None \<Rightarrow> None
     | Some p \<Rightarrow> if n_service n \<noteq> None \<and> pr_enabled p \<and> sc_valid ctx then Some p else None)"

text \<open>The value of a metric or an update under its fault link: baseline, override or shift.\<close>

definition linked_value :: "f64 \<Rightarrow> metric_fault_link option \<Rightarrow> folded_fault \<Rightarrow> f64" where
  "linked_value base p ff = (case p of
       None \<Rightarrow> base
     | Some l \<Rightarrow>
         if faultActiveForKind ff (fl_kind l)
         then (if fl_has_value l then fl_value l else fadd base (fl_delta l)) else base)"

definition emit_log_event ::
  "('h, 's) synth_ops \<Rightarrow> span_context \<Rightarrow> node \<Rightarrow> int \<Rightarrow> outcome \<Rightarrow> time \<Rightarrow> log_event \<Rightarrow> ('s, unit) exec" where
  "emit_log_event sy ctx n idx oc end_t ev =
     (if \<not> logEventMatches (le_condition ev) (o_success oc) then returns ()
      else on_synth (sy_EmitLog sy ctx \<lparr>li_service = n_service n, li_severity = toLogSeverity (le_severity ev),
        li_eventName = le_name ev, li_body = le_body ev, li_instanceIdx = idx, li_timestamp = end_t,
        li_attributes = cloneAttrs (le_attributes ev)\<rparr>))"

definition emit_metric ::
  "('h, 's) synth_ops \<Rightarrow> span_context \<Rightarrow> node \<Rightarrow> int \<Rightarrow> outcome \<Rightarrow> folded_fault \<Rightarrow> metric_spec \<Rightarrow>
   ('s, unit) exec" where
  "emit_metric sy ctx n idx oc ff m =
     (if \<not> logEventMatches (m_condition m) (o_success oc) then returns ()
      else on_synth (sy_RecordCustom sy ctx \<lparr>ci_service = n_service n, ci_operation = n_operation n,
        ci_instanceIdx = idx, ci_name = m_name m, ci_type = m_type m, ci_unit = m_unit m,
        ci_value = linked_value (m_baseline m) (m_when_fault m) ff,
        ci_attributes = cloneAttrs (m_attributes m)\<rparr>))"

definition emit_state_update ::
  "('h, 's) synth_ops \<Rightarrow> span_context \<Rightarrow> node \<Rightarrow> int \<Rightarrow> outcome \<Rightarrow> folded_fault \<Rightarrow> state_update \<Rightarrow>
   ('s, unit) exec" where
  "emit_state_update sy ctx n idx oc ff u =
     (if \<not> logEventMatches (su_condition u) (o_success oc) then returns ()
      else on_synth (sy_UpdateState sy ctx \<lparr>ui_service = n_service n, ui_operation = n_operation n,
        ui_instanceIdx = idx, ui_key = su_key u,
        ui_delta = linked_value (su_delta u) (su_when_fault u) ff\<rparr>))"

definition finishAndEmitAt ::
  "('h, 's) synth_ops \<Rightarrow> span_context \<Rightarrow> node \<Rightarrow> int \<Rightarrow> 'h \<Rightarrow> outcome \<Rightarrow> time \<Rightarrow> folded_fault \<Rightarrow>
   ('s, unit) exec" where
  "finishAndEmitAt sy ctx n idx h oc end_t ff =
     (let prof = active_profile n ctx in
      after (case prof of
          None \<Rightarrow> returns ()
        | Some p \<Rightarrow> on_synth (sy_SetAttribute sy ctx ''pyroscope.profile.id'' (sc_span_string ctx)))
      (after (on_synth (sy_Finish sy h (toSynthOutcome oc end_t)))
      (after (on_synth (sy_RecordMetric sy ctx \<lparr>mi_service = n_service n, mi_edge = n_edge n,
          mi_operation = n_operation n, mi_latency = o_latency oc, mi_outcome = toSynthOutcome oc end_t,
          mi_instanceIdx = idx\<rparr>))
      (after (on_synth (sy_EmitLog sy ctx \<lparr>li_service = n_service n, li_severity = logSeverity oc,
          li_eventName = '''', li_body = n_operation n @ '' '' @ outcomeLabel oc, li_instanceIdx = idx,
          li_timestamp = end_t, li_attributes = Some [(''outcome'', AnyString (outcomeLabel oc)),
            (''error.type'', AnyString (o_errorType oc))]\<rparr>))
      (after (if n_service n = None then returns ()
          else after (for_each (emit_log_event sy ctx n idx oc end_t) (n_log_events n))
            (after (for_each (emit_metric sy ctx n idx oc ff) (n_metrics n))
              (for_each (emit_state_update sy ctx n idx oc ff) (n_state_updates n))))
      (case prof of
          None \<Rightarrow> returns ()
        | Some p \<Rightarrow> on_synth (sy_EmitProfile sy ctx \<lparr>pi_service = n_service n, pi_operation = n_operation n,
            pi_instanceIdx = idx, pi_sampleRateHz = pr_sample_rate p, pi_stacks = profile_stacks p ff,
            pi_startTime = end_t - o_latency oc, pi_endTime = end_t,
            pi_profileID = sc_span_string ctx\<rparr>)))))))"

section \<open>Messaging\<close>

definition messagingPublishLatency :: "edge option \<Rightarrow> duration" where
  "messagingPublishLatency p = (case p of
       None \<Rightarrow> defaultEntryLatency
     | Some e \<Rightarrow> if 0 < l_p50 (e_latency e) then l_p50 (e_latency e) div 4 else defaultEntryLatency)"

definition publish_outcome :: "time \<Rightarrow> synth_outcome" where
  "publish_outcome end_t = \<lparr>so_success = True, so_statusCode = 200, so_errorType = '''',
     so_endTime = end_t, so_cascaded = False\<rparr>"

definition emitMessagingProducerSpan ::
  "engine \<Rightarrow> ('h, 's) synth_ops \<Rightarrow> span_context \<Rightarrow> edge \<Rightarrow> time \<Rightarrow> ('s, span_context) exec" where
  "emitMessagingProducerSpan en sy ctx e start = (case e_from e of
       None \<Rightarrow> returns no_span
     | Some from \<Rightarrow> (case op_service (s_op (en_schema en) from) of
           None \<Rightarrow> returns no_span
         | Some svc \<Rightarrow>
             (let pub = messagingPublishLatency (Some e);
                  opn = op_name (s_op (en_schema en) from) in
              bind (on_synth (sy_BeginSpan sy ctx \<lparr>si_service = Some svc, si_edge = Some e, si_operation = opn,
                  si_startTime = start, si_instanceIdx = 0, si_links = []\<rparr>))
                (\<lambda>(pctx, h).
                  after (on_synth (sy_RecordMetric sy pctx \<lparr>mi_service = Some svc, mi_edge = Some e,
                      mi_operation = opn, mi_latency = pub, mi_outcome = publish_outcome (start + pub),
                      mi_instanceIdx = 0\<rparr>))
                  (after (on_synth (sy_Finish sy h (publish_outcome (start + pub)))) (returns pctx))))))"

section \<open>One attempt\<close>

text \<open>The service of a node that the code dereferences: \<open>node.Service.Replicas\<close>.\<close>

definition replicas :: "engine \<Rightarrow> node \<Rightarrow> int" where
  "replicas en n = (case n_service n of None \<Rightarrow> 0 | Some r \<Rightarrow> svc_replicas (s_svc (en_schema en) r))"

text \<open>The loop over the children: it stops after the first child that fails.\<close>

fun run_children ::
  "'s executor list \<Rightarrow> span_context \<Rightarrow> time \<Rightarrow> duration \<Rightarrow> ('s, duration) exec" where
  "run_children [] ctx start tot = returns tot"
| "run_children (kid # kids) ctx start tot =
     bind (kid ctx (Some (mk_outcome True 200 '''' 0)) (start + tot)) (\<lambda>oc.
       let tot' = wrap64 (tot + o_latency oc) in
       if o_success oc then run_children kids ctx start tot' else returns tot')"

definition finish_with ::
  "('h, 's) synth_ops \<Rightarrow> span_context \<Rightarrow> node \<Rightarrow> int \<Rightarrow> 'h \<Rightarrow> folded_fault \<Rightarrow> time \<Rightarrow> outcome \<Rightarrow>
   ('s, outcome) exec" where
  "finish_with sy ctx n idx h ff end_t oc = after (finishAndEmitAt sy ctx n idx h oc end_t ff) (returns oc)"

text \<open>The body of an attempt after its span has begun: the first failure that applies decides.\<close>

definition attempt_body ::
  "engine \<Rightarrow> ('h, 's) synth_ops \<Rightarrow> 's executor list \<Rightarrow> node \<Rightarrow> time \<Rightarrow> folded_fault \<Rightarrow> int \<Rightarrow> duration \<Rightarrow>
   span_context \<Rightarrow> 'h \<Rightarrow> ('s, outcome) exec" where
  "attempt_body en sy kids n start ff idx effective ctx h =
     (if ff_crashed ff then finish_with sy ctx n idx h ff start (mk_outcome False 500 ''crashed'' 0)
      else bind (lift (ctx_cancelled en)) (\<lambda>cancelled.
        if cancelled then finish_with sy ctx n idx h ff start (mk_outcome False 0 ''context_canceled'' 0)
        else if exceeds_timeout (n_edge n) effective then
          (let oc = applyTimeoutFailure (n_edge n) (mk_outcome False 0 '''' (case n_edge n of
                 None \<Rightarrow> 0 | Some e \<Rightarrow> e_timeout e))
           in finish_with sy ctx n idx h ff (start + o_latency oc) oc)
        else if ff_disconnected ff then
          finish_with sy ctx n idx h ff (start + effective) (mk_outcome False 503 ''connection_refused'' effective)
        else bind (if flt (Fin 0) (ff_errorRate ff)
              then lift (\<lambda>st. case randFloat64 en st of (x, st') \<Rightarrow> (flt x (ff_errorRate ff), st'))
              else returns False) (\<lambda>force.
          bind (run_children kids ctx start effective) (\<lambda>tot.
            let err = (if force then (if ff_errorType ff = '''' then ''http.500'' else ff_errorType ff) else '''');
                oc = mk_outcome (\<not> force) (pickStatusCode force (ff_errorType ff)) err tot
            in finish_with sy ctx n idx h ff (start + tot) oc))))"

definition executeSingleAttempt ::
  "engine \<Rightarrow> ('h, 's) synth_ops \<Rightarrow> 's executor list \<Rightarrow> node \<Rightarrow> span_context \<Rightarrow> time \<Rightarrow> ('s, outcome) exec" where
  "executeSingleAttempt en sy kids n ctx start =
     bind (lift (foldFaults en (Some n))) (\<lambda>ff.
     bind (lift (randIntN en (replicas en n))) (\<lambda>idx.
     bind (lift (sampleEdgeLatency en (n_edge n))) (\<lambda>base.
     bind (case n_edge n of
         None \<Rightarrow> returns []
       | Some e \<Rightarrow>
           if e_protocol e = ProtocolMessaging \<and> e_from e \<noteq> None
           then bind (emitMessagingProducerSpan en sy ctx e start)
             (\<lambda>sc. returns (if sc_valid sc then [sc] else []))
           else returns []) (\<lambda>links.
     bind (on_synth (sy_BeginSpan sy ctx \<lparr>si_service = n_service n, si_edge = n_edge n,
         si_operation = n_operation n, si_startTime = start, si_instanceIdx = idx, si_links = links\<rparr>))
       (\<lambda>(sctx, h). attempt_body en sy kids n start ff idx (wrap64 (base + ff_latencyInflate ff)) sctx h)))))"

section \<open>Recovery\<close>

text \<open>The loop over the fallbacks: the first that succeeds ends it.\<close>

fun try_fallbacks ::
  "(edge option \<times> 's fallback_executor) list \<Rightarrow> span_context \<Rightarrow> time \<Rightarrow> outcome \<Rightarrow>
   ('s, outcome \<times> bool) exec" where
  "try_fallbacks [] ctx start out = returns (out, False)"
| "try_fallbacks ((fb, run) # fbs) ctx start out =
     bind (run ctx (start + o_latency out)) (\<lambda>fo.
       let out1 = out\<lparr>o_latency := wrap64 (o_latency out + o_latency fo)\<rparr> in
       if o_success fo then
         returns (out1\<lparr>o_success := True, o_statusCode := o_statusCode fo, o_errorType := '''',
           o_fallbackUsed := fb\<rparr>, True)
       else try_fallbacks fbs ctx start (out1\<lparr>o_fallbackAttempts := o_fallbackAttempts out1 @ [fb]\<rparr>))"

definition exhaust :: "exhausted_action \<Rightarrow> outcome \<Rightarrow> outcome" where
  "exhaust act out = (case act of
       ExhaustedReturnDefault \<Rightarrow> out\<lparr>o_success := True, o_statusCode := 200, o_errorType := '''',
         o_defaultUsed := True\<rparr>
     | ExhaustedSucceedSilently \<Rightarrow> out\<lparr>o_success := True, o_statusCode := 200, o_errorType := '''',
         o_silentlySucceeded := True\<rparr>
     | _ \<Rightarrow> out\<lparr>o_success := False\<rparr>)"

definition applyRecoveryAt ::
  "(edge option \<times> 's fallback_executor) list \<Rightarrow> recovery option \<Rightarrow> span_context \<Rightarrow> outcome \<Rightarrow> time \<Rightarrow>
   ('s, outcome) exec" where
  "applyRecoveryAt fbs policy ctx primary start =
     (let out = primary\<lparr>o_primaryFailed := True\<rparr> in
      case policy of
        None \<Rightarrow> returns out
      | Some p \<Rightarrow> bind (try_fallbacks fbs ctx start out) (\<lambda>(out1, used).
          returns (if used then out1 else exhaust (rp_on_exhausted p) out1)))"

section \<open>Attempts\<close>

definition attempts :: "edge option \<Rightarrow> nat" where
  "attempts p = (case p of
       None \<Rightarrow> 1 | Some e \<Rightarrow> if 0 < e_retries e then nat (wrap64 (1 + e_retries e)) else 1)"

text \<open>
  The loop over the attempts: \<open>attempt\<close> counts up, the first argument is the number of attempts
  that are left. A success leaves the function (\<open>Inl\<close>), otherwise the last outcome and the tot
  latency go on (\<open>Inr\<close>).
\<close>

fun attempt_loop ::
  "nat \<Rightarrow> (time \<Rightarrow> ('s, outcome) exec) \<Rightarrow> edge option \<Rightarrow> time \<Rightarrow> int \<Rightarrow> duration \<Rightarrow> outcome \<Rightarrow>
   ('s, outcome + (outcome \<times> duration)) exec" where
  "attempt_loop 0 single e start attempt tot final = returns (Inr (final, tot))"
| "attempt_loop (Suc k) single e start attempt tot final =
     (let total1 = (if 0 < attempt then wrap64 (tot + retryBackoffDelay e attempt) else tot);
          current = (if 0 < attempt then start + total1 else start)
      in bind (single current) (\<lambda>oc.
           let total2 = wrap64 (total1 + o_latency oc) in
           if o_success oc then returns (Inl (oc\<lparr>o_latency := total2\<rparr>))
           else if o_errorType oc = ''context_canceled'' then returns (Inr (oc, total2))
           else attempt_loop k single e start (attempt + 1) total2 oc))"

text \<open>
  executeChildrenAt, which runs the children of a failed node so that each leaves a span: the
  parent's outcome is passed on, and a failing child does not stop the loop, because the parent
  has failed (\<open>cascadeMode\<close>).
\<close>

fun executeChildrenAt ::
  "'s executor list \<Rightarrow> span_context \<Rightarrow> outcome \<Rightarrow> time \<Rightarrow> ('s, unit) exec" where
  "executeChildrenAt [] ctx parent current = returns ()"
| "executeChildrenAt (kid # kids) ctx parent current =
     bind (kid ctx (Some parent) current) (\<lambda>oc.
       if \<not> o_success oc \<and> o_success parent then returns ()
       else executeChildrenAt kids ctx parent (current + o_latency oc))"

definition on_failure_of :: "edge option \<Rightarrow> recovery option" where
  "on_failure_of p = (case p of None \<Rightarrow> None | Some e \<Rightarrow> e_on_failure e)"

definition executeAttemptSequence ::
  "engine \<Rightarrow> ('h, 's) synth_ops \<Rightarrow> 's executor list \<Rightarrow> (edge option \<times> 's fallback_executor) list \<Rightarrow>
   node \<Rightarrow> span_context \<Rightarrow> time \<Rightarrow> ('s, outcome) exec" where
  "executeAttemptSequence en sy kids fbs n ctx start =
     bind (attempt_loop (attempts (n_edge n)) (executeSingleAttempt en sy kids n ctx) (n_edge n) start 0 0
         zero_outcome)
       (\<lambda>r. case r of
          Inl oc \<Rightarrow> returns oc
        | Inr (final, tot) \<Rightarrow>
            (let final1 = final\<lparr>o_latency := capLatencyToTimeout (n_edge n) tot\<rparr>;
                 final2 = (if exceeds_timeout (n_edge n) tot then applyTimeoutFailure (n_edge n) final1
                   else final1)
             in bind (if on_failure_of (n_edge n) \<noteq> None
                   then applyRecoveryAt fbs (on_failure_of (n_edge n)) ctx final2 start else returns final2)
                 (\<lambda>final3. if shouldCascadeChildren final3
                    then after (executeChildrenAt kids ctx final3 (start + o_latency final3)) (returns final3)
                    else returns final3)))"

definition refused :: outcome where
  "refused = mk_outcome False 503 ''connection_refused'' 0"

text \<open>
  executeFallbackAt: the fallback edge runs as a node of its own, without children and without a
  parent, so executeNodeAt goes straight to its attempts.
\<close>

fun executeFallbackAt :: "engine \<Rightarrow> ('h, 's) synth_ops \<Rightarrow> edge \<Rightarrow> 's fallback_executor" where
  "executeFallbackAt en sy (Edge r src to p l er tmo rts bo bd onf) = (\<lambda>ctx start.
     case to of
       None \<Rightarrow> returns refused
     | Some op \<Rightarrow> (case op_service (s_op (en_schema en) op) of
           None \<Rightarrow> returns refused
         | Some svc \<Rightarrow> executeAttemptSequence en sy []
             (case onf of
                None \<Rightarrow> []
              | Some (Recovery fs act dr) \<Rightarrow> map (\<lambda>f. (f, case f of
                    None \<Rightarrow> (\<lambda>_ _. returns refused) | Some g \<Rightarrow> executeFallbackAt en sy g)) fs)
             (Node (Some svc) (op_name (s_op (en_schema en) op)) (Some (Edge r src to p l er tmo rts bo bd onf))
               [] [] [] [] [] None) ctx start))"

definition fallback_executors ::
  "engine \<Rightarrow> ('h, 's) synth_ops \<Rightarrow> edge option \<Rightarrow> (edge option \<times> 's fallback_executor) list" where
  "fallback_executors en sy p = (case p of
       None \<Rightarrow> []
     | Some e \<Rightarrow> map (\<lambda>f. (f, case f of None \<Rightarrow> (\<lambda>_ _. returns refused) | Some g \<Rightarrow> executeFallbackAt en sy g))
         (fallbacks e))"

section \<open>Nodes\<close>

definition executeCascadeAt ::
  "engine \<Rightarrow> ('h, 's) synth_ops \<Rightarrow> node \<Rightarrow> span_context \<Rightarrow> outcome \<Rightarrow> time \<Rightarrow> ('s, outcome) exec" where
  "executeCascadeAt en sy n ctx parent start =
     bind (lift (randIntN en (replicas en n))) (\<lambda>idx.
     bind (on_synth (sy_BeginSpan sy ctx \<lparr>si_service = n_service n, si_edge = n_edge n,
         si_operation = n_operation n, si_startTime = start, si_instanceIdx = idx, si_links = []\<rparr>))
       (\<lambda>(sctx, h).
         let oc = (mk_outcome False (o_statusCode parent) (o_errorType parent) 0)\<lparr>o_cascaded := True\<rparr>
         in finish_with sy sctx n idx h no_fault start oc))"

text \<open>The loop over the children of a virtual node: a failure becomes the parent of the next.\<close>

fun run_sequence ::
  "'s executor list \<Rightarrow> span_context \<Rightarrow> outcome option \<Rightarrow> time \<Rightarrow> duration \<Rightarrow> outcome \<Rightarrow> ('s, outcome) exec" where
  "run_sequence [] ctx parent start tot oc = returns (oc\<lparr>o_latency := tot\<rparr>)"
| "run_sequence (kid # kids) ctx parent start tot oc =
     bind (kid ctx parent (start + tot)) (\<lambda>co.
       run_sequence kids ctx (if o_success co then parent else Some co) start (wrap64 (tot + o_latency co)) co)"

definition executeSequentialVirtualAt ::
  "'s executor list \<Rightarrow> span_context \<Rightarrow> outcome option \<Rightarrow> time \<Rightarrow> ('s, outcome) exec" where
  "executeSequentialVirtualAt kids ctx parent start =
     run_sequence kids ctx parent start 0 (mk_outcome True 200 '''' 0)"

definition aggregateParallelOutcomes :: "outcome list \<Rightarrow> outcome" where
  "aggregateParallelOutcomes outcomes = fold (\<lambda>oc agg.
     let agg1 = (if o_latency agg < o_latency oc then agg\<lparr>o_latency := o_latency oc\<rparr> else agg) in
     if \<not> o_success oc \<and> o_success agg1
     then agg1\<lparr>o_success := False, o_statusCode := o_statusCode oc, o_errorType := o_errorType oc,
       o_cascaded := o_cascaded oc\<rparr>
     else agg1) outcomes (mk_outcome True 200 '''' 0)"

text \<open>A goroutine of the group recovers its panic as a crashed outcome.\<close>

definition recover_crashed :: "('s, outcome) exec \<Rightarrow> ('s, outcome) exec" where
  "recover_crashed m st = (case m st of
       (Done oc, st') \<Rightarrow> (Done oc, st')
     | (Panic p, st') \<Rightarrow> (Done (mk_outcome False 500 ''crashed'' 0), st'))"

fun run_parallel ::
  "'s executor list \<Rightarrow> span_context \<Rightarrow> outcome option \<Rightarrow> time \<Rightarrow> ('s, outcome list) exec" where
  "run_parallel [] ctx parent start = returns []"
| "run_parallel (kid # kids) ctx parent start =
     bind (recover_crashed (kid ctx parent start)) (\<lambda>oc.
       bind (run_parallel kids ctx parent start) (\<lambda>ocs. returns (oc # ocs)))"

definition executeParallelGroupAt ::
  "'s executor list \<Rightarrow> span_context \<Rightarrow> outcome option \<Rightarrow> time \<Rightarrow> ('s, outcome) exec" where
  "executeParallelGroupAt kids ctx parent start =
     bind (run_parallel kids ctx parent start) (\<lambda>ocs. returns (aggregateParallelOutcomes ocs))"

text \<open>A nil node of a list of children.\<close>

definition nil_executor :: "'s executor" where
  "nil_executor ctx parent start = returns (mk_outcome False 500 ''crashed'' 0)"

fun executeNodeAt :: "engine \<Rightarrow> ('h, 's) synth_ops \<Rightarrow> node \<Rightarrow> 's executor" where
  "executeNodeAt en sy (Node svc opn e par kids les ms sus pr) = (\<lambda>ctx parent start.
     if par \<noteq> [] then executeParallelGroupAt
       (map (\<lambda>p. case p of None \<Rightarrow> nil_executor | Some m \<Rightarrow> executeNodeAt en sy m) par) ctx parent start
     else (let runs = map (\<lambda>p. case p of None \<Rightarrow> nil_executor | Some m \<Rightarrow> executeNodeAt en sy m) kids;
               n = Node svc opn e par kids les ms sus pr in
       if svc = None then executeSequentialVirtualAt runs ctx parent start
       else case parent of
           Some po \<Rightarrow> if \<not> o_success po then executeCascadeAt en sy n ctx po start
             else executeAttemptSequence en sy runs (fallback_executors en sy e) n ctx start
         | None \<Rightarrow> executeAttemptSequence en sy runs (fallback_executors en sy e) n ctx start))"

definition executeNodePtr :: "engine \<Rightarrow> ('h, 's) synth_ops \<Rightarrow> node option \<Rightarrow> 's executor" where
  "executeNodePtr en sy p = (case p of None \<Rightarrow> nil_executor | Some n \<Rightarrow> executeNodeAt en sy n)"

section \<open>Execute\<close>

text \<open>\<open>now\<close> is the reading of the clock at the start.\<close>

definition Execute ::
  "engine \<Rightarrow> ('h, 's) synth_ops \<Rightarrow> span_context option \<Rightarrow> plan option \<Rightarrow> time \<Rightarrow> ('s, execute_error option) det" where
  "Execute en sy ctx p now st = (case ctx of
       None \<Rightarrow> (Some (ExecuteError ''nil_ctx'' None), st)
     | Some c \<Rightarrow> (case p of
           None \<Rightarrow> (Some (ExecuteError ''nil_plan'' None), st)
         | Some pl \<Rightarrow> (case executeNodePtr en sy (p_root pl) c None now st of
               (Done oc, st') \<Rightarrow> (None, st')
             | (Panic v, st') \<Rightarrow> (Some (ExecuteError ''internal'' (Some (''panic during Execute: '' @ v))), st'))))"

end
