(* ===== verification/Journey_Logic.thy ===== *)
theory Journey_Logic
  imports Journey_Executor
begin

text \<open>
  A small program logic for the computations of the executor: \<open>triple P m Q E\<close> says that from a
  state satisfying P the computation ends with a result and state in Q, or panics in a state in E.
  The locale \<open>span_protocol\<close> states what the executor needs of a Synthesizer, over a predicate
  that tracks the stack of open spans, and what the executor guarantees in return.
\<close>

section \<open>Triples\<close>

definition triple ::
  "('s run \<Rightarrow> bool) \<Rightarrow> ('s, 'a) exec \<Rightarrow> ('a \<Rightarrow> 's run \<Rightarrow> bool) \<Rightarrow> ('s run \<Rightarrow> bool) \<Rightarrow> bool" where
  "triple P m Q E \<longleftrightarrow> (\<forall>st. P st \<longrightarrow> (case m st of (Done a, st') \<Rightarrow> Q a st' | (Panic p, st') \<Rightarrow> E st'))"

lemma tripleI:
  assumes "\<And>st a st'. P st \<Longrightarrow> m st = (Done a, st') \<Longrightarrow> Q a st'"
    and "\<And>st p st'. P st \<Longrightarrow> m st = (Panic p, st') \<Longrightarrow> E st'"
  shows "triple P m Q E"
  unfolding triple_def
proof (intro allI impI)
  fix st assume "P st"
  then show "case m st of (Done a, st') \<Rightarrow> Q a st' | (Panic p, st') \<Rightarrow> E st'"
    using assms by (cases "m st"; cases "fst (m st)") auto
qed

lemma triple_Done: "triple P m Q E \<Longrightarrow> P st \<Longrightarrow> m st = (Done a, st') \<Longrightarrow> Q a st'"
  by (fastforce simp: triple_def)

lemma triple_Panic: "triple P m Q E \<Longrightarrow> P st \<Longrightarrow> m st = (Panic p, st') \<Longrightarrow> E st'"
  by (fastforce simp: triple_def)

lemma triple_returns: "(\<And>st. P st \<Longrightarrow> Q a st) \<Longrightarrow> triple P (returns a) Q E"
  by (simp add: triple_def returns_def)

lemma triple_lift: "(\<And>st a st'. P st \<Longrightarrow> d st = (a, st') \<Longrightarrow> Q a st') \<Longrightarrow> triple P (lift d) Q E"
  by (simp add: triple_def lift_def split: prod.splits)

lemma bind_Done: "bind m f st = (Done b, st') \<longleftrightarrow> (\<exists>a st1. m st = (Done a, st1) \<and> f a st1 = (Done b, st'))"
  by (auto simp: bind_def split: prod.splits result.splits)

lemma bind_Panic: "bind m f st = (Panic p, st') \<longleftrightarrow>
    m st = (Panic p, st') \<or> (\<exists>a st1. m st = (Done a, st1) \<and> f a st1 = (Panic p, st'))"
  by (auto simp: bind_def split: prod.splits result.splits)

lemma triple_bind:
  assumes m: "triple P m R E" and f: "\<And>a. triple (R a) (f a) Q E"
  shows "triple P (bind m f) Q E"
proof (rule tripleI)
  fix st b st' assume P: "P st" and "bind m f st = (Done b, st')"
  then obtain a st1 where 1: "m st = (Done a, st1)" "f a st1 = (Done b, st')" by (auto simp: bind_Done)
  from triple_Done [OF f triple_Done [OF m P 1(1)] 1(2)] show "Q b st'" .
next
  fix st p st' assume P: "P st" and "bind m f st = (Panic p, st')"
  then consider "m st = (Panic p, st')" | a st1 where "m st = (Done a, st1)" "f a st1 = (Panic p, st')"
    by (auto simp: bind_Panic)
  then show "E st'"
  proof cases
    case 1
    with triple_Panic [OF m P] show ?thesis .
  next
    case 2
    from triple_Panic [OF f triple_Done [OF m P 2(1)] 2(2)] show ?thesis .
  qed
qed

lemma triple_after: "triple P m (\<lambda>_. R) E \<Longrightarrow> triple R n Q E \<Longrightarrow> triple P (after m n) Q E"
  unfolding after_def by (rule triple_bind)

lemma triple_for_each: "(\<And>x. x \<in> set xs \<Longrightarrow> triple P (f x) (\<lambda>_. P) E) \<Longrightarrow> triple P (for_each f xs) (\<lambda>_. P) E"
  by (induction xs) (auto intro: triple_returns triple_after)

lemma triple_pure: "(B \<Longrightarrow> triple P m Q E) \<Longrightarrow> triple (\<lambda>st. B \<and> P st) m Q E"
  by (simp add: triple_def)

lemma triple_weaken:
  "triple P' m Q' E \<Longrightarrow> (\<And>st. P st \<Longrightarrow> P' st) \<Longrightarrow> (\<And>a st. Q' a st \<Longrightarrow> Q a st) \<Longrightarrow> triple P m Q E"
  by (rule tripleI) (meson triple_Done triple_Panic)+

lemma triple_if: "(b \<Longrightarrow> triple P m Q E) \<Longrightarrow> (\<not> b \<Longrightarrow> triple P n Q E) \<Longrightarrow> triple P (if b then m else n) Q E"
  by simp

lemma triple_recover:
  assumes "triple P m Q E" and "\<And>st. E st \<Longrightarrow> Q (mk_outcome False 500 ''crashed'' 0) st"
  shows "triple P (recover_crashed m) Q E'"
proof (rule tripleI)
  fix st oc st' assume P: "P st" and r: "recover_crashed m st = (Done oc, st')"
  show "Q oc st'"
  proof (cases "fst (m st)")
    case (Done a)
    with r have "m st = (Done oc, st')" by (cases "m st") (simp add: recover_crashed_def)
    with triple_Done [OF assms(1) P] show ?thesis .
  next
    case (Panic p)
    with r have "m st = (Panic p, st')" "oc = mk_outcome False 500 ''crashed'' 0"
      by (cases "m st"; simp add: recover_crashed_def)+
    with triple_Panic [OF assms(1) P] assms(2) show ?thesis by simp
  qed
next
  fix st p st' assume "recover_crashed m st = (Panic p, st')"
  then show "E' st'" by (simp add: recover_crashed_def split: prod.splits result.splits)
qed

section \<open>Reads of the environment\<close>

lemma faultIntensityFor_synth [synth_frame]: "faultIntensityFor en spec st = (x, st') \<Longrightarrow> r_synth st' = r_synth st"
  by (auto simp: faultIntensityFor_def scheduledFaultIntensity_def Let_def elapsed_def
      split: option.splits if_splits prod.splits)

lemma faultActive_synth [synth_frame]:
  "faultActiveWithIntensity en spec x st = (b, st') \<Longrightarrow> r_synth st' = r_synth st"
  by (auto simp: faultActiveWithIntensity_def Let_def split: if_splits prod.splits dest: randFloat64_synth)

lemma fold_inflation_synth [simp]: "r_synth (snd (fold_inflation en spec x ff st)) = r_synth st"
  by (auto simp: fold_inflation_def split: prod.splits dest: faultActive_synth)

text \<open>The three folds of foldFaults keep a property that each of their steps keeps.\<close>

lemma fold_inv: "(\<And>x acc. x \<in> set xs \<Longrightarrow> P acc \<Longrightarrow> P (f x acc)) \<Longrightarrow> P acc \<Longrightarrow> P (fold f xs acc)"
  by (induction xs arbitrary: acc) auto

lemma foldFaults_inv:
  assumes "P (no_fault, st)"
    and "\<And>spec acc. P acc \<Longrightarrow> P (fold_node_fault en spec acc)"
    and "\<And>spec acc. P acc \<Longrightarrow> P (fold_edge_fault en spec acc)"
    and "\<And>n spec acc. P acc \<Longrightarrow> P (fold_operation_fault en n spec acc)"
    and "\<And>n e ff st. P (ff, st) \<Longrightarrow> P (edge_base en n e ff, st)"
  shows "P (foldFaults en p st)"
proof (cases p)
  case (Some n)
  let ?acc1 = "fold (fold_node_fault en) (NodeFaults (Some (en_overlay en)) (n_service n)) (no_fault, st)"
  have 1: "P ?acc1"
    by (rule fold_inv) (use assms in auto)
  then have "P (edge_base en n e (fst ?acc1), snd ?acc1)" for e
    using assms(5) by simp
  then have 2: "P (fold (fold_edge_fault en) (EdgeFaults (Some (en_overlay en)) (Some e))
      (edge_base en n e (fst ?acc1), snd ?acc1))" for e
    by (rule fold_inv [rotated]) (use assms in auto)
  have 3: "P (fold (fold_operation_fault en n) fs acc)" if "P acc" for fs acc
    by (rule fold_inv) (use assms that in auto)
  define acc2 where "acc2 = (case n_edge n of None \<Rightarrow> ?acc1 | Some e \<Rightarrow>
      fold (fold_edge_fault en) (EdgeFaults (Some (en_overlay en)) (Some e)) (edge_base en n e (fst ?acc1), snd ?acc1))"
  have "P acc2"
    unfolding acc2_def using 1 2 by (cases "n_edge n") auto
  moreover have "foldFaults en p st = (case n_service n of None \<Rightarrow> acc2
      | Some r \<Rightarrow> (case ptr_at (svc_operations (s_svc (en_schema en) r)) (n_operation n) of
           None \<Rightarrow> acc2
         | Some op \<Rightarrow> fold (fold_operation_fault en n) (OperationFaults (Some (en_overlay en)) (Some op)) acc2))"
    unfolding foldFaults_def Let_def Some option.case acc2_def ..
  ultimately show ?thesis
    using 3 by (simp split: option.split)
qed (use assms in \<open>simp add: foldFaults_def\<close>)

lemma foldFaults_synth [synth_frame]: "foldFaults en p st = (ff, st') \<Longrightarrow> r_synth st' = r_synth st"
proof -
  have "r_synth (snd (foldFaults en p st)) = r_synth st"
    by (rule foldFaults_inv [of "\<lambda>acc. r_synth (snd acc) = r_synth st"])
      (auto simp: fold_node_fault_def fold_edge_fault_def fold_operation_fault_def
        split: prod.splits fault_kind.splits dest!: synth_frame)
  then show "foldFaults en p st = (ff, st') \<Longrightarrow> ?thesis" by simp
qed

lemma sampleEdgeLatency_synth [synth_frame]: "sampleEdgeLatency en p st = (d, st') \<Longrightarrow> r_synth st' = r_synth st"
  by (auto simp: sampleEdgeLatency_def sampleLognormal_def sampleUniform_def Let_def
      split: option.splits if_splits prod.splits dest!: synth_frame)

section \<open>The folded error rate\<close>

lemma clampProbability_bounds: "is_fin (clampProbability v)" "0 \<le> fval (clampProbability v)"
  "fval (clampProbability v) \<le> 1"
  by (cases v; simp add: clampProbability_def)+

lemma defaultFaultErrorType_range:
  "defaultFaultErrorType s n \<in> {''db.connection_lost'', ''grpc.unavailable'', ''http.500''}"
  by (simp add: defaultFaultErrorType_def)

definition folded_ok :: "folded_fault \<Rightarrow> bool" where
  "folded_ok ff \<longleftrightarrow> is_fin (ff_errorRate ff) \<and> 0 \<le> fval (ff_errorRate ff) \<and> fval (ff_errorRate ff) \<le> 1
     \<and> ff_errorType ff \<in> {'''', ''db.connection_lost'', ''grpc.unavailable'', ''http.500''}
     \<and> (flt (Fin 0) (ff_errorRate ff) \<longrightarrow> ff_errorType ff \<noteq> '''')"

lemma folded_ok_update:
  "folded_ok (ff\<lparr>ff_errorRate := clampProbability x, ff_errorType := defaultFaultErrorType s n\<rparr>)"
  using defaultFaultErrorType_range [of s n] by (auto simp: folded_ok_def clampProbability_bounds)

lemma foldFaults_ok: "folded_ok (fst (foldFaults en p st))"
proof (rule foldFaults_inv [of "\<lambda>acc. folded_ok (fst acc)"])
  show "folded_ok (fst (no_fault, st))" by (simp add: folded_ok_def no_fault_def)
qed (auto simp: fold_node_fault_def fold_edge_fault_def fold_operation_fault_def fold_inflation_def edge_base_def
    folded_ok_update split: prod.splits fault_kind.splits; simp add: folded_ok_def)+

section \<open>Outcomes\<close>

definition AllowedErrorTypes :: "string list" where
  "AllowedErrorTypes = [''timeout'', ''connection_refused'', ''dns_failure'', ''http.500'', ''http.502'',
     ''http.503'', ''http.504'', ''grpc.unavailable'', ''grpc.deadline_exceeded'', ''grpc.unauthenticated'',
     ''db.connection_lost'', ''db.constraint_violation'', ''crashed'', ''circuit_open'', ''rate_limited'',
     ''context_canceled'']"

text \<open>
  A success carries status 200 and no error; a failure carries one of the allowed errors and no
  sign of a recovery. A recovered outcome says that its primary failed.
\<close>

definition unrecovered :: "outcome \<Rightarrow> bool" where
  "unrecovered oc \<longleftrightarrow> o_fallbackUsed oc = None \<and> \<not> o_defaultUsed oc \<and> \<not> o_silentlySucceeded oc"

definition outcome_ok :: "outcome \<Rightarrow> bool" where
  "outcome_ok oc \<longleftrightarrow> (if o_success oc then o_errorType oc = '''' \<and> o_statusCode oc = 200
     else o_errorType oc \<in> set AllowedErrorTypes \<and> unrecovered oc)
     \<and> (unrecovered oc \<or> o_primaryFailed oc)"

lemma unrecovered_simps [simp]:
  "unrecovered (oc\<lparr>o_success := b\<rparr>) \<longleftrightarrow> unrecovered oc" "unrecovered (oc\<lparr>o_latency := l\<rparr>) \<longleftrightarrow> unrecovered oc"
  "unrecovered (oc\<lparr>o_statusCode := c\<rparr>) \<longleftrightarrow> unrecovered oc" "unrecovered (oc\<lparr>o_errorType := e\<rparr>) \<longleftrightarrow> unrecovered oc"
  "unrecovered (oc\<lparr>o_cascaded := b\<rparr>) \<longleftrightarrow> unrecovered oc" "unrecovered (oc\<lparr>o_primaryFailed := b\<rparr>) \<longleftrightarrow> unrecovered oc"
  "unrecovered (oc\<lparr>o_fallbackAttempts := fs\<rparr>) \<longleftrightarrow> unrecovered oc" "unrecovered (mk_outcome ok code err l)"
  by (simp_all add: unrecovered_def mk_outcome_def zero_outcome_def)

lemma outcome_ok_simps [simp]:
  "outcome_ok (oc\<lparr>o_latency := l\<rparr>) \<longleftrightarrow> outcome_ok oc"
  "outcome_ok oc \<Longrightarrow> outcome_ok (oc\<lparr>o_primaryFailed := True\<rparr>)"
  "outcome_ok (oc\<lparr>o_fallbackAttempts := fs\<rparr>) \<longleftrightarrow> outcome_ok oc"
  "outcome_ok (oc\<lparr>o_cascaded := c\<rparr>) \<longleftrightarrow> outcome_ok oc"
  by (auto simp: outcome_ok_def)

lemma outcome_ok_mk [simp]:
  "outcome_ok (mk_outcome ok code err l) \<longleftrightarrow> (if ok then err = '''' \<and> code = 200 else err \<in> set AllowedErrorTypes)"
  unfolding outcome_ok_def by (simp add: mk_outcome_def)
    (simp add: unrecovered_def zero_outcome_def)

lemma failure_unrecovered: "outcome_ok oc \<Longrightarrow> \<not> o_success oc \<Longrightarrow> unrecovered oc"
  by (simp add: outcome_ok_def)

lemma mk_outcome_simps [simp]:
  "o_success (mk_outcome ok code err l) = ok" "o_latency (mk_outcome ok code err l) = l"
  "o_statusCode (mk_outcome ok code err l) = code" "o_errorType (mk_outcome ok code err l) = err"
  "o_cascaded (mk_outcome ok code err l) = False"
  by (simp_all add: mk_outcome_def zero_outcome_def)

lemma applyTimeoutFailure_ok [simp]: "unrecovered oc \<Longrightarrow> outcome_ok (applyTimeoutFailure p oc)"
  "\<not> o_success (applyTimeoutFailure p oc)" "o_latency (applyTimeoutFailure p oc) = o_latency oc"
  by (simp_all add: applyTimeoutFailure_def outcome_ok_def AllowedErrorTypes_def)

lemma exhaust_ok:
  "outcome_ok out \<Longrightarrow> \<not> o_success out \<Longrightarrow> o_primaryFailed out \<Longrightarrow> outcome_ok (exhaust act out)"
  by (auto simp: exhaust_def outcome_ok_def split: exhausted_action.splits)

lemma aggregate_ok:
  assumes "\<And>oc. oc \<in> set ocs \<Longrightarrow> outcome_ok oc"
  shows "outcome_ok (aggregateParallelOutcomes ocs)"
proof -
  have "outcome_ok (aggregateParallelOutcomes ocs) \<and> unrecovered (aggregateParallelOutcomes ocs)"
    unfolding aggregateParallelOutcomes_def
    by (rule fold_inv) (use assms in \<open>auto simp: Let_def outcome_ok_def\<close>)
  then show ?thesis ..
qed

end
