(* ===== verification/Journey_Spans.thy ===== *)
theory Journey_Spans
  imports Journey_Logic
begin

text \<open>
  The contract between the executor and a Synthesizer. The locale \<open>span_protocol\<close> has the
  operations of a Synthesizer, a predicate \<open>open_spans\<close> that holds of a state when the handles of
  a stack are the open spans, and the inputs it accepts; its laws are that BeginSpan pushes a
  handle, that Finish of the top handle pops it, and that the other operations keep the stack.
  Inside, the executor is shown to keep the stack and to end in well-formed outcomes.
\<close>

section \<open>What a plan needs\<close>

text \<open>
  \<open>accepts svc op i\<close> says that the Synthesizer takes spans of the operation on replica i. A
  service emits when that holds of every replica the engine may draw.
\<close>

type_synonym acceptance = "svc_ref \<Rightarrow> string \<Rightarrow> int \<Rightarrow> bool"

definition emits :: "engine \<Rightarrow> acceptance \<Rightarrow> svc_ref \<Rightarrow> string \<Rightarrow> bool" where
  "emits en accepts svc opn \<longleftrightarrow>
     (\<forall>i. 0 \<le> i \<and> (1 \<le> svc_replicas (s_svc (en_schema en) svc) \<longrightarrow> i < svc_replicas (s_svc (en_schema en) svc))
       \<longrightarrow> accepts svc opn i)"

definition op_emits :: "engine \<Rightarrow> acceptance \<Rightarrow> op_ref option \<Rightarrow> bool" where
  "op_emits en accepts p \<longleftrightarrow> (\<forall>op svc. p = Some op \<longrightarrow> op_service (s_op (en_schema en) op) = Some svc
     \<longrightarrow> emits en accepts svc (op_name (s_op (en_schema en) op)))"

text \<open>Both ends of an edge emit, its attempts do not overflow, and so for its fallbacks.\<close>

inductive edge_runs :: "engine \<Rightarrow> acceptance \<Rightarrow> edge \<Rightarrow> bool" for en accepts where
  "op_emits en accepts (e_from e) \<Longrightarrow> op_emits en accepts (e_to e) \<Longrightarrow> e_retries e < 2 ^ 63 - 1
   \<Longrightarrow> (\<And>f. Some f \<in> set (fallbacks e) \<Longrightarrow> edge_runs en accepts f) \<Longrightarrow> edge_runs en accepts e"

inductive node_runs :: "engine \<Rightarrow> acceptance \<Rightarrow> node \<Rightarrow> bool" for en accepts where
  "(\<And>svc. n_service n = Some svc \<Longrightarrow> emits en accepts svc (n_operation n))
   \<Longrightarrow> (\<And>e. n_edge n = Some e \<Longrightarrow> edge_runs en accepts e)
   \<Longrightarrow> (\<And>m. Some m \<in> set (n_parallel n) \<union> set (n_children n) \<Longrightarrow> node_runs en accepts m)
   \<Longrightarrow> node_runs en accepts n"

inductive_cases edge_runsE: "edge_runs en accepts e"
inductive_cases node_runsE: "node_runs en accepts n"

lemma attempts_positive:
  assumes "pred_option (edge_runs en accepts) p"
  shows "0 < attempts p"
proof (cases p)
  case (Some e)
  with assms have r: "e_retries e < 2 ^ 63 - 1" by (auto elim: edge_runsE)
  show ?thesis
  proof (cases "0 < e_retries e")
    case True
    with r have "wrap64 (1 + e_retries e) = 1 + e_retries e"
      by (intro wrap64_id) (simp add: in_int64_def)
    with True Some show ?thesis by (simp add: attempts_def)
  qed (simp add: attempts_def Some)
qed (simp add: attempts_def)

section \<open>The protocol\<close>

definition synth_triple ::
  "('s \<Rightarrow> bool) \<Rightarrow> ('s \<Rightarrow> 'a result \<times> 's) \<Rightarrow> ('a \<Rightarrow> 's \<Rightarrow> bool) \<Rightarrow> ('s \<Rightarrow> bool) \<Rightarrow> bool" where
  "synth_triple P f Q E \<longleftrightarrow> (\<forall>s. P s \<longrightarrow> (case f s of (Done a, s') \<Rightarrow> Q a s' | (Panic p, s') \<Rightarrow> E s'))"

locale span_protocol =
  fixes sy :: "('h, 's) synth_ops"
    and open_spans :: "'h list \<Rightarrow> 's \<Rightarrow> bool"
    and broken :: "'s \<Rightarrow> bool"
    and accepts :: acceptance
  assumes begin_pushes: "si_service i = Some svc \<Longrightarrow> accepts svc (si_operation i) (si_instanceIdx i) \<Longrightarrow>
      synth_triple (open_spans hs) (sy_BeginSpan sy c i) (\<lambda>r. open_spans (snd r # hs)) broken"
    and finish_pops: "synth_triple (open_spans (h # hs)) (sy_Finish sy h oc) (\<lambda>_. open_spans hs) broken"
    and record_keeps: "mi_service m = Some svc \<Longrightarrow> accepts svc (mi_operation m) (mi_instanceIdx m) \<Longrightarrow>
      synth_triple (open_spans hs) (sy_RecordMetric sy c m) (\<lambda>_. open_spans hs) broken"
    and log_keeps: "li_service l = Some svc \<Longrightarrow> accepts svc opn (li_instanceIdx l) \<Longrightarrow>
      synth_triple (open_spans hs) (sy_EmitLog sy c l) (\<lambda>_. open_spans hs) broken"
    and custom_keeps: "ci_service cm = Some svc \<Longrightarrow>
      synth_triple (open_spans hs) (sy_RecordCustom sy c cm) (\<lambda>_. open_spans hs) broken"
    and update_keeps: "ui_service u = Some svc \<Longrightarrow>
      synth_triple (open_spans hs) (sy_UpdateState sy c u) (\<lambda>_. open_spans hs) broken"
    and profile_keeps: "pi_service p = Some svc \<Longrightarrow>
      synth_triple (open_spans hs) (sy_EmitProfile sy c p) (\<lambda>_. open_spans hs) broken"
    and attribute_keeps: "synth_triple (open_spans hs) (sy_SetAttribute sy c k v) (\<lambda>_. open_spans hs) broken"
    and recovers: "broken s \<Longrightarrow> open_spans hs s"
begin

definition opened :: "'h list \<Rightarrow> 's run \<Rightarrow> bool" where
  "opened hs st \<longleftrightarrow> open_spans hs (r_synth st)"

definition failed :: "'s run \<Rightarrow> bool" where
  "failed st \<longleftrightarrow> broken (r_synth st)"

lemma on_synth_triple:
  "synth_triple (open_spans hs) f (\<lambda>a. open_spans (hs' a)) broken \<Longrightarrow>
   triple (opened hs) (on_synth f) (\<lambda>a. opened (hs' a)) failed"
  by (auto simp: triple_def synth_triple_def on_synth_def opened_def failed_def split: prod.splits result.splits)

lemma lift_opened:
  "(\<And>st a st'. d st = (a, st') \<Longrightarrow> r_synth st' = r_synth st \<and> R a) \<Longrightarrow>
   triple (opened hs) (lift d) (\<lambda>a st. R a \<and> opened hs st) failed"
  by (rule triple_lift) (auto simp: opened_def)

lemma returns_opened: "R a \<Longrightarrow> triple (opened hs) (returns a) (\<lambda>a st. R a \<and> opened hs st) failed"
  by (rule triple_returns) simp

subsection \<open>Emission\<close>

text \<open>Steps that leave the stack alone.\<close>

definition keeps :: "'h list \<Rightarrow> ('s, unit) exec \<Rightarrow> bool" where
  "keeps hs m \<longleftrightarrow> triple (opened hs) m (\<lambda>_. opened hs) failed"

lemma keeps_synth: "synth_triple (open_spans hs) f (\<lambda>_. open_spans hs) broken \<Longrightarrow> keeps hs (on_synth f)"
  unfolding keeps_def by (rule on_synth_triple)

lemma keeps_returns: "keeps hs (returns ())"
  unfolding keeps_def by (rule triple_returns)

lemma keeps_after: "keeps hs m \<Longrightarrow> keeps hs n \<Longrightarrow> keeps hs (after m n)"
  unfolding keeps_def by (rule triple_after)

lemma keeps_for_each: "(\<And>x. keeps hs (f x)) \<Longrightarrow> keeps hs (for_each f xs)"
  unfolding keeps_def by (rule triple_for_each)

lemma keeps_emission:
  assumes "n_service n = Some svc" and "accepts svc (n_operation n) idx"
  shows "keeps hs (emit_log_event sy ctx n idx oc end_t ev)"
    and "keeps hs (emit_metric sy ctx n idx oc ff m)"
    and "keeps hs (emit_state_update sy ctx n idx oc ff u)"
proof -
  show "keeps hs (emit_log_event sy ctx n idx oc end_t ev)"
    using assms by (auto simp: emit_log_event_def intro!: keeps_returns keeps_synth log_keeps)
  show "keeps hs (emit_metric sy ctx n idx oc ff m)"
    using assms by (auto simp: emit_metric_def intro!: keeps_returns keeps_synth custom_keeps)
  show "keeps hs (emit_state_update sy ctx n idx oc ff u)"
    using assms by (auto simp: emit_state_update_def intro!: keeps_returns keeps_synth update_keeps)
qed

lemma finishAndEmitAt_pops:
  assumes n: "n_service n = Some svc" "accepts svc (n_operation n) idx"
  shows "triple (opened (h # hs)) (finishAndEmitAt sy ctx n idx h oc end_t ff) (\<lambda>_. opened hs) failed"
proof -
  note rules = keeps_after keeps_synth keeps_returns keeps_for_each keeps_emission [OF n]
  have attr: "keeps (h # hs) (case active_profile n ctx of None \<Rightarrow> returns ()
      | Some p \<Rightarrow> on_synth (sy_SetAttribute sy ctx ''pyroscope.profile.id'' (sc_span_string ctx)))"
    by (auto intro!: rules attribute_keeps split: option.split)
  have "keeps hs (after (on_synth (sy_RecordMetric sy ctx \<lparr>mi_service = n_service n, mi_edge = n_edge n,
        mi_operation = n_operation n, mi_latency = o_latency oc, mi_outcome = toSynthOutcome oc end_t,
        mi_instanceIdx = idx\<rparr>)) m)" if "keeps hs m" for m
    using n that by (auto intro!: rules record_keeps)
  moreover have "keeps hs (after (on_synth (sy_EmitLog sy ctx \<lparr>li_service = n_service n, li_severity = logSeverity oc,
        li_eventName = '''', li_body = n_operation n @ '' '' @ outcomeLabel oc, li_instanceIdx = idx,
        li_timestamp = end_t, li_attributes = Some [(''outcome'', AnyString (outcomeLabel oc)),
          (''error.type'', AnyString (o_errorType oc))]\<rparr>)) m)" if "keeps hs m" for m
    using n that by (auto intro!: rules log_keeps)
  moreover have "keeps hs (if n_service n = None then returns ()
        else after (for_each (emit_log_event sy ctx n idx oc end_t) (n_log_events n))
          (after (for_each (emit_metric sy ctx n idx oc ff) (n_metrics n))
            (for_each (emit_state_update sy ctx n idx oc ff) (n_state_updates n))))"
    by (auto intro!: rules)
  moreover have "keeps hs (case active_profile n ctx of None \<Rightarrow> returns ()
      | Some p \<Rightarrow> on_synth (sy_EmitProfile sy ctx \<lparr>pi_service = n_service n, pi_operation = n_operation n,
            pi_instanceIdx = idx, pi_sampleRateHz = pr_sample_rate p, pi_stacks = profile_stacks p ff,
            pi_startTime = end_t - o_latency oc, pi_endTime = end_t, pi_profileID = sc_span_string ctx\<rparr>))"
    using n by (auto intro!: rules profile_keeps split: option.split)
  ultimately show ?thesis
    unfolding finishAndEmitAt_def Let_def
    by (intro triple_after [OF attr [unfolded keeps_def]] triple_after [OF on_synth_triple [OF finish_pops]])
      (simp add: keeps_after flip: keeps_def)
qed

lemma finish_with_pops:
  assumes "n_service n = Some svc" and "accepts svc (n_operation n) idx" and "outcome_ok oc"
  shows "triple (opened (h # hs)) (finish_with sy ctx n idx h ff end_t oc)
    (\<lambda>oc st. outcome_ok oc \<and> opened hs st) failed"
  unfolding finish_with_def
  by (rule triple_after [OF finishAndEmitAt_pops [OF assms(1,2)]]) (rule returns_opened [where R = outcome_ok, OF assms(3)])

subsection \<open>One attempt\<close>

text \<open>An executor keeps the stack and ends well, whatever a well-formed parent it is given.\<close>

definition runs_well :: "('s, outcome) exec \<Rightarrow> 'h list \<Rightarrow> bool" where
  "runs_well m hs \<longleftrightarrow> triple (opened hs) m (\<lambda>oc st. outcome_ok oc \<and> opened hs st) failed"

definition good :: "'s executor \<Rightarrow> bool" where
  "good k \<longleftrightarrow> (\<forall>ctx parent start hs. pred_option outcome_ok parent \<longrightarrow> runs_well (k ctx parent start) hs)"

lemma good_nil: "good nil_executor"
  by (auto simp: good_def runs_well_def nil_executor_def AllowedErrorTypes_def intro!: triple_returns)

lemma run_children_keeps:
  assumes "\<And>k. k \<in> set kids \<Longrightarrow> good k"
  shows "triple (opened hs) (run_children kids ctx start tot) (\<lambda>_. opened hs) failed"
  using assms
proof (induction kids arbitrary: tot)
  case (Cons k kids)
  have "triple (opened hs) (k ctx (Some (mk_outcome True 200 '''' 0)) (start + tot))
      (\<lambda>oc st. outcome_ok oc \<and> opened hs st) failed"
    using Cons.prems [of k] by (simp add: good_def runs_well_def)
  then show ?case
    using Cons by (auto simp: Let_def intro!: triple_bind triple_pure triple_if triple_returns)
qed (auto intro: triple_returns)

lemma attempt_body_pops:
  assumes n: "n_service n = Some svc" "accepts svc (n_operation n) idx" and ff: "folded_ok ff"
    and kids: "\<And>k. k \<in> set kids \<Longrightarrow> good k"
  shows "triple (opened (h # hs)) (attempt_body en sy kids n start ff idx effective ctx h)
    (\<lambda>oc st. outcome_ok oc \<and> opened hs st) failed"
proof -
  have finish: "outcome_ok oc \<Longrightarrow> triple (opened (h # hs)) (finish_with sy ctx n idx h ff end_t oc)
      (\<lambda>oc st. outcome_ok oc \<and> opened hs st) failed" for oc end_t
    by (rule finish_with_pops [OF n])
  have err: "ff_errorType ff = '''' \<or> ff_errorType ff \<in> set AllowedErrorTypes"
    using ff by (auto simp: folded_ok_def AllowedErrorTypes_def)
  have children: "triple (opened (h # hs)) (bind (run_children kids ctx start effective) (\<lambda>tot.
      let err = (if force then (if ff_errorType ff = '''' then ''http.500'' else ff_errorType ff) else '''');
          oc = mk_outcome (\<not> force) (pickStatusCode force (ff_errorType ff)) err tot
      in finish_with sy ctx n idx h ff (start + tot) oc)) (\<lambda>oc st. outcome_ok oc \<and> opened hs st) failed" for force
    by (rule triple_bind [OF run_children_keeps [OF kids]])
      (use err in \<open>auto simp: Let_def AllowedErrorTypes_def pickStatusCode_def intro!: finish\<close>)
  have roll: "triple (opened (h # hs)) (if flt (Fin 0) (ff_errorRate ff)
      then lift (\<lambda>st. case randFloat64 en st of (x, st') \<Rightarrow> (flt x (ff_errorRate ff), st')) else returns False)
      (\<lambda>_. opened (h # hs)) failed"
    by (auto intro!: triple_if triple_lift triple_returns split: prod.splits simp: opened_def dest!: randFloat64_synth)
  have check: "triple (opened (h # hs)) (lift (ctx_cancelled en)) (\<lambda>_. opened (h # hs)) failed"
    by (rule triple_lift) (auto simp: opened_def dest: ctx_cancelled_synth)
  show ?thesis
    unfolding attempt_body_def
    by (intro triple_if finish triple_bind [OF check] triple_bind [OF roll] children)
      (auto simp: AllowedErrorTypes_def Let_def intro!: finish)
qed

lemma producer_keeps:
  assumes "op_emits en accepts (e_from e)"
  shows "triple (opened hs) (emitMessagingProducerSpan en sy ctx e start) (\<lambda>_. opened hs) failed"
proof -
  consider "e_from e = None" | op where "e_from e = Some op" "op_service (s_op (en_schema en) op) = None"
    | op svc where "e_from e = Some op" "op_service (s_op (en_schema en) op) = Some svc"
    by (cases "e_from e"; cases "op_service (s_op (en_schema en) (the (e_from e)))") auto
  then show ?thesis
  proof cases
    case 3
    with assms have "accepts svc (op_name (s_op (en_schema en) op)) 0"
      by (simp add: op_emits_def emits_def)
    with 3 show ?thesis
      by (auto simp: emitMessagingProducerSpan_def Let_def split: prod.split
          intro!: triple_bind [OF on_synth_triple [OF begin_pushes]] triple_after
            on_synth_triple [OF record_keeps] on_synth_triple [OF finish_pops] triple_returns)
  qed (auto simp: emitMessagingProducerSpan_def intro!: triple_returns)
qed

lemma draw_replica:
  assumes "n_service n = Some svc" and "emits en accepts svc (n_operation n)"
  shows "triple (opened hs) (lift (randIntN en (replicas en n)))
    (\<lambda>i st. accepts svc (n_operation n) i \<and> opened hs st) failed"
proof (rule triple_lift)
  fix st i st' assume st: "opened hs st" and r: "randIntN en (replicas en n) st = (i, st')"
  from randIntN_bounds [OF r] assms have "accepts svc (n_operation n) i"
    by (simp add: emits_def replicas_def)
  with st randIntN_synth [OF r] show "accepts svc (n_operation n) i \<and> opened hs st'"
    by (simp add: opened_def)
qed

lemma executeSingleAttempt_runs:
  assumes n: "n_service n = Some svc" "emits en accepts svc (n_operation n)"
    and e: "\<And>e. n_edge n = Some e \<Longrightarrow> edge_runs en accepts e" and kids: "\<And>k. k \<in> set kids \<Longrightarrow> good k"
  shows "runs_well (executeSingleAttempt en sy kids n ctx start) hs"
proof -
  have fold: "triple (opened hs) (lift (foldFaults en (Some n))) (\<lambda>ff st. folded_ok ff \<and> opened hs st) failed"
    by (rule triple_lift) (metis foldFaults_ok foldFaults_synth fst_conv opened_def)
  have idx: "triple (opened hs) (lift (randIntN en (replicas en n)))
      (\<lambda>i st. accepts svc (n_operation n) i \<and> opened hs st) failed"
    by (rule draw_replica [OF n])
  have base: "triple (opened hs) (lift (sampleEdgeLatency en (n_edge n))) (\<lambda>_. opened hs) failed"
    by (rule triple_lift) (auto simp: opened_def dest: sampleEdgeLatency_synth)
  have links: "triple (opened hs) (case n_edge n of
         None \<Rightarrow> returns []
       | Some e \<Rightarrow>
           if e_protocol e = ProtocolMessaging \<and> e_from e \<noteq> None
           then bind (emitMessagingProducerSpan en sy ctx e start) (\<lambda>sc. returns (if sc_valid sc then [sc] else []))
           else returns []) (\<lambda>_. opened hs) failed"
    using e by (auto split: option.split elim!: edge_runsE
        intro!: triple_returns triple_if triple_bind [OF producer_keeps])
  have body: "triple (opened hs) (bind (on_synth (sy_BeginSpan sy ctx \<lparr>si_service = n_service n, si_edge = n_edge n,
         si_operation = n_operation n, si_startTime = start, si_instanceIdx = idx, si_links = links\<rparr>))
       (\<lambda>(sctx, h). attempt_body en sy kids n start ff idx d sctx h)) (\<lambda>oc st. outcome_ok oc \<and> opened hs st) failed"
    if "accepts svc (n_operation n) idx" "folded_ok ff" for idx ff links d
  proof (rule triple_bind [OF on_synth_triple [OF begin_pushes]])
    show "triple (opened (snd r # hs)) (case r of (sctx, h) \<Rightarrow> attempt_body en sy kids n start ff idx d sctx h)
        (\<lambda>oc st. outcome_ok oc \<and> opened hs st) failed" for r
      using attempt_body_pops [OF n(1) that kids] by (cases r) simp
  qed (use n that in simp_all)
  show ?thesis
    unfolding runs_well_def executeSingleAttempt_def
    by (rule triple_bind [OF fold], rule triple_pure, rule triple_bind [OF idx], rule triple_pure,
        rule triple_bind [OF base], rule triple_bind [OF links], rule body)
qed

subsection \<open>Recovery and attempts\<close>

definition fallback_good :: "'s fallback_executor \<Rightarrow> bool" where
  "fallback_good run \<longleftrightarrow> (\<forall>ctx start hs. runs_well (run ctx start) hs)"

lemma fallback_good_refused: "fallback_good (\<lambda>_ _. returns refused)"
  by (auto simp: fallback_good_def runs_well_def refused_def AllowedErrorTypes_def intro!: triple_returns)

lemma try_fallbacks_runs:
  assumes "outcome_ok out" "\<not> o_success out" "o_primaryFailed out" and "\<And>fb run. (fb, run) \<in> set fbs \<Longrightarrow> fallback_good run"
  shows "triple (opened hs) (try_fallbacks fbs ctx start out)
    (\<lambda>r st. (outcome_ok (fst r) \<and> (\<not> snd r \<longrightarrow> \<not> o_success (fst r) \<and> o_primaryFailed (fst r))) \<and> opened hs st) failed"
  using assms
proof (induction fbs arbitrary: out)
  case Nil
  then show ?case by (auto intro: triple_returns)
next
  case (Cons fr fbs)
  obtain fb run where fr: "fr = (fb, run)" by force
  with Cons.prems(4) [of fb run] have "fallback_good run" by simp
  then have run: "triple (opened hs) (run ctx (start + o_latency out))
      (\<lambda>oc st. outcome_ok oc \<and> opened hs st) failed"
    by (simp add: fallback_good_def runs_well_def)
  show ?case
    unfolding fr try_fallbacks.simps Let_def
  proof (rule triple_bind [OF run], rule triple_pure, rule triple_if)
    fix fo assume "outcome_ok fo" "o_success fo"
    then show "triple (opened hs) (returns (out\<lparr>o_latency := wrap64 (o_latency out + o_latency fo),
        o_success := True, o_statusCode := o_statusCode fo, o_errorType := '''', o_fallbackUsed := fb\<rparr>, True))
        (\<lambda>r st. (outcome_ok (fst r) \<and> (\<not> snd r \<longrightarrow> \<not> o_success (fst r) \<and> o_primaryFailed (fst r))) \<and> opened hs st) failed"
      using Cons.prems(3) by (auto simp: outcome_ok_def intro: triple_returns)
  qed (rule Cons.IH; use Cons.prems in auto)
qed

lemma applyRecoveryAt_runs:
  assumes "outcome_ok out" "\<not> o_success out" and "\<And>fb run. (fb, run) \<in> set fbs \<Longrightarrow> fallback_good run"
  shows "triple (opened hs) (applyRecoveryAt fbs policy ctx out start) (\<lambda>oc st. outcome_ok oc \<and> opened hs st) failed"
proof (cases policy)
  case None
  with assms show ?thesis by (auto simp: applyRecoveryAt_def intro!: triple_returns)
next
  case (Some p)
  have "triple (opened hs) (try_fallbacks fbs ctx start (out\<lparr>o_primaryFailed := True\<rparr>))
      (\<lambda>r st. (outcome_ok (fst r) \<and> (\<not> snd r \<longrightarrow> \<not> o_success (fst r) \<and> o_primaryFailed (fst r))) \<and> opened hs st) failed"
    by (rule try_fallbacks_runs) (use assms in auto)
  then show ?thesis
    unfolding applyRecoveryAt_def Some Let_def option.case
    by (rule triple_bind, intro triple_pure) (auto split: prod.split intro!: triple_returns exhaust_ok)
qed

lemma attempt_loop_runs:
  assumes "0 < k \<or> outcome_ok final \<and> \<not> o_success final" and "\<And>t. runs_well (single t) hs"
  shows "triple (opened hs) (attempt_loop k single e start attempt tot final)
    (\<lambda>r st. (case r of Inl oc \<Rightarrow> outcome_ok oc | Inr (oc, _) \<Rightarrow> outcome_ok oc \<and> \<not> o_success oc) \<and> opened hs st) failed"
  using assms(1)
proof (induction k arbitrary: attempt tot final)
  case 0
  then show ?case by (auto intro: triple_returns)
next
  case (Suc k)
  show ?case
    unfolding attempt_loop.simps Let_def
    by (rule triple_bind [OF assms(2) [unfolded runs_well_def]], rule triple_pure)
      (auto intro!: triple_if triple_returns Suc.IH)
qed

lemma executeChildrenAt_keeps:
  assumes "\<And>k. k \<in> set kids \<Longrightarrow> good k" and "outcome_ok parent"
  shows "triple (opened hs) (executeChildrenAt kids ctx parent current) (\<lambda>_. opened hs) failed"
  using assms(1)
proof (induction kids arbitrary: current)
  case (Cons k kids)
  have "triple (opened hs) (k ctx (Some parent) current) (\<lambda>oc st. outcome_ok oc \<and> opened hs st) failed"
    using Cons.prems [of k] assms(2) by (simp add: good_def runs_well_def)
  then show ?case
    using Cons by (auto intro!: triple_bind triple_pure triple_if triple_returns)
qed (auto intro: triple_returns)

lemma executeAttemptSequence_runs:
  assumes n: "n_service n = Some svc" "emits en accepts svc (n_operation n)"
    and e: "\<And>e. n_edge n = Some e \<Longrightarrow> edge_runs en accepts e" and kids: "\<And>k. k \<in> set kids \<Longrightarrow> good k"
    and fbs: "\<And>fb run. (fb, run) \<in> set fbs \<Longrightarrow> fallback_good run"
  shows "runs_well (executeAttemptSequence en sy kids fbs n ctx start) hs"
proof -
  have "pred_option (edge_runs en accepts) (n_edge n)" using e by (simp add: option.pred_set)
  then have "0 < attempts (n_edge n)" by (rule attempts_positive)
  then have loop: "triple (opened hs) (attempt_loop (attempts (n_edge n)) (executeSingleAttempt en sy kids n ctx)
      (n_edge n) start 0 0 zero_outcome) (\<lambda>r st. (case r of Inl oc \<Rightarrow> outcome_ok oc
        | Inr (oc, _) \<Rightarrow> outcome_ok oc \<and> \<not> o_success oc) \<and> opened hs st) failed"
    by (intro attempt_loop_runs executeSingleAttempt_runs [OF n e kids]) auto
  have finish: "triple (opened hs) (if shouldCascadeChildren oc
      then after (executeChildrenAt kids ctx oc t) (returns oc) else returns oc)
      (\<lambda>oc st. outcome_ok oc \<and> opened hs st) failed" if "outcome_ok oc" for oc t
    using that kids by (auto intro!: triple_returns triple_after [OF executeChildrenAt_keeps])
  have rest: "triple (opened hs) (bind (if on_failure_of (n_edge n) \<noteq> None
        then applyRecoveryAt fbs (on_failure_of (n_edge n)) ctx oc start else returns oc)
      (\<lambda>oc. if shouldCascadeChildren oc
        then after (executeChildrenAt kids ctx oc (start + o_latency oc)) (returns oc) else returns oc))
      (\<lambda>oc st. outcome_ok oc \<and> opened hs st) failed" if oc: "outcome_ok oc" "\<not> o_success oc" for oc
    by (rule triple_bind [where R = "\<lambda>oc st. outcome_ok oc \<and> opened hs st"], rule triple_if,
        rule applyRecoveryAt_runs [OF oc fbs], assumption, rule triple_returns, simp add: oc, rule triple_pure, rule finish)
  show ?thesis
    unfolding runs_well_def executeAttemptSequence_def
  proof (rule triple_bind [OF loop], rule triple_pure, goal_cases)
    case (1 r)
    show ?case
    proof (cases r)
      case (Inl oc)
      with 1 show ?thesis by (auto intro: triple_returns)
    next
      case (Inr b)
      obtain final tot where b: "b = (final, tot)" by force
      from 1 Inr b have "outcome_ok final" "\<not> o_success final" by auto
      then show ?thesis
        unfolding Inr b sum.case prod.case Let_def by (intro rest) (auto simp: failure_unrecovered)
    qed
  qed
qed

lemma fallback_map_good:
  assumes "\<And>f. Some f \<in> set fs \<Longrightarrow> fallback_good (g f)" and "fb \<in> set fs"
  shows "fallback_good (case fb of None \<Rightarrow> (\<lambda>_ _. returns refused) | Some e \<Rightarrow> g e)"
  using assms fallback_good_refused by (auto split: option.split)

lemma executeFallbackAt_good: "edge_runs en accepts e \<Longrightarrow> fallback_good (executeFallbackAt en sy e)"
proof (induction e rule: edge_runs.induct)
  case (1 e)
  obtain r src to p l er tmo rts bo bd onf where e: "e = Edge r src to p l er tmo rts bo bd onf" by (cases e)
  have runs: "edge_runs en accepts e" by (rule edge_runs.intros) (use 1 in blast)+
  show ?case
    unfolding fallback_good_def
  proof (intro allI)
    fix ctx start hs
    consider "to = None" | op where "to = Some op" "op_service (s_op (en_schema en) op) = None"
      | op svc where "to = Some op" "op_service (s_op (en_schema en) op) = Some svc"
      by (cases to; cases "op_service (s_op (en_schema en) (the to))") auto
    then show "runs_well (executeFallbackAt en sy e ctx start) hs"
    proof cases
      case 3
      have emits: "emits en accepts svc (op_name (s_op (en_schema en) op))"
        using 1(2) 3 e by (auto simp: op_emits_def)
      have fbs: "fallback_good run" if "(fb, run) \<in> set (case onf of None \<Rightarrow> []
          | Some (Recovery fs act dr) \<Rightarrow> map (\<lambda>f. (f, case f of None \<Rightarrow> (\<lambda>_ _. returns refused)
              | Some g \<Rightarrow> executeFallbackAt en sy g)) fs)" for fb run
      proof (cases onf)
        case (Some rec)
        obtain fs act dr where rec: "rec = Recovery fs act dr" by (cases rec)
        have "fallback_good (executeFallbackAt en sy f)" if "Some f \<in> set fs" for f
          using 1(5) that e Some rec by (auto simp: fallbacks_def)
        then have "fb \<in> set fs \<Longrightarrow> fallback_good (case fb of None \<Rightarrow> (\<lambda>_ _. returns refused)
            | Some g \<Rightarrow> executeFallbackAt en sy g)"
          by (rule fallback_map_good)
        with that Some rec show ?thesis by auto
      qed (use that in simp)
      show ?thesis
        unfolding e executeFallbackAt.simps 3 option.case
        by (rule executeAttemptSequence_runs [where svc = svc]) (use emits fbs runs e 3(1) in auto)
    qed (use fallback_good_refused in \<open>auto simp: fallback_good_def e\<close>)
  qed
qed

lemma fallback_executors_good:
  assumes "\<And>e. p = Some e \<Longrightarrow> edge_runs en accepts e" and "(fb, run) \<in> set (fallback_executors en sy p)"
  shows "fallback_good run"
proof (cases p)
  case (Some e)
  with assms(1) have "Some f \<in> set (fallbacks e) \<Longrightarrow> fallback_good (executeFallbackAt en sy f)" for f
    by (auto elim!: edge_runsE intro: executeFallbackAt_good)
  then have "fb \<in> set (fallbacks e) \<Longrightarrow> fallback_good (case fb of None \<Rightarrow> (\<lambda>_ _. returns refused)
      | Some g \<Rightarrow> executeFallbackAt en sy g)"
    by (rule fallback_map_good)
  with Some assms(2) show ?thesis by (auto simp: fallback_executors_def)
qed (use assms(2) in \<open>simp add: fallback_executors_def\<close>)

subsection \<open>Nodes\<close>

lemma executeCascadeAt_runs:
  assumes n: "n_service n = Some svc" "emits en accepts svc (n_operation n)"
    and parent: "outcome_ok po" "\<not> o_success po"
  shows "runs_well (executeCascadeAt en sy n ctx po start) hs"
proof -
  have cascaded: "outcome_ok (mk_outcome False (o_statusCode po) (o_errorType po) 0)"
    using parent by (simp add: outcome_ok_def [of po])
  show ?thesis
    unfolding runs_well_def executeCascadeAt_def
  proof (rule triple_bind [OF draw_replica [OF n]], rule triple_pure, rule triple_bind, rule on_synth_triple, rule begin_pushes)
    fix idx r
    assume "accepts svc (n_operation n) idx"
    then show "triple (opened (snd r # hs)) (case r of (sctx, h) \<Rightarrow>
        let oc = mk_outcome False (o_statusCode po) (o_errorType po) 0\<lparr>o_cascaded := True\<rparr>
        in finish_with sy sctx n idx h no_fault start oc) (\<lambda>oc st. outcome_ok oc \<and> opened hs st) failed"
      unfolding Let_def using cascaded
      by (cases r) (auto intro!: finish_with_pops [OF n(1)])
  qed (use n in simp_all)
qed

lemma run_sequence_runs:
  assumes "\<And>k. k \<in> set kids \<Longrightarrow> good k" and "pred_option outcome_ok parent" and "outcome_ok oc"
  shows "runs_well (run_sequence kids ctx parent start tot oc) hs"
  using assms
proof (induction kids arbitrary: parent tot oc)
  case Nil
  then show ?case by (auto simp: runs_well_def intro: triple_returns)
next
  case (Cons k kids)
  then have "triple (opened hs) (k ctx parent (start + tot)) (\<lambda>oc st. outcome_ok oc \<and> opened hs st) failed"
    by (simp add: good_def runs_well_def)
  then show ?case
    unfolding runs_well_def run_sequence.simps
    by (rule triple_bind, intro triple_pure) (use Cons in \<open>auto simp flip: runs_well_def intro!: Cons.IH\<close>)
qed

lemma run_parallel_runs:
  assumes "\<And>k. k \<in> set kids \<Longrightarrow> good k" and "pred_option outcome_ok parent"
  shows "triple (opened hs) (run_parallel kids ctx parent start)
    (\<lambda>ocs st. (\<forall>oc \<in> set ocs. outcome_ok oc) \<and> opened hs st) failed"
  using assms
proof (induction kids)
  case Nil
  then show ?case by (auto intro: triple_returns)
next
  case (Cons k kids)
  then have "triple (opened hs) (k ctx parent start) (\<lambda>oc st. outcome_ok oc \<and> opened hs st) failed"
    by (simp add: good_def runs_well_def)
  then have k: "triple (opened hs) (recover_crashed (k ctx parent start)) (\<lambda>oc st. outcome_ok oc \<and> opened hs st) failed"
    by (rule triple_recover) (auto simp: AllowedErrorTypes_def failed_def opened_def recovers)
  have "triple (opened hs) (run_parallel kids ctx parent start)
      (\<lambda>ocs st. (\<forall>oc \<in> set ocs. outcome_ok oc) \<and> opened hs st) failed"
    using Cons by simp
  then show ?case
    unfolding run_parallel.simps
    by (intro triple_bind [OF k] triple_pure, elim triple_bind, intro triple_pure triple_returns) auto
qed

lemma executeParallelGroupAt_runs:
  assumes "\<And>k. k \<in> set kids \<Longrightarrow> good k" and "pred_option outcome_ok parent"
  shows "runs_well (executeParallelGroupAt kids ctx parent start) hs"
  unfolding runs_well_def executeParallelGroupAt_def
  by (rule triple_bind [OF run_parallel_runs [OF assms]]) (auto intro!: triple_pure triple_returns aggregate_ok)

lemma executeNodeAt_good: "node_runs en accepts n \<Longrightarrow> good (executeNodeAt en sy n)"
proof (induction n rule: node_runs.induct)
  case (1 n)
  obtain svc opn e par kids les ms sus pr where n: "n = Node svc opn e par kids les ms sus pr" by (cases n)
  let ?run = "\<lambda>p. case p of None \<Rightarrow> nil_executor | Some m \<Rightarrow> executeNodeAt en sy m"
  have kids: "good k" if "k \<in> ?run ` (set par \<union> set kids)" for k
    using that 1(4) good_nil n by (auto split: option.splits)
  have seq: "runs_well (executeAttemptSequence en sy (map ?run kids) (fallback_executors en sy e) n ctx start) hs"
    if "svc = Some v" for v ctx start hs
    by (rule executeAttemptSequence_runs [where svc = v])
      (use that 1(1,2) n kids in \<open>auto intro: fallback_executors_good\<close>)
  show ?case
    unfolding good_def
  proof (intro allI impI)
    fix ctx parent start hs assume parent: "pred_option outcome_ok parent"
    show "runs_well (executeNodeAt en sy n ctx parent start) hs"
    proof (cases "par \<noteq> []")
      case True
      then show ?thesis unfolding n executeNodeAt.simps
        by (simp) (rule executeParallelGroupAt_runs, use kids parent in auto)
    next
      case False
      show ?thesis
      proof (cases svc)
        case None
        with False show ?thesis unfolding n executeNodeAt.simps
          by (simp add: executeSequentialVirtualAt_def) (rule run_sequence_runs, use kids parent in auto)
      next
        case (Some v)
        have "runs_well (executeCascadeAt en sy n ctx po start) hs" if "parent = Some po" "\<not> o_success po" for po
          by (rule executeCascadeAt_runs [where svc = v]) (use 1(1) n Some that parent in auto)
        with False Some seq [OF Some] show ?thesis
          unfolding n executeNodeAt.simps by (simp add: Let_def split: option.split)
      qed
    qed
  qed
qed

lemma executeNodePtr_good:
  "(\<And>n. p = Some n \<Longrightarrow> node_runs en accepts n) \<Longrightarrow> good (executeNodePtr en sy p)"
  by (auto simp: executeNodePtr_def executeNodeAt_good good_nil split: option.split)

text \<open>The outcome of a run of the root, and what Execute makes of it.\<close>

lemma executeNodePtr_opened:
  assumes "\<And>n. p = Some n \<Longrightarrow> node_runs en accepts n" and "open_spans hs (r_synth st)"
  shows "case executeNodePtr en sy p ctx None start st of
      (Done oc, st') \<Rightarrow> outcome_ok oc \<and> open_spans hs (r_synth st')
    | (Panic v, st') \<Rightarrow> broken (r_synth st')"
proof -
  have "good (executeNodePtr en sy p)" using assms(1) by (rule executeNodePtr_good)
  then have "triple (opened hs) (executeNodePtr en sy p ctx None start) (\<lambda>oc st. outcome_ok oc \<and> opened hs st) failed"
    by (simp add: good_def runs_well_def)
  with assms(2) show ?thesis
    by (auto simp: triple_def opened_def failed_def split: prod.splits result.splits)
qed

lemma Execute_opened:
  assumes "\<And>n. p_root pl = Some n \<Longrightarrow> node_runs en accepts n" and "open_spans hs (r_synth st)"
    and "Execute en sy (Some ctx) (Some pl) now st = (r, st')"
  shows "open_spans hs (r_synth st') \<and> (r \<noteq> None \<longrightarrow> broken (r_synth st'))"
  using executeNodePtr_opened [where p = "p_root pl" and ctx = ctx and start = now, OF assms(1,2)] assms(3) recovers
  by (auto simp: Execute_def split: prod.splits result.splits)

end

end
