(* ===== verification/Synth_Attributes.thy ===== *)
theory Synth_Attributes
  imports Synth_Interface "HOL-Library.Word"
begin

text \<open>
  synth/attributes.go and the policy helpers of synth/synthesizer.go: which span kind, attribute
  namespace and direction a service and an edge give, the static attributes of a span, the key
  they are cached under, and the outcome attributes. The keys of package semconv are their
  documented names. Services are addresses, so the comparisons of pointers are those of the code.
\<close>

section \<open>Attributes\<close>

datatype attr_value = AttrString string | AttrInt int | AttrBool bool

type_synonym attr = "string \<times> attr_value"

definition service_attr :: "string \<Rightarrow> attr" where
  "service_attr name = (''service.name'', AttrString name)"

section \<open>Policies\<close>

datatype direction = DirClient | DirServer | DirProducer | DirConsumer | DirInternal | DirUnset

datatype span_kind = SpanKindInternal | SpanKindServer | SpanKindClient | SpanKindProducer | SpanKindConsumer

record attribute_policy =
  po_kind :: span_kind
  po_attr_ns :: string
  po_metric_ns :: string
  po_dir :: direction

definition spanKindFor :: "direction \<Rightarrow> span_kind" where
  "spanKindFor dir = (case dir of DirClient \<Rightarrow> SpanKindClient | DirServer \<Rightarrow> SpanKindServer
     | DirProducer \<Rightarrow> SpanKindProducer | DirConsumer \<Rightarrow> SpanKindConsumer | _ \<Rightarrow> SpanKindInternal)"

definition internalPolicy :: attribute_policy where
  "internalPolicy = \<lparr>po_kind = SpanKindInternal, po_attr_ns = '''', po_metric_ns = '''', po_dir = DirInternal\<rparr>"

definition requestPolicy :: "string \<Rightarrow> direction \<Rightarrow> attribute_policy" where
  "requestPolicy ns dir =
     (let d = (if dir \<noteq> DirClient \<and> dir \<noteq> DirServer then DirInternal else dir)
      in \<lparr>po_kind = spanKindFor d, po_attr_ns = ns, po_metric_ns = ns, po_dir = d\<rparr>)"

definition messagingPolicy :: "direction \<Rightarrow> attribute_policy" where
  "messagingPolicy dir =
     (let d = (if dir \<noteq> DirProducer \<and> dir \<noteq> DirConsumer then DirProducer else dir)
      in \<lparr>po_kind = spanKindFor d, po_attr_ns = ''messaging'', po_metric_ns = ''messaging'', po_dir = d\<rparr>)"

definition policyFor :: "service_kind \<Rightarrow> protocol \<Rightarrow> direction \<Rightarrow> attribute_policy" where
  "policyFor k p dir = (case k of
       KindDatabase \<Rightarrow> \<lparr>po_kind = SpanKindClient, po_attr_ns = ''db'', po_metric_ns = ''db'', po_dir = DirClient\<rparr>
     | KindCache \<Rightarrow> \<lparr>po_kind = SpanKindClient, po_attr_ns = ''db'', po_metric_ns = ''db'', po_dir = DirClient\<rparr>
     | KindQueue \<Rightarrow> messagingPolicy dir
     | KindExternalAPI \<Rightarrow>
         \<lparr>po_kind = SpanKindClient, po_attr_ns = ''http'', po_metric_ns = ''http'', po_dir = DirClient\<rparr>
     | KindApplication \<Rightarrow> (case p of
           ProtocolHTTP \<Rightarrow> if dir = DirUnset \<or> dir = DirInternal then internalPolicy else requestPolicy ''http'' dir
         | ProtocolGRPC \<Rightarrow> if dir = DirUnset \<or> dir = DirInternal then internalPolicy else requestPolicy ''rpc'' dir
         | ProtocolMessaging \<Rightarrow> messagingPolicy dir
         | InvalidProtocol \<Rightarrow> internalPolicy)
     | InvalidServiceKind \<Rightarrow> internalPolicy)"

section \<open>Edges\<close>

text \<open>\<open>op.Service\<close> of an operation that may be nil.\<close>

definition service_of :: "schema \<Rightarrow> op_ref option \<Rightarrow> svc_ref option" where
  "service_of s p = (case p of None \<Rightarrow> None | Some op \<Rightarrow> op_service (s_op s op))"

definition protocolFor :: "edge option \<Rightarrow> protocol" where
  "protocolFor p = (case p of None \<Rightarrow> ProtocolHTTP | Some e \<Rightarrow> e_protocol e)"

definition inferDirection :: "schema \<Rightarrow> svc_ref \<Rightarrow> edge option \<Rightarrow> direction" where
  "inferDirection s svc p = (case p of
       None \<Rightarrow> DirServer
     | Some e \<Rightarrow>
         if e_from e \<noteq> None \<and> service_of s (e_from e) = Some svc
         then (if e_protocol e = ProtocolMessaging then DirProducer else DirClient)
         else if e_to e \<noteq> None \<and> service_of s (e_to e) = Some svc
         then (if e_protocol e = ProtocolMessaging then DirConsumer else DirServer)
         else if svc_kind (s_svc s svc) = KindQueue then DirProducer
         else DirInternal)"

definition operationID :: "schema \<Rightarrow> op_ref option \<Rightarrow> string" where
  "operationID s p = (case p of
       None \<Rightarrow> ''''
     | Some op \<Rightarrow> (case op_service (s_op s op) of None \<Rightarrow> '''' | Some svc \<Rightarrow> svc_name (s_svc s svc))
         @ ''.'' @ op_name (s_op s op))"

definition edgeID :: "schema \<Rightarrow> edge option \<Rightarrow> string" where
  "edgeID s p = (case p of
       None \<Rightarrow> ''''
     | Some e \<Rightarrow> operationID s (e_from e) @ ''->'' @ operationID s (e_to e) @ ''/''
         @ protocol_String (e_protocol e))"

definition edgeTargetServiceName :: "schema \<Rightarrow> edge option \<Rightarrow> string" where
  "edgeTargetServiceName s p = (case p of
       None \<Rightarrow> ''''
     | Some e \<Rightarrow> (case service_of s (e_to e) of None \<Rightarrow> '''' | Some svc \<Rightarrow> svc_name (s_svc s svc)))"

definition edgeTargetServiceKind :: "schema \<Rightarrow> edge option \<Rightarrow> service_kind" where
  "edgeTargetServiceKind s p = (case p of
       None \<Rightarrow> KindApplication
     | Some e \<Rightarrow> (case service_of s (e_to e) of None \<Rightarrow> KindApplication | Some svc \<Rightarrow> svc_kind (s_svc s svc)))"

definition ServerPort :: "service_kind \<Rightarrow> protocol \<Rightarrow> int" where
  "ServerPort k p = (case k of
       KindDatabase \<Rightarrow> 5432
     | KindCache \<Rightarrow> 6379
     | KindQueue \<Rightarrow> 9092
     | KindExternalAPI \<Rightarrow> 443
     | _ \<Rightarrow> if p = ProtocolGRPC then 50051 else 8080)"

definition serverPortForEdge :: "schema \<Rightarrow> edge option \<Rightarrow> int" where
  "serverPortForEdge s p = (case p of
       None \<Rightarrow> 8080
     | Some e \<Rightarrow> ServerPort (edgeTargetServiceKind s (Some e)) (e_protocol e))"

section \<open>Peer addresses\<close>

text \<open>\<open>fnv.New32a\<close>: 32-bit FNV-1a.\<close>

definition fnv32a :: "string \<Rightarrow> 32 word" where
  "fnv32a s = fold (\<lambda>c h. xor h (word_of_nat (of_char c)) * 16777619) s 2166136261"

definition intOctet :: "nat \<Rightarrow> string" where
  "intOctet v =
     (if 100 \<le> v then [digit_char (v div 100), digit_char (v div 10 mod 10), digit_char (v mod 10)]
      else if 10 \<le> v then [digit_char (v div 10), digit_char (v mod 10)]
      else [digit_char v])"

definition PeerAddress :: "string \<Rightarrow> int \<Rightarrow> string" where
  "PeerAddress target instanceIdx =
     (let i = (if instanceIdx < 0 then 0 else instanceIdx); sum = unat (fnv32a target)
      in ''10'' @ ''.'' @ intOctet (sum div 256 mod 256) @ ''.'' @ intOctet (sum mod 256) @ ''.''
           @ intOctet (nat (i mod 254) + 1))"

definition networkPeerAddressAttr :: "schema \<Rightarrow> edge option \<Rightarrow> int \<Rightarrow> direction \<Rightarrow> attr list" where
  "networkPeerAddressAttr s e instanceIdx dir =
     (if dir \<noteq> DirClient \<and> dir \<noteq> DirProducer then []
      else let target = edgeTargetServiceName s e
           in if target = '''' then []
              else [(''network.peer.address'', AttrString (PeerAddress target instanceIdx))])"

section \<open>Static attributes\<close>

definition isHTTPMethod :: "string \<Rightarrow> bool" where
  "isHTTPMethod m \<longleftrightarrow> m \<in> set [''GET'', ''POST'', ''PUT'', ''DELETE'', ''PATCH'', ''HEAD'', ''OPTIONS'']"

text \<open>\<open>strings.Fields\<close> on ASCII space, with the field that is being read.\<close>

fun fields_from :: "string \<Rightarrow> string \<Rightarrow> string list" where
  "fields_from acc [] = (if acc = [] then [] else [acc])"
| "fields_from acc (c # cs) =
     (if is_space c then (if acc = [] then fields_from [] cs else acc # fields_from [] cs)
      else fields_from (acc @ [c]) cs)"

definition fields :: "string \<Rightarrow> string list" where
  "fields = fields_from []"

definition parseHTTPOp :: "string \<Rightarrow> string \<times> string" where
  "parseHTTPOp opn =
     (let fallback = (let trimmed = trim_space opn
        in if trimmed = '''' then (''GET'', ''/'')
           else if has_prefix trimmed ''/'' then (''GET'', trimmed)
           else (''GET'', ''/'' @ map (\<lambda>c. if c = CHR '' '' then CHR ''-'' else c) trimmed))
      in case fields opn of
           m # r # _ \<Rightarrow> if isHTTPMethod m then (m, r) else fallback
         | _ \<Rightarrow> fallback)"

text \<open>The address and the port of the target, where the edge has one.\<close>

definition server_attrs :: "schema \<Rightarrow> edge option \<Rightarrow> attr list" where
  "server_attrs s e = (let target = edgeTargetServiceName s e in
     if target \<noteq> '''' then [(''server.address'', AttrString target), (''server.port'', AttrInt (serverPortForEdge s e))]
     else [])"

definition httpStaticAttrs :: "schema \<Rightarrow> svc_ref \<Rightarrow> string \<Rightarrow> edge option \<Rightarrow> direction \<Rightarrow> attr list" where
  "httpStaticAttrs s svc opn e dir =
     (case parseHTTPOp opn of (m, route) \<Rightarrow>
        [(''http.request.method'', AttrString m)]
        @ (case dir of
             DirServer \<Rightarrow> [(''http.route'', AttrString route)]
           | DirClient \<Rightarrow> [(''url.path'', AttrString route), (''url.scheme'', AttrString ''http'')] @ server_attrs s e
               @ (let target = edgeTargetServiceName s e in
                  if target \<noteq> '''' \<and> (svc_kind (s_svc s svc) = KindExternalAPI
                    \<or> edgeTargetServiceKind s e = KindExternalAPI)
                  then [(''peer.service'', AttrString target)] else [])
           | _ \<Rightarrow> []))"

definition rpcStaticAttrs :: "schema \<Rightarrow> svc_ref \<Rightarrow> string \<Rightarrow> edge option \<Rightarrow> direction \<Rightarrow> attr list" where
  "rpcStaticAttrs s svc opn e dir =
     (let target = edgeTargetServiceName s e;
          name = (if dir = DirClient \<and> target \<noteq> '''' then target else svc_name (s_svc s svc))
      in [(''rpc.system'', AttrString ''grpc''), (''rpc.service'', AttrString name), (''rpc.method'', AttrString opn)]
         @ (if dir = DirClient then server_attrs s e else []))"

definition dbSystem :: "service \<Rightarrow> string" where
  "dbSystem svc = (if svc_framework svc \<noteq> '''' then svc_framework svc
     else if svc_kind svc = KindCache then ''redis'' else ''postgresql'')"

definition messagingSystem :: "service \<Rightarrow> string" where
  "messagingSystem svc = (if svc_framework svc \<noteq> '''' then svc_framework svc else ''kafka'')"

definition dbStaticAttrs :: "schema \<Rightarrow> svc_ref \<Rightarrow> string \<Rightarrow> edge option \<Rightarrow> attr list" where
  "dbStaticAttrs s svc opn e =
     [(''db.system'', AttrString (dbSystem (s_svc s svc))), (''db.operation.name'', AttrString opn)] @ server_attrs s e"

definition messagingStaticAttrs :: "schema \<Rightarrow> svc_ref \<Rightarrow> string \<Rightarrow> edge option \<Rightarrow> direction \<Rightarrow> attr list" where
  "messagingStaticAttrs s svc opn e dir =
     (let target = edgeTargetServiceName s e
      in [(''messaging.system'', AttrString (messagingSystem (s_svc s svc))),
          (''messaging.operation.name'', AttrString (if dir = DirConsumer then ''receive'' else ''publish'')),
          (''messaging.destination.name'', AttrString (if target = '''' then opn else target))]
         @ server_attrs s e)"

text \<open>The attributes that buildStaticSet gives to \<open>attribute.NewSet\<close>.\<close>

definition buildStaticSet :: "schema \<Rightarrow> svc_ref \<Rightarrow> string \<Rightarrow> edge option \<Rightarrow> attribute_policy \<Rightarrow> attr list" where
  "buildStaticSet s svc opn e po =
     service_attr (svc_name (s_svc s svc))
     # (if po_attr_ns po = ''http'' then httpStaticAttrs s svc opn e (po_dir po)
        else if po_attr_ns po = ''rpc'' then rpcStaticAttrs s svc opn e (po_dir po)
        else if po_attr_ns po = ''db'' then dbStaticAttrs s svc opn e
        else if po_attr_ns po = ''messaging'' then messagingStaticAttrs s svc opn e (po_dir po)
        else [])"

section \<open>The cache key\<close>

datatype cache_key = CacheKey (ck_svc: string) (ck_op: string) (ck_edge: string) (ck_dir: direction)

definition cacheKeyFor :: "schema \<Rightarrow> svc_ref \<Rightarrow> string \<Rightarrow> edge option \<Rightarrow> direction \<Rightarrow> cache_key" where
  "cacheKeyFor s svc opn e dir = CacheKey (svc_name (s_svc s svc)) opn (edgeID s e) dir"

section \<open>Outcome attributes and status\<close>

definition dynamicOutcomeAttrs :: "attribute_policy \<Rightarrow> synth_outcome \<Rightarrow> attr list" where
  "dynamicOutcomeAttrs po oc =
     (if so_statusCode oc \<noteq> 0
      then (if po_attr_ns po = ''http'' then [(''http.response.status_code'', AttrInt (so_statusCode oc))]
            else if po_attr_ns po = ''rpc'' then [(''rpc.grpc.status_code'', AttrInt (so_statusCode oc))]
            else [])
      else [])
     @ (if \<not> so_success oc \<and> so_errorType oc \<noteq> '''' then [(''error.type'', AttrString (so_errorType oc))] else [])"

datatype status_code = StatusUnset | StatusError

definition statusFor :: "attribute_policy \<Rightarrow> synth_outcome \<Rightarrow> status_code" where
  "statusFor po oc =
     (let rest = (if \<not> so_success oc then StatusError else StatusUnset) in
      if po_attr_ns po = ''http'' then
        (if 500 \<le> so_statusCode oc \<and> so_statusCode oc \<le> 599 then StatusError
         else if 400 \<le> so_statusCode oc \<and> so_statusCode oc \<le> 499 then StatusUnset else rest)
      else if po_attr_ns po = ''rpc'' then (if so_statusCode oc \<noteq> 0 then StatusError else rest)
      else rest)"

definition exceptionTypeFor :: "string \<Rightarrow> string" where
  "exceptionTypeFor err =
     (if err \<in> set [''timeout'', ''grpc.deadline_exceeded'', ''context_canceled''] then ''TimeoutError''
      else if err \<in> set [''connection_refused'', ''grpc.unavailable'', ''db.connection_lost''] then ''ConnectionError''
      else if err = ''crashed'' then ''CrashError''
      else if err \<in> set [''http.500'', ''http.502'', ''http.503'', ''http.504''] then ''ServerError''
      else err)"

text \<open>\<open>simulated failure: %s on %s\<close>\<close>

definition failure_message :: "string \<Rightarrow> string \<Rightarrow> string" where
  "failure_message err where_at = ''simulated failure: '' @ err @ '' on '' @ where_at"

definition exceptionAttrs :: "synth_outcome \<Rightarrow> string \<Rightarrow> attr list" where
  "exceptionAttrs oc opn =
     (let err = (if so_errorType oc = '''' then ''unknown'' else so_errorType oc)
      in [(''exception.type'', AttrString (exceptionTypeFor err)),
          (''exception.message'', AttrString (failure_message err opn))])"

text \<open>The names of the instruments that NewDefault creates.\<close>

definition histogramFor :: "attribute_policy \<Rightarrow> string option" where
  "histogramFor po =
     (if po_metric_ns po = ''http'' then
        (case po_dir po of DirClient \<Rightarrow> Some ''http.client.request.duration''
          | DirServer \<Rightarrow> Some ''http.server.request.duration'' | _ \<Rightarrow> None)
      else if po_metric_ns po = ''rpc'' then
        (case po_dir po of DirClient \<Rightarrow> Some ''rpc.client.duration'' | DirServer \<Rightarrow> Some ''rpc.server.duration'' | _ \<Rightarrow> None)
      else if po_metric_ns po = ''db'' then Some ''db.client.operation.duration''
      else if po_metric_ns po = ''messaging'' then
        (case po_dir po of DirProducer \<Rightarrow> Some ''messaging.publish.duration''
          | DirConsumer \<Rightarrow> Some ''messaging.receive.duration'' | _ \<Rightarrow> None)
      else None)"

definition activeUDC :: "attribute_policy \<Rightarrow> string option" where
  "activeUDC po = (if po_metric_ns po = ''http'' then Some ''http.server.active_requests''
     else if po_metric_ns po = ''rpc'' then Some ''rpc.server.active_requests'' else None)"

end
