(* ===== verification/Synth_Profile.thy ===== *)
theory Synth_Profile
  imports Synth_Interface
begin

text \<open>
  synth/profile.go: the pprof profile that EmitProfile builds from the stacks of an operation. The
  locations and functions of the profile are numbered from 1 in the order in which the frames are
  first met; \<open>pprof_table\<close> is the state that the closure locationForFrame updates. The checking
  and the encoding of the profile belong to the pprof library.
\<close>

record pprof_table =
  pt_functions :: "(nat \<times> string) list"
  pt_locations :: "(nat \<times> nat) list"
  pt_locByName :: "(string, nat) gomap"
  pt_fnByName :: "(string, nat) gomap"
  pt_nextFn :: nat
  pt_nextLoc :: nat

record pprof_sample =
  ps_value :: int
  ps_locations :: "nat list"

record pprof =
  pp_period :: int
  pp_time :: int
  pp_duration :: int
  pp_functions :: "(nat \<times> string) list"
  pp_locations :: "(nat \<times> nat) list"
  pp_samples :: "pprof_sample list"

definition empty_table :: pprof_table where
  "empty_table = \<lparr>pt_functions = [], pt_locations = [], pt_locByName = [], pt_fnByName = [],
     pt_nextFn = 1, pt_nextLoc = 1\<rparr>"

definition locationForFrame :: "string \<Rightarrow> pprof_table \<Rightarrow> nat \<times> pprof_table" where
  "locationForFrame name t = (case map_of (pt_locByName t) name of
       Some loc \<Rightarrow> (loc, t)
     | None \<Rightarrow>
         (let (fn, t1) = (case map_of (pt_fnByName t) name of
                Some fn \<Rightarrow> (fn, t)
              | None \<Rightarrow> (pt_nextFn t, t\<lparr>pt_nextFn := pt_nextFn t + 1,
                  pt_functions := pt_functions t @ [(pt_nextFn t, name)],
                  pt_fnByName := AList.update name (pt_nextFn t) (pt_fnByName t)\<rparr>))
          in (pt_nextLoc t1, t1\<lparr>pt_nextLoc := pt_nextLoc t1 + 1,
                pt_locations := pt_locations t1 @ [(pt_nextLoc t1, fn)],
                pt_locByName := AList.update name (pt_nextLoc t1) (pt_locByName t1)\<rparr>)))"

text \<open>The loop over the frames, from the last one to the first.\<close>

fun locate_frames :: "string list \<Rightarrow> pprof_table \<Rightarrow> nat list \<times> pprof_table" where
  "locate_frames [] t = ([], t)"
| "locate_frames (f # fs) t = (let (loc, t1) = locationForFrame f t; (locs, t2) = locate_frames fs t1
     in (loc # locs, t2))"

fun build_samples :: "stack_sample list \<Rightarrow> pprof_table \<Rightarrow> pprof_sample list \<times> pprof_table" where
  "build_samples [] t = ([], t)"
| "build_samples (st # sts) t =
     (let (locs, t1) = locate_frames (rev (st_frames st)) t; (samples, t2) = build_samples sts t1
      in (\<lparr>ps_value = to_int64 (st_weight st), ps_locations = locs\<rparr> # samples, t2))"

text \<open>\<open>t.Sub(u)\<close> saturates at the bounds of int64.\<close>

definition time_sub :: "time \<Rightarrow> time \<Rightarrow> duration" where
  "time_sub t u = max (- (2 ^ 63)) (min (2 ^ 63 - 1) (t - u))"

definition buildPprofProfile :: "profile_input \<Rightarrow> pprof" where
  "buildPprofProfile i =
     (let period = 1000000000 div pi_sampleRateHz i;
          d = time_sub (pi_endTime i) (pi_startTime i);
          (samples, t) = build_samples (pi_stacks i) empty_table
      in \<lparr>pp_period = (if period \<le> 0 then 10000000 else period), pp_time = wrap64 (pi_startTime i),
          pp_duration = (if d < 0 then 0 else d), pp_functions = pt_functions t, pp_locations = pt_locations t,
          pp_samples = samples\<rparr>)"

section \<open>The profile has the stacks\<close>

text \<open>What a location of the profile names: its function's name.\<close>

definition frame_of :: "pprof \<Rightarrow> nat \<Rightarrow> string option" where
  "frame_of p loc = Option.bind (map_of (pp_locations p) loc) (map_of (pp_functions p))"

text \<open>The tables agree: ids count from 1, and every name has one function and one location.\<close>

definition numbered :: "(nat \<times> 'a) list \<Rightarrow> nat \<Rightarrow> bool" where
  "numbered xs n \<longleftrightarrow> n = Suc (length xs) \<and> map fst xs = [1..<n]"

definition agree :: "(nat \<rightharpoonup> nat) \<Rightarrow> (nat \<rightharpoonup> string) \<Rightarrow> (string \<rightharpoonup> nat) \<Rightarrow> (string \<rightharpoonup> nat) \<Rightarrow> bool" where
  "agree locs fns loc_of fn_of \<longleftrightarrow>
     (\<forall>name loc. loc_of name = Some loc \<longrightarrow> (\<exists>fn. locs loc = Some fn \<and> fns fn = Some name))
     \<and> (\<forall>name fn. fn_of name = Some fn \<longrightarrow> fns fn = Some name)"

definition table_ok :: "pprof_table \<Rightarrow> bool" where
  "table_ok t \<longleftrightarrow> numbered (pt_functions t) (pt_nextFn t) \<and> numbered (pt_locations t) (pt_nextLoc t)
     \<and> agree (map_of (pt_locations t)) (map_of (pt_functions t)) (map_of (pt_locByName t)) (map_of (pt_fnByName t))"

lemma numbered_fresh: "numbered xs n \<Longrightarrow> map_of xs n = None"
  by (simp add: numbered_def map_of_eq_None_iff flip: set_map)

lemma numbered_snoc:
  assumes "numbered xs n"
  shows "numbered (xs @ [(n, v)]) (Suc n)" and "map_of (xs @ [(n, v)]) = (map_of xs)(n \<mapsto> v)"
    and "map_of xs \<subseteq>\<^sub>m (map_of xs)(n \<mapsto> v)"
proof -
  from assms show "numbered (xs @ [(n, v)]) (Suc n)" by (auto simp: numbered_def)
  from numbered_fresh [OF assms] show "map_of (xs @ [(n, v)]) = (map_of xs)(n \<mapsto> v)"
    by (auto simp: map_add_def fun_eq_iff split: option.split)
  from numbered_fresh [OF assms] show "map_of xs \<subseteq>\<^sub>m (map_of xs)(n \<mapsto> v)"
    by (auto simp: map_le_def)
qed

lemma agree_function:
  assumes "agree ls fs N G" and "fs k = None"
  shows "agree ls (fs(k \<mapsto> name)) N (G(name \<mapsto> k))"
proof -
  have "\<exists>fn. ls loc = Some fn \<and> (fs(k \<mapsto> name)) fn = Some nm" if N: "N nm = Some loc" for nm loc
  proof -
    from assms(1) N obtain fn where "ls loc = Some fn" "fs fn = Some nm" unfolding agree_def by blast
    with assms(2) have "ls loc = Some fn \<and> (fs(k \<mapsto> name)) fn = Some nm" by auto
    then show ?thesis ..
  qed
  moreover have "(fs(k \<mapsto> name)) fn = Some nm" if "(G(name \<mapsto> k)) nm = Some fn" for nm fn
    using assms that by (auto simp: agree_def split: if_splits)
  ultimately show ?thesis unfolding agree_def by blast
qed

lemma agree_location:
  assumes "agree ls fs N G" and "ls k = None" and "fs fn = Some name"
  shows "agree (ls(k \<mapsto> fn)) fs (N(name \<mapsto> k)) G"
proof -
  have "\<exists>f. (ls(k \<mapsto> fn)) loc = Some f \<and> fs f = Some nm" if N: "(N(name \<mapsto> k)) nm = Some loc" for nm loc
  proof (cases "nm = name")
    case False
    with N have "N nm = Some loc" by simp
    with assms(1) obtain f where "ls loc = Some f" "fs f = Some nm" unfolding agree_def by blast
    with assms(2) have "(ls(k \<mapsto> fn)) loc = Some f \<and> fs f = Some nm" by auto
    then show ?thesis ..
  qed (use N assms(3) in simp)
  with assms(1) show ?thesis unfolding agree_def by blast
qed

definition grows :: "pprof_table \<Rightarrow> pprof_table \<Rightarrow> bool" where
  "grows t t' \<longleftrightarrow> map_of (pt_locations t) \<subseteq>\<^sub>m map_of (pt_locations t') \<and> map_of (pt_functions t) \<subseteq>\<^sub>m map_of (pt_functions t')"

lemma grows_refl [simp]: "grows t t" and grows_trans: "grows t u \<Longrightarrow> grows u v \<Longrightarrow> grows t v"
  by (auto simp: grows_def intro: map_le_trans)

definition names :: "pprof_table \<Rightarrow> nat \<Rightarrow> string option" where
  "names t loc = Option.bind (map_of (pt_locations t) loc) (map_of (pt_functions t))"

lemma names_grows: "grows t t' \<Longrightarrow> names t loc = Some f \<Longrightarrow> names t' loc = Some f"
  by (auto simp: grows_def names_def map_le_def bind_eq_Some_conv) (metis domI)+

lemma locationForFrame_ok:
  assumes t: "table_ok t" and "locationForFrame name t = (loc, t')"
  shows "table_ok t' \<and> grows t t' \<and> names t' loc = Some name"
proof (cases "map_of (pt_locByName t) name")
  case (Some l)
  with assms(2) have l: "loc = l" "t' = t" by (simp_all add: locationForFrame_def)
  from t Some obtain fn where "map_of (pt_locations t) l = Some fn" "map_of (pt_functions t) fn = Some name"
    unfolding table_ok_def agree_def by blast
  with l t show ?thesis by (simp add: names_def)
next
  case None
  obtain fn t1 where 1: "(case map_of (pt_fnByName t) name of Some fn \<Rightarrow> (fn, t)
      | None \<Rightarrow> (pt_nextFn t, t\<lparr>pt_nextFn := pt_nextFn t + 1, pt_functions := pt_functions t @ [(pt_nextFn t, name)],
          pt_fnByName := AList.update name (pt_nextFn t) (pt_fnByName t)\<rparr>)) = (fn, t1)"
    by (cases "map_of (pt_fnByName t) name") auto
  have t1: "table_ok t1 \<and> grows t t1 \<and> map_of (pt_functions t1) fn = Some name"
  proof (cases "map_of (pt_fnByName t) name")
    case None
    from t have n: "numbered (pt_functions t) (pt_nextFn t)"
      and "agree (map_of (pt_locations t)) (map_of (pt_functions t)) (map_of (pt_locByName t)) (map_of (pt_fnByName t))"
      by (simp_all add: table_ok_def)
    from agree_function [OF this(2) numbered_fresh [OF n], of name] None 1 t numbered_snoc [OF n, of name]
    show ?thesis by (clarsimp simp: table_ok_def grows_def update_conv')
  next
    case (Some g)
    with 1 have "t1 = t" "fn = g" by simp_all
    with t Some show ?thesis unfolding table_ok_def agree_def by simp
  qed
  then have n: "numbered (pt_locations t1) (pt_nextLoc t1)"
    and "agree (map_of (pt_locations t1)) (map_of (pt_functions t1)) (map_of (pt_locByName t1)) (map_of (pt_fnByName t1))"
    by (simp_all add: table_ok_def)
  from agree_location [OF this(2) numbered_fresh [OF n]] t1
  have agree: "agree ((map_of (pt_locations t1))(pt_nextLoc t1 \<mapsto> fn)) (map_of (pt_functions t1))
      ((map_of (pt_locByName t1))(name \<mapsto> pt_nextLoc t1)) (map_of (pt_fnByName t1))" by simp
  have step: "loc = pt_nextLoc t1" "t' = t1\<lparr>pt_nextLoc := pt_nextLoc t1 + 1,
      pt_locations := pt_locations t1 @ [(pt_nextLoc t1, fn)],
      pt_locByName := AList.update name (pt_nextLoc t1) (pt_locByName t1)\<rparr>"
    using assms(2) None unfolding locationForFrame_def Let_def by (auto simp add: 1)
  have "table_ok t'" "grows t1 t'" "names t' loc = Some name"
    using t1 numbered_snoc [OF n, of fn] agree
    by (simp_all add: step table_ok_def grows_def names_def update_conv')
  with t1 show ?thesis using grows_trans by blast
qed

lemma locate_frames_ok:
  assumes "table_ok t" and "locate_frames fs t = (locs, t')"
  shows "table_ok t' \<and> grows t t' \<and> map (names t') locs = map Some fs"
  using assms
proof (induction fs arbitrary: t locs)
  case (Cons f fs)
  obtain loc t1 locs2 where 1: "locationForFrame f t = (loc, t1)" "locate_frames fs t1 = (locs2, t')"
    "locs = loc # locs2"
    using Cons.prems(2) by (auto split: prod.splits)
  with locationForFrame_ok [OF Cons.prems(1) 1(1)] Cons.IH [of t1 locs2] show ?case
    by (auto intro: grows_trans names_grows)
qed simp

lemma build_samples_ok:
  assumes "table_ok t" and "build_samples sts t = (samples, t')"
  shows "table_ok t' \<and> grows t t'
    \<and> list_all2 (\<lambda>st smp. ps_value smp = to_int64 (st_weight st)
        \<and> map (names t') (ps_locations smp) = map Some (rev (st_frames st))) sts samples"
  using assms
proof (induction sts arbitrary: t samples)
  case (Cons st sts)
  obtain locs t1 smps where 1: "locate_frames (rev (st_frames st)) t = (locs, t1)"
    "build_samples sts t1 = (smps, t')" "samples = \<lparr>ps_value = to_int64 (st_weight st), ps_locations = locs\<rparr> # smps"
    using Cons.prems(2) by (auto split: prod.splits)
  from locate_frames_ok [OF Cons.prems(1) 1(1)] have t1: "table_ok t1" "grows t t1"
    "map (names t1) locs = map Some (rev (st_frames st))" by auto
  from Cons.IH [OF t1(1) 1(2)] have t': "table_ok t'" "grows t1 t'"
    "list_all2 (\<lambda>st smp. ps_value smp = to_int64 (st_weight st)
        \<and> map (names t') (ps_locations smp) = map Some (rev (st_frames st))) sts smps" by auto
  have "map (names t') locs = map Some (rev (st_frames st))"
    using t1(3) names_grows [OF t'(2)] by (simp add: list_eq_iff_nth_eq)
  with t1 t' 1(3) show ?case by (auto intro: grows_trans)
qed simp

lemma empty_table_ok: "table_ok empty_table"
  by (simp add: table_ok_def empty_table_def numbered_def agree_def)

text \<open>
  C26: The profile built for an operation carries its stacks: one sample per stack with the stack's
  weight, whose locations name, leaf first, the frames of the stack; its functions and its
  locations are numbered 1, 2, 3 and so on.
\<close>

theorem buildPprofProfile_samples:
  "list_all2 (\<lambda>st smp. ps_value smp = to_int64 (st_weight st)
       \<and> map (frame_of (buildPprofProfile i)) (ps_locations smp) = map Some (rev (st_frames st)))
     (pi_stacks i) (pp_samples (buildPprofProfile i))
   \<and> map fst (pp_functions (buildPprofProfile i)) = [1..<Suc (length (pp_functions (buildPprofProfile i)))]
   \<and> map fst (pp_locations (buildPprofProfile i)) = [1..<Suc (length (pp_locations (buildPprofProfile i)))]"
proof -
  obtain samples t where b: "build_samples (pi_stacks i) empty_table = (samples, t)" by force
  have p: "pp_functions (buildPprofProfile i) = pt_functions t" "pp_locations (buildPprofProfile i) = pt_locations t"
    "pp_samples (buildPprofProfile i) = samples"
    by (simp_all add: buildPprofProfile_def Let_def b)
  have "frame_of (buildPprofProfile i) = names t"
    by (rule ext) (simp add: frame_of_def names_def p)
  with build_samples_ok [OF empty_table_ok b] p show ?thesis
    by (simp add: table_ok_def numbered_def del: upt_Suc)
qed

end
