(* ===== verification/Synth_Observable.thy ===== *)
theory Synth_Observable
  imports Synth_Attributes Synth_Profile
begin

text \<open>
  synth/observable.go and synth/resource.go: the accumulators that operations update and observable
  metrics read, the values a collection observes, the attributes of the observed series and the
  resource of a service instance. What the code takes from libraries is the record \<open>otel\<close>.
\<close>

section \<open>What the libraries provide\<close>

text \<open>
  \<open>ot_span n\<close> is the span context of the n-th span that is started, \<open>ot_instrument kind name unit\<close>
  tells whether the meter makes the instrument, \<open>ot_uuid\<close> is the version-5 UUID in the namespace
  of the package, \<open>ot_float\<close> and \<open>ot_sprint\<close> are \<open>strconv.FormatFloat\<close> and
  \<open>fmt.Sprint\<close>, \<open>ot_now\<close> is \<open>time.Now\<close>, \<open>ot_pprof_ok\<close> tells whether the pprof
  library accepts and encodes a profile, \<open>ot_callback\<close> whether the meter registers a callback.
  \<open>ot_profiles\<close> tells whether a ProfileExporter is set, \<open>ot_race\<close> is the build constant \<open>raceEnabled\<close>.
\<close>

record otel =
  ot_span :: "nat \<Rightarrow> span_context"
  ot_instrument :: "string \<Rightarrow> string \<Rightarrow> string \<Rightarrow> bool"
  ot_uuid :: "string \<Rightarrow> string"
  ot_float :: "f64 \<Rightarrow> string"
  ot_sprint :: "any \<Rightarrow> string"
  ot_now :: time
  ot_pprof_ok :: "pprof \<Rightarrow> bool"
  ot_profiles :: bool
  ot_callback :: bool
  ot_race :: bool

section \<open>Accumulators\<close>

type_synonym observable_state = "(string, f64) gomap"

definition observable_Add :: "string \<Rightarrow> f64 \<Rightarrow> observable_state \<Rightarrow> observable_state" where
  "observable_Add key delta st =
     (if key = '''' then st
      else AList.update key (fadd (case map_of st key of None \<Rightarrow> Fin 0 | Some v \<Rightarrow> v) delta) st)"

definition observable_Load :: "observable_state \<Rightarrow> string \<Rightarrow> f64" where
  "observable_Load st key =
     (if key = '''' then Fin 0 else case map_of st key of None \<Rightarrow> Fin 0 | Some v \<Rightarrow> v)"

section \<open>Observed values\<close>

definition deterministicServiceFaultActive ::
  "fault_overlay option \<Rightarrow> svc_ref option \<Rightarrow> fault_kind \<Rightarrow> bool" where
  "deterministicServiceFaultActive overlay svc kind \<longleftrightarrow>
     (\<exists>spec \<in> set (NodeFaults overlay svc). f_kind spec = kind
       \<and> fle (Fin 1) (sev_probability (f_severity spec)))"

definition observableMetricValue ::
  "svc_ref option \<Rightarrow> observable_metric \<Rightarrow> fault_overlay option \<Rightarrow> observable_state \<Rightarrow> f64" where
  "observableMetricValue svc spec overlay st =
     (let value = (case om_source spec of
            None \<Rightarrow> om_baseline spec
          | Some src \<Rightarrow>
              (let v = fadd (om_baseline spec) (observable_Load st (src_accumulator src))
               in if src_minus src \<noteq> '''' then fsub v (observable_Load st (src_minus src)) else v))
      in case om_when_fault spec of
           None \<Rightarrow> value
         | Some l \<Rightarrow>
             if deterministicServiceFaultActive overlay svc (fl_kind l)
             then (if fl_has_value l then fl_value l else fadd value (fl_delta l)) else value)"

section \<open>Attribute strings and resources\<close>

definition toAttributeString :: "otel \<Rightarrow> any \<Rightarrow> string" where
  "toAttributeString ot v = (case v of
       AnyString t \<Rightarrow> t
     | AnyBool b \<Rightarrow> if b then ''true'' else ''false''
     | AnyInt i \<Rightarrow> itoa i
     | AnyFloat f \<Rightarrow> ot_float ot f
     | _ \<Rightarrow> ot_sprint ot v)"

definition attribute_attrs :: "otel \<Rightarrow> attributes \<Rightarrow> attr list" where
  "attribute_attrs ot m = map (\<lambda>(k, v). (k, AttrString (toAttributeString ot v))) (case m of None \<Rightarrow> [] | Some kvs \<Rightarrow> kvs)"

definition observableMetricAttrs :: "otel \<Rightarrow> schema \<Rightarrow> svc_ref option \<Rightarrow> observable_metric \<Rightarrow> attr list" where
  "observableMetricAttrs ot s svc spec =
     (case svc of None \<Rightarrow> [] | Some r \<Rightarrow> [service_attr (svc_name (s_svc s r))]) @ attribute_attrs ot (om_attributes spec)"

definition svcKey :: "schema \<Rightarrow> svc_ref \<Rightarrow> int \<Rightarrow> string" where
  "svcKey s svc idx = svc_name (s_svc s svc) @ ''/'' @ itoa idx"

definition InstanceID :: "otel \<Rightarrow> string \<Rightarrow> int \<Rightarrow> string" where
  "InstanceID ot name idx = ot_uuid ot (name @ ''/'' @ itoa idx)"

definition serviceNamespace :: "service \<Rightarrow> string" where
  "serviceNamespace svc = (if svc_namespace svc = '''' then DefaultNamespace else svc_namespace svc)"

text \<open>The attributes that BuildResource gives to \<open>resource.NewSchemaless\<close>; it panics on a
  service without a name and on a negative index.\<close>

definition BuildResource :: "otel \<Rightarrow> schema \<Rightarrow> svc_ref \<Rightarrow> int \<Rightarrow> attr list result" where
  "BuildResource ot s svc idx =
     (let v = s_svc s svc in
      if svc_name v = '''' then Panic ''synth: BuildResource: svc.Name must not be empty''
      else if idx < 0 then Panic (''synth: BuildResource: instanceIdx '' @ itoa idx @ '' must be >= 0'')
      else Done ([service_attr (svc_name v), (''service.namespace'', AttrString (serviceNamespace v)),
          (''service.instance.id'', AttrString (InstanceID ot (svc_name v) idx)),
          (''telemetry.sdk.name'', AttrString ''opentelemetry''), (''telemetry.sdk.language'', AttrString ''go'')]
        @ (if svc_version v \<noteq> '''' then [(''service.version'', AttrString (svc_version v))] else [])
        @ (if svc_language v \<noteq> '''' then [(''process.runtime.name'', AttrString (svc_language v))] else [])
        @ (if svc_framework v \<noteq> '''' then [(''synth.service.framework'', AttrString (svc_framework v))] else [])))"

section \<open>Registration\<close>

record metric_binding =
  mb_service :: svc_ref
  mb_spec :: observable_metric
  mb_attrs :: "attr list"

text \<open>
  RegisterServiceMetrics makes one binding per metric of a service, in the order of the map, and
  registers a callback that observes each binding; the error of the first instrument that cannot be
  made, or of the registration, ends it. \<open>has_mp\<close> and \<open>has_state\<close> say that the pointers are not nil.
\<close>

datatype registration = NoopRegistration | CallbackRegistration "metric_binding list"

definition observableInstrument :: "otel \<Rightarrow> observable_metric \<Rightarrow> bool" where
  "observableInstrument ot spec \<longleftrightarrow> (case om_type spec of
       MetricObservableGauge \<Rightarrow> ot_instrument ot ''observable_gauge'' (om_name spec) (om_unit spec)
     | MetricObservableCounter \<Rightarrow> ot_instrument ot ''observable_counter'' (om_name spec) (om_unit spec)
     | _ \<Rightarrow> False)"

definition service_bindings :: "otel \<Rightarrow> schema \<Rightarrow> metric_binding list" where
  "service_bindings ot s = concat (map (\<lambda>(_, p). case p of
       None \<Rightarrow> []
     | Some r \<Rightarrow> map (\<lambda>spec. \<lparr>mb_service = r, mb_spec = spec, mb_attrs = observableMetricAttrs ot s (Some r) spec\<rparr>)
         (svc_metrics (s_svc s r))) (s_services s))"

definition RegisterServiceMetrics ::
  "otel \<Rightarrow> bool \<Rightarrow> schema option \<Rightarrow> bool \<Rightarrow> msg + registration" where
  "RegisterServiceMetrics ot has_mp p has_state =
     (if \<not> has_mp then Inl (Msg ''synth: register service metrics: meter provider is nil'' [])
      else case p of
        None \<Rightarrow> Inl (Msg ''synth: register service metrics: schema is nil'' [])
      | Some s \<Rightarrow>
          if \<not> has_state then Inl (Msg ''synth: register service metrics: observable state is nil'' [])
          else case find (\<lambda>b. \<not> observableInstrument ot (mb_spec b)) (service_bindings ot s) of
            Some b \<Rightarrow> Inl (Msg ''synth: register service metric %q: %w'' [AStr (om_name (mb_spec b))])
          | None \<Rightarrow>
              if service_bindings ot s = [] then Inr NoopRegistration
              else if \<not> ot_callback ot then Inl (Msg ''synth: register service metric callback: %w'' [])
              else Inr (CallbackRegistration (service_bindings ot s)))"

definition observe_bindings ::
  "fault_overlay option \<Rightarrow> observable_state \<Rightarrow> metric_binding list \<Rightarrow> (metric_binding \<times> f64) list" where
  "observe_bindings overlay st bs =
     map (\<lambda>b. (b, observableMetricValue (Some (mb_service b)) (mb_spec b) overlay st)) bs"

end
