(* ===== verification/Synth_Default.thy ===== *)
theory Synth_Default
  imports Synth_Observable
begin

text \<open>
  synth/synthesizer.go: the default synthesizer over its caches, its accumulators and the calls it
  makes on the OpenTelemetry API, which are kept in the order in which they are made. A tracer or a
  logger is the resource it was created with; a FinishSpanFunc is a handle with the values that its
  closure captures.
\<close>

section \<open>Signals\<close>

datatype log_value = LogString string | LogBool bool | LogInt int | LogFloat f64

record log_record =
  lr_time :: time
  lr_severity :: int
  lr_body :: string
  lr_event_name :: string
  lr_attrs :: "(string \<times> log_value) list"

record profile_push =
  pp_app :: string
  pp_labels :: "(string \<times> string) list"
  pp_from :: int
  pp_until :: int
  pp_rate :: int
  pp_profile :: pprof

datatype signal =
    SpanStarted nat "attr list" span_context string span_kind time "attr list" "span_context list"
  | SpanStatus nat status_code
  | SpanAttributes nat "attr list"
  | SpanEvent nat string time "attr list"
  | SpanEnded nat time
  | ContextAttribute span_context string string
  | ActiveAdd string "attr list" int
  | DurationRecorded string duration "attr list" "attr list"
  | LogEmitted "attr list" span_context log_record
  | CustomRecorded string string string f64 "attr list"
  | ProfilePushed profile_push

section \<open>State\<close>

type_synonym instrument = "string \<times> string \<times> string"

record synth_state =
  ss_tracers :: "(string, attr list) gomap"
  ss_loggers :: "(string, attr list) gomap"
  ss_cache :: "(cache_key, attr list) gomap"
  ss_customs :: "(string, instrument) gomap"
  ss_accumulators :: observable_state
  ss_next :: nat
  ss_finished :: "nat list"
  ss_signals :: "signal list"

definition new_synth :: synth_state where
  "new_synth = \<lparr>ss_tracers = [], ss_loggers = [], ss_cache = [], ss_customs = [], ss_accumulators = [],
     ss_next = 0, ss_finished = [], ss_signals = []\<rparr>"

definition signal :: "signal \<Rightarrow> synth_state \<Rightarrow> synth_state" where
  "signal g st = st\<lparr>ss_signals := ss_signals st @ [g]\<rparr>"

datatype span_handle = SpanHandle (h_id: nat) (h_ctx: span_context) (h_service: svc_ref)
  (h_input: span_input) (h_policy: attribute_policy)

section \<open>Caches\<close>

definition staticAttrs ::
  "schema \<Rightarrow> svc_ref \<Rightarrow> string \<Rightarrow> edge option \<Rightarrow> attribute_policy \<Rightarrow> synth_state \<Rightarrow> attr list \<times> synth_state" where
  "staticAttrs s svc opn e po st =
     (let key = cacheKeyFor s svc opn e (po_dir po) in
      case map_of (ss_cache st) key of
        Some kvs \<Rightarrow> (kvs, st)
      | None \<Rightarrow> (let kvs = buildStaticSet s svc opn e po
          in (kvs, st\<lparr>ss_cache := AList.update key kvs (ss_cache st)\<rparr>)))"

definition tracerFor ::
  "otel \<Rightarrow> schema \<Rightarrow> svc_ref \<Rightarrow> int \<Rightarrow> synth_state \<Rightarrow> attr list result \<times> synth_state" where
  "tracerFor ot s svc idx st =
     (let key = svcKey s svc idx in
      case map_of (ss_tracers st) key of
        Some res \<Rightarrow> (Done res, st)
      | None \<Rightarrow> (case BuildResource ot s svc idx of
            Panic p \<Rightarrow> (Panic p, st)
          | Done res \<Rightarrow> (Done res, st\<lparr>ss_tracers := AList.update key res (ss_tracers st)\<rparr>)))"

definition loggerFor ::
  "otel \<Rightarrow> schema \<Rightarrow> svc_ref \<Rightarrow> int \<Rightarrow> synth_state \<Rightarrow> attr list result \<times> synth_state" where
  "loggerFor ot s svc idx st =
     (let key = svcKey s svc idx in
      case map_of (ss_loggers st) key of
        Some res \<Rightarrow> (Done res, st)
      | None \<Rightarrow> (case BuildResource ot s svc idx of
            Panic p \<Rightarrow> (Panic p, st)
          | Done res \<Rightarrow> (Done res, st\<lparr>ss_loggers := AList.update key res (ss_loggers st)\<rparr>)))"

definition customInstrument ::
  "otel \<Rightarrow> string \<Rightarrow> string \<Rightarrow> string \<Rightarrow> synth_state \<Rightarrow> instrument option \<times> synth_state" where
  "customInstrument ot kind name unit st =
     (let key = kind @ ''/'' @ name @ ''/'' @ unit in
      case map_of (ss_customs st) key of
        Some i \<Rightarrow> (Some i, st)
      | None \<Rightarrow>
          if ot_instrument ot kind name unit
          then (Some (kind, name, unit), st\<lparr>ss_customs := AList.update key (kind, name, unit) (ss_customs st)\<rparr>)
          else (None, st))"

section \<open>Spans\<close>

definition spanName :: "schema \<Rightarrow> svc_ref \<Rightarrow> string \<Rightarrow> string" where
  "spanName s svc opn = svc_name (s_svc s svc) @ ''.'' @ opn"

text \<open>The panic of validateSpanInput and of validateMetricInput, which differ in the caller they name.\<close>

definition validateInput :: "schema \<Rightarrow> string \<Rightarrow> svc_ref option \<Rightarrow> string \<Rightarrow> int \<Rightarrow> string option" where
  "validateInput s caller p opn idx = (case p of
       None \<Rightarrow> Some (''synth: '' @ caller @ '': Service must not be nil'')
     | Some svc \<Rightarrow>
         if opn = '''' then Some (''synth: '' @ caller @ '': Operation must not be empty'')
         else if idx < 0 \<or> svc_replicas (s_svc s svc) \<le> idx
         then Some (''synth: '' @ caller @ '': InstanceIdx '' @ itoa idx @ '' out of range [0, ''
           @ itoa (svc_replicas (s_svc s svc)) @ '')'')
         else None)"

definition policy_of :: "schema \<Rightarrow> svc_ref \<Rightarrow> edge option \<Rightarrow> attribute_policy" where
  "policy_of s svc e = policyFor (svc_kind (s_svc s svc)) (protocolFor e) (inferDirection s svc e)"

definition maybeIncActive ::
  "schema \<Rightarrow> svc_ref \<Rightarrow> span_input \<Rightarrow> attribute_policy \<Rightarrow> int \<Rightarrow> synth_state \<Rightarrow> synth_state" where
  "maybeIncActive s svc i po delta st = (case activeUDC po of
       None \<Rightarrow> st
     | Some udc \<Rightarrow>
         if po_kind po \<noteq> SpanKindServer then st
         else (case staticAttrs s svc (si_operation i) (si_edge i) po st of
           (kvs, st1) \<Rightarrow> signal (ActiveAdd udc kvs delta) st1))"

definition BeginSpan ::
  "otel \<Rightarrow> schema \<Rightarrow> span_context \<Rightarrow> span_input \<Rightarrow> synth_state \<Rightarrow>
   (span_context \<times> span_handle) result \<times> synth_state" where
  "BeginSpan ot s ctx i st =
     (case validateInput s ''BeginSpan'' (si_service i) (si_operation i) (si_instanceIdx i) of
        Some p \<Rightarrow> (Panic p, st)
      | None \<Rightarrow>
          (let svc = the (si_service i);
               po = policy_of s svc (si_edge i);
               (kvs, st1) = staticAttrs s svc (si_operation i) (si_edge i) po st;
               span_attrs = kvs @ networkPeerAddressAttr s (si_edge i) (si_instanceIdx i) (po_dir po)
           in case tracerFor ot s svc (si_instanceIdx i) st1 of
                (Panic p, st2) \<Rightarrow> (Panic p, st2)
              | (Done res, st2) \<Rightarrow>
                  (let n = ss_next st2;
                       st3 = signal (SpanStarted n res ctx (spanName s svc (si_operation i)) (po_kind po)
                           (si_startTime i) span_attrs (si_links i)) (st2\<lparr>ss_next := Suc n\<rparr>)
                   in (Done (ot_span ot n, SpanHandle n (ot_span ot n) svc i po), maybeIncActive s svc i po 1 st3))))"

text \<open>The function that BeginSpan returns: only its first call ends the span.\<close>

definition finish_signals :: "span_handle \<Rightarrow> synth_outcome \<Rightarrow> signal list" where
  "finish_signals h oc =
     (if statusFor (h_policy h) oc = StatusError then [SpanStatus (h_id h) StatusError] else [])
     @ [SpanAttributes (h_id h) (dynamicOutcomeAttrs (h_policy h) oc)]
     @ (if \<not> so_success oc
        then [SpanEvent (h_id h) ''exception'' (so_endTime oc) (exceptionAttrs oc (si_operation (h_input h)))] else [])
     @ (if so_cascaded oc then [SpanAttributes (h_id h) [(''synth.cascaded'', AttrBool True)]] else [])
     @ [SpanEnded (h_id h) (so_endTime oc)]"

definition FinishSpan ::
  "otel \<Rightarrow> schema \<Rightarrow> span_handle \<Rightarrow> synth_outcome \<Rightarrow> synth_state \<Rightarrow> unit result \<times> synth_state" where
  "FinishSpan ot s h oc st =
     (if h_id h \<in> set (ss_finished st)
      then (if ot_race ot then Panic ''synth: FinishSpanFunc called more than once'' else Done (), st)
      else (let st1 = fold signal (finish_signals h oc) (st\<lparr>ss_finished := h_id h # ss_finished st\<rparr>)
        in (Done (), maybeIncActive s (h_service h) (h_input h) (h_policy h) (- 1) st1)))"

section \<open>Metrics\<close>

definition RecordMetric ::
  "schema \<Rightarrow> span_context \<Rightarrow> metric_input \<Rightarrow> synth_state \<Rightarrow> unit result \<times> synth_state" where
  "RecordMetric s ctx i st =
     (case validateInput s ''RecordMetric'' (mi_service i) (mi_operation i) (mi_instanceIdx i) of
        Some p \<Rightarrow> (Panic p, st)
      | None \<Rightarrow>
          (let svc = the (mi_service i);
               po = policy_of s svc (mi_edge i)
           in case histogramFor po of
                None \<Rightarrow> (Done (), st)
              | Some histogram \<Rightarrow> (case staticAttrs s svc (mi_operation i) (mi_edge i) po st of
                  (kvs, st1) \<Rightarrow> (Done (), signal (DurationRecorded histogram (mi_latency i) kvs
                    (dynamicOutcomeAttrs po (mi_outcome i))) st1))))"

definition custom_kind :: "metric_type \<Rightarrow> string option" where
  "custom_kind t = (case t of MetricCounter \<Rightarrow> Some ''counter'' | MetricGauge \<Rightarrow> Some ''gauge''
     | MetricHistogram \<Rightarrow> Some ''histogram'' | _ \<Rightarrow> None)"

text \<open>The instrument found must be of the kind asked for.\<close>

definition RecordCustom ::
  "otel \<Rightarrow> schema \<Rightarrow> span_context \<Rightarrow> custom_metric_input \<Rightarrow> synth_state \<Rightarrow> unit result \<times> synth_state" where
  "RecordCustom ot s ctx i st = (case ci_service i of
       None \<Rightarrow> (Done (), st)
     | Some svc \<Rightarrow>
         (let kvs = service_attr (svc_name (s_svc s svc)) # attribute_attrs ot (ci_attributes i) in
          case custom_kind (ci_type i) of
            None \<Rightarrow> (Done (), st)
          | Some kind \<Rightarrow> (case customInstrument ot kind (ci_name i) (ci_unit i) st of
              (None, st1) \<Rightarrow> (Done (), st1)
            | (Some (k, name, unit), st1) \<Rightarrow>
                (Done (), if k = kind then signal (CustomRecorded kind name unit (ci_value i) kvs) st1 else st1))))"

definition UpdateState :: "state_update_input \<Rightarrow> synth_state \<Rightarrow> unit result \<times> synth_state" where
  "UpdateState i st = (case ui_service i of
       None \<Rightarrow> (Done (), st)
     | Some _ \<Rightarrow>
         (Done (), st\<lparr>ss_accumulators := observable_Add (ui_key i) (ui_delta i) (ss_accumulators st)\<rparr>))"

section \<open>Logs\<close>

definition toLogValue :: "otel \<Rightarrow> any \<Rightarrow> log_value" where
  "toLogValue ot v = (case v of
       AnyNil \<Rightarrow> LogString ''''
     | AnyString t \<Rightarrow> LogString t
     | AnyBool b \<Rightarrow> LogBool b
     | AnyInt n \<Rightarrow> LogInt n
     | AnyFloat f \<Rightarrow> LogFloat f
     | _ \<Rightarrow> LogString (ot_sprint ot v))"

definition attr_entries :: "attributes \<Rightarrow> (string \<times> any) list" where
  "attr_entries m = (case m of None \<Rightarrow> [] | Some kvs \<Rightarrow> kvs)"

definition stringAttr :: "attributes \<Rightarrow> string \<Rightarrow> string option" where
  "stringAttr m key = (case map_of (attr_entries m) key of
       Some (AnyString t) \<Rightarrow> if t \<noteq> '''' then Some t else None
     | _ \<Rightarrow> None)"

text \<open>The zero \<open>time.Time\<close> is the start of the year 1.\<close>

definition zero_time :: time where
  "zero_time = - 62135596800 * second"

definition log_record_for :: "otel \<Rightarrow> service \<Rightarrow> log_input \<Rightarrow> log_record" where
  "log_record_for ot svc i =
     (let severity = (if li_severity i = 0 then 9 else li_severity i);
          body = (if li_body i = '''' then svc_name svc @ '' event'' else li_body i);
          event_time = (if li_timestamp i = zero_time then ot_now ot else li_timestamp i)
      in \<lparr>lr_time = event_time, lr_severity = severity, lr_body = body, lr_event_name = li_eventName i,
          lr_attrs = (if li_eventName i \<noteq> '''' then [(''event.name'', LogString (li_eventName i))] else [])
            @ (if map_of (attr_entries (li_attributes i)) ''exception.type'' = None
               then (case stringAttr (li_attributes i) ''error.type'' of
                   Some err \<Rightarrow> if 17 \<le> severity
                     then [(''exception.type'', LogString (exceptionTypeFor err)),
                       (''exception.message'', LogString (failure_message err body))] else []
                 | None \<Rightarrow> [])
               else [])
            @ map (\<lambda>(k, v). (k, toLogValue ot v)) (attr_entries (li_attributes i))
            @ [(''service.name'', LogString (svc_name svc))]\<rparr>)"

definition EmitLog ::
  "otel \<Rightarrow> schema \<Rightarrow> span_context \<Rightarrow> log_input \<Rightarrow> synth_state \<Rightarrow> unit result \<times> synth_state" where
  "EmitLog ot s ctx i st = (case li_service i of
       None \<Rightarrow> (Panic ''synth: EmitLog: Service must not be nil'', st)
     | Some svc \<Rightarrow> (case loggerFor ot s svc (li_instanceIdx i) st of
           (Panic p, st1) \<Rightarrow> (Panic p, st1)
         | (Done res, st1) \<Rightarrow> (Done (), signal (LogEmitted res ctx (log_record_for ot (s_svc s svc) i)) st1)))"

section \<open>Profiles\<close>

definition EmitProfile ::
  "otel \<Rightarrow> schema \<Rightarrow> span_context \<Rightarrow> profile_input \<Rightarrow> synth_state \<Rightarrow> unit result \<times> synth_state" where
  "EmitProfile ot s ctx i st = (case pi_service i of
       None \<Rightarrow> (Done (), st)
     | Some svc \<Rightarrow>
         if \<not> ot_profiles ot \<or> pi_stacks i = [] then (Done (), st)
         else (let i1 = (if pi_sampleRateHz i \<le> 0 then i\<lparr>pi_sampleRateHz := 100\<rparr> else i);
                   p = buildPprofProfile i1
           in if \<not> ot_pprof_ok ot p then (Done (), st)
              else (Done (), signal (ProfilePushed
                \<lparr>pp_app = svc_name (s_svc s svc), pp_labels = [(''span_id'', pi_profileID i),
                 (''service_name'', svc_name (s_svc s svc)), (''operation'', pi_operation i)],
                 pp_from = wrap64 (pi_startTime i), pp_until = wrap64 (pi_endTime i),
                 pp_rate = pi_sampleRateHz i1, pp_profile = p\<rparr>) st)))"

text \<open>\<open>trace.SpanFromContext(ctx).SetAttributes\<close>, which the executor calls.\<close>

definition SetAttribute :: "span_context \<Rightarrow> string \<Rightarrow> string \<Rightarrow> synth_state \<Rightarrow> unit result \<times> synth_state" where
  "SetAttribute ctx k v st = (Done (), signal (ContextAttribute ctx k v) st)"

definition default_synth :: "otel \<Rightarrow> schema \<Rightarrow> (span_handle, synth_state) synth_ops" where
  "default_synth ot s = \<lparr>sy_BeginSpan = BeginSpan ot s, sy_Finish = FinishSpan ot s, sy_RecordMetric = RecordMetric s,
     sy_EmitLog = EmitLog ot s, sy_RecordCustom = RecordCustom ot s, sy_UpdateState = (\<lambda>_. UpdateState),
     sy_EmitProfile = EmitProfile ot s, sy_SetAttribute = SetAttribute\<rparr>"

end
