(* ===== verification/Synth_Spans.thy ===== *)
theory Synth_Spans
  imports Journey_Spans Synth_Default
begin

text \<open>
  The default synthesizer keeps the span protocol: its open spans are the started spans that no
  finish function has ended, and the active-request counters count them. The interpretation
  discharges the laws of \<open>span_protocol\<close>, so the executor's guarantees hold for it.
\<close>

section \<open>Reading the signals\<close>

fun started_id :: "signal \<Rightarrow> nat list" where
  "started_id (SpanStarted n _ _ _ _ _ _ _) = [n]"
| "started_id _ = []"

fun ended_id :: "signal \<Rightarrow> nat list" where
  "ended_id (SpanEnded n _) = [n]"
| "ended_id _ = []"

definition started :: "signal list \<Rightarrow> nat list" where
  "started gs = concat (map started_id gs)"

definition ended :: "signal list \<Rightarrow> nat list" where
  "ended gs = concat (map ended_id gs)"

fun active_delta :: "string \<Rightarrow> attr list \<Rightarrow> signal \<Rightarrow> int" where
  "active_delta name kvs (ActiveAdd n k d) = (if n = name \<and> k = kvs then d else 0)"
| "active_delta name kvs _ = 0"

text \<open>The value of an active-request counter for one attribute set.\<close>

definition active_count :: "string \<Rightarrow> attr list \<Rightarrow> signal list \<Rightarrow> int" where
  "active_count name kvs gs = sum_list (map (active_delta name kvs) gs)"

fun is_quiet :: "signal \<Rightarrow> bool" where
  "is_quiet (SpanStarted _ _ _ _ _ _ _ _) = False"
| "is_quiet (SpanEnded _ _) = False"
| "is_quiet (ActiveAdd _ _ _) = False"
| "is_quiet _ = True"

lemma reading_simps [simp]:
  "started [] = []" "started (g # gs) = started_id g @ started gs" "started (gs @ hs) = started gs @ started hs"
  "ended [] = []" "ended (g # gs) = ended_id g @ ended gs" "ended (gs @ hs) = ended gs @ ended hs"
  "active_count name kvs [] = 0" "active_count name kvs (g # gs) = active_delta name kvs g + active_count name kvs gs"
  "active_count name kvs (gs @ hs) = active_count name kvs gs + active_count name kvs hs"
  by (simp_all add: started_def ended_def active_count_def)

lemma quiet_reading:
  "is_quiet g \<Longrightarrow> started_id g = [] \<and> ended_id g = [] \<and> active_delta name kvs g = 0"
  by (cases g) auto

lemma quiet_readings:
  "\<forall>g \<in> set gs. is_quiet g \<Longrightarrow> started gs = [] \<and> ended gs = [] \<and> active_count name kvs gs = 0"
  by (induction gs) (auto simp: quiet_reading)

section \<open>Open spans\<close>

definition handle_key :: "schema \<Rightarrow> span_handle \<Rightarrow> cache_key" where
  "handle_key s h = cacheKeyFor s (h_service h) (si_operation (h_input h)) (si_edge (h_input h)) (po_dir (h_policy h))"

text \<open>The counter that counts the span, when its policy has one.\<close>

definition counter_of :: "attribute_policy \<Rightarrow> string option" where
  "counter_of po = (if po_kind po = SpanKindServer then activeUDC po else None)"

definition active_of :: "schema \<Rightarrow> synth_state \<Rightarrow> span_handle \<Rightarrow> (string \<times> attr list) option" where
  "active_of s st h = (case counter_of (h_policy h) of
       None \<Rightarrow> None | Some udc \<Rightarrow> map_option (Pair udc) (map_of (ss_cache st) (handle_key s h)))"

definition counted :: "schema \<Rightarrow> synth_state \<Rightarrow> span_handle \<Rightarrow> bool" where
  "counted s st h \<longleftrightarrow> counter_of (h_policy h) \<noteq> None \<longrightarrow> map_of (ss_cache st) (handle_key s h) \<noteq> None"

definition open_ids :: "nat list \<Rightarrow> synth_state \<Rightarrow> bool" where
  "open_ids ns st \<longleftrightarrow> started (ss_signals st) = [0..<ss_next st] \<and> ended (ss_signals st) = rev (ss_finished st)
     \<and> distinct (ns @ ss_finished st) \<and> set ns \<union> set (ss_finished st) = {..<ss_next st}"

definition active_counts :: "schema \<Rightarrow> span_handle list \<Rightarrow> synth_state \<Rightarrow> bool" where
  "active_counts s hs st \<longleftrightarrow> (\<forall>h \<in> set hs. counted s st h)
     \<and> (\<forall>name kvs. active_count name kvs (ss_signals st)
         = int (length (filter (\<lambda>h. active_of s st h = Some (name, kvs)) hs)))"

definition open_spans :: "schema \<Rightarrow> span_handle list \<Rightarrow> synth_state \<Rightarrow> bool" where
  "open_spans s hs st \<longleftrightarrow> open_ids (map h_id hs) st \<and> active_counts s hs st"

lemma open_spans_new: "open_spans s [] new_synth"
  by (simp add: open_spans_def open_ids_def active_counts_def new_synth_def)

section \<open>Steps that open and close nothing\<close>

definition quiet :: "synth_state \<Rightarrow> synth_state \<Rightarrow> bool" where
  "quiet st st' \<longleftrightarrow> ss_next st' = ss_next st \<and> ss_finished st' = ss_finished st
     \<and> map_of (ss_cache st) \<subseteq>\<^sub>m map_of (ss_cache st')
     \<and> (\<exists>gs. ss_signals st' = ss_signals st @ gs \<and> (\<forall>g \<in> set gs. is_quiet g))"

lemma quiet_refl [simp]: "quiet st st"
  by (auto simp: quiet_def)

lemma quiet_trans: "quiet st st1 \<Longrightarrow> quiet st1 st2 \<Longrightarrow> quiet st st2"
  by (auto simp: quiet_def intro: map_le_trans)

lemma quiet_signal: "is_quiet g \<Longrightarrow> quiet st (signal g st)"
  by (auto simp: quiet_def signal_def)

lemma quiet_updates [simp]:
  "quiet st (st\<lparr>ss_tracers := t\<rparr>)" "quiet st (st\<lparr>ss_loggers := t\<rparr>)" "quiet st (st\<lparr>ss_customs := c\<rparr>)"
  "quiet st (st\<lparr>ss_accumulators := a\<rparr>)"
  by (auto simp: quiet_def)

lemma quiet_static:
  "quiet st (snd (staticAttrs s svc opn e po st))"
  by (auto simp: staticAttrs_def Let_def quiet_def update_conv' map_le_def split: option.split)

lemma quiet_custom: "quiet st (snd (customInstrument ot kind name unit st))"
  by (simp add: customInstrument_def Let_def split: option.split)

lemma quiet_tracer: "quiet st (snd (tracerFor ot s svc idx st))"
  and quiet_logger: "quiet st (snd (loggerFor ot s svc idx st))"
  by (simp_all add: tracerFor_def loggerFor_def Let_def split: option.split result.split)

lemma quiet_active:
  assumes "quiet st st'" and "counted s st h"
  shows "active_of s st' h = active_of s st h" and "counted s st' h"
  using assms by (auto simp: quiet_def active_of_def counted_def map_le_def split: option.splits) (metis domI option.inject)+

lemma quiet_open:
  assumes "open_spans s hs st" and "quiet st st'"
  shows "open_spans s hs st'"
proof -
  from assms(2) obtain gs where gs: "ss_signals st' = ss_signals st @ gs" "\<forall>g \<in> set gs. is_quiet g"
    by (auto simp: quiet_def)
  from assms(1) have c: "counted s st h" if "h \<in> set hs" for h
    using that by (simp add: open_spans_def active_counts_def)
  have "filter (\<lambda>h. active_of s st' h = x) hs = filter (\<lambda>h. active_of s st h = x) hs" for x
    by (rule filter_cong) (auto simp: quiet_active [OF assms(2) c])
  with assms gs quiet_readings [OF gs(2)] quiet_active [OF assms(2) c] show ?thesis
    by (simp add: open_spans_def active_counts_def open_ids_def quiet_def)
qed

section \<open>Opening and closing\<close>

lemma static_cached:
  "staticAttrs s svc opn e po st = (kvs, st1) \<Longrightarrow>
   map_of (ss_cache st1) (cacheKeyFor s svc opn e (po_dir po)) = Some kvs"
  by (auto simp: staticAttrs_def Let_def update_conv' split: option.splits)

lemma maybeIncActive_uncounted: "counter_of po = None \<Longrightarrow> maybeIncActive s svc i po d st = st"
  by (auto simp: maybeIncActive_def counter_of_def split: option.splits if_splits)

lemma maybeIncActive_counted:
  "counter_of po = Some udc \<Longrightarrow> map_of (ss_cache st) (cacheKeyFor s svc (si_operation i) (si_edge i) (po_dir po)) = Some kvs \<Longrightarrow>
   maybeIncActive s svc i po d st = signal (ActiveAdd udc kvs d) st"
  by (auto simp: maybeIncActive_def counter_of_def staticAttrs_def split: option.splits if_splits)

lemma same_cache:
  assumes "ss_cache st' = ss_cache st"
  shows "active_of s st' h = active_of s st h" and "counted s st' h = counted s st h"
  using assms by (simp_all add: active_of_def counted_def split: option.split)

lemma open_push:
  assumes "open_spans s hs st" and "counted s st h" and "h_id h = ss_next st"
  shows "open_spans s (h # hs) (maybeIncActive s (h_service h) (h_input h) (h_policy h) 1
    (signal (SpanStarted (ss_next st) res ctx name k t kvs ls) (st\<lparr>ss_next := Suc (ss_next st)\<rparr>)))"
    (is "open_spans s _ (maybeIncActive s _ _ _ 1 ?st)")
proof -
  have ids: "open_ids (map h_id (h # hs)) ?st"
    using assms by (auto simp: open_spans_def open_ids_def signal_def)
  have active: "active_of s ?st g = active_of s st g" "counted s ?st g = counted s st g" for g
    by (rule same_cache; simp add: signal_def)+
  show ?thesis
  proof (cases "counter_of (h_policy h)")
    case None
    then have "active_of s st h = None" by (simp add: active_of_def)
    with assms ids active None show ?thesis
      by (auto simp: maybeIncActive_uncounted open_spans_def active_counts_def signal_def)
  next
    case (Some udc)
    with assms(2) obtain sk where sk: "map_of (ss_cache st) (handle_key s h) = Some sk"
      by (auto simp: counted_def)
    with Some have h: "active_of s st h = Some (udc, sk)" by (simp add: active_of_def)
    have inc: "maybeIncActive s (h_service h) (h_input h) (h_policy h) 1 ?st = signal (ActiveAdd udc sk 1) ?st"
      using maybeIncActive_counted [OF Some] sk by (simp add: handle_key_def signal_def)
    have "active_of s (signal (ActiveAdd udc sk 1) ?st) g = active_of s st g"
      "counted s (signal (ActiveAdd udc sk 1) ?st) g = counted s st g" for g
      by (rule same_cache; simp add: signal_def)+
    then show ?thesis
      unfolding inc using assms ids h
      by (auto simp: open_spans_def open_ids_def active_counts_def signal_def)
  qed
qed

lemma fold_signal: "fold signal gs st = st\<lparr>ss_signals := ss_signals st @ gs\<rparr>"
  by (induction gs arbitrary: st) (auto simp: signal_def)

lemma finish_reading:
  "started (finish_signals h oc) = [] \<and> ended (finish_signals h oc) = [h_id h]
   \<and> active_count name kvs (finish_signals h oc) = 0"
  by (simp add: finish_signals_def)

lemma open_pop:
  assumes "open_spans s (h # hs) st"
  shows "open_spans s hs (maybeIncActive s (h_service h) (h_input h) (h_policy h) (- 1)
    (fold signal (finish_signals h oc) (st\<lparr>ss_finished := h_id h # ss_finished st\<rparr>)))"
    (is "open_spans s _ (maybeIncActive s _ _ _ _ ?st)")
proof -
  have ids: "open_ids (map h_id hs) ?st"
    using assms finish_reading by (auto simp: open_spans_def open_ids_def fold_signal)
  have active: "active_of s ?st g = active_of s st g" "counted s ?st g = counted s st g" for g
    by (rule same_cache; simp add: fold_signal)+
  show ?thesis
  proof (cases "counter_of (h_policy h)")
    case None
    then have "active_of s st h = None" by (simp add: active_of_def)
    with assms ids active None finish_reading show ?thesis
      by (auto simp: maybeIncActive_uncounted open_spans_def active_counts_def fold_signal)
  next
    case (Some udc)
    with assms obtain sk where sk: "map_of (ss_cache st) (handle_key s h) = Some sk"
      by (auto simp: open_spans_def active_counts_def counted_def)
    with Some have h: "active_of s st h = Some (udc, sk)" by (simp add: active_of_def)
    have inc: "maybeIncActive s (h_service h) (h_input h) (h_policy h) (- 1) ?st = signal (ActiveAdd udc sk (- 1)) ?st"
      using maybeIncActive_counted [OF Some] sk by (simp add: handle_key_def fold_signal)
    have "active_of s (signal (ActiveAdd udc sk (- 1)) ?st) g = active_of s st g"
      "counted s (signal (ActiveAdd udc sk (- 1)) ?st) g = counted s st g" for g
      by (rule same_cache; simp add: signal_def fold_signal)+
    then show ?thesis
      unfolding inc using assms ids h finish_reading
      by (auto simp: open_spans_def open_ids_def active_counts_def signal_def fold_signal)
  qed
qed

section \<open>The interpretation\<close>

definition default_accepts :: "schema \<Rightarrow> acceptance" where
  "default_accepts s svc opn idx \<longleftrightarrow> svc_name (s_svc s svc) \<noteq> '''' \<and> opn \<noteq> '''' \<and> 0 \<le> idx
     \<and> idx < svc_replicas (s_svc s svc)"

lemma resource_built: "default_accepts s svc opn idx \<Longrightarrow> \<exists>res. BuildResource ot s svc idx = Done res"
  by (simp add: BuildResource_def default_accepts_def Let_def)

lemma tracer_built:
  assumes "default_accepts s svc opn idx"
  shows "\<exists>res st'. tracerFor ot s svc idx st = (Done res, st') \<and> quiet st st' \<and> ss_next st' = ss_next st
    \<and> ss_cache st' = ss_cache st"
    and "\<exists>res st'. loggerFor ot s svc idx st = (Done res, st') \<and> quiet st st'"
proof -
  from resource_built [OF assms] obtain res where "BuildResource ot s svc idx = Done res" by blast
  then show "\<exists>res st'. tracerFor ot s svc idx st = (Done res, st') \<and> quiet st st' \<and> ss_next st' = ss_next st
    \<and> ss_cache st' = ss_cache st" "\<exists>res st'. loggerFor ot s svc idx st = (Done res, st') \<and> quiet st st'"
    by (auto simp: tracerFor_def loggerFor_def Let_def split: option.split)
qed

lemma validateInput_ok: "default_accepts s svc opn idx \<Longrightarrow> validateInput s c (Some svc) opn idx = None"
  by (auto simp: validateInput_def default_accepts_def)

lemma BeginSpan_opens:
  assumes "si_service i = Some svc" and "default_accepts s svc (si_operation i) (si_instanceIdx i)"
  shows "synth_triple (open_spans s hs) (BeginSpan ot s c i) (\<lambda>r. open_spans s (snd r # hs)) (\<lambda>_. False)"
proof -
  have "case BeginSpan ot s c i st of (Done r, st') \<Rightarrow> open_spans s (snd r # hs) st' | (Panic p, st') \<Rightarrow> False"
    if st: "open_spans s hs st" for st
  proof -
    let ?po = "policy_of s svc (si_edge i)"
    obtain kvs st1 where 1: "staticAttrs s svc (si_operation i) (si_edge i) ?po st = (kvs, st1)" by force
    from tracer_built(1) [OF assms(2), of ot st1] obtain res st2
      where 2: "tracerFor ot s svc (si_instanceIdx i) st1 = (Done res, st2)" "quiet st1 st2"
        "ss_next st2 = ss_next st1" "ss_cache st2 = ss_cache st1" by blast
    let ?h = "SpanHandle (ss_next st2) (ot_span ot (ss_next st2)) svc i ?po"
    have "quiet st st1" using quiet_static [of st s svc "si_operation i" "si_edge i" ?po] 1 by simp
    with st 2 have "open_spans s hs st2" by (blast intro: quiet_open quiet_trans)
    moreover have "counted s st2 ?h"
      using static_cached [OF 1] 2(4) by (simp add: counted_def handle_key_def)
    ultimately show ?thesis
      using open_push [of s hs st2 ?h] assms 1 2(1) validateInput_ok [OF assms(2)]
      by (simp add: BeginSpan_def Let_def)
  qed
  then show ?thesis by (simp add: synth_triple_def)
qed

lemma FinishSpan_closes:
  "synth_triple (open_spans s (h # hs)) (FinishSpan ot s h oc) (\<lambda>_. open_spans s hs) (\<lambda>_. False)"
proof -
  have "h_id h \<notin> set (ss_finished st)" if "open_spans s (h # hs) st" for st
    using that by (auto simp: open_spans_def open_ids_def)
  then show ?thesis
    using open_pop by (simp add: synth_triple_def FinishSpan_def Let_def)
qed

lemma quiet_triple:
  assumes "\<And>st. \<exists>st'. f st = (Done (), st') \<and> quiet st st'"
  shows "synth_triple (open_spans s hs) f (\<lambda>_. open_spans s hs) (\<lambda>_. False)"
  unfolding synth_triple_def
proof (intro allI impI)
  fix st assume "open_spans s hs st"
  moreover obtain st' where "f st = (Done (), st')" "quiet st st'" using assms by blast
  ultimately show "case f st of (Done a, st') \<Rightarrow> open_spans s hs st' | (Panic p, st') \<Rightarrow> False"
    by (simp add: quiet_open)
qed

lemma RecordMetric_quiet:
  assumes "mi_service m = Some svc" and "default_accepts s svc (mi_operation m) (mi_instanceIdx m)"
  shows "\<exists>st'. RecordMetric s c m st = (Done (), st') \<and> quiet st st'"
proof -
  let ?po = "policy_of s svc (mi_edge m)"
  obtain kvs st1 where 1: "staticAttrs s svc (mi_operation m) (mi_edge m) ?po st = (kvs, st1)" by force
  have "quiet st st1" using quiet_static [of st s svc "mi_operation m" "mi_edge m" ?po] 1 by simp
  then have "quiet st (signal (DurationRecorded n d a b) st1)" for n d a b
    by (rule quiet_trans) (simp add: quiet_signal)
  with assms 1 validateInput_ok [OF assms(2)] show ?thesis
    by (auto simp: RecordMetric_def Let_def split: option.split)
qed

lemma EmitLog_quiet:
  assumes "li_service l = Some svc" and "default_accepts s svc opn (li_instanceIdx l)"
  shows "\<exists>st'. EmitLog ot s c l st = (Done (), st') \<and> quiet st st'"
proof -
  from tracer_built(2) [OF assms(2), of ot st] obtain res st1
    where 1: "loggerFor ot s svc (li_instanceIdx l) st = (Done res, st1)" "quiet st st1" by blast
  from 1(2) have "quiet st (signal (LogEmitted res c r) st1)" for r
    by (rule quiet_trans) (simp add: quiet_signal)
  with assms(1) 1(1) show ?thesis by (simp add: EmitLog_def)
qed

lemma RecordCustom_quiet: "\<exists>st'. RecordCustom ot s c m st = (Done (), st') \<and> quiet st st'"
proof (cases "ci_service m")
  case (Some svc)
  show ?thesis
  proof (cases "custom_kind (ci_type m)")
    case (Some kind)
    obtain r st1 where 1: "customInstrument ot kind (ci_name m) (ci_unit m) st = (r, st1)" by force
    have "quiet st st1" using quiet_custom [of st ot kind "ci_name m" "ci_unit m"] 1 by simp
    then have "quiet st (signal (CustomRecorded k n u v a) st1)" for k n u v a
      by (rule quiet_trans) (simp add: quiet_signal)
    with \<open>ci_service m = Some svc\<close> Some 1 \<open>quiet st st1\<close> show ?thesis
      by (auto simp: RecordCustom_def Let_def split: option.split)
  qed (use Some in \<open>simp add: RecordCustom_def Let_def\<close>)
qed (simp add: RecordCustom_def)

lemma EmitProfile_quiet: "\<exists>st'. EmitProfile ot s c p st = (Done (), st') \<and> quiet st st'"
  by (auto simp: EmitProfile_def Let_def quiet_signal split: option.split)

interpretation default_spans:
  span_protocol "default_synth ot s" "open_spans s" "\<lambda>_. False" "default_accepts s"
proof (unfold_locales, goal_cases)
  case (1 i svc hs c)
  then show ?case by (simp add: default_synth_def BeginSpan_opens)
next
  case (2 h hs oc)
  show ?case by (simp add: default_synth_def FinishSpan_closes)
next
  case (3 m svc hs c)
  then show ?case by (auto simp: default_synth_def intro!: quiet_triple RecordMetric_quiet)
next
  case (4 l svc opn hs c)
  then show ?case by (auto simp: default_synth_def intro!: quiet_triple EmitLog_quiet)
next
  case (5 cm svc hs c)
  show ?case by (auto simp: default_synth_def intro!: quiet_triple RecordCustom_quiet)
next
  case (6 u svc hs c)
  then show ?case by (auto simp: default_synth_def UpdateState_def intro!: quiet_triple)
next
  case (7 p svc hs c)
  show ?case by (auto simp: default_synth_def intro!: quiet_triple EmitProfile_quiet)
next
  case (8 hs c k v)
  show ?case by (auto simp: default_synth_def SetAttribute_def quiet_signal intro!: quiet_triple)
next
  case (9 s hs)
  then show ?case by simp
qed

end
