(* ===== verification/Journey_Delivery.thy ===== *)
theory Journey_Delivery
  imports Synth_Spans Topology_Resolve
begin

text \<open>
  Executing the journeys of a parsed topology. The plan that buildPlan makes of a well-formed
  schema meets what \<open>span_protocol\<close> asks of a plan, so the executor's guarantees apply to
  every journey of every topology that Parse accepts.
\<close>

section \<open>Plans of a schema\<close>

lemma list_all2_right:
  "list_all2 P xs ys \<Longrightarrow> y \<in> set ys \<Longrightarrow> \<exists>x \<in> set xs. P x y"
  by (induction rule: list_all2_induct) auto

lemma edge_runs_deep:
  assumes "\<And>f. f \<in> set (edges_deep e) \<Longrightarrow> op_emits en accepts (e_from f) \<and> op_emits en accepts (e_to f)
      \<and> e_retries f < 2 ^ 63 - 1"
  shows "edge_runs en accepts e"
  using assms
proof (induction e rule: edges_deep.induct)
  case (1 r src to p l er tmo rts bo bd onf)
  let ?e = "Edge r src to p l er tmo rts bo bd onf"
  have "edge_runs en accepts f" if f: "Some f \<in> set (fallbacks ?e)" for f
  proof -
    from f obtain rp where "onf = Some rp" "Some f \<in> set (rp_fallback rp)"
      by (auto simp: fallbacks_def split: option.splits)
    then obtain fs act dr where onf: "onf = Some (Recovery fs act dr)" "Some f \<in> set fs"
      by (cases rp) auto
    have sub: "set (edges_deep f) \<subseteq> set (edges_deep ?e)"
      using f by (subst (2) edges_deep_fallbacks) force
    show ?thesis
      by (rule "1.IH" [OF onf(1) refl onf(2)]) (use sub "1.prems" in \<open>auto simp del: edges_deep.simps\<close>)
  qed
  then show ?case
    using "1.prems" [of ?e] by (auto intro: edge_runs.intros [of _ _ ?e])
qed

text \<open>The retries of every edge of the schema, at every depth of fallbacks, leave room for one more attempt.\<close>

definition retries_fit :: "schema \<Rightarrow> bool" where
  "retries_fit s \<longleftrightarrow> (\<forall>op \<in> operationSet s. \<forall>e \<in> set (forEachEdgeInCalls (op_calls (s_op s op))).
     \<forall>f \<in> set (edges_deep e). e_retries f < 2 ^ 63 - 1)"

text \<open>Every operation of the schema emits, and the edges of its calls lead to operations of it.\<close>

definition schema_runs :: "schema \<Rightarrow> engine \<Rightarrow> acceptance \<Rightarrow> bool" where
  "schema_runs s en accepts \<longleftrightarrow> en_schema en = s \<and> (\<forall>op \<in> operationSet s. op_emits en accepts (Some op))
     \<and> (\<forall>op \<in> operationSet s. \<forall>e \<in> set (forEachEdgeInCalls (op_calls (s_op s op))).
          edge_runs en accepts e \<and> (\<exists>t \<in> operationSet s. e_to e = Some t))"

lemma unfolds_runs:
  assumes s: "schema_runs s en accepts"
  shows "unfolds s op e n \<Longrightarrow> op \<in> operationSet s \<Longrightarrow> (\<forall>ed. e = Some ed \<longrightarrow> edge_runs en accepts ed) \<Longrightarrow>
      node_runs en accepts n"
    and "unfolds_call s c n \<Longrightarrow> (\<forall>ed \<in> set (edges_in_node c). edge_runs en accepts ed
      \<and> (\<exists>t \<in> operationSet s. e_to ed = Some t)) \<Longrightarrow> node_runs en accepts n"
proof (induction rule: unfolds_unfolds_call.inducts)
  case (operation op cs e)
  have kids: "node_runs en accepts m" if m: "Some m \<in> set cs" for m
  proof -
    obtain c where c: "Some c \<in> set (op_calls (s_op s op))"
      "(\<forall>ed \<in> set (edges_in_node c). edge_runs en accepts ed \<and> (\<exists>t \<in> operationSet s. e_to ed = Some t)) \<longrightarrow>
         node_runs en accepts m"
      using list_all2_right [OF operation.IH m] by auto
    have "set (edges_in_node c) \<subseteq> set (forEachEdgeInCalls (op_calls (s_op s op)))"
      using c(1) by (force simp: forEachEdgeInCalls_def)
    with c(2) s operation.prems(1) show ?thesis by (auto simp: schema_runs_def subset_iff)
  qed
  have svc: "emits en accepts svc (op_name (s_op s op))" if "op_service (s_op s op) = Some svc" for svc
    using s operation.prems(1) that by (auto simp: schema_runs_def op_emits_def)
  show ?case
    by (rule node_runs.intros) (use operation.prems(2) kids svc in auto)
next
  case (call ed t n)
  then show ?case by auto
next
  case (group ps cs e)
  have "node_runs en accepts m" if m: "Some m \<in> set cs" for m
  proof -
    obtain c where c: "Some c \<in> set ps"
      "(\<forall>ed \<in> set (edges_in_node c). edge_runs en accepts ed \<and> (\<exists>t \<in> operationSet s. e_to ed = Some t)) \<longrightarrow>
         node_runs en accepts m"
      using list_all2_right [OF group.IH m] by auto
    have "set (edges_in_node c) \<subseteq> set (edges_in_node (CallNode e ps))" using c(1) by force
    with c(2) group.prems show ?thesis by (auto simp: subset_iff)
  qed
  then show ?case by - (rule node_runs.intros, auto simp: parallel_node_def)
qed

lemma unfolds_step_runs:
  assumes s: "schema_runs s en accepts"
  shows "unfolds_step s st n \<Longrightarrow> step_shape s st \<Longrightarrow> node_runs en accepts n"
proof (induction rule: unfolds_step.induct)
  case (operation op n)
  then show ?case by (intro unfolds_runs(1) [OF s]) (auto simp: step_shape_iff)
next
  case (group ps cs op)
  have "node_runs en accepts m" if m: "Some m \<in> set cs" for m
  proof -
    obtain t where "Some t \<in> set ps" "step_shape s t \<longrightarrow> node_runs en accepts m"
      using list_all2_right [OF group.IH m] by auto
    with group.prems group.hyps show ?thesis by (auto simp: step_shape_iff)
  qed
  then show ?case by - (rule node_runs.intros, auto simp: parallel_node_def)
qed

lemma root_runs:
  assumes "\<And>n. n \<in> set ns \<Longrightarrow> node_runs en accepts n"
  shows "node_runs en accepts (root_of ns)"
proof -
  have "node_runs en accepts (sequence_node (map Some ns))"
    by (rule node_runs.intros) (use assms in \<open>auto simp: sequence_node_def\<close>)
  with assms show ?thesis by (auto simp: root_of_def split: list.split)
qed

lemma journey_plan_runs:
  assumes "maps_ok s" and "Validate (Some s) = None" and "schema_runs s en accepts"
    and "(name, Some j) \<in> set (s_journeys s)" and "plan_fuel s \<le> fuel"
  shows "\<exists>n. buildPlan fuel s name = Inr \<lparr>p_journey = name, p_root = Some n\<rparr> \<and> node_runs en accepts n"
proof -
  have "schema_ok s" by (rule Validate_ok [OF assms(1,2)])
  with assms(4) have shapes: "\<forall>p \<in> set (j_steps j). \<exists>t. p = Some t \<and> step_shape s t"
    by (auto simp: schema_ok_def journey_ok_def)
  obtain ns where ns: "buildPlan fuel s name = Inr \<lparr>p_journey = name, p_root = Some (root_of ns)\<rparr>"
    "list_all2 (\<lambda>q n. \<exists>st. q = Some st \<and> unfolds_step s st n) (j_steps j) ns"
    using buildPlan_unfolds [OF Validate_ok [OF assms(1,2)] assms(1,4,5)] by blast
  have "node_runs en accepts n" if n: "n \<in> set ns" for n
  proof -
    obtain st where st: "Some st \<in> set (j_steps j)" "unfolds_step s st n"
      using list_all2_right [OF ns(2) n] by auto
    with shapes have "step_shape s st" by force
    with unfolds_step_runs [OF assms(3) st(2)] show ?thesis .
  qed
  with ns(1) root_runs show ?thesis by blast
qed

section \<open>Outcomes\<close>

text \<open>Any Synthesizer at all, taken as one that always keeps the (empty) protocol.\<close>

interpretation any_synth: span_protocol sy "\<lambda>_ _. True" "\<lambda>_. True" "\<lambda>_ _ _. True"
  by unfold_locales (auto simp: synth_triple_def split: prod.split result.split)

lemma schema_runs_any:
  assumes "maps_ok s" and "Validate (Some s) = None" and "retries_fit s" and "en_schema en = s"
  shows "schema_runs s en (\<lambda>_ _ _. True)"
proof -
  have s: "schema_ok s" by (rule Validate_ok [OF assms(1,2)])
  have "edge_runs en (\<lambda>_ _ _. True) e \<and> (\<exists>t \<in> operationSet s. e_to e = Some t)"
    if "op \<in> operationSet s" "e \<in> set (forEachEdgeInCalls (op_calls (s_op s op)))" for op e
    using op_graphI [OF s that] that assms(3)
    by (auto simp: retries_fit_def op_emits_def emits_def intro!: edge_runs_deep)
  with assms(4) show ?thesis by (auto simp: schema_runs_def op_emits_def emits_def)
qed

text \<open>
  C7: Whatever the Synthesizer does, an execution of a journey of a valid topology that returns
  ends in one of two ways: a success with status 200 and no error type, or a failure whose error
  type is one of AllowedErrorTypes and that no recovery was applied to. A fallback that was used, a
  default response and a silent success are always successes whose primary attempt failed. Retries,
  timeouts, recovery, cascades and the aggregation of parallel groups make no other outcome.
\<close>

theorem execution_outcomes:
  assumes "maps_ok s" and "Validate (Some s) = None" and "retries_fit s" and "en_schema en = s"
    and "(name, Some j) \<in> set (s_journeys s)" and "plan_fuel s \<le> fuel" and "buildPlan fuel s name = Inr pl"
    and "executeNodePtr en sy (p_root pl) ctx None now st = (Done oc, st')"
  shows "(if o_success oc then o_statusCode oc = 200 \<and> o_errorType oc = ''''
      else o_errorType oc \<in> set AllowedErrorTypes)
    \<and> (o_fallbackUsed oc \<noteq> None \<or> o_defaultUsed oc \<or> o_silentlySucceeded oc \<longrightarrow> o_success oc \<and> o_primaryFailed oc)"
proof -
  obtain n where "p_root pl = Some n" "node_runs en (\<lambda>_ _ _. True) n"
    using journey_plan_runs [OF assms(1,2) schema_runs_any [OF assms(1-4)] assms(5,6)] assms(7) by auto
  then have "outcome_ok oc"
    using any_synth.executeNodePtr_opened [where p = "p_root pl" and en = en and st = st and sy = sy and ctx = ctx and start = now]
      assms(8) by simp
  then show ?thesis by (auto simp: outcome_ok_def unrecovered_def split: if_splits)
qed

section \<open>Spans\<close>

lemma parsed_edges_deep:
  assumes "raw_maps_ok raw" and "parse_raw raw = Inr s"
    and "op \<in> operationSet s" and "e \<in> set (forEachEdgeInCalls (op_calls (s_op s op)))"
    and "f \<in> set (edges_deep e)"
  shows "endpoints_ok s f"
proof -
  have "resolveReferences (buildSchema raw) raw = (s, None)"
    using assms(2) by (auto simp: parse_raw_def split: prod.splits option.splits)
  from resolveReferences_result(3) [OF this assms(1)] assms(3,4) have "resolved_edge s op e"
    by (fastforce simp: calls_resolved_def resolved_node_def forEachEdgeInCalls_def)
  with assms(5) show ?thesis by (auto simp: resolved_edge_def)
qed

text \<open>No service of the topology has the empty name, which Validate does not exclude.\<close>

definition services_named :: "schema \<Rightarrow> bool" where
  "services_named s \<longleftrightarrow> (\<forall>(sid, p) \<in> set (s_services s). sid \<noteq> '''')"

lemma operations_emit:
  assumes "schema_ok s" and "services_named s" and "en_schema en = s" and "op \<in> operationSet s"
  shows "op_emits en (default_accepts s) (Some op)"
proof -
  from assms(4) obtain sid name where e: "(sid, name, op) \<in> set (operation_entries s)"
    by (auto simp: operationSet_iff)
  from assms(1) have ids: "identity_ok s" by (simp add: schema_ok_def)
  obtain r where r: "op_service (s_op s op) = Some r" "svc_name (s_svc s r) = sid" "(sid, Some r) \<in> set (s_services s)"
    using identity_okD [OF ids e] by blast
  with assms(1,4) have "1 \<le> svc_replicas (s_svc s r)" "op_name (s_op s op) \<noteq> ''''"
    by (auto simp: schema_ok_def service_ok_def operation_ok_def name_ok_def)
  with r assms(2,3) show ?thesis
    by (auto simp: op_emits_def emits_def default_accepts_def services_named_def)
qed

lemma schema_runs_default:
  assumes "raw_maps_ok raw" and "parse_raw raw = Inr s" and "retries_fit s" and "services_named s"
    and "en_schema en = s"
  shows "schema_runs s en (default_accepts s)"
proof -
  have s: "schema_ok s" 
    using assms(1,2) resolveReferences_result(1)
    by (intro Validate_ok) (auto simp: parse_raw_def split: prod.splits option.splits)
  note emits = operations_emit [OF s assms(4,5)]
  have "edge_runs en (default_accepts s) e \<and> (\<exists>t \<in> operationSet s. e_to e = Some t)"
    if e: "op \<in> operationSet s" "e \<in> set (forEachEdgeInCalls (op_calls (s_op s op)))" for op e
  proof -
    have "op_emits en (default_accepts s) p" if "in_op_set s p" for p
      using that emits by (auto simp: in_op_set_def op_emits_def split: option.splits)
    with parsed_edges_deep [OF assms(1,2) e] assms(3) e
    have "edge_runs en (default_accepts s) e"
      by (intro edge_runs_deep) (auto simp: retries_fit_def endpoints_ok_def)
    with op_graphI [OF s e] show ?thesis by blast
  qed
  with assms(5) emits show ?thesis by (auto simp: schema_runs_def)
qed

text \<open>The run of an engine whose synthesizer has just been made.\<close>

definition new_run :: "synth_state run" where
  "new_run = \<lparr>r_draws = 0, r_reads = 0, r_checks = 0, r_synth = new_synth\<rparr>"

text \<open>One execution, from any run without open spans: it returns no error and leaves none open.\<close>

lemma Execute_clean:
  assumes "raw_maps_ok raw" and "parse_raw raw = Inr s" and "retries_fit s" and "services_named s"
    and "en_schema en = s" and "(name, Some j) \<in> set (s_journeys s)" and "plan_fuel s \<le> fuel"
    and "buildPlan fuel s name = Inr pl" and "open_spans s [] (r_synth st)"
    and run: "Execute en (default_synth ot s) (Some ctx) (Some pl) now st = (r, st')"
  shows "r = None \<and> open_spans s [] (r_synth st')"
proof -
  have s: "maps_ok s" "Validate (Some s) = None"
    using assms(1,2) resolveReferences_result(1)
    by (auto simp: parse_raw_def split: prod.splits option.splits)
  obtain n where "pl = \<lparr>p_journey = name, p_root = Some n\<rparr>" "node_runs en (default_accepts s) n"
    using journey_plan_runs [OF s schema_runs_default [OF assms(1-5)] assms(6,7)] assms(8) by auto
  then have "open_spans s [] (r_synth st') \<and> (r \<noteq> None \<longrightarrow> False)"
    by (intro default_spans.Execute_opened [OF _ _ run]) (use assms(9) in auto)
  then show ?thesis by simp
qed

lemma spans_delivered:
  assumes "open_spans s [] st"
  shows "distinct (started (ss_signals st)) \<and> mset (ended (ss_signals st)) = mset (started (ss_signals st))
    \<and> (\<forall>counter kvs. active_count counter kvs (ss_signals st) = 0)"
proof -
  from assms have o': "open_ids [] st" "active_counts s [] st" by (simp_all add: open_spans_def)
  have "mset (ss_finished st) = mset [0..<ss_next st]"
  proof -
    have "distinct (ss_finished st)" "set (ss_finished st) = set [0..<ss_next st]"
      using o'(1) by (auto simp: open_ids_def lessThan_atLeast0)
    then show ?thesis using set_eq_iff_mset_eq_distinct [of "ss_finished st" "[0..<ss_next st]"] by simp
  qed
  with o' show ?thesis by (auto simp: open_ids_def active_counts_def)
qed

text \<open>
  C3: Delivery. For every topology that Parse accepts, whose service names are not empty and whose
  retries leave room for one more attempt, every journey has a plan, and executing it with the
  default synthesizer returns no error and never panics, whatever the random draws, the clock, the
  cancellation of the context and the libraries do. Afterwards every span that was started has been
  ended, and ended once, and every active-request counter is back at zero for every attribute set.
\<close>

theorem Execute_delivers:
  assumes "raw_maps_ok raw" and "parse_raw raw = Inr s" and "retries_fit s" and "services_named s"
    and "en_schema en = s" and "(name, Some j) \<in> set (s_journeys s)" and "plan_fuel s \<le> fuel"
  shows "\<exists>pl st'. buildPlan fuel s name = Inr pl
    \<and> Execute en (default_synth ot s) (Some ctx) (Some pl) now new_run = (None, st')
    \<and> distinct (started (ss_signals (r_synth st')))
    \<and> mset (ended (ss_signals (r_synth st'))) = mset (started (ss_signals (r_synth st')))
    \<and> (\<forall>counter kvs. active_count counter kvs (ss_signals (r_synth st')) = 0)"
proof -
  have s: "maps_ok s" "Validate (Some s) = None"
    using assms(1,2) resolveReferences_result(1)
    by (auto simp: parse_raw_def split: prod.splits option.splits)
  obtain pl where pl: "buildPlan fuel s name = Inr pl"
    using journey_plan_runs [OF s schema_runs_default [OF assms(1-5)] assms(6,7)] by blast
  obtain r st' where run: "Execute en (default_synth ot s) (Some ctx) (Some pl) now new_run = (r, st')" by force
  have "r = None \<and> open_spans s [] (r_synth st')"
    by (rule Execute_clean [OF assms pl _ run]) (simp add: new_run_def open_spans_new)
  with pl run spans_delivered show ?thesis by blast
qed

end
