(* ===== verification/Float64_Round.thy ===== *)
theory Float64_Round
  imports Float64
begin

text \<open>
  Rounding of positive values: a value that is at least the smallest subnormal number never rounds
  to zero, so a sum of nonnegative doubles that has a positive summand is positive.
\<close>

lemma pow2_pos [simp]: "0 < pow2 k"
  by (simp add: pow2_def)

lemma pow2_powi: "pow2 k = power_int 2 k"
  unfolding pow2_def power_int_def by (simp only: inverse_eq_divide power_one_over)

lemma pow2_mono: "i \<le> j \<Longrightarrow> pow2 i \<le> pow2 j"
  by (simp add: pow2_powi power_int_increasing)

lemma pow2_add: "pow2 (i + j) = pow2 i * pow2 j"
  by (simp add: pow2_powi power_int_add)

lemma pow2_ilog2:
  assumes "0 < r"
  shows "pow2 (ilog2 r) \<le> r"
proof -
  obtain a b where q: "quotient_of r = (a, b)" by force
  have b: "0 < b" using q by (rule quotient_of_denom_pos)
  have r: "r = of_int a / of_int b" using q by (rule quotient_of_div)
  with assms b have a: "0 < a" by (simp add: zero_less_divide_iff)
  have lb: "1 \<le> bitlen a" "0 \<le> bitlen b" using a by (auto simp: bitlen_alt_def)
  have "pow2 (bitlen a - 1) = of_int (2 ^ nat (bitlen a - 1))" using lb by (simp add: pow2_def)
  also have "\<dots> \<le> of_int a" unfolding of_int_le_iff using bitlen_bounds [OF a] by simp
  finally have 1: "pow2 (bitlen a - 1) \<le> of_int a" .
  have "of_int b \<le> (of_int (2 ^ nat (bitlen b)) :: rat)"
    unfolding of_int_le_iff using bitlen_bounds [OF b] by simp
  also have "\<dots> = pow2 (bitlen b)" using lb by (simp add: pow2_def)
  finally have 2: "of_int b \<le> pow2 (bitlen b)" .
  have "pow2 (bitlen a - bitlen b - 1) * of_int b \<le> pow2 (bitlen a - bitlen b - 1) * pow2 (bitlen b)"
    using 2 by (simp add: mult_left_mono less_imp_le)
  also have "\<dots> = pow2 (bitlen a - 1)" by (simp flip: pow2_add)
  also note 1
  finally have "pow2 (bitlen a - bitlen b - 1) \<le> r" using b by (simp add: r pos_le_divide_eq)
  with q assms show ?thesis by (simp add: ilog2_def Let_def)
qed

lemma round_half_even_pos: "1 \<le> q \<Longrightarrow> 1 \<le> round_half_even q"
  by (auto simp: round_half_even_def Let_def le_floor_iff)

lemma fround_pos:
  assumes "pow2 (-1074) \<le> r"
  shows "flt (Fin 0) (fround r)"
proof -
  have r: "0 < r" using assms pow2_pos [of "-1074"] by (rule less_le_trans [rotated])
  define e where "e = max (ilog2 r - 52) (-1074)"
  have "pow2 e \<le> r"
  proof (cases "ilog2 r - 52 \<le> -1074")
    case True
    with assms show ?thesis by (simp add: e_def)
  next
    case False
    then have "pow2 e \<le> pow2 (ilog2 r)" by (intro pow2_mono) (simp add: e_def)
    with pow2_ilog2 [OF r] show ?thesis by simp
  qed
  then have "1 \<le> round_half_even (r / pow2 e)"
    by (intro round_half_even_pos) (simp add: pos_le_divide_eq)
  then have "0 < of_int (round_half_even (r / pow2 e)) * pow2 e"
    by (intro mult_pos_pos) simp_all
  moreover have "fround r = (let v = of_int (round_half_even (r / pow2 e)) * pow2 e
      in if pow2 1024 \<le> \<bar>v\<bar> then FPosInf else if v = 0 then Fin 0 else Fin v)"
    using r by (simp add: fround_def Let_def flip: e_def)
  ultimately show ?thesis unfolding Let_def by (simp only: if_False less_imp_neq [symmetric] split: if_split) simp
qed

lemma representable_min:
  assumes "representable r" and "0 < r"
  shows "pow2 (-1074) \<le> r"
proof -
  define e where "e = max (ilog2 r - 52) (-1074)"
  define m where "m = round_half_even (r / pow2 e)"
  have "fround r = Fin r" using assms(1) by (simp add: representable_def)
  with assms(2) have r: "r = of_int m * pow2 e"
    by (auto simp: fround_def Let_def simp flip: e_def m_def split: if_splits)
  with assms(2) have "0 < (of_int m :: rat)" by (metis pow2_pos zero_less_mult_pos2)
  then have "1 \<le> (of_int m :: rat)" by simp
  then have "1 * pow2 e \<le> r" unfolding r by (intro mult_right_mono) (simp_all add: less_imp_le)
  moreover have "pow2 (-1074) \<le> pow2 e" by (intro pow2_mono) (simp add: e_def)
  ultimately show ?thesis by simp
qed

text \<open>A float of the language: a finite one is representable.\<close>

definition is_double :: "f64 \<Rightarrow> bool" where
  "is_double x \<longleftrightarrow> (case x of Fin r \<Rightarrow> representable r | _ \<Rightarrow> True)"

lemma fadd_pos:
  assumes "fle (Fin 0) x" and "flt (Fin 0) y" and "is_double y"
  shows "flt (Fin 0) (fadd x y)"
proof (cases "is_fin x \<and> is_fin y")
  case True
  with assms(2,3) obtain r where y: "y = Fin r" "0 < r" "representable r"
    by (cases y) (auto simp: is_double_def)
  have "0 \<le> fval x" using True assms(1) by simp
  with representable_min [OF y(3,2)] have "flt (Fin 0) (fround (fval x + r))" by (intro fround_pos) simp
  with True y show ?thesis by (cases x) simp_all
qed (use assms in \<open>cases x; cases y; auto simp: fle_def\<close>)

lemma flt_imp_fle: "flt (Fin 0) x \<Longrightarrow> fle (Fin 0) x"
  by (cases x) (auto simp: fle_def)

end
