(* ===== verification/Journey_Engine.thy ===== *)
theory Journey_Engine
  imports Journey_Executor Float64_Round
begin

text \<open>
  journey/engine.go: the construction of an engine, which builds every plan, the choice of a
  journey by weight, and the intensities that scale the faults.
\<close>

section \<open>Construction\<close>

text \<open>
  A panic of the construction is an \<open>Inl\<close> with the panic value. The loop over the journeys follows
  the order of the map: the first plan that fails panics.
\<close>

fun build_plans :: "nat \<Rightarrow> schema \<Rightarrow> string list \<Rightarrow> msg + (string, plan) gomap" where
  "build_plans fuel s [] = Inr []"
| "build_plans fuel s (name # names) = (case buildPlan fuel s name of
       Inl err \<Rightarrow> Inl (Msg ''journey: NewEngine: build %q: %v'' [AStr name, AStr (PlanError_Error (Some err))])
     | Inr p \<Rightarrow> (case build_plans fuel s names of Inl e \<Rightarrow> Inl e | Inr ps \<Rightarrow> Inr ((name, p) # ps)))"

definition NewEngineWithSeed ::
  "nat \<Rightarrow> schema option \<Rightarrow> fault_overlay option \<Rightarrow> bool \<Rightarrow> environment \<Rightarrow> msg + engine" where
  "NewEngineWithSeed fuel sp ov has_synth env = (case sp of
       None \<Rightarrow> Inl (Msg ''journey: NewEngine: schema must not be nil'' [])
     | Some s \<Rightarrow> (case ov of
           None \<Rightarrow> Inl (Msg ''journey: NewEngine: overlay must not be nil'' [])
         | Some o' \<Rightarrow>
             if \<not> has_synth then Inl (Msg ''journey: NewEngine: synth must not be nil'' [])
             else (case build_plans fuel s (map fst (s_journeys s)) of
                 Inl e \<Rightarrow> Inl e
               | Inr ps \<Rightarrow> Inr \<lparr>en_schema = s, en_overlay = o', en_plans = ps,
                   en_journeyKeys = sort_strings (map fst (s_journeys s)), en_faultIntensity = Fin 1,
                   en_targetFaultIntensities = [], en_env = env\<rparr>)))"

definition BuildPlan :: "engine \<Rightarrow> string \<Rightarrow> plan_error + plan" where
  "BuildPlan en name = (case map_of (en_plans en) name of
       None \<Rightarrow> Inl (PlanError ''unknown_journey'' [name] None) | Some p \<Rightarrow> Inr p)"

definition ListJourneys :: "engine \<Rightarrow> string list" where
  "ListJourneys en = en_journeyKeys en"

section \<open>Choosing a journey\<close>

text \<open>The weight of a journey that is present and not nil.\<close>

definition journey_weight :: "engine \<Rightarrow> string \<Rightarrow> f64 option" where
  "journey_weight en name = map_option j_weight (ptr_at (s_journeys (en_schema en)) name)"

definition JourneyWeights :: "engine \<Rightarrow> (string, f64) gomap" where
  "JourneyWeights en = fold (\<lambda>name out. case journey_weight en name of
       None \<Rightarrow> out | Some w \<Rightarrow> AList.update name w out) (en_journeyKeys en) []"

text \<open>A journey that the choice considers: its weight is positive, which no NaN is.\<close>

definition has_weight :: "engine \<Rightarrow> string \<Rightarrow> bool" where
  "has_weight en name \<longleftrightarrow> (case journey_weight en name of None \<Rightarrow> False | Some w \<Rightarrow> flt (Fin 0) w)"

definition add_weight :: "engine \<Rightarrow> string \<Rightarrow> f64 \<Rightarrow> f64" where
  "add_weight en name acc = (case journey_weight en name of
       None \<Rightarrow> acc | Some w \<Rightarrow> if flt (Fin 0) w then fadd acc w else acc)"

text \<open>The second loop skips a journey without \<open>Weight > 0\<close> being false: it asks \<open>Weight <= 0\<close>,
  so it does not skip a NaN weight, which makes the cumulative weight a NaN.\<close>

fun pick_first :: "engine \<Rightarrow> f64 \<Rightarrow> f64 \<Rightarrow> string list \<Rightarrow> string option" where
  "pick_first en roll cumulative [] = None"
| "pick_first en roll cumulative (name # names) = (case journey_weight en name of
       None \<Rightarrow> pick_first en roll cumulative names
     | Some w \<Rightarrow>
         if fle w (Fin 0) then pick_first en roll cumulative names
         else (let c = fadd cumulative w
               in if flt roll c then Some name else pick_first en roll c names))"

definition PickJourney :: "engine \<Rightarrow> ('s, string) det" where
  "PickJourney en st =
     (let keys = en_journeyKeys en; tot = fold (add_weight en) keys (Fin 0) in
      if keys = [] then ('''', st)
      else if fle tot (Fin 0) then ('''', st)
      else case randFloat64 en st of (x, st') \<Rightarrow>
        (case pick_first en (fmul x tot) (Fin 0) keys of
           Some name \<Rightarrow> name
         | None \<Rightarrow> (case find (has_weight en) (rev keys) of Some name \<Rightarrow> name | None \<Rightarrow> ''''), st'))"

section \<open>Intensities\<close>

definition setFaultIntensity :: "f64 \<Rightarrow> engine \<Rightarrow> engine" where
  "setFaultIntensity x en = en\<lparr>en_faultIntensity := if flt x (Fin 0) then Fin 0 else x\<rparr>"

definition hasFaultTarget :: "engine \<Rightarrow> string \<Rightarrow> bool" where
  "hasFaultTarget en target \<longleftrightarrow> target \<noteq> ''''
     \<and> (\<exists>spec \<in> set (s_faults (en_schema en)). faultTargetString (en_schema en) (f_target spec) = target)"

definition setFaultTargetIntensity :: "string \<Rightarrow> f64 \<Rightarrow> engine \<Rightarrow> msg + engine" where
  "setFaultTargetIntensity target x en =
     (if \<not> hasFaultTarget en target
      then Inl (Msg ''journey: SetFaultIntensity: unknown fault target %q'' [AStr target])
      else Inr (en\<lparr>en_targetFaultIntensities :=
        AList.update target (if flt x (Fin 0) then Fin 0 else x) (en_targetFaultIntensities en)\<rparr>))"

section \<open>The choice respects the weights\<close>

lemma flt_fle: "\<not> (flt x y \<and> fle y x)"
  by (simp add: fle_def)

lemma not_fle: "\<not> is_nan w \<Longrightarrow> \<not> fle w (Fin 0) \<Longrightarrow> flt (Fin 0) w"
  by (cases w) (auto simp: fle_def)

lemma add_weight_pos:
  assumes "\<And>w. journey_weight en name = Some w \<Longrightarrow> is_double w" and "fle (Fin 0) acc"
  shows "fle (Fin 0) (add_weight en name acc)"
    and "has_weight en name \<or> flt (Fin 0) acc \<Longrightarrow> flt (Fin 0) (add_weight en name acc)"
  using assms by (auto simp: add_weight_def has_weight_def intro: fadd_pos flt_imp_fle split: option.splits)

lemma total_weight_pos:
  assumes "\<And>name w. name \<in> set keys \<Longrightarrow> journey_weight en name = Some w \<Longrightarrow> is_double w" and "fle (Fin 0) acc"
  shows "fle (Fin 0) (fold (add_weight en) keys acc)"
    and "(\<exists>k \<in> set keys. has_weight en k) \<or> flt (Fin 0) acc \<Longrightarrow> flt (Fin 0) (fold (add_weight en) keys acc)"
proof -
  have "fle (Fin 0) (fold (add_weight en) keys acc)
      \<and> ((\<exists>k \<in> set keys. has_weight en k) \<or> flt (Fin 0) acc \<longrightarrow> flt (Fin 0) (fold (add_weight en) keys acc))"
    using assms
  proof (induction keys arbitrary: acc)
    case (Cons k keys)
    have "fle (Fin 0) (add_weight en k acc)" "has_weight en k \<or> flt (Fin 0) acc \<Longrightarrow> flt (Fin 0) (add_weight en k acc)"
      using add_weight_pos [of en k acc] Cons.prems by auto
    with Cons.IH [of "add_weight en k acc"] Cons.prems(1) show ?case by auto
  qed simp
  then show "fle (Fin 0) (fold (add_weight en) keys acc)"
    and "(\<exists>k \<in> set keys. has_weight en k) \<or> flt (Fin 0) acc \<Longrightarrow> flt (Fin 0) (fold (add_weight en) keys acc)"
    by blast+
qed

lemma total_weight_none: "\<forall>k \<in> set keys. \<not> has_weight en k \<Longrightarrow> fold (add_weight en) keys acc = acc"
proof (induction keys arbitrary: acc)
  case (Cons k keys)
  then have "add_weight en k acc = acc" by (auto simp: add_weight_def has_weight_def split: option.splits)
  with Cons show ?case by simp
qed simp

lemma pick_first_weighted:
  "pick_first en roll cumulative names = Some name \<Longrightarrow> name \<in> set names \<and> has_weight en name"
proof (induction names arbitrary: cumulative)
  case (Cons k names)
  show ?case
  proof (cases "journey_weight en k")
    case (Some w)
    have "has_weight en k" if "\<not> fle w (Fin 0)" "flt roll (fadd cumulative w)"
    proof -
      from that(2) have "\<not> is_nan w" by (cases w; cases cumulative) auto
      with that(1) Some show ?thesis by (simp add: has_weight_def not_fle)
    qed
    with Cons Some show ?thesis by (auto simp: Let_def split: if_splits)
  qed (use Cons in auto)
qed simp

text \<open>
  C23: PickJourney returns a journey whose weight is positive whenever there is one, and the empty
  string when there is none. No rounding of the weights, no overflow of their sum and no NaN weight
  makes it miss, and it never returns a journey without a positive weight.
\<close>

theorem PickJourney_weighted:
  assumes "\<forall>k \<in> set (en_journeyKeys en). \<forall>w. journey_weight en k = Some w \<longrightarrow> is_double w"
    and "PickJourney en st = (name, st')"
  shows "if \<exists>k \<in> set (en_journeyKeys en). has_weight en k
    then name \<in> set (en_journeyKeys en) \<and> has_weight en name else name = ''''"
proof (cases "\<exists>k \<in> set (en_journeyKeys en). has_weight en k")
  case False
  then have "fold (add_weight en) (en_journeyKeys en) (Fin 0) = Fin 0" by (simp add: total_weight_none)
  with False assms(2) show ?thesis by (simp add: PickJourney_def Let_def split: if_splits)
next
  case True
  let ?keys = "en_journeyKeys en" and ?tot = "fold (add_weight en) (en_journeyKeys en) (Fin 0)"
  have "flt (Fin 0) ?tot" using True assms(1) by (intro total_weight_pos(2)) auto
  then have "\<not> fle ?tot (Fin 0)" using flt_fle by blast
  moreover have "?keys \<noteq> []" using True by auto
  ultimately obtain x where name: "name = (case pick_first en (fmul x ?tot) (Fin 0) ?keys of
      Some name \<Rightarrow> name | None \<Rightarrow> (case find (has_weight en) (rev ?keys) of Some name \<Rightarrow> name | None \<Rightarrow> ''''))"
    using assms(2) by (auto simp: PickJourney_def Let_def split: prod.splits)
  have "find (has_weight en) (rev ?keys) \<noteq> None" using True by (auto simp: find_None_iff)
  then obtain n where "find (has_weight en) (rev ?keys) = Some n" by auto
  moreover from this have "n \<in> set ?keys \<and> has_weight en n"
    by (auto simp: find_Some_iff) (metis length_rev nth_mem set_rev)
  ultimately show ?thesis
    using True name pick_first_weighted [of en "fmul x ?tot" "Fin 0" ?keys]
    by (auto split: option.splits)
qed

section \<open>Construction succeeds\<close>

lemma build_plans_ok:
  "(\<And>name. name \<in> set names \<Longrightarrow> \<exists>p. buildPlan fuel s name = Inr p) \<Longrightarrow>
   \<exists>ps. build_plans fuel s names = Inr ps \<and> map fst ps = names \<and> (\<forall>(name, p) \<in> set ps. buildPlan fuel s name = Inr p)"
proof (induction names)
  case (Cons name names)
  then obtain p where "buildPlan fuel s name = Inr p" by force
  with Cons show ?case by auto
qed simp

lemma NewEngine_engine:
  assumes "maps_ok s" and "Validate (Some s) = None" and "plan_fuel s \<le> fuel"
  shows "\<exists>en. NewEngineWithSeed fuel (Some s) (Some ov) True env = Inr en
    \<and> ListJourneys en = sort_strings (map fst (s_journeys s))
    \<and> (\<forall>name. BuildPlan en name = (if name \<in> fst ` set (s_journeys s) then buildPlan fuel s name
        else Inl (PlanError ''unknown_journey'' [name] None)))
    \<and> en_schema en = s \<and> en_overlay en = ov \<and> en_faultIntensity en = Fin 1"
proof -
  have s: "schema_ok s" by (rule Validate_ok [OF assms(1,2)])
  let ?names = "map fst (s_journeys s)"
  have plans: "\<exists>p. buildPlan fuel s name = Inr p" if name: "name \<in> set ?names" for name
  proof -
    from name s obtain j where "(name, Some j) \<in> set (s_journeys s)" by (fastforce simp: schema_ok_def)
    with buildPlan_unfolds [OF s assms(1) _ assms(3)] show ?thesis by blast
  qed
  then obtain ps where ps: "build_plans fuel s ?names = Inr ps" "map fst ps = ?names"
    "\<forall>(name, p) \<in> set ps. buildPlan fuel s name = Inr p"
    using build_plans_ok [of ?names fuel s] by blast
  have "BuildPlan \<lparr>en_schema = s, en_overlay = ov, en_plans = ps, en_journeyKeys = sort_strings ?names,
      en_faultIntensity = Fin 1, en_targetFaultIntensities = [], en_env = env\<rparr> name
      = (if name \<in> fst ` set (s_journeys s) then buildPlan fuel s name
         else Inl (PlanError ''unknown_journey'' [name] None))" for name
  proof (cases "map_of ps name")
    case None
    then have "name \<notin> set (map fst ps)" by (simp add: map_of_eq_None_iff)
    with None ps(2) show ?thesis by (simp add: BuildPlan_def)
  next
    case (Some p)
    then have mem: "(name, p) \<in> set ps" by (rule map_of_SomeD)
    then have "name \<in> set (map fst ps)" by force
    with mem Some ps show ?thesis by (auto simp: BuildPlan_def)
  qed
  with ps(1) show ?thesis by (simp add: NewEngineWithSeed_def ListJourneys_def)
qed

text \<open>
  C24: The construction of an engine never panics on a topology that Validate accepts: it lists the
  journeys in sorted order, its cached plan of each journey is the one buildPlan makes, other names
  are an unknown_journey error, and the intensity of the faults is 1.
\<close>

theorem NewEngine_ok:
  assumes "maps_ok s" and "Validate (Some s) = None" and "plan_fuel s \<le> fuel"
  shows "\<exists>en. NewEngineWithSeed fuel (Some s) (Some ov) True env = Inr en
    \<and> ListJourneys en = sort_strings (map fst (s_journeys s))
    \<and> (\<forall>name. BuildPlan en name = (if name \<in> fst ` set (s_journeys s) then buildPlan fuel s name
        else Inl (PlanError ''unknown_journey'' [name] None)))
    \<and> en_schema en = s \<and> en_overlay en = ov \<and> en_faultIntensity en = Fin 1"
  by (rule NewEngine_engine [OF assms])

end
