(* ===== verification/Journey_Behaviour.thy ===== *)
theory Journey_Behaviour
  imports Journey_Logic
begin

text \<open>
  What the faults, the schedules, the retries, the recovery and the aggregation of the executor
  compute, branch by branch, and the places where int64 durations run over.
\<close>

section \<open>Folded faults\<close>

text \<open>
  C22: Whatever faults target a node, and whatever their severities, intensities, schedules and
  random draws are, the folded error rate is a probability, and the folded error type is one of
  three allowed types, which is set whenever an error can be forced.
\<close>

theorem foldFaults_error_rate:
  "is_fin (ff_errorRate (fst (foldFaults en p st))) \<and> 0 \<le> fval (ff_errorRate (fst (foldFaults en p st)))
   \<and> fval (ff_errorRate (fst (foldFaults en p st))) \<le> 1
   \<and> ff_errorType (fst (foldFaults en p st)) \<in> (if 0 < fval (ff_errorRate (fst (foldFaults en p st))) then {} else {''''})
       \<union> {''db.connection_lost'', ''grpc.unavailable'', ''http.500''}"
  using foldFaults_ok [of en p st] by (auto simp: folded_ok_def)

subsection \<open>Intensity zero\<close>

lemma fmul_zero_right: "fle (clampProbability (fmul x (Fin 0))) (Fin 0)"
proof -
  have "fmul x (Fin 0) \<in> {FNaN, FNegZero, Fin 0}"
    by (cases x) (simp_all add: fmul_def signed_zero_def)
  then show ?thesis by (auto simp: clampProbability_def fle_def)
qed

lemma inactive_at_zero [simp]: "faultActiveWithIntensity en spec (Fin 0) st = (False, st)"
  by (simp add: faultActiveWithIntensity_def Let_def fmul_zero_right)

lemma intensity_zero:
  assumes "en_faultIntensity en = Fin 0" and "en_targetFaultIntensities en = []" and "f_schedule spec = []"
  shows "faultIntensityFor en spec st = (Fin 0, st)"
  using assms by (simp add: faultIntensityFor_def Let_def)

lemma schema_overlay:
  "f \<in> set (NodeFaults (Some (ApplyFaults (Some s))) r) \<Longrightarrow> f \<in> set (s_faults s)"
  "f \<in> set (EdgeFaults (Some (ApplyFaults (Some s))) e) \<Longrightarrow> f \<in> set (s_faults s)"
  "f \<in> set (OperationFaults (Some (ApplyFaults (Some s))) op) \<Longrightarrow> f \<in> set (s_faults s)"
  by (auto simp: ApplyFaults_def NodeFaults_def EdgeFaults_def OperationFaults_def node_index.find_found_iff
      edge_index.find_found_iff operation_index.find_found_iff split: option.splits)

definition calm :: "'s run \<Rightarrow> folded_fault \<times> 's run \<Rightarrow> bool" where
  "calm st acc \<longleftrightarrow> snd acc = st \<and> \<not> ff_crashed (fst acc) \<and> \<not> ff_disconnected (fst acc) \<and> ff_latencyInflate (fst acc) = 0"

lemma fold_calm:
  assumes "en_faultIntensity en = Fin 0" and "en_targetFaultIntensities en = []" and "f_schedule spec = []"
    and "calm st acc"
  shows "calm st (fold_node_fault en spec acc)" and "calm st (fold_edge_fault en spec acc)"
    and "calm st (fold_operation_fault en n spec acc)"
  using assms
  by (auto simp: calm_def fold_node_fault_def fold_edge_fault_def fold_operation_fault_def fold_inflation_def
      intensity_zero split: prod.splits fault_kind.splits)

text \<open>
  C20: At intensity 0, with no override for a target and no schedule, the faults of a topology never
  crash a node, never disconnect an edge and add no latency, and they draw nothing from the random
  generator and read no clock.
\<close>

theorem zero_intensity_calm:
  assumes "en_faultIntensity en = Fin 0" and "en_targetFaultIntensities en = []"
    and "en_overlay en = ApplyFaults (Some s)" and "\<forall>f \<in> set (s_faults s). f_schedule f = []"
    and "foldFaults en p st = (ff, st')"
  shows "\<not> ff_crashed ff \<and> \<not> ff_disconnected ff \<and> ff_latencyInflate ff = 0 \<and> st' = st"
proof -
  note calm = fold_calm [OF assms(1,2), where st = st]
  have unscheduled:
    "f \<in> set (NodeFaults (Some (en_overlay en)) r) \<Longrightarrow> f_schedule f = []"
    "f \<in> set (EdgeFaults (Some (en_overlay en)) e) \<Longrightarrow> f_schedule f = []"
    "f \<in> set (OperationFaults (Some (en_overlay en)) op) \<Longrightarrow> f_schedule f = []" for f r e op
    using assms(3,4) schema_overlay [of f s] by auto
  have "calm st (foldFaults en p st)"
  proof (cases p)
    case (Some n)
    define acc1 where "acc1 = fold (fold_node_fault en) (NodeFaults (Some (en_overlay en)) (n_service n)) (no_fault, st)"
    have 1: "calm st acc1"
      unfolding acc1_def by (rule fold_inv, rule calm(1), rule unscheduled(1)) (simp_all add: calm_def no_fault_def)
    define acc2 where "acc2 = (case n_edge n of None \<Rightarrow> acc1 | Some e \<Rightarrow>
      fold (fold_edge_fault en) (EdgeFaults (Some (en_overlay en)) (Some e)) (edge_base en n e (fst acc1), snd acc1))"
    have "calm st (fold (fold_edge_fault en) (EdgeFaults (Some (en_overlay en)) (Some e))
        (edge_base en n e (fst acc1), snd acc1))" for e
    proof -
      have base: "calm st (edge_base en n e (fst acc1), snd acc1)"
        using 1 by (simp add: calm_def edge_base_def)
      show ?thesis by (rule fold_inv [where P = "calm st"], rule calm(2), rule unscheduled(2)) (simp_all add: base)
    qed
    with 1 have 2: "calm st acc2"
      unfolding acc2_def by (simp split: option.split)
    have 3: "calm st (fold (fold_operation_fault en n) (OperationFaults (Some (en_overlay en)) (Some op)) acc2)" for op
      by (rule fold_inv, rule calm(3), rule unscheduled(3)) (simp_all add: 2)
    have "foldFaults en p st = (case n_service n of None \<Rightarrow> acc2
      | Some r \<Rightarrow> (case ptr_at (svc_operations (s_svc (en_schema en) r)) (n_operation n) of
           None \<Rightarrow> acc2
         | Some op \<Rightarrow> fold (fold_operation_fault en n) (OperationFaults (Some (en_overlay en)) (Some op)) acc2))"
      unfolding foldFaults_def Let_def Some option.case acc1_def [symmetric] acc2_def [symmetric] ..
    with 2 3 show ?thesis by (simp split: option.split)
  qed (simp add: foldFaults_def calm_def no_fault_def)
  with assms(5) show ?thesis by (simp add: calm_def)
qed

section \<open>Schedules\<close>

lemma schedule_steps:
  assumes "sorted_wrt (<) (map sp_at ps)"
  shows "schedule_intensity now x ps = last (x # map sp_intensity (filter (\<lambda>p. sp_at p \<le> now) ps))"
  using assms
proof (induction ps arbitrary: x)
  case (Cons p ps)
  show ?case
  proof (cases "now < sp_at p")
    case True
    with Cons.prems have "filter (\<lambda>q. sp_at q \<le> now) ps = []" by (auto simp: filter_empty_conv)
    with True show ?thesis by simp
  next
    case False
    with Cons show ?thesis by simp
  qed
qed simp

text \<open>
  C21: A schedule that Validate accepts is a step function of the elapsed time: the intensity of the
  fault is the one of the last point that has been reached, and 0 before the first point. It is
  always finite and not negative.
\<close>

theorem scheduled_intensity_steps:
  assumes "schedule_ok ps" and "scheduledFaultIntensity en ps st = (x, st')"
  shows "x = last (Fin 0 # map sp_intensity (filter (\<lambda>p. sp_at p \<le> fst (elapsed en st)) ps))
    \<and> is_fin x \<and> 0 \<le> fval x"
proof -
  let ?qs = "filter (\<lambda>p. sp_at p \<le> fst (elapsed en st)) ps"
  define y where "y = last (Fin 0 # map sp_intensity ?qs)"
  have "y \<in> insert (Fin 0) (sp_intensity ` set ps)"
  proof (cases "?qs = []")
    case False
    then have "y \<in> set (map sp_intensity ?qs)" unfolding y_def by (simp only: last.simps map_is_Nil_conv if_False last_in_set simp_thms list.map_disc_iff)
    then show ?thesis by auto
  next
    case True
    then show ?thesis unfolding y_def by (simp only: list.map last.simps) simp
  qed
  with assms(1) have y: "is_fin y" "0 \<le> fval y"
    by (auto simp: schedule_ok_def)
  moreover have "schedule_intensity (fst (elapsed en st)) (Fin 0) ps = y"
    using assms(1) by (simp add: schedule_steps schedule_ok_def y_def)
  ultimately have "x = y"
    using assms(2) by (cases y) (auto simp: scheduledFaultIntensity_def Let_def split: prod.splits)
  with y show ?thesis by (simp add: y_def)
qed

section \<open>Aggregation of a parallel group\<close>

definition agg_step :: "outcome \<Rightarrow> outcome \<Rightarrow> outcome" where
  "agg_step oc agg = (let agg1 = (if o_latency agg < o_latency oc then agg\<lparr>o_latency := o_latency oc\<rparr> else agg) in
     if \<not> o_success oc \<and> o_success agg1
     then agg1\<lparr>o_success := False, o_statusCode := o_statusCode oc, o_errorType := o_errorType oc,
       o_cascaded := o_cascaded oc\<rparr>
     else agg1)"

lemma aggregate_fold: "aggregateParallelOutcomes ocs = fold agg_step ocs (mk_outcome True 200 '''' 0)"
  by (simp add: aggregateParallelOutcomes_def agg_step_def [abs_def])

lemma agg_step_simps:
  "o_latency (agg_step oc agg) = max (o_latency agg) (o_latency oc)"
  "o_success (agg_step oc agg) = (o_success oc \<and> o_success agg)"
  "agg_step oc agg = (if \<not> o_success oc \<and> o_success agg
     then agg\<lparr>o_latency := max (o_latency agg) (o_latency oc), o_success := False, o_statusCode := o_statusCode oc,
       o_errorType := o_errorType oc, o_cascaded := o_cascaded oc\<rparr>
     else agg\<lparr>o_latency := max (o_latency agg) (o_latency oc)\<rparr>)"
  by (auto simp: agg_step_def Let_def max_def)

lemma fold_agg:
  "fold agg_step ocs agg =
     (let l = Max (insert (o_latency agg) (o_latency ` set ocs)) in
      if o_success agg then (case filter (\<lambda>oc. \<not> o_success oc) ocs of
          [] \<Rightarrow> agg\<lparr>o_latency := l\<rparr>
        | oc # _ \<Rightarrow> agg\<lparr>o_latency := l, o_success := False, o_statusCode := o_statusCode oc,
            o_errorType := o_errorType oc, o_cascaded := o_cascaded oc\<rparr>)
      else agg\<lparr>o_latency := l\<rparr>)"
proof (induction ocs arbitrary: agg)
  case (Cons oc ocs)
  have "Max (insert (o_latency (agg_step oc agg)) (o_latency ` set ocs))
      = Max (insert (o_latency agg) (o_latency ` set (oc # ocs)))"
    by (cases "ocs = []") (simp_all add: agg_step_simps(1) max.assoc)
  with Cons [of "agg_step oc agg"] show ?case
    by (auto simp: Let_def agg_step_simps(2) split: list.split) (simp_all add: agg_step_simps(3))
qed (simp add: Let_def)

text \<open>
  C36: The outcome of a parallel group: its latency is the largest latency of its members (at least
  0), it succeeds exactly when all members succeed, with status 200, and otherwise it carries the
  status, the error type and the cascade mark of the first member that failed.
\<close>

theorem aggregate_spec:
  "aggregateParallelOutcomes ocs =
    (let slowest = Max (insert 0 (o_latency ` set ocs)) in
     case filter (\<lambda>oc. \<not> o_success oc) ocs of
       [] \<Rightarrow> mk_outcome True 200 '''' slowest
     | oc # _ \<Rightarrow> (mk_outcome False (o_statusCode oc) (o_errorType oc) slowest)\<lparr>o_cascaded := o_cascaded oc\<rparr>)"
  by (simp add: aggregate_fold fold_agg Let_def split: list.split) (simp add: mk_outcome_def)

section \<open>Recovery\<close>

text \<open>
  What the policy promises, told without the loop: \<open>fallback_runs ctx start fbs lat st fos lat' st'\<close>
  says that running every fallback of \<open>fbs\<close> in order, each from the state that the one before has
  left and after the latency spent so far, gives the outcomes \<open>fos\<close>, the latency \<open>lat'\<close> and the
  state \<open>st'\<close>.
\<close>

inductive fallback_runs ::
  "span_context \<Rightarrow> time \<Rightarrow> (edge option \<times> 's fallback_executor) list \<Rightarrow> duration \<Rightarrow> 's run \<Rightarrow>
   outcome list \<Rightarrow> duration \<Rightarrow> 's run \<Rightarrow> bool" for ctx start where
  none_left: "fallback_runs ctx start [] lat st [] lat st"
| next_one: "run ctx (start + lat) st = (Done fo, st1) \<Longrightarrow>
    fallback_runs ctx start fbs (wrap64 (lat + o_latency fo)) st1 fos lat' st' \<Longrightarrow>
    fallback_runs ctx start ((fb, run) # fbs) lat st (fo # fos) lat' st'"

text \<open>A part of the fallbacks has failed, or all before one that has succeeded.\<close>

definition all_failed ::
  "(edge option \<times> 's fallback_executor) list \<Rightarrow> span_context \<Rightarrow> time \<Rightarrow> duration \<Rightarrow> 's run \<Rightarrow> duration \<Rightarrow> 's run \<Rightarrow> bool" where
  "all_failed fbs ctx start lat st lat' st' \<longleftrightarrow>
     (\<exists>fos. fallback_runs ctx start fbs lat st fos lat' st' \<and> (\<forall>fo \<in> set fos. \<not> o_success fo))"

lemma all_failed_Nil: "all_failed [] ctx start lat st lat st"
  by (auto simp: all_failed_def intro: fallback_runs.intros)

lemma all_failed_Cons:
  "run ctx (start + lat) st = (Done fo, st1) \<Longrightarrow> \<not> o_success fo \<Longrightarrow>
   all_failed fbs ctx start (wrap64 (lat + o_latency fo)) st1 lat' st' \<Longrightarrow>
   all_failed ((fb, run) # fbs) ctx start lat st lat' st'"
  unfolding all_failed_def by (metis fallback_runs.next_one set_ConsD)

text \<open>What the loop makes of an outcome: the same, with the attempts and the latency of a prefix.\<close>

definition kept_primary :: "outcome \<Rightarrow> edge option list \<Rightarrow> duration \<Rightarrow> outcome" where
  "kept_primary out fbs lat = out\<lparr>o_latency := lat, o_fallbackAttempts := o_fallbackAttempts out @ fbs\<rparr>"

definition used_fallback :: "outcome \<Rightarrow> edge option \<Rightarrow> outcome \<Rightarrow> outcome" where
  "used_fallback out fb fo = out\<lparr>o_latency := wrap64 (o_latency out + o_latency fo), o_success := True,
     o_statusCode := o_statusCode fo, o_errorType := '''', o_fallbackUsed := fb\<rparr>"

lemma try_fallbacks_spec:
  assumes "try_fallbacks fbs ctx start out st = (Done (out', used), st')"
  shows "\<exists>k \<le> length fbs. \<exists>lat st1. all_failed (take k fbs) ctx start (o_latency out) st lat st1
    \<and> (if used then k < length fbs \<and> (\<exists>fo. snd (fbs ! k) ctx (start + lat) st1 = (Done fo, st') \<and> o_success fo
         \<and> out' = used_fallback (kept_primary out (map fst (take k fbs)) lat) (fst (fbs ! k)) fo)
       else k = length fbs \<and> st' = st1 \<and> out' = kept_primary out (map fst fbs) lat)"
  using assms
proof (induction fbs arbitrary: out st)
  case Nil
  then show ?case by (auto simp: returns_def kept_primary_def intro: all_failed_Nil)
next
  case (Cons fr fbs)
  obtain fb run where fr: "fr = (fb, run)" by force
  with Cons.prems obtain fo st1 where 1: "run ctx (start + o_latency out) st = (Done fo, st1)"
    and 2: "(if o_success fo then returns (out\<lparr>o_latency := wrap64 (o_latency out + o_latency fo), o_success := True,
        o_statusCode := o_statusCode fo, o_errorType := '''', o_fallbackUsed := fb\<rparr>, True)
      else try_fallbacks fbs ctx start (out\<lparr>o_latency := wrap64 (o_latency out + o_latency fo),
        o_fallbackAttempts := o_fallbackAttempts (out\<lparr>o_latency := wrap64 (o_latency out + o_latency fo)\<rparr>) @ [fb]\<rparr>)) st1 = (Done (out', used), st')"
    by (auto simp: bind_Done Let_def)
  show ?case
  proof (cases "o_success fo")
    case True
    with 1 2 fr all_failed_Nil show ?thesis
      by (intro exI [of _ 0] conjI exI [of _ "o_latency out"] exI [of _ st])
        (auto simp: returns_def used_fallback_def kept_primary_def)
  next
    case False
    let ?out = "out\<lparr>o_latency := wrap64 (o_latency out + o_latency fo), o_fallbackAttempts := o_fallbackAttempts out @ [fb]\<rparr>"
    from 2 False have "try_fallbacks fbs ctx start ?out st1 = (Done (out', used), st')" by simp
    from Cons.IH [OF this] obtain k lat st2 where k: "k \<le> length fbs"
      and failed: "all_failed (take k fbs) ctx start (o_latency ?out) st1 lat st2"
      and rest: "if used then k < length fbs \<and> (\<exists>f. snd (fbs ! k) ctx (start + lat) st2 = (Done f, st') \<and> o_success f
          \<and> out' = used_fallback (kept_primary ?out (map fst (take k fbs)) lat) (fst (fbs ! k)) f)
        else k = length fbs \<and> st' = st2 \<and> out' = kept_primary ?out (map fst fbs) lat" by blast
    from failed fr have "all_failed (take (Suc k) (fr # fbs)) ctx start (o_latency out) st lat st2"
      by (auto intro: all_failed_Cons [where run = run, OF 1 False])
    moreover have "kept_primary ?out gs lat = kept_primary out (fb # gs) lat" for gs by (simp add: kept_primary_def)
    ultimately show ?thesis
      using k rest fr by (intro exI [of _ "Suc k"] conjI exI [of _ lat] exI [of _ st2]) (auto split: if_splits)
  qed
qed

text \<open>
  C14: Recovery follows its policy. The fallbacks are run in the order of the policy, each in the
  state and after the latency that the runs before it have left, until one succeeds. Say k of them
  fail before that: those k are recorded as the attempts. If the next one succeeds, it is recorded as
  the one used, the outcome is a success with its status and without an error, and no further
  fallback is run. If all have failed, the outcome succeeds exactly for the actions return_default
  (marked as a default response) and succeed_silently (marked so), and otherwise it keeps the status
  and the error of the primary attempt. The latency adds up every run, and the primary is always
  marked as failed.
\<close>

theorem recovery_follows_policy:
  assumes "\<not> o_success primary" and "unrecovered primary" and "o_fallbackAttempts primary = []"
    and "applyRecoveryAt fbs (Some policy) ctx primary start st = (Done out, st')"
  shows "o_primaryFailed out \<and> (\<exists>k \<le> length fbs. \<exists>lat st1. o_fallbackAttempts out = map fst (take k fbs)
    \<and> all_failed (take k fbs) ctx start (o_latency primary) st lat st1
    \<and> (if k < length fbs
     then \<exists>fo. snd (fbs ! k) ctx (start + lat) st1 = (Done fo, st') \<and> o_success fo
       \<and> o_success out \<and> o_errorType out = '''' \<and> o_statusCode out = o_statusCode fo
       \<and> o_latency out = wrap64 (lat + o_latency fo) \<and> o_fallbackUsed out = fst (fbs ! k)
       \<and> \<not> o_defaultUsed out \<and> \<not> o_silentlySucceeded out
     else st' = st1 \<and> o_latency out = lat \<and> o_fallbackUsed out = None
       \<and> (o_defaultUsed out \<longleftrightarrow> rp_on_exhausted policy = ExhaustedReturnDefault)
       \<and> (o_silentlySucceeded out \<longleftrightarrow> rp_on_exhausted policy = ExhaustedSucceedSilently)
       \<and> (if rp_on_exhausted policy \<in> {ExhaustedReturnDefault, ExhaustedSucceedSilently}
          then o_success out \<and> o_errorType out = '''' \<and> o_statusCode out = 200
          else \<not> o_success out \<and> o_errorType out = o_errorType primary \<and> o_statusCode out = o_statusCode primary)))"
proof -
  let ?out = "primary\<lparr>o_primaryFailed := True\<rparr>"
  obtain out1 used st2 where t: "try_fallbacks fbs ctx start ?out st = (Done (out1, used), st2)"
    and out: "out = (if used then out1 else exhaust (rp_on_exhausted policy) out1)" and st2: "st2 = st'"
    using assms(4) by (auto simp: applyRecoveryAt_def Let_def bind_Done returns_def)
  obtain k lat st1 where k: "k \<le> length fbs" "all_failed (take k fbs) ctx start (o_latency primary) st lat st1"
    "if used then k < length fbs \<and> (\<exists>fo. snd (fbs ! k) ctx (start + lat) st1 = (Done fo, st') \<and> o_success fo
       \<and> out1 = used_fallback (kept_primary ?out (map fst (take k fbs)) lat) (fst (fbs ! k)) fo)
     else k = length fbs \<and> st' = st1 \<and> out1 = kept_primary ?out (map fst fbs) lat"
    using try_fallbacks_spec [OF t] unfolding st2 by auto
  show ?thesis
  proof (cases used)
    case True
    with k out assms(2,3) show ?thesis
      by (intro conjI exI [of _ k] exI [of _ lat] exI [of _ st1])
        (auto simp: used_fallback_def kept_primary_def unrecovered_def)
  next
    case False
    with k out assms(1-3) show ?thesis
      by (intro conjI exI [of _ k] exI [of _ lat] exI [of _ st1])
        (auto simp: exhaust_def kept_primary_def unrecovered_def split: exhausted_action.split)
  qed
qed

section \<open>Retries\<close>

lemma wrap64_mod_eq: "x mod 2 ^ 64 = y mod 2 ^ 64 \<Longrightarrow> wrap64 x = wrap64 y"
  unfolding wrap64_def by (metis mod_add_left_eq)

lemma wrap64_mod: "wrap64 x mod 2 ^ 64 = x mod 2 ^ 64"
proof -
  have "wrap64 x mod 2 ^ 64 = (x + 2 ^ 63 - 2 ^ 63) mod 2 ^ 64"
    unfolding wrap64_def by (rule mod_diff_left_eq)
  then show ?thesis by simp
qed

lemma wrap64_mult_left: "wrap64 (wrap64 x * y) = wrap64 (x * y)"
proof (rule wrap64_mod_eq)
  have "(wrap64 x * y) mod 2 ^ 64 = ((wrap64 x mod 2 ^ 64) * y) mod 2 ^ 64" by (rule mod_mult_left_eq [symmetric])
  also have "\<dots> = (x * y) mod 2 ^ 64" unfolding wrap64_mod by (rule mod_mult_left_eq)
  finally show "(wrap64 x * y) mod 2 ^ 64 = (x * y) mod 2 ^ 64" .
qed

definition base_delay :: "edge \<Rightarrow> duration" where
  "base_delay e = (if e_retry_base_delay e = 0 then DefaultRetryBaseDelay else e_retry_base_delay e)"

definition backoff_factor :: "backoff_policy \<Rightarrow> int \<Rightarrow> int" where
  "backoff_factor b n = (case b of BackoffConstant \<Rightarrow> 1 | BackoffLinear \<Rightarrow> n | _ \<Rightarrow> 2 ^ nat (n - 1))"

text \<open>
  The delay before the n-th retry is the base delay, n times it, or 2^(n-1) times it, by the
  backoff policy, as long as that product fits in a duration; an entry node and attempt 0 wait for
  nothing.
\<close>

theorem retryBackoffDelay_exact:
  assumes "0 < n" and "in_int64 (backoff_factor (e_retry_backoff e) n * base_delay e)"
  shows "retryBackoffDelay (Some e) n = backoff_factor (e_retry_backoff e) n * base_delay e
    \<and> retryBackoffDelay (Some e) 0 = 0 \<and> retryBackoffDelay None n = 0"
  using assms
  by (auto simp: retryBackoffDelay_def backoff_factor_def base_delay_def Let_def wrap64_mult_left
      split: backoff_policy.splits)

text \<open>
  The product is not checked: with exponential backoff and the default base delay, the delay
  before retry 38 is negative and the delay before retry 65 and every later one is 0, for edges that
  satisfy every range that Validate checks.
\<close>

theorem exponential_backoff_overflows:
  "\<exists>e. edge_domain_ok e \<and> e_retries e = 65 \<and> retryBackoffDelay (Some e) 37 = 6871947673600000000
    \<and> retryBackoffDelay (Some e) 38 < 0 \<and> retryBackoffDelay (Some e) 65 = 0"
proof -
  let ?e = "Edge ''e'' None None ProtocolHTTP \<lparr>l_distribution = ''constant'', l_p50 = 0, l_p95 = 0\<rparr> (Fin 0) 0 65
    BackoffExponential 0 None"
  have "edge_domain_ok ?e" by (simp add: edge_domain_ok_def validProtocol_def validProbability_def
      validLatencyDistribution_def validBackoff_def)
  moreover have "retryBackoffDelay (Some ?e) 37 = 6871947673600000000 \<and> retryBackoffDelay (Some ?e) 38 < 0
      \<and> retryBackoffDelay (Some ?e) 65 = 0"
    by (simp add: retryBackoffDelay_def DefaultRetryBaseDelay_def millisecond_def wrap64_def)
  ultimately show ?thesis by (intro exI [of _ ?e]) simp
qed

section \<open>Timeouts\<close>

lemma attempt_loop_Inl:
  "attempt_loop k single e start attempt tot final st = (Done (Inl oc), st') \<Longrightarrow> o_success oc"
proof (induction k arbitrary: attempt tot final st)
  case (Suc k)
  then show ?case
    by (auto simp: bind_Done Let_def returns_def split: if_splits)
qed (simp add: returns_def)

text \<open>
  C25: The timeout of an edge bounds what a failure costs: when the attempts on an edge with a
  positive timeout fail and the edge has no recovery, the latency of the outcome, over all retries
  and delays, is at most the timeout, whatever the attempts themselves took.
\<close>

theorem failure_within_timeout:
  assumes "n_edge n = Some e" and "0 < e_timeout e" and "e_on_failure e = None"
    and "executeAttemptSequence en sy kids fbs n ctx start st = (Done oc, st')" and "\<not> o_success oc"
  shows "o_latency oc \<le> e_timeout e"
proof -
  obtain r st1 where loop: "attempt_loop (attempts (n_edge n)) (executeSingleAttempt en sy kids n ctx) (n_edge n) start 0 0
      zero_outcome st = (Done r, st1)"
    and rest: "(case r of
          Inl oc \<Rightarrow> returns oc
        | Inr (final, tot) \<Rightarrow>
            (let final1 = final\<lparr>o_latency := capLatencyToTimeout (n_edge n) tot\<rparr>;
                 final2 = (if exceeds_timeout (n_edge n) tot then applyTimeoutFailure (n_edge n) final1
                   else final1)
             in bind (if on_failure_of (n_edge n) \<noteq> None
                   then applyRecoveryAt fbs (on_failure_of (n_edge n)) ctx final2 start else returns final2)
                 (\<lambda>final3. if shouldCascadeChildren final3
                    then after (executeChildrenAt kids ctx final3 (start + o_latency final3)) (returns final3)
                    else returns final3))) st1 = (Done oc, st')"
    using assms(4) unfolding executeAttemptSequence_def bind_Done by blast
  show ?thesis
  proof (cases r)
    case (Inl oc1)
    with rest have "oc1 = oc" by (simp add: returns_def)
    with attempt_loop_Inl loop Inl assms(5) show ?thesis by blast
  next
    case (Inr b)
    obtain final tot where b: "b = (final, tot)" by force
    define final2 where "final2 = (if exceeds_timeout (n_edge n) tot
      then applyTimeoutFailure (n_edge n) (final\<lparr>o_latency := capLatencyToTimeout (n_edge n) tot\<rparr>)
      else final\<lparr>o_latency := capLatencyToTimeout (n_edge n) tot\<rparr>)"
    have "oc = final2"
      using rest assms(1,3)
      by (auto simp: Inr b on_failure_of_def bind_Done after_def returns_def final2_def Let_def split: if_splits)
    moreover have "o_latency final2 \<le> e_timeout e"
      using assms(1,2) by (simp add: final2_def capLatencyToTimeout_def)
    ultimately show ?thesis by simp
  qed
qed

section \<open>Cascades\<close>

text \<open>
  A node of a service whose parent has failed is not executed: its outcome repeats the status
  and the error type of the parent, is marked as cascaded and takes no time, and none of its
  children is visited: the execution is the same as that of the node without children.
\<close>

theorem cascade_spec:
  assumes "\<not> o_success po"
    and "executeNodeAt en sy (Node (Some svc) opn e [] kids les ms sus pr) ctx (Some po) start st = (Done oc, st')"
  shows "oc = (mk_outcome False (o_statusCode po) (o_errorType po) 0)\<lparr>o_cascaded := True\<rparr>
    \<and> executeNodeAt en sy (Node (Some svc) opn e [] [] les ms sus pr) ctx (Some po) start st = (Done oc, st')"
proof -
  have "executeNodeAt en sy (Node (Some svc) opn e [] ks les ms sus pr) ctx (Some po) start
      = executeCascadeAt en sy (Node (Some svc) opn e [] ks les ms sus pr) ctx po start" for ks
    using assms(1) by simp
  moreover have "executeCascadeAt en sy (Node (Some svc) opn e [] kids les ms sus pr) ctx po start
      = executeCascadeAt en sy (Node (Some svc) opn e [] [] les ms sus pr) ctx po start"
    by (simp add: executeCascadeAt_def finish_with_def finishAndEmitAt_def [abs_def] replicas_def active_profile_def
        emit_log_event_def [abs_def] emit_metric_def [abs_def] emit_state_update_def [abs_def]
        cong: if_cong option.case_cong)
  ultimately show ?thesis
    using assms
    by (auto simp: executeCascadeAt_def bind_Done Let_def finish_with_def after_def returns_def split: prod.splits)
qed

end
