(* ===== verification/Journey_Demo.thy ===== *)
theory Journey_Demo
  imports Topology_Demo Journey_Delivery Journey_Engine Journey_Behaviour
begin

text \<open>
  The theorems on the engine and the executor, applied to the topologies of \<open>Topology_Demo\<close>. The
  executions here run against a synthesizer that writes down the operations of the spans it is
  asked to begin, so that the order of the calls can be read off.
\<close>

definition demo_env :: environment where
  "demo_env = \<lparr>ev_draw = (\<lambda>i. i), ev_elapsed = (\<lambda>_. 0), ev_cancelled = (\<lambda>_. False), ev_log = id, ev_exp = id,
     ev_sqrt = id, ev_cos = id\<rparr>"

definition demo_engine :: "schema \<Rightarrow> f64 \<Rightarrow> engine" where
  "demo_engine s x = \<lparr>en_schema = s, en_overlay = ApplyFaults (Some s), en_plans = [],
     en_journeyKeys = map fst (s_journeys s), en_faultIntensity = x, en_targetFaultIntensities = [],
     en_env = demo_env\<rparr>"

text \<open>The recording synthesizer: a span handle is the name of its operation.\<close>

definition recorder :: "(string, string list) synth_ops" where
  "recorder = \<lparr>
     sy_BeginSpan = (\<lambda>ctx i st. (Done (ctx, si_operation i), st @ [''begin '' @ si_operation i])),
     sy_Finish = (\<lambda>h oc st. (Done (), st @ [(if so_success oc then ''end '' else ''fail '') @ h])),
     sy_RecordMetric = (\<lambda>ctx i st. (Done (), st)),
     sy_EmitLog = (\<lambda>ctx i st. (Done (), st)),
     sy_RecordCustom = (\<lambda>ctx i st. (Done (), st)),
     sy_UpdateState = (\<lambda>ctx i st. (Done (), st)),
     sy_EmitProfile = (\<lambda>ctx i st. (Done (), st)),
     sy_SetAttribute = (\<lambda>ctx k v st. (Done (), st))\<rparr>"

definition run_with :: "'s \<Rightarrow> 's run" where
  "run_with st = \<lparr>r_draws = 0, r_reads = 0, r_checks = 0, r_synth = st\<rparr>"

definition small_plan :: plan where
  "small_plan = projr (buildPlan 3 small ''j'')"

lemma small_plan: "buildPlan 3 small ''j'' = Inr small_plan"
proof -
  have "isl (buildPlan 3 small ''j'') = False" by code_simp
  then show ?thesis unfolding small_plan_def by (cases "buildPlan 3 small ''j''") simp_all
qed
text \<open>At intensity 0 the crash of the payment service does not happen.\<close>

lemma small_run:
  "map_prod id r_synth (executeNodePtr (demo_engine small (Fin 0)) recorder (p_root small_plan) no_span None 0
     (run_with [])) = (Done (mk_outcome True 200 '''' (10 * millisecond)),
   [''begin buy'', ''begin charge'', ''end charge'', ''end buy''])"
  by code_simp

lemma demo_retries_fit: "retries_fit demo"
  by code_simp

lemma demo_journey_in: "(''buy'', Some demo_journey) \<in> set (s_journeys demo)"
  by (simp add: demo_def)

lemma demo_fuel: "plan_fuel demo = 5"
  by code_simp

lemma small_facts: "retries_fit small" "services_named small" "map fst (s_journeys small) = [''j'']" "plan_fuel small = 3"
  by code_simp+

lemma small_journey_in: "\<exists>j. (''j'', Some j) \<in> set (s_journeys small)"
proof -
  have "ptr_at (s_journeys small) ''j'' \<noteq> None" by code_simp
  then show ?thesis by (auto dest: ptr_at_in_set)
qed
section \<open>The theorems on them\<close>

lemma NewEngine_ok_witness:
  "\<exists>en. NewEngineWithSeed 5 (Some demo) (Some (ApplyFaults (Some demo))) True demo_env = Inr en
    \<and> ListJourneys en = sort_strings [''buy''] \<and> BuildPlan en ''buy'' = buildPlan 5 demo ''buy''
    \<and> BuildPlan en ''sell'' = Inl (PlanError ''unknown_journey'' [''sell''] None)"
  using NewEngine_ok [OF demo_maps demo_valid, of 5 "ApplyFaults (Some demo)" demo_env] demo_fuel
  by (auto simp: demo_def)

lemma PickJourney_weighted_witness:
  "fst (PickJourney (demo_engine demo (Fin 1)) (run_with ())) = ''buy''"
proof -
  let ?en = "demo_engine demo (Fin 1)"
  have w: "journey_weight ?en ''buy'' = Some (Fin 1)" "en_journeyKeys ?en = [''buy'']"
    by (simp_all add: journey_weight_def ptr_at_def demo_engine_def demo_def demo_journey_def)
  have "is_double (Fin 1)"
    by (simp add: is_double_def representable_def fround_def ilog2_def pow2_def round_half_even_def Let_def bitlen_def)
  with w have "\<forall>k \<in> set (en_journeyKeys ?en). \<forall>w. journey_weight ?en k = Some w \<longrightarrow> is_double w" by simp
  from PickJourney_weighted [OF this prod.collapse [symmetric], of "run_with ()"] w show ?thesis
    by (auto simp: has_weight_def)
qed

lemma execution_outcomes_witness:
  "\<exists>oc st'. executeNodePtr (demo_engine small (Fin 0)) recorder (p_root small_plan) no_span None 0 (run_with []) = (Done oc, st')
    \<and> o_latency oc = 10 * millisecond \<and> (if o_success oc then o_statusCode oc = 200 else o_errorType oc \<in> set AllowedErrorTypes)"
proof -
  obtain oc st' where run: "executeNodePtr (demo_engine small (Fin 0)) recorder (p_root small_plan) no_span None 0
      (run_with []) = (Done oc, st')" and oc: "oc = mk_outcome True 200 '''' (10 * millisecond)"
    using small_run by (cases "executeNodePtr (demo_engine small (Fin 0)) recorder (p_root small_plan) no_span None 0 (run_with [])") auto
  obtain j where j: "(''j'', Some j) \<in> set (s_journeys small)" using small_journey_in by blast
  have "maps_ok small" using resolveReferences_result(1) [OF small_pair small_raw_maps] .
  from execution_outcomes [OF this small_valid small_facts(1) _ j _ small_plan run] oc run small_facts(4)
  show ?thesis by (auto simp: demo_engine_def mk_outcome_def)
qed

lemma Execute_delivers_witness:
  "\<forall>ot. \<exists>pl st'. buildPlan 3 small ''j'' = Inr pl
    \<and> Execute (demo_engine small (Fin 1)) (default_synth ot small) (Some no_span) (Some pl) 0 new_run = (None, st')
    \<and> mset (ended (ss_signals (r_synth st'))) = mset (started (ss_signals (r_synth st')))"
proof
  fix ot
  obtain j where "(''j'', Some j) \<in> set (s_journeys small)" using small_journey_in by blast
  from Execute_delivers [OF small_raw_maps small_parses small_facts(1,2) _ this, of "demo_engine small (Fin 1)" 3 ot no_span 0]
  show "\<exists>pl st'. buildPlan 3 small ''j'' = Inr pl
    \<and> Execute (demo_engine small (Fin 1)) (default_synth ot small) (Some no_span) (Some pl) 0 new_run = (None, st')
    \<and> mset (ended (ss_signals (r_synth st'))) = mset (started (ss_signals (r_synth st')))"
    by (auto simp: demo_engine_def small_facts(4))
qed
lemma zero_intensity_calm_witness:
  "\<not> ff_disconnected (fst (foldFaults (demo_engine demo (Fin 0)) None (run_with ())))
    \<and> snd (foldFaults (demo_engine demo (Fin 0)) None (run_with ())) = run_with ()"
  using zero_intensity_calm [of "demo_engine demo (Fin 0)" demo None "run_with ()", OF _ _ _ _ prod.collapse [symmetric]]
  by (simp add: demo_engine_def demo_def demo_fault_def)

lemma scheduled_intensity_steps_witness:
  "fst (scheduledFaultIntensity (demo_engine demo (Fin 0))
    [\<lparr>sp_at = 0, sp_intensity = Fin 1\<rparr>, \<lparr>sp_at = 5, sp_intensity = Fin 2\<rparr>] (run_with ())) = Fin 1"
  using scheduled_intensity_steps [OF _ prod.collapse [symmetric], of
    "[\<lparr>sp_at = 0, sp_intensity = Fin 1\<rparr>, \<lparr>sp_at = 5, sp_intensity = Fin 2\<rparr>]" "demo_engine demo (Fin 0)" "run_with ()"]
  by (simp add: schedule_ok_def is_fin_def fle_def elapsed_def demo_engine_def demo_env_def)

lemma recovery_follows_policy_witness:
  "\<exists>out st'. applyRecoveryAt [(None, \<lambda>_ _. returns refused)] (Some (Recovery [None] ExhaustedSucceedSilently None))
      no_span refused 0 (run_with ()) = (Done out, st')
    \<and> o_success out \<and> o_silentlySucceeded out \<and> o_fallbackAttempts out = [None]"
proof -
  let ?run = "applyRecoveryAt [(None, \<lambda>_ _. returns refused)] (Some (Recovery [None] ExhaustedSucceedSilently None))
      no_span refused 0 (run_with ())"
  have "case fst ?run of Done out \<Rightarrow> length (o_fallbackAttempts out) = 1 | _ \<Rightarrow> False" by code_simp
  then obtain out st' where run: "?run = (Done out, st')" and out: "length (o_fallbackAttempts out) = 1"
    by (cases ?run) (auto split: result.splits)
  have "\<not> o_success refused" "unrecovered refused" "o_fallbackAttempts refused = []"
    by (simp_all add: refused_def mk_outcome_def zero_outcome_def unrecovered_def)
  from recovery_follows_policy [OF this run] out run show ?thesis
    by (auto simp: less_Suc_eq le_Suc_eq split: if_splits)
qed

lemma retryBackoffDelay_exact_witness:
  "retryBackoffDelay (Some demo_charge) 3 = 4 * DefaultRetryBaseDelay"
  using retryBackoffDelay_exact [of 3 demo_charge]
  by (simp add: demo_charge_def demo_call_def backoff_factor_def base_delay_def in_int64_def DefaultRetryBaseDelay_def
      millisecond_def)

definition slow_edge :: edge where
  "slow_edge = Edge ''slow'' None (Some (OpRef ''pay'' 0)) ProtocolHTTP
     \<lparr>l_distribution = ''constant'', l_p50 = 20, l_p95 = 20\<rparr> (Fin 0) 7 1 BackoffConstant 5 None"

definition slow_node :: node where
  "slow_node = Node (Some (SvcRef ''pay'')) ''charge'' (Some slow_edge) [] [] [] [] [] None"

lemma failure_within_timeout_witness:
  "\<exists>oc st'. executeAttemptSequence (demo_engine demo (Fin 0)) recorder [] [] slow_node no_span 0 (run_with []) = (Done oc, st')
    \<and> r_synth st' = [''begin charge'', ''fail charge'', ''begin charge'', ''fail charge''] \<and> o_latency oc \<le> 7"
proof -
  let ?run = "executeAttemptSequence (demo_engine demo (Fin 0)) recorder [] [] slow_node no_span 0 (run_with [])"
  have "case ?run of (Done oc, st') \<Rightarrow> \<not> o_success oc \<and> r_synth st' = [''begin charge'', ''fail charge'', ''begin charge'', ''fail charge'']
      | _ \<Rightarrow> False" by code_simp
  then obtain oc st' where "?run = (Done oc, st')" "\<not> o_success oc"
    "r_synth st' = [''begin charge'', ''fail charge'', ''begin charge'', ''fail charge'']"
    by (cases ?run) (auto split: result.splits)
  moreover from failure_within_timeout [OF _ _ _ this(1,2), of slow_edge] have "o_latency oc \<le> 7"
    by (simp add: slow_node_def slow_edge_def)
  ultimately show ?thesis by blast
qed

lemma cascade_spec_witness:
  "\<exists>oc st'. executeNodeAt (demo_engine demo (Fin 0)) recorder (Node (Some (SvcRef ''pay'')) ''charge'' None [] [Some slow_node] [] [] [] None)
      no_span (Some refused) 0 (run_with []) = (Done oc, st') \<and> o_cascaded oc \<and> o_statusCode oc = 503"
proof -
  let ?run = "executeNodeAt (demo_engine demo (Fin 0)) recorder
    (Node (Some (SvcRef ''pay'')) ''charge'' None [] [Some slow_node] [] [] [] None) no_span (Some refused) 0 (run_with [])"
  have "case fst ?run of Done _ \<Rightarrow> True | _ \<Rightarrow> False" by code_simp
  then obtain oc st' where run: "?run = (Done oc, st')" by (cases ?run) (auto split: result.splits)
  have "\<not> o_success refused" "o_statusCode refused = 503" by (simp_all add: refused_def mk_outcome_def zero_outcome_def)
  with cascade_spec [OF this(1) run] run show ?thesis by (simp add: mk_outcome_def)
qed

end
