(* ===== verification/Go_Library.thy ===== *)
theory Go_Library
  imports Float64
begin

text \<open>
  The functions of Go's standard library that the exporter and the k6 glue call: splitting and
  trimming of strings, strconv.ParseInt, Atoi and ParseBool, net.SplitHostPort,
  url.QueryUnescape and time.ParseDuration. A function that returns an error is an option where
  the callers only test whether it failed. What is not rebuilt here (url.Parse, url.String,
  strconv.ParseFloat, reading files and X.509) is a field of \<open>platform\<close>.
\<close>

section \<open>Splitting and trimming\<close>

text \<open>\<open>strings.Split\<close> with a separator of one byte.\<close>

fun str_split :: "char \<Rightarrow> string \<Rightarrow> string list" where
  "str_split c [] = [[]]"
| "str_split c (x # xs) = (if x = c then [] # str_split c xs
     else case str_split c xs of [] \<Rightarrow> [[x]] | y # ys \<Rightarrow> (x # y) # ys)"

text \<open>\<open>strings.Join\<close>.\<close>

fun str_join :: "string \<Rightarrow> string list \<Rightarrow> string" where
  "str_join sep [] = []"
| "str_join sep [x] = x"
| "str_join sep (x # y # ys) = x @ sep @ str_join sep (y # ys)"

definition trim_prefix :: "string \<Rightarrow> string \<Rightarrow> string" where
  "trim_prefix s p = (if prefix p s then drop (length p) s else s)"

definition has_suffix :: "string \<Rightarrow> string \<Rightarrow> bool" where
  "has_suffix s p = suffix p s"

text \<open>\<open>strings.TrimRight\<close> with a cutset of one byte.\<close>

definition trim_right :: "string \<Rightarrow> char \<Rightarrow> string" where
  "trim_right s c = rev (dropWhile (\<lambda>x. x = c) (rev s))"

text \<open>\<open>strings.ReplaceAll\<close> of one byte by another.\<close>

definition replace_all :: "string \<Rightarrow> char \<Rightarrow> char \<Rightarrow> string" where
  "replace_all s a b = map (\<lambda>x. if x = a then b else x) s"

lemma str_split_not_Nil [simp]: "str_split c s \<noteq> []"
  by (induction s) (auto split: list.splits)

lemma str_split_plain: "c \<notin> set s \<Longrightarrow> str_split c s = [s]"
  by (induction s) auto

lemma str_split_cons: "c \<notin> set a \<Longrightarrow> str_split c (a @ c # b) = a # str_split c b"
  by (induction a) auto

lemma str_join_Cons: "xs \<noteq> [] \<Longrightarrow> str_join sep (x # xs) = x @ sep @ str_join sep xs"
  by (cases xs) auto

lemma str_split_join:
  "xs \<noteq> [] \<Longrightarrow> \<forall>x \<in> set xs. c \<notin> set x \<Longrightarrow> str_split c (str_join [c] xs) = xs"
  by (induction "[c]" xs rule: str_join.induct) (auto simp: str_split_plain str_split_cons)

lemma trim_space_plain:
  assumes "\<forall>c \<in> set s. \<not> is_space c"
  shows "trim_space s = s"
proof -
  have keep: "dropWhile is_space t = t" if "\<forall>c \<in> set t. \<not> is_space c" for t
    using that by (cases t) auto
  show ?thesis using assms by (simp add: trim_space_def keep)
qed

section \<open>Numbers and booleans\<close>

definition is_digit :: "char \<Rightarrow> bool" where
  "is_digit c \<longleftrightarrow> of_char c \<in> {48..57 :: nat}"

definition digit_value :: "char \<Rightarrow> int" where
  "digit_value c = int (of_char c) - 48"

definition digits_value :: "string \<Rightarrow> int" where
  "digits_value s = foldl (\<lambda>n c. 10 * n + digit_value c) 0 s"

text \<open>
  \<open>strconv.ParseInt(s, 10, 64)\<close>: an optional sign and digits; a value outside int64 is an error.
\<close>

definition parse_int :: "string \<Rightarrow> int option" where
  "parse_int s =
     (let (neg, ds) = (case s of c # cs \<Rightarrow> if c = CHR ''-'' then (True, cs) else if c = CHR ''+'' then (False, cs)
            else (False, s) | [] \<Rightarrow> (False, []));
          n = (if neg then - digits_value ds else digits_value ds)
      in if ds \<noteq> [] \<and> list_all is_digit ds \<and> in_int64 n then Some n else None)"

text \<open>\<open>strconv.Atoi\<close>; an int has 64 bits.\<close>

definition atoi :: "string \<Rightarrow> int option" where
  "atoi s = parse_int s"

definition parse_bool :: "string \<Rightarrow> bool option" where
  "parse_bool s =
     (if s \<in> {''1'', ''t'', ''T'', ''true'', ''TRUE'', ''True''} then Some True
      else if s \<in> {''0'', ''f'', ''F'', ''false'', ''FALSE'', ''False''} then Some False else None)"

lemma digit_value_digit_char: "d < 10 \<Longrightarrow> digit_value (digit_char d) = int d"
  by (simp add: digit_value_def digit_char_def of_char_of)

lemma is_digit_digit_char: "d < 10 \<Longrightarrow> is_digit (digit_char d)"
  by (simp add: is_digit_def digit_char_def of_char_of)

lemma digits_value_show_nat: "digits_value (show_nat n) = int n"
proof (induction n rule: show_nat.induct)
  case (1 n)
  show ?case
  proof (cases "n < 10")
    case True
    then show ?thesis by (simp add: show_nat.simps [of n] digits_value_def digit_value_digit_char)
  next
    case False
    then have "digits_value (show_nat n) = 10 * digits_value (show_nat (n div 10)) + digit_value (digit_char (n mod 10))"
      by (simp add: show_nat.simps [of n] digits_value_def)
    then show ?thesis using 1 False by (simp add: digit_value_digit_char) presburger
  qed
qed

lemma list_all_is_digit_show_nat: "list_all is_digit (show_nat n)"
  unfolding list_all_iff using show_nat_digits is_digit_digit_char by metis

lemma is_digit_sign: "is_digit c \<Longrightarrow> c \<noteq> CHR ''-'' \<and> c \<noteq> CHR ''+''"
  by (auto simp: is_digit_def)

lemma parse_int_itoa: "in_int64 i \<Longrightarrow> parse_int (itoa i) = Some i"
proof (cases "i < 0")
  case True
  then show "in_int64 i \<Longrightarrow> ?thesis"
    by (simp add: parse_int_def itoa_def digits_value_show_nat list_all_is_digit_show_nat)
next
  case False
  obtain c cs where s: "show_nat (nat i) = c # cs" by (cases "show_nat (nat i)") auto
  then have "c \<noteq> CHR ''-'' \<and> c \<noteq> CHR ''+''"
    using list_all_is_digit_show_nat [of "nat i"] is_digit_sign [of c] by simp
  with s False show "in_int64 i \<Longrightarrow> ?thesis"
    using list_all_is_digit_show_nat [of "nat i"] digits_value_show_nat [of "nat i"]
    by (simp add: parse_int_def itoa_def)
qed

section \<open>Hosts and ports\<close>

definition index_byte :: "string \<Rightarrow> char \<Rightarrow> nat option" where
  "index_byte s c = (if c \<in> set s then Some (length (takeWhile (\<lambda>x. x \<noteq> c) s)) else None)"

definition last_index_byte :: "string \<Rightarrow> char \<Rightarrow> nat option" where
  "last_index_byte s c = map_option (\<lambda>i. length s - 1 - i) (index_byte (rev s) c)"

text \<open>\<open>net.SplitHostPort\<close>.\<close>

definition split_host_port :: "string \<Rightarrow> (string \<times> string) option" where
  "split_host_port s = (case last_index_byte s (CHR '':'') of
       None \<Rightarrow> None
     | Some i \<Rightarrow>
         (let inner = (if prefix ''['' s
                then (case index_byte s (CHR '']'') of
                    None \<Rightarrow> None
                  | Some e \<Rightarrow> if e + 1 = i then Some (take (e - 1) (drop 1 s), 1, e + 1) else None)
                else if CHR '':'' \<in> set (take i s) then None
                else Some (take i s, 0, 0))
          in case inner of
               None \<Rightarrow> None
             | Some (host, j, k) \<Rightarrow>
                 if CHR ''['' \<in> set (drop j s) \<or> CHR '']'' \<in> set (drop k s) then None
                 else Some (host, drop (i + 1) s)))"

lemma index_byte_append: "c \<notin> set a \<Longrightarrow> index_byte (a @ c # b) c = Some (length a)"
  by (induction a) (auto simp: index_byte_def)

lemma last_index_byte_append: "c \<notin> set b \<Longrightarrow> last_index_byte (a @ c # b) c = Some (length a)"
  using index_byte_append [of c "rev b" "rev a"] by (simp add: last_index_byte_def)

lemma split_host_port_plain:
  assumes "\<forall>c \<in> set host \<union> set port. c \<noteq> CHR '':'' \<and> c \<noteq> CHR ''['' \<and> c \<noteq> CHR '']''"
  shows "split_host_port (host @ CHR '':'' # port) = Some (host, port)"
proof -
  from assms have out: "CHR '':'' \<notin> set host" "CHR '':'' \<notin> set port" "CHR ''['' \<notin> set host" "CHR ''['' \<notin> set port"
    "CHR '']'' \<notin> set host" "CHR '']'' \<notin> set port" by blast+
  have i: "last_index_byte (host @ CHR '':'' # port) (CHR '':'') = Some (length host)"
    by (rule last_index_byte_append [OF out(2)])
  have "prefix ''['' (host @ CHR '':'' # port) = False" using out(3) by (cases host) simp_all
  then show ?thesis using out i by (simp add: split_host_port_def)
qed

section \<open>Query escapes\<close>

definition hex_value :: "char \<Rightarrow> nat option" where
  "hex_value c = (let n = of_char c :: nat in
     if 48 \<le> n \<and> n \<le> 57 then Some (n - 48) else if 97 \<le> n \<and> n \<le> 102 then Some (n - 87)
     else if 65 \<le> n \<and> n \<le> 70 then Some (n - 55) else None)"

text \<open>\<open>url.QueryUnescape\<close>; None for a malformed escape.\<close>

fun query_unescape :: "string \<Rightarrow> string option" where
  "query_unescape [] = Some []"
| "query_unescape (c # cs) =
     (if c = CHR ''%'' then (case cs of
          a # b # rest \<Rightarrow> (case (hex_value a, hex_value b) of
              (Some x, Some y) \<Rightarrow> map_option ((#) (char_of (16 * x + y))) (query_unescape rest)
            | _ \<Rightarrow> None)
        | _ \<Rightarrow> None)
      else map_option ((#) (if c = CHR ''+'' then CHR '' '' else c)) (query_unescape cs))"

lemma query_unescape_plain: "CHR ''%'' \<notin> set s \<Longrightarrow> CHR ''+'' \<notin> set s \<Longrightarrow> query_unescape s = Some s"
  by (induction s) auto

section \<open>Durations\<close>

text \<open>\<open>leadingInt\<close>: None when the value exceeds 2^63.\<close>

fun leading_int :: "int \<Rightarrow> string \<Rightarrow> (int \<times> string) option" where
  "leading_int x [] = Some (x, [])"
| "leading_int x (c # cs) =
     (if \<not> is_digit c then Some (x, c # cs)
      else if x > 2 ^ 63 div 10 then None
      else let y = x * 10 + digit_value c in if y > 2 ^ 63 then None else leading_int y cs)"

text \<open>\<open>leadingFraction\<close>: the digits, the power of ten that divides them, and the rest; digits
  that do not fit are skipped.\<close>

fun leading_fraction :: "bool \<Rightarrow> int \<Rightarrow> f64 \<Rightarrow> string \<Rightarrow> int \<times> f64 \<times> string" where
  "leading_fraction overflow x scale [] = (x, scale, [])"
| "leading_fraction overflow x scale (c # cs) =
     (if \<not> is_digit c then (x, scale, c # cs)
      else if overflow \<or> x > (2 ^ 63 - 1) div 10 then leading_fraction True x scale cs
      else let y = x * 10 + digit_value c in
           if y > 2 ^ 63 then leading_fraction True x scale cs
           else leading_fraction False y (fmul scale (Fin 10)) cs)"

definition unit_map :: "(string \<times> int) list" where
  "unit_map = [(''ns'', 1), (''us'', 1000), ([CHR 0xC2, CHR 0xB5, CHR ''s''], 1000),
     ([CHR 0xCE, CHR 0xBC, CHR ''s''], 1000), (''ms'', 1000000), (''s'', 1000000000),
     (''m'', 60000000000), (''h'', 3600000000000)]"

definition is_number_byte :: "char \<Rightarrow> bool" where
  "is_number_byte c \<longleftrightarrow> c = CHR ''.'' \<or> is_digit c"

text \<open>One number with its unit: its value in nanoseconds and the rest of the string.\<close>

definition duration_item :: "string \<Rightarrow> (int \<times> string) option" where
  "duration_item s =
     (if s = [] \<or> \<not> is_number_byte (hd s) then None
      else case leading_int 0 s of
          None \<Rightarrow> None
        | Some (v, s1) \<Rightarrow>
            (let pre = (length s1 \<noteq> length s);
                 dot = (s1 \<noteq> [] \<and> hd s1 = CHR ''.'');
                 (f, scale, s2) = (if dot then leading_fraction False 0 (Fin 1) (tl s1) else (0, Fin 1, s1));
                 post = (dot \<and> length s2 \<noteq> length (tl s1));
                 u = takeWhile (\<lambda>c. \<not> is_number_byte c) s2
             in if \<not> pre \<and> \<not> post \<or> u = [] then None
                else case map_of unit_map u of
                    None \<Rightarrow> None
                  | Some unit \<Rightarrow>
                      if v > 2 ^ 63 div unit then None
                      else (let w = (if f > 0
                                then v * unit + to_int64 (fmul (of_int64 f) (fdiv (of_int64 unit) scale))
                                else v * unit)
                            in if w > 2 ^ 63 then None else Some (w, drop (length u) s2))))"

text \<open>The loop over the items, with fuel for the length of the string; the sum is a uint64.\<close>

fun duration_sum :: "nat \<Rightarrow> int \<Rightarrow> string \<Rightarrow> int option" where
  "duration_sum 0 d s = None"
| "duration_sum (Suc k) d s =
     (if s = [] then Some d
      else case duration_item s of
          None \<Rightarrow> None
        | Some (v, rest) \<Rightarrow>
            (let d' = (d + v) mod 2 ^ 64 in if d' > 2 ^ 63 then None else duration_sum k d' rest))"

text \<open>\<open>time.ParseDuration\<close>.\<close>

definition parse_duration :: "string \<Rightarrow> duration option" where
  "parse_duration s =
     (let (neg, t) = (case s of c # cs \<Rightarrow> if c = CHR ''-'' then (True, cs) else if c = CHR ''+'' then (False, cs)
            else (False, s) | [] \<Rightarrow> (False, []))
      in if t = ''0'' then Some 0
         else if t = [] then None
         else case duration_sum (Suc (length t)) 0 t of
             None \<Rightarrow> None
           | Some d \<Rightarrow> if neg then Some (wrap64 (- wrap64 d)) else if d > 2 ^ 63 - 1 then None else Some d)"

lemma leading_int_rest: "leading_int x s = Some (v, r) \<Longrightarrow> length r \<le> length s"
  by (induction x s rule: leading_int.induct) (auto simp: Let_def split: if_splits)

lemma leading_fraction_rest: "length (snd (snd (leading_fraction b x sc s))) \<le> length s"
  by (induction b x sc s rule: leading_fraction.induct) (auto simp: Let_def)

text \<open>The fuel of the loop suffices: every item consumes its unit.\<close>

lemma duration_item_shorter:
  assumes "duration_item s = Some (v, rest)"
  shows "length rest < length s"
proof -
  define ok where "ok t \<longleftrightarrow> takeWhile (\<lambda>c. \<not> is_number_byte c) t \<noteq> []
    \<and> rest = drop (length (takeWhile (\<lambda>c. \<not> is_number_byte c) t)) t" for t
  have ok: "length rest < length t" if "ok t" for t
    using that by (cases t) (auto simp: ok_def)
  obtain w s1 where s1: "leading_int 0 s = Some (w, s1)"
    using assms by (auto simp: duration_item_def split: if_splits option.splits)
  obtain f sc s2 where s2: "(if s1 \<noteq> [] \<and> hd s1 = CHR ''.'' then leading_fraction False 0 (Fin 1) (tl s1)
      else (0, Fin 1, s1)) = (f, sc, s2)" by (metis prod_cases3)
  have "ok s2"
    using assms s2 by (auto simp: duration_item_def s1 ok_def Let_def split: if_splits option.splits)
  moreover have "length s2 \<le> length s1"
    using s2 leading_fraction_rest [of False 0 "Fin 1" "tl s1"] by (auto split: if_splits)
  ultimately show ?thesis using ok [of s2] leading_int_rest [OF s1] by simp
qed

lemma duration_sum_fuel:
  "length s < k \<Longrightarrow> length s < k' \<Longrightarrow> duration_sum k d s = duration_sum k' d s"
proof (induction k d s arbitrary: k' rule: duration_sum.induct)
  case (2 k d s)
  then obtain j where j: "k' = Suc j" by (cases k') auto
  show ?case
  proof (cases "s = [] \<or> duration_item s = None")
    case False
    then obtain v rest where item: "s \<noteq> []" "duration_item s = Some (v, rest)" by auto
    have "duration_sum k d' rest = duration_sum j d' rest" if "d' = (d + v) mod 2 ^ 64" "\<not> d' > 2 ^ 63" for d'
      using duration_item_shorter [OF item(2)] "2.prems" j
      by (intro "2.IH" [OF item(1,2) refl that]) simp_all
    with j item show ?thesis by (simp add: Let_def)
  qed (use j in auto)
qed simp

section \<open>The platform\<close>

text \<open>
  A parsed URL: the components that the code reads, and whatever else it has. The functions of
  \<open>platform\<close> stand for url.Parse and URL.String, strconv.ParseFloat and FormatFloat, os.ReadFile,
  CertPool.AppendCertsFromPEM, tls.LoadX509KeyPair, the quoting of the verb %q and the order in which a range visits the
  entries of a map literal; None or the left of a sum is an error.
\<close>

record url =
  url_scheme :: string
  url_host :: string
  url_path :: string
  url_rest :: string

record platform =
  pf_url_Parse :: "string \<Rightarrow> url option"
  pf_url_String :: "url \<Rightarrow> string"
  pf_ParseFloat :: "string \<Rightarrow> f64 option"
  pf_FormatFloat :: "f64 \<Rightarrow> string"
  pf_LookupEnv :: "string \<Rightarrow> string option"
  pf_ReadFile :: "string \<Rightarrow> string + string"
  pf_AppendCerts :: "string \<Rightarrow> bool"
  pf_LoadKeyPair :: "string \<Rightarrow> string \<Rightarrow> string option"
  pf_quote :: "string \<Rightarrow> string"
  pf_visit :: "(string \<times> string) list \<Rightarrow> (string \<times> string) list"

text \<open>What a range over a map does: it visits every entry once.\<close>

definition visits_all :: "platform \<Rightarrow> bool" where
  "visits_all pf \<longleftrightarrow> (\<forall>m. mset (pf_visit pf m) = mset m)"

end
