(* ===== verification/Exporter_Config.thy ===== *)
theory Exporter_Config
  imports Go_Library
begin

text \<open>
  exporter/config.go, exporter/endpoints.go, exporter/tls.go and exporter/errors.go: the settings
  of an OTLP pipeline, where they come from (defaults, the environment, an override), when they are
  valid and which endpoint each signal is sent to. A nil map is None; an error is an element of
  \<open>export_error\<close>, nil is None.
\<close>

section \<open>Errors\<close>

datatype exporter_protocol = ExportGRPC | ExportHTTP | ExportOther int

datatype config_value = CvProtocol exporter_protocol | CvString string | CvInt int | CvDuration duration
  | CvFloat f64 | CvBool bool | CvMap "(string, string) gomap"

text \<open>
  ConfigError, PipelineError and SharedError of the package; \<open>Wrapped\<close> is a fmt.Errorf with %w,
  \<open>Joined\<close> an errors.Join, \<open>Foreign\<close> an error of a library.
\<close>

datatype export_error =
    ConfigError string config_value string
  | PipelineError string "export_error option"
  | SharedError string "export_error option"
  | Wrapped string export_error
  | Joined "export_error list"
  | Foreign string

text \<open>The Error methods; \<open>show\<close> is the verb %v of fmt for the value of a setting.\<close>

fun export_error_Error :: "(config_value \<Rightarrow> string) \<Rightarrow> export_error \<Rightarrow> string" where
  "export_error_Error show (ConfigError field v m) =
     ''exporter: invalid Config.'' @ field @ '' = '' @ show v @ '': '' @ m"
| "export_error_Error show (PipelineError stage inner) = ''exporter: pipeline '' @ stage @ '' failed'' @
     (case inner of None \<Rightarrow> '''' | Some e \<Rightarrow> '': '' @ export_error_Error show e)"
| "export_error_Error show (SharedError reason inner) = ''exporter: shared pipeline '' @ reason @
     (case inner of None \<Rightarrow> '''' | Some e \<Rightarrow> '': '' @ export_error_Error show e)"
| "export_error_Error show (Wrapped p e) = p @ '': '' @ export_error_Error show e"
| "export_error_Error show (Joined es) = str_join [CHR 0x0A] (map (export_error_Error show) es)"
| "export_error_Error show (Foreign m) = m"

text \<open>errors.Join of errors that are not nil.\<close>

definition join_errors :: "export_error list \<Rightarrow> export_error option" where
  "join_errors es = (if es = [] then None else Some (Joined es))"

lemma join_errors_None [simp, ok_simps]: "join_errors es = None \<longleftrightarrow> es = []"
  by (simp add: join_errors_def)

section \<open>Settings\<close>

record config =
  cfg_Protocol :: exporter_protocol
  cfg_Endpoint :: string
  cfg_TracesEndpoint :: string
  cfg_MetricsEndpoint :: string
  cfg_LogsEndpoint :: string
  cfg_ProfilesEndpoint :: string
  cfg_Headers :: "(string, string) gomap option"
  cfg_Insecure :: bool
  cfg_InsecureSet :: bool
  cfg_Certificate :: string
  cfg_ClientCertificate :: string
  cfg_ClientKey :: string
  cfg_Compression :: string
  cfg_Timeout :: duration
  cfg_BatchSize :: int
  cfg_BatchTimeout :: duration
  cfg_MaxQueueSize :: int
  cfg_ResourceOverrides :: "(string, string) gomap option"
  cfg_Sampler :: string
  cfg_SamplerArg :: f64
  cfg_SamplerArgSet :: bool

text \<open>The zero value of Config.\<close>

definition zero_config :: config where
  "zero_config = \<lparr>cfg_Protocol = ExportGRPC, cfg_Endpoint = '''', cfg_TracesEndpoint = '''',
     cfg_MetricsEndpoint = '''', cfg_LogsEndpoint = '''', cfg_ProfilesEndpoint = '''', cfg_Headers = None,
     cfg_Insecure = False, cfg_InsecureSet = False, cfg_Certificate = '''', cfg_ClientCertificate = '''',
     cfg_ClientKey = '''', cfg_Compression = '''', cfg_Timeout = 0, cfg_BatchSize = 0, cfg_BatchTimeout = 0,
     cfg_MaxQueueSize = 0, cfg_ResourceOverrides = None, cfg_Sampler = '''', cfg_SamplerArg = Fin 0,
     cfg_SamplerArgSet = False\<rparr>"

definition defaultEndpoint :: string where "defaultEndpoint = ''localhost:4317''"

definition defaultConfig :: config where
  "defaultConfig = zero_config\<lparr>cfg_Endpoint := defaultEndpoint, cfg_Timeout := 10 * second,
     cfg_BatchSize := 512, cfg_BatchTimeout := second, cfg_MaxQueueSize := 2048, cfg_Sampler := ''always_on'',
     cfg_SamplerArg := Fin 1, cfg_SamplerArgSet := True\<rparr>"

fun exporter_protocol_String :: "exporter_protocol \<Rightarrow> string" where
  "exporter_protocol_String ExportGRPC = ''grpc''"
| "exporter_protocol_String ExportHTTP = ''http''"
| "exporter_protocol_String (ExportOther _) = ''unknown''"

text \<open>An \<open>if\<close> that assigns one field becomes an update of that field.\<close>

definition fillDefaults :: "config \<Rightarrow> config" where
  "fillDefaults c = c\<lparr>
     cfg_Endpoint := (if cfg_Endpoint c = '''' then cfg_Endpoint defaultConfig else cfg_Endpoint c),
     cfg_Timeout := (if cfg_Timeout c = 0 then cfg_Timeout defaultConfig else cfg_Timeout c),
     cfg_BatchSize := (if cfg_BatchSize c = 0 then cfg_BatchSize defaultConfig else cfg_BatchSize c),
     cfg_BatchTimeout := (if cfg_BatchTimeout c = 0 then cfg_BatchTimeout defaultConfig else cfg_BatchTimeout c),
     cfg_MaxQueueSize := (if cfg_MaxQueueSize c = 0 then cfg_MaxQueueSize defaultConfig else cfg_MaxQueueSize c),
     cfg_Sampler := (if cfg_Sampler c = '''' then cfg_Sampler defaultConfig else cfg_Sampler c),
     cfg_SamplerArg := (if \<not> cfg_SamplerArgSet c then cfg_SamplerArg defaultConfig else cfg_SamplerArg c),
     cfg_SamplerArgSet := True\<rparr>"

section \<open>Validation\<close>

definition validEndpoint :: "platform \<Rightarrow> string \<Rightarrow> bool" where
  "validEndpoint pf endpoint =
     (if str_contains endpoint ''://''
      then (case pf_url_Parse pf endpoint of None \<Rightarrow> False | Some u \<Rightarrow> url_scheme u \<noteq> '''' \<and> url_host u \<noteq> '''')
      else (case split_host_port endpoint of None \<Rightarrow> False | Some (host, port) \<Rightarrow> host \<noteq> '''' \<and> port \<noteq> ''''))"

text \<open>The pattern \<open>^[A-Za-z0-9_-]+$\<close>.\<close>

definition header_key_char :: "char \<Rightarrow> bool" where
  "header_key_char c \<longleftrightarrow> (let n = of_char c :: nat in 65 \<le> n \<and> n \<le> 90 \<or> 97 \<le> n \<and> n \<le> 122 \<or> 48 \<le> n \<and> n \<le> 57)
     \<or> c = CHR ''_'' \<or> c = CHR ''-''"

definition validHeaderKey :: "string \<Rightarrow> bool" where
  "validHeaderKey key \<longleftrightarrow> key \<noteq> [] \<and> list_all header_key_char key"

definition validateStringMap :: "string \<Rightarrow> (string, string) gomap option \<Rightarrow> bool \<Rightarrow> export_error list" where
  "validateStringMap field m headerKeys =
     (let values = (case m of None \<Rightarrow> [] | Some xs \<Rightarrow> xs) in
      concat (map (\<lambda>(key, value).
        if key = '''' then [ConfigError field (CvMap values) ''keys must not be empty'']
        else when_err (headerKeys \<and> \<not> validHeaderKey key)
               (ConfigError field (CvString key) ''keys must match [A-Za-z0-9_-]+'')
             @ when_err (value = '''') (ConfigError field (CvMap values) ''values must not be empty'')) values))"

definition validSampler :: "string \<Rightarrow> bool" where
  "validSampler value \<longleftrightarrow> \<not> has_prefix value ''invalid:''
     \<and> value \<in> {'''', ''always_on'', ''always_off'', ''traceidratio''}"

definition samplerConfigError :: "platform \<Rightarrow> string \<Rightarrow> export_error" where
  "samplerConfigError pf value =
     (let raw = trim_prefix value ''invalid:''; raw = (if raw = '''' then value else raw)
      in ConfigError ''Sampler'' (CvString raw) (''unsupported value '' @ pf_quote pf raw @
           '' from OTEL_TRACES_SAMPLER (allowed: always_on | always_off | traceidratio)''))"

definition loadRootCAs :: "platform \<Rightarrow> string \<Rightarrow> export_error option" where
  "loadRootCAs pf path = (case pf_ReadFile pf path of
       Inl e \<Rightarrow> Some (Wrapped (''read '' @ path) (Foreign e))
     | Inr pem \<Rightarrow> if pf_AppendCerts pf pem then None
         else Some (Foreign (''parse PEM certificates from '' @ path)))"

definition validateTLSConfig :: "platform \<Rightarrow> config \<Rightarrow> export_error option" where
  "validateTLSConfig pf c = join_errors (
     when_err (cfg_Insecure c \<and> (cfg_Certificate c \<noteq> '''' \<or> cfg_ClientCertificate c \<noteq> '''' \<or> cfg_ClientKey c \<noteq> ''''))
       (ConfigError ''Insecure'' (CvBool True) ''must be false when TLS certificates are configured'')
     @ when_err ((cfg_ClientCertificate c = '''') \<noteq> (cfg_ClientKey c = ''''))
         (ConfigError ''ClientCertificate'' (CvString (cfg_ClientCertificate c))
           ''client certificate and client key must be configured together'')
     @ (if cfg_Certificate c \<noteq> '''' then (case loadRootCAs pf (cfg_Certificate c) of None \<Rightarrow> []
           | Some e \<Rightarrow> [ConfigError ''Certificate'' (CvString (cfg_Certificate c)) (export_error_Error (\<lambda>_. '''') e)])
        else [])
     @ (if cfg_ClientCertificate c \<noteq> '''' \<and> cfg_ClientKey c \<noteq> '''' then
          (case pf_LoadKeyPair pf (cfg_ClientCertificate c) (cfg_ClientKey c) of None \<Rightarrow> []
           | Some e \<Rightarrow> [ConfigError ''ClientCertificate'' (CvString (cfg_ClientCertificate c))
               (''load client certificate/key: '' @ e)])
        else []))"

definition endpoint_message :: string where
  "endpoint_message = ''must be host:port or scheme://host[:port]''"

text \<open>The four optional endpoints are entries of a map literal, visited in the order of the platform.\<close>

definition Config_Validate :: "platform \<Rightarrow> config \<Rightarrow> export_error option" where
  "Config_Validate pf c = join_errors (
     when_err (cfg_Protocol c \<noteq> ExportGRPC \<and> cfg_Protocol c \<noteq> ExportHTTP)
       (ConfigError ''Protocol'' (CvProtocol (cfg_Protocol c)) ''must be ProtocolGRPC or ProtocolHTTP'')
     @ (if cfg_Endpoint c = '''' then [ConfigError ''Endpoint'' (CvString (cfg_Endpoint c)) ''must not be empty'']
        else when_err (\<not> validEndpoint pf (cfg_Endpoint c))
          (ConfigError ''Endpoint'' (CvString (cfg_Endpoint c)) endpoint_message))
     @ concat (map (\<lambda>(field, value). when_err (value \<noteq> '''' \<and> \<not> validEndpoint pf value)
          (ConfigError field (CvString value) endpoint_message))
         (pf_visit pf [(''TracesEndpoint'', cfg_TracesEndpoint c), (''MetricsEndpoint'', cfg_MetricsEndpoint c),
            (''LogsEndpoint'', cfg_LogsEndpoint c), (''ProfilesEndpoint'', cfg_ProfilesEndpoint c)]))
     @ when_err (cfg_Timeout c \<le> 0) (ConfigError ''Timeout'' (CvDuration (cfg_Timeout c)) ''must be > 0'')
     @ when_err (cfg_BatchSize c \<le> 0) (ConfigError ''BatchSize'' (CvInt (cfg_BatchSize c)) ''must be > 0'')
     @ when_err (cfg_BatchTimeout c \<le> 0) (ConfigError ''BatchTimeout'' (CvDuration (cfg_BatchTimeout c)) ''must be > 0'')
     @ (if cfg_MaxQueueSize c \<le> 0 then [ConfigError ''MaxQueueSize'' (CvInt (cfg_MaxQueueSize c)) ''must be > 0'']
        else when_err (cfg_BatchSize c > 0 \<and> cfg_MaxQueueSize c < cfg_BatchSize c)
          (ConfigError ''MaxQueueSize'' (CvInt (cfg_MaxQueueSize c)) ''must be >= BatchSize''))
     @ when_err (cfg_Compression c \<noteq> '''' \<and> cfg_Compression c \<noteq> ''gzip'')
         (ConfigError ''Compression'' (CvString (cfg_Compression c)) (''must be '' @ [CHR 0x22, CHR 0x22] @ '' or '' @ [CHR 0x22] @ ''gzip'' @ [CHR 0x22]))
     @ when_err (\<not> validSampler (cfg_Sampler c)) (samplerConfigError pf (cfg_Sampler c))
     @ when_err (cfg_Sampler c = ''traceidratio'' \<and> (flt (cfg_SamplerArg c) (Fin 0) \<or> flt (Fin 1) (cfg_SamplerArg c)))
         (ConfigError ''SamplerArg'' (CvFloat (cfg_SamplerArg c)) ''must be in [0,1]'')
     @ validateStringMap ''Headers'' (cfg_Headers c) True
     @ validateStringMap ''ResourceOverrides'' (cfg_ResourceOverrides c) False
     @ (case validateTLSConfig pf c of None \<Rightarrow> [] | Some e \<Rightarrow> [e]))"

section \<open>Merging\<close>

definition MergeWith :: "config \<Rightarrow> config \<Rightarrow> config" where
  "MergeWith c ov = c\<lparr>
     cfg_Protocol := (if cfg_Protocol ov \<noteq> ExportGRPC then cfg_Protocol ov else cfg_Protocol c),
     cfg_Endpoint := (if cfg_Endpoint ov \<noteq> '''' then cfg_Endpoint ov else cfg_Endpoint c),
     cfg_TracesEndpoint := (if cfg_TracesEndpoint ov \<noteq> '''' then cfg_TracesEndpoint ov else cfg_TracesEndpoint c),
     cfg_MetricsEndpoint := (if cfg_MetricsEndpoint ov \<noteq> '''' then cfg_MetricsEndpoint ov else cfg_MetricsEndpoint c),
     cfg_LogsEndpoint := (if cfg_LogsEndpoint ov \<noteq> '''' then cfg_LogsEndpoint ov else cfg_LogsEndpoint c),
     cfg_ProfilesEndpoint := (if cfg_ProfilesEndpoint ov \<noteq> '''' then cfg_ProfilesEndpoint ov else cfg_ProfilesEndpoint c),
     cfg_Headers := (if cfg_Headers ov \<noteq> None then cfg_Headers ov else cfg_Headers c),
     cfg_Insecure := (if cfg_Insecure ov \<or> cfg_InsecureSet ov then cfg_Insecure ov else cfg_Insecure c),
     cfg_InsecureSet := (if cfg_Insecure ov \<or> cfg_InsecureSet ov then cfg_InsecureSet ov else cfg_InsecureSet c),
     cfg_Certificate := (if cfg_Certificate ov \<noteq> '''' then cfg_Certificate ov else cfg_Certificate c),
     cfg_ClientCertificate := (if cfg_ClientCertificate ov \<noteq> '''' then cfg_ClientCertificate ov else cfg_ClientCertificate c),
     cfg_ClientKey := (if cfg_ClientKey ov \<noteq> '''' then cfg_ClientKey ov else cfg_ClientKey c),
     cfg_Compression := (if cfg_Compression ov \<noteq> '''' then cfg_Compression ov else cfg_Compression c),
     cfg_Timeout := (if cfg_Timeout ov \<noteq> 0 then cfg_Timeout ov else cfg_Timeout c),
     cfg_BatchSize := (if cfg_BatchSize ov > 0 then cfg_BatchSize ov else cfg_BatchSize c),
     cfg_BatchTimeout := (if cfg_BatchTimeout ov > 0 then cfg_BatchTimeout ov else cfg_BatchTimeout c),
     cfg_MaxQueueSize := (if cfg_MaxQueueSize ov > 0 then cfg_MaxQueueSize ov else cfg_MaxQueueSize c),
     cfg_ResourceOverrides := (if cfg_ResourceOverrides ov \<noteq> None then cfg_ResourceOverrides ov else cfg_ResourceOverrides c),
     cfg_Sampler := (if cfg_Sampler ov \<noteq> '''' then cfg_Sampler ov else cfg_Sampler c),
     cfg_SamplerArg := (if cfg_SamplerArgSet ov then cfg_SamplerArg ov else cfg_SamplerArg c),
     cfg_SamplerArgSet := (cfg_SamplerArgSet ov \<or> cfg_SamplerArgSet c)\<rparr>"

section \<open>The environment\<close>

definition parseSampler :: "string \<Rightarrow> string" where
  "parseSampler value =
     (let v = to_lower (trim_space value) in
      if v \<in> {''always_on'', ''always_off'', ''traceidratio''} then v else ''invalid:'' @ value)"

fun lookup_first :: "platform \<Rightarrow> string list \<Rightarrow> string option" where
  "lookup_first pf [] = None"
| "lookup_first pf (name # names) = (case pf_LookupEnv pf name of
       Some value \<Rightarrow> Some value | None \<Rightarrow> lookup_first pf names)"

definition lookupSignalEnv :: "platform \<Rightarrow> string \<Rightarrow> string option" where
  "lookupSignalEnv pf suff = lookup_first pf [''OTEL_EXPORTER_OTLP_TRACES_'' @ suff,
     ''OTEL_EXPORTER_OTLP_METRICS_'' @ suff, ''OTEL_EXPORTER_OTLP_LOGS_'' @ suff, ''OTEL_EXPORTER_OTLP_'' @ suff]"

definition exporter_parseProtocol :: "string \<Rightarrow> exporter_protocol" where
  "exporter_parseProtocol value =
     (let v = to_lower (trim_space value) in
      if v = ''grpc'' then ExportGRPC else if v = ''http/protobuf'' \<or> v = ''http'' then ExportHTTP
      else ExportOther (- 1))"

text \<open>The body of the loop of parseHeaders.\<close>

definition parseHeader :: "string \<Rightarrow> (string, string) gomap \<Rightarrow> (string, string) gomap" where
  "parseHeader part headers = (case str_cut ''='' part of
       None \<Rightarrow> AList.update (trim_space part) '''' headers
     | Some (key, rawValue) \<Rightarrow>
         AList.update (trim_space key)
           (case query_unescape rawValue of None \<Rightarrow> rawValue | Some d \<Rightarrow> d) headers)"

definition exporter_parseHeaders :: "string \<Rightarrow> (string, string) gomap" where
  "exporter_parseHeaders value =
     (if value = '''' then [] else fold parseHeader (str_split (CHR '','') value) [])"

definition parseTimeoutMillis :: "string \<Rightarrow> duration" where
  "parseTimeoutMillis value = (case parse_int (trim_space value) of
       None \<Rightarrow> - 1 | Some ms \<Rightarrow> wrap64 (ms * millisecond))"

definition exporter_parseBool :: "string \<Rightarrow> bool" where
  "exporter_parseBool value = (parse_bool (trim_space value) = Some True)"

text \<open>The body of an \<open>if value, ok := ...; ok\<close>.\<close>

definition with_env :: "string option \<Rightarrow> (string \<Rightarrow> config \<Rightarrow> config) \<Rightarrow> config \<Rightarrow> config" where
  "with_env v f c = (case v of None \<Rightarrow> c | Some value \<Rightarrow> f value c)"

definition ConfigFromEnv :: "platform \<Rightarrow> config" where
  "ConfigFromEnv pf =
     (let c = zero_config;
          c = with_env (pf_LookupEnv pf ''OTEL_EXPORTER_OTLP_ENDPOINT'') (\<lambda>v c. c\<lparr>cfg_Endpoint := v\<rparr>) c;
          c = with_env (pf_LookupEnv pf ''OTEL_EXPORTER_OTLP_TRACES_ENDPOINT'') (\<lambda>v c. c\<lparr>cfg_TracesEndpoint := v\<rparr>) c;
          c = with_env (pf_LookupEnv pf ''OTEL_EXPORTER_OTLP_METRICS_ENDPOINT'') (\<lambda>v c. c\<lparr>cfg_MetricsEndpoint := v\<rparr>) c;
          c = with_env (pf_LookupEnv pf ''OTEL_EXPORTER_OTLP_LOGS_ENDPOINT'') (\<lambda>v c. c\<lparr>cfg_LogsEndpoint := v\<rparr>) c;
          c = with_env (lookupSignalEnv pf ''HEADERS'') (\<lambda>v c. c\<lparr>cfg_Headers := Some (exporter_parseHeaders v)\<rparr>) c;
          c = with_env (lookupSignalEnv pf ''PROTOCOL'') (\<lambda>v c. c\<lparr>cfg_Protocol := exporter_parseProtocol v\<rparr>) c;
          c = with_env (lookupSignalEnv pf ''COMPRESSION'') (\<lambda>v c. c\<lparr>cfg_Compression := v\<rparr>) c;
          c = with_env (lookupSignalEnv pf ''TIMEOUT'') (\<lambda>v c. c\<lparr>cfg_Timeout := parseTimeoutMillis v\<rparr>) c;
          c = with_env (lookupSignalEnv pf ''INSECURE'')
                (\<lambda>v c. c\<lparr>cfg_Insecure := exporter_parseBool v, cfg_InsecureSet := True\<rparr>) c;
          c = with_env (lookupSignalEnv pf ''CERTIFICATE'') (\<lambda>v c. c\<lparr>cfg_Certificate := v\<rparr>) c;
          c = with_env (lookupSignalEnv pf ''CLIENT_CERTIFICATE'') (\<lambda>v c. c\<lparr>cfg_ClientCertificate := v\<rparr>) c;
          c = with_env (lookupSignalEnv pf ''CLIENT_KEY'') (\<lambda>v c. c\<lparr>cfg_ClientKey := v\<rparr>) c;
          c = with_env (pf_LookupEnv pf ''OTEL_TRACES_SAMPLER'') (\<lambda>v c. c\<lparr>cfg_Sampler := parseSampler v\<rparr>) c
      in with_env (pf_LookupEnv pf ''OTEL_TRACES_SAMPLER_ARG'') (\<lambda>v c. c\<lparr>cfg_SamplerArg :=
           (case pf_ParseFloat pf (trim_space v) of None \<Rightarrow> Fin (- 1) | Some x \<Rightarrow> x), cfg_SamplerArgSet := True\<rparr>) c)"

section \<open>Endpoints\<close>

definition endpointIsURL :: "string \<Rightarrow> bool" where
  "endpointIsURL endpoint = str_contains endpoint ''://''"

definition appendSignalPath :: "platform \<Rightarrow> string \<Rightarrow> string \<Rightarrow> string" where
  "appendSignalPath pf base signalPath = (case pf_url_Parse pf base of
       None \<Rightarrow> base
     | Some u \<Rightarrow> pf_url_String pf (
         if url_path u = '''' \<or> url_path u = ''/'' then u\<lparr>url_path := ''/'' @ signalPath\<rparr>
         else if has_suffix (url_path u) ''/'' then u\<lparr>url_path := url_path u @ signalPath\<rparr>
         else u\<lparr>url_path := url_path u @ ''/'' @ signalPath\<rparr>))"

definition resolveSignalEndpoint :: "platform \<Rightarrow> string \<Rightarrow> string \<Rightarrow> exporter_protocol \<Rightarrow> string \<Rightarrow> string" where
  "resolveSignalEndpoint pf perSignal base protocol signalPath =
     (if perSignal \<noteq> '''' then perSignal
      else if protocol = ExportHTTP \<and> endpointIsURL base then appendSignalPath pf base signalPath
      else base)"

definition ResolveEndpoints :: "platform \<Rightarrow> config \<Rightarrow> string \<times> string \<times> string" where
  "ResolveEndpoints pf c =
     (let base = (if cfg_Endpoint c = '''' then defaultEndpoint else cfg_Endpoint c) in
      (resolveSignalEndpoint pf (cfg_TracesEndpoint c) base (cfg_Protocol c) ''v1/traces'',
       resolveSignalEndpoint pf (cfg_MetricsEndpoint c) base (cfg_Protocol c) ''v1/metrics'',
       resolveSignalEndpoint pf (cfg_LogsEndpoint c) base (cfg_Protocol c) ''v1/logs''))"

section \<open>TLS\<close>

text \<open>A tls.Config: the file of its root certificates and the files of its key pair, when it has them.\<close>

record tls_config =
  tls_roots :: "string option"
  tls_pair :: "(string \<times> string) option"

definition buildTLSConfig :: "platform \<Rightarrow> config \<Rightarrow> export_error + tls_config option" where
  "buildTLSConfig pf c =
     (if cfg_Certificate c = '''' \<and> cfg_ClientCertificate c = '''' \<and> cfg_ClientKey c = '''' then Inr None
      else case (if cfg_Certificate c \<noteq> ''''
                 then (case loadRootCAs pf (cfg_Certificate c) of
                     Some e \<Rightarrow> Inl (Wrapped ''certificate'' e)
                   | None \<Rightarrow> Inr \<lparr>tls_roots = Some (cfg_Certificate c), tls_pair = None\<rparr>)
                 else Inr \<lparr>tls_roots = None, tls_pair = None\<rparr>) of
          Inl e \<Rightarrow> Inl e
        | Inr t \<Rightarrow>
            if cfg_ClientCertificate c \<noteq> '''' \<and> cfg_ClientKey c \<noteq> ''''
            then (case pf_LoadKeyPair pf (cfg_ClientCertificate c) (cfg_ClientKey c) of
                Some e \<Rightarrow> Inl (Wrapped ''client certificate/key'' (Foreign e))
              | None \<Rightarrow> Inr (Some (t\<lparr>tls_pair := Some (cfg_ClientCertificate c, cfg_ClientKey c)\<rparr>)))
            else Inr (Some t))"

end
