(* ===== verification/Exporter_Settings.thy ===== *)
theory Exporter_Settings
  imports Exporter_Config
begin

text \<open>
  What the settings of the exporter promise: the declarative reading of Validate, the algebra of
  MergeWith and of the defaults, the endpoints of the signals, and the format of the headers.
\<close>

section \<open>Valid settings\<close>

definition header_ok :: "string \<times> string \<Rightarrow> bool" where
  "header_ok kv \<longleftrightarrow> validHeaderKey (fst kv) \<and> snd kv \<noteq> ''''"

definition tls_ok :: "platform \<Rightarrow> config \<Rightarrow> bool" where
  "tls_ok pf c \<longleftrightarrow>
     (cfg_Insecure c \<longrightarrow> cfg_Certificate c = '''' \<and> cfg_ClientCertificate c = '''' \<and> cfg_ClientKey c = '''')
     \<and> (cfg_ClientCertificate c = '''' \<longleftrightarrow> cfg_ClientKey c = '''')
     \<and> (cfg_Certificate c \<noteq> '''' \<longrightarrow> loadRootCAs pf (cfg_Certificate c) = None)
     \<and> (cfg_ClientCertificate c \<noteq> '''' \<longrightarrow> pf_LoadKeyPair pf (cfg_ClientCertificate c) (cfg_ClientKey c) = None)"

definition signal_endpoints :: "config \<Rightarrow> string list" where
  "signal_endpoints c = [cfg_TracesEndpoint c, cfg_MetricsEndpoint c, cfg_LogsEndpoint c, cfg_ProfilesEndpoint c]"

definition config_ok :: "platform \<Rightarrow> config \<Rightarrow> bool" where
  "config_ok pf c \<longleftrightarrow> cfg_Protocol c \<in> {ExportGRPC, ExportHTTP}
     \<and> cfg_Endpoint c \<noteq> '''' \<and> validEndpoint pf (cfg_Endpoint c)
     \<and> (\<forall>e \<in> set (signal_endpoints c). e \<noteq> '''' \<longrightarrow> validEndpoint pf e)
     \<and> 0 < cfg_Timeout c \<and> 0 < cfg_BatchTimeout c \<and> 0 < cfg_BatchSize c \<and> cfg_BatchSize c \<le> cfg_MaxQueueSize c
     \<and> cfg_Compression c \<in> {'''', ''gzip''}
     \<and> cfg_Sampler c \<in> {'''', ''always_on'', ''always_off'', ''traceidratio''}
     \<and> (cfg_Sampler c = ''traceidratio'' \<longrightarrow> \<not> flt (cfg_SamplerArg c) (Fin 0) \<and> \<not> flt (Fin 1) (cfg_SamplerArg c))
     \<and> list_all header_ok (case cfg_Headers c of None \<Rightarrow> [] | Some m \<Rightarrow> m)
     \<and> list_all (\<lambda>(k, v). k \<noteq> '''' \<and> v \<noteq> '''') (case cfg_ResourceOverrides c of None \<Rightarrow> [] | Some m \<Rightarrow> m)
     \<and> tls_ok pf c"

lemma validateStringMap_ok [ok_simps]:
  "validateStringMap field m True = [] \<longleftrightarrow> list_all header_ok (case m of None \<Rightarrow> [] | Some xs \<Rightarrow> xs)"
  "validateStringMap field m False = [] \<longleftrightarrow>
     list_all (\<lambda>(k, v). k \<noteq> '''' \<and> v \<noteq> '''') (case m of None \<Rightarrow> [] | Some xs \<Rightarrow> xs)"
proof -
  have *: "(case kv of (key, value) \<Rightarrow> if key = '''' then [e key]
        else when_err (b \<and> \<not> validHeaderKey key) (e1 key) @ when_err (value = '''') (e2 key)) = []
      \<longleftrightarrow> (if b then header_ok kv else fst kv \<noteq> '''' \<and> snd kv \<noteq> '''')" for kv b and e e1 e2 :: "string \<Rightarrow> export_error"
    by (cases kv) (auto simp: header_ok_def validHeaderKey_def)
  show "validateStringMap field m True = [] \<longleftrightarrow> list_all header_ok (case m of None \<Rightarrow> [] | Some xs \<Rightarrow> xs)"
    "validateStringMap field m False = [] \<longleftrightarrow>
     list_all (\<lambda>(k, v). k \<noteq> '''' \<and> v \<noteq> '''') (case m of None \<Rightarrow> [] | Some xs \<Rightarrow> xs)"
    unfolding validateStringMap_def Let_def concat_map_Nil * list_all_iff by (simp_all add: case_prod_beta)
qed

lemma validateTLSConfig_ok [ok_simps]: "validateTLSConfig pf c = None \<longleftrightarrow> tls_ok pf c"
  by (auto simp: validateTLSConfig_def tls_ok_def ok_simps split: option.split)

lemma validSampler_iff: "validSampler v \<longleftrightarrow> v \<in> {'''', ''always_on'', ''always_off'', ''traceidratio''}"
  by (auto simp: validSampler_def has_prefix_def)

lemma visit_set: "visits_all pf \<Longrightarrow> set (pf_visit pf m) = set m"
  unfolding visits_all_def by (metis set_mset_mset)

lemma Validate_ok_config:
  assumes "visits_all pf"
  shows "Config_Validate pf c = None \<longleftrightarrow> config_ok pf c"
proof -
  have endpoint: "(if cfg_Endpoint c = '''' then [e] else when_err (\<not> validEndpoint pf (cfg_Endpoint c)) e') = []
    \<longleftrightarrow> cfg_Endpoint c \<noteq> '''' \<and> validEndpoint pf (cfg_Endpoint c)" for e e' :: export_error
    by simp
  have signals: "concat (map (\<lambda>(field, value). when_err (value \<noteq> '''' \<and> \<not> validEndpoint pf value) (e field value))
      (pf_visit pf [(f1, cfg_TracesEndpoint c), (f2, cfg_MetricsEndpoint c), (f3, cfg_LogsEndpoint c), (f4, cfg_ProfilesEndpoint c)])) = []
    \<longleftrightarrow> (\<forall>e \<in> set (signal_endpoints c). e \<noteq> '''' \<longrightarrow> validEndpoint pf e)"
    for e :: "string \<Rightarrow> string \<Rightarrow> export_error" and f1 f2 f3 f4
    unfolding concat_map_Nil visit_set [OF assms] by (simp add: signal_endpoints_def imp_conv_disj)
  have queue: "(if cfg_MaxQueueSize c \<le> 0 then [e] else when_err (cfg_BatchSize c > 0 \<and> cfg_MaxQueueSize c < cfg_BatchSize c) e') = []
    \<longleftrightarrow> 0 < cfg_MaxQueueSize c \<and> (0 < cfg_BatchSize c \<longrightarrow> cfg_BatchSize c \<le> cfg_MaxQueueSize c)" for e e' :: export_error
    by auto
  have tls: "(case validateTLSConfig pf c of None \<Rightarrow> [] | Some e \<Rightarrow> [e]) = [] \<longleftrightarrow> tls_ok pf c"
    unfolding validateTLSConfig_ok [symmetric] by (cases "validateTLSConfig pf c") simp_all
  have sizes: "\<not> t \<le> 0 \<and> \<not> b \<le> 0 \<and> \<not> bt \<le> 0 \<and> (0 < q \<and> (0 < b \<longrightarrow> b \<le> q)) \<and> R
    \<longleftrightarrow> 0 < t \<and> 0 < bt \<and> 0 < b \<and> b \<le> q \<and> R" for t b bt q :: int and R by auto
  show ?thesis
    unfolding Config_Validate_def join_errors_None append_is_Nil_conv endpoint signals queue tls when_err_empty
      validateStringMap_ok validSampler_iff config_ok_def
    by (simp only: sizes insert_iff empty_iff) blast
qed

text \<open>
  C15: Validate accepts a configuration exactly when it satisfies the declarative reading
  \<open>config_ok\<close>: a known protocol, well-formed endpoints, positive timeouts and sizes with a queue that
  holds a batch, a known compression and sampler, well-formed headers, and TLS files that load; the
  order in which the map of the signal endpoints is visited does not matter.
\<close>

theorem Config_Validate_iff:
  "visits_all pf \<Longrightarrow> Config_Validate pf c = None \<longleftrightarrow> config_ok pf c"
  by (rule Validate_ok_config)

section \<open>Defaults and merging\<close>

lemma fillDefaults_fields [simp]:
  "cfg_Protocol (fillDefaults c) = cfg_Protocol c" "cfg_TracesEndpoint (fillDefaults c) = cfg_TracesEndpoint c"
  "cfg_MetricsEndpoint (fillDefaults c) = cfg_MetricsEndpoint c" "cfg_LogsEndpoint (fillDefaults c) = cfg_LogsEndpoint c"
  "cfg_ProfilesEndpoint (fillDefaults c) = cfg_ProfilesEndpoint c" "cfg_Headers (fillDefaults c) = cfg_Headers c"
  "cfg_Endpoint (fillDefaults c) = (if cfg_Endpoint c = '''' then defaultEndpoint else cfg_Endpoint c)"
  "cfg_Timeout (fillDefaults c) = (if cfg_Timeout c = 0 then 10 * second else cfg_Timeout c)"
  "cfg_BatchSize (fillDefaults c) = (if cfg_BatchSize c = 0 then 512 else cfg_BatchSize c)"
  "cfg_BatchTimeout (fillDefaults c) = (if cfg_BatchTimeout c = 0 then second else cfg_BatchTimeout c)"
  "cfg_MaxQueueSize (fillDefaults c) = (if cfg_MaxQueueSize c = 0 then 2048 else cfg_MaxQueueSize c)"
  "cfg_Sampler (fillDefaults c) = (if cfg_Sampler c = '''' then ''always_on'' else cfg_Sampler c)"
  "cfg_SamplerArg (fillDefaults c) = (if cfg_SamplerArgSet c then cfg_SamplerArg c else Fin 1)"
  "cfg_SamplerArgSet (fillDefaults c)"
  by (simp_all add: fillDefaults_def defaultConfig_def zero_config_def)

lemma validEndpoint_default: "validEndpoint pf defaultEndpoint"
proof -
  have "split_host_port defaultEndpoint = Some (''localhost'', ''4317'')" "\<not> str_contains defaultEndpoint ''://''"
    by code_simp+
  then show ?thesis by (simp add: validEndpoint_def)
qed

lemma fillDefaults_idem: "fillDefaults (fillDefaults c) = fillDefaults c"
  by (simp add: fillDefaults_def defaultConfig_def zero_config_def defaultEndpoint_def second_def)

lemma MergeWith_fields [simp]:
  "cfg_Protocol (MergeWith a b) = (if cfg_Protocol b \<noteq> ExportGRPC then cfg_Protocol b else cfg_Protocol a)"
  "cfg_Endpoint (MergeWith a b) = (if cfg_Endpoint b \<noteq> '''' then cfg_Endpoint b else cfg_Endpoint a)"
  "cfg_TracesEndpoint (MergeWith a b) = (if cfg_TracesEndpoint b \<noteq> '''' then cfg_TracesEndpoint b else cfg_TracesEndpoint a)"
  "cfg_MetricsEndpoint (MergeWith a b) = (if cfg_MetricsEndpoint b \<noteq> '''' then cfg_MetricsEndpoint b else cfg_MetricsEndpoint a)"
  "cfg_LogsEndpoint (MergeWith a b) = (if cfg_LogsEndpoint b \<noteq> '''' then cfg_LogsEndpoint b else cfg_LogsEndpoint a)"
  "cfg_ProfilesEndpoint (MergeWith a b) = (if cfg_ProfilesEndpoint b \<noteq> '''' then cfg_ProfilesEndpoint b else cfg_ProfilesEndpoint a)"
  "cfg_Headers (MergeWith a b) = (if cfg_Headers b \<noteq> None then cfg_Headers b else cfg_Headers a)"
  "cfg_Insecure (MergeWith a b) = (if cfg_Insecure b \<or> cfg_InsecureSet b then cfg_Insecure b else cfg_Insecure a)"
  "cfg_InsecureSet (MergeWith a b) = (if cfg_Insecure b \<or> cfg_InsecureSet b then cfg_InsecureSet b else cfg_InsecureSet a)"
  "cfg_Certificate (MergeWith a b) = (if cfg_Certificate b \<noteq> '''' then cfg_Certificate b else cfg_Certificate a)"
  "cfg_ClientCertificate (MergeWith a b) = (if cfg_ClientCertificate b \<noteq> '''' then cfg_ClientCertificate b else cfg_ClientCertificate a)"
  "cfg_ClientKey (MergeWith a b) = (if cfg_ClientKey b \<noteq> '''' then cfg_ClientKey b else cfg_ClientKey a)"
  "cfg_Compression (MergeWith a b) = (if cfg_Compression b \<noteq> '''' then cfg_Compression b else cfg_Compression a)"
  "cfg_Timeout (MergeWith a b) = (if cfg_Timeout b \<noteq> 0 then cfg_Timeout b else cfg_Timeout a)"
  "cfg_BatchSize (MergeWith a b) = (if cfg_BatchSize b > 0 then cfg_BatchSize b else cfg_BatchSize a)"
  "cfg_BatchTimeout (MergeWith a b) = (if cfg_BatchTimeout b > 0 then cfg_BatchTimeout b else cfg_BatchTimeout a)"
  "cfg_MaxQueueSize (MergeWith a b) = (if cfg_MaxQueueSize b > 0 then cfg_MaxQueueSize b else cfg_MaxQueueSize a)"
  "cfg_ResourceOverrides (MergeWith a b) = (if cfg_ResourceOverrides b \<noteq> None then cfg_ResourceOverrides b else cfg_ResourceOverrides a)"
  "cfg_Sampler (MergeWith a b) = (if cfg_Sampler b \<noteq> '''' then cfg_Sampler b else cfg_Sampler a)"
  "cfg_SamplerArg (MergeWith a b) = (if cfg_SamplerArgSet b then cfg_SamplerArg b else cfg_SamplerArg a)"
  "cfg_SamplerArgSet (MergeWith a b) = (cfg_SamplerArgSet b \<or> cfg_SamplerArgSet a)"
  by (simp_all add: MergeWith_def)

text \<open>
  The settings that a configuration makes: the fields with a value other than the one that stands
  for "not set". gRPC is the zero value of the protocol, so a layer cannot set it; a timeout is set
  when it is not zero, a size when it is positive, and the security and the sampler argument carry a
  flag of their own.
\<close>

datatype field =
    F_Protocol | F_Endpoint | F_TracesEndpoint | F_MetricsEndpoint | F_LogsEndpoint |
    F_ProfilesEndpoint | F_Certificate | F_ClientCertificate | F_ClientKey | F_Compression |
    F_Sampler | F_Timeout | F_BatchSize | F_BatchTimeout | F_MaxQueueSize | F_SamplerArg |
    F_Insecure | F_Headers | F_ResourceOverrides

datatype setting = SProtocol exporter_protocol | SText string | SNumber int | SRatio f64
  | SSecurity bool bool | STable "(string, string) gomap"

definition set_when :: "bool \<Rightarrow> setting \<Rightarrow> setting option" where
  "set_when b v = (if b then Some v else None)"

fun settings :: "config \<Rightarrow> field \<Rightarrow> setting option" where
  "settings c F_Protocol = set_when (cfg_Protocol c \<noteq> ExportGRPC) (SProtocol (cfg_Protocol c))"
| "settings c F_Endpoint = set_when (cfg_Endpoint c \<noteq> '''') (SText (cfg_Endpoint c))"
| "settings c F_TracesEndpoint = set_when (cfg_TracesEndpoint c \<noteq> '''') (SText (cfg_TracesEndpoint c))"
| "settings c F_MetricsEndpoint = set_when (cfg_MetricsEndpoint c \<noteq> '''') (SText (cfg_MetricsEndpoint c))"
| "settings c F_LogsEndpoint = set_when (cfg_LogsEndpoint c \<noteq> '''') (SText (cfg_LogsEndpoint c))"
| "settings c F_ProfilesEndpoint = set_when (cfg_ProfilesEndpoint c \<noteq> '''') (SText (cfg_ProfilesEndpoint c))"
| "settings c F_Certificate = set_when (cfg_Certificate c \<noteq> '''') (SText (cfg_Certificate c))"
| "settings c F_ClientCertificate = set_when (cfg_ClientCertificate c \<noteq> '''') (SText (cfg_ClientCertificate c))"
| "settings c F_ClientKey = set_when (cfg_ClientKey c \<noteq> '''') (SText (cfg_ClientKey c))"
| "settings c F_Compression = set_when (cfg_Compression c \<noteq> '''') (SText (cfg_Compression c))"
| "settings c F_Sampler = set_when (cfg_Sampler c \<noteq> '''') (SText (cfg_Sampler c))"
| "settings c F_Timeout = set_when (cfg_Timeout c \<noteq> 0) (SNumber (cfg_Timeout c))"
| "settings c F_BatchSize = set_when (0 < cfg_BatchSize c) (SNumber (cfg_BatchSize c))"
| "settings c F_BatchTimeout = set_when (0 < cfg_BatchTimeout c) (SNumber (cfg_BatchTimeout c))"
| "settings c F_MaxQueueSize = set_when (0 < cfg_MaxQueueSize c) (SNumber (cfg_MaxQueueSize c))"
| "settings c F_SamplerArg = set_when (cfg_SamplerArgSet c) (SRatio (cfg_SamplerArg c))"
| "settings c F_Insecure = set_when (cfg_Insecure c \<or> cfg_InsecureSet c) (SSecurity (cfg_Insecure c) (cfg_InsecureSet c))"
| "settings c F_Headers = map_option STable (cfg_Headers c)"
| "settings c F_ResourceOverrides = map_option STable (cfg_ResourceOverrides c)"

lemma settings_MergeWith: "settings (MergeWith a b) = settings a ++ settings b"
proof
  fix f
  show "settings (MergeWith a b) f = (settings a ++ settings b) f"
    by (cases f) (auto simp: set_when_def map_add_def split: option.split)
qed

text \<open>
  C28: layering configurations is addition of their settings: a field that the override sets has the
  value of the override, and every other field that of the base. It does not depend on how the layers
  are grouped, a configuration that sets nothing changes nothing, and applying the same override
  twice is applying it once.
\<close>

theorem MergeWith_laws:
  "settings (MergeWith a b) = settings a ++ settings b
   \<and> MergeWith (MergeWith a b) c = MergeWith a (MergeWith b c) \<and> MergeWith a zero_config = a
   \<and> MergeWith (MergeWith a b) b = MergeWith a b"
proof (intro conjI)
  show "settings (MergeWith a b) = settings a ++ settings b" by (rule settings_MergeWith)
  show "MergeWith a zero_config = a" by (rule config.equality) (simp_all add: zero_config_def)
qed (rule config.equality; auto)+

section \<open>Endpoints\<close>

text \<open>The base path of a URL, with the slash that separates it from the path of a signal.\<close>

definition base_dir :: "url \<Rightarrow> string" where
  "base_dir u = (if has_suffix (url_path u) ''/'' then url_path u else url_path u @ ''/'')"

lemma appendSignalPath_base_dir:
  "appendSignalPath pf base sig = (case pf_url_Parse pf base of
       None \<Rightarrow> base | Some u \<Rightarrow> pf_url_String pf (u\<lparr>url_path := base_dir u @ sig\<rparr>))"
  by (auto simp: appendSignalPath_def base_dir_def has_suffix_def split: option.split)

text \<open>What url.Parse and URL.String promise: a URL with a scheme, a host and a rooted path prints as
  a URL with the same scheme, host and path.\<close>

definition url_laws :: "platform \<Rightarrow> bool" where
  "url_laws pf \<longleftrightarrow> (\<forall>s u p. pf_url_Parse pf s = Some u \<and> url_scheme u \<noteq> '''' \<and> url_host u \<noteq> '''' \<and> prefix ''/'' p \<longrightarrow>
     str_contains (pf_url_String pf (u\<lparr>url_path := p\<rparr>)) ''://''
     \<and> pf_url_Parse pf (pf_url_String pf (u\<lparr>url_path := p\<rparr>)) = Some (u\<lparr>url_path := p\<rparr>))"

definition rooted :: "platform \<Rightarrow> string \<Rightarrow> bool" where
  "rooted pf base \<longleftrightarrow> (case pf_url_Parse pf base of None \<Rightarrow> True | Some u \<Rightarrow> url_path u = '''' \<or> prefix ''/'' (url_path u))"

lemma base_dir_rooted:
  "rooted pf base \<Longrightarrow> pf_url_Parse pf base = Some u \<Longrightarrow> prefix ''/'' (base_dir u @ sig)"
  by (cases "url_path u") (auto simp: rooted_def base_dir_def has_suffix_def)

lemma resolveSignalEndpoint_valid:
  assumes "url_laws pf" and "rooted pf base" and "validEndpoint pf base" and "e \<noteq> '''' \<longrightarrow> validEndpoint pf e"
  shows "validEndpoint pf (resolveSignalEndpoint pf e base proto sig)"
proof (cases "e = '''' \<and> proto = ExportHTTP \<and> endpointIsURL base")
  case True
  then obtain u where u: "pf_url_Parse pf base = Some u" "url_scheme u \<noteq> ''''" "url_host u \<noteq> ''''"
    using assms(3) by (auto simp: validEndpoint_def endpointIsURL_def split: option.splits)
  have "prefix ''/'' (base_dir u @ sig)"
    using assms(2) u(1) by (rule base_dir_rooted)
  with assms(1) u have "str_contains (pf_url_String pf (u\<lparr>url_path := base_dir u @ sig\<rparr>)) ''://''"
    "pf_url_Parse pf (pf_url_String pf (u\<lparr>url_path := base_dir u @ sig\<rparr>)) = Some (u\<lparr>url_path := base_dir u @ sig\<rparr>)"
    unfolding url_laws_def by blast+
  with True u show ?thesis
    by (simp add: resolveSignalEndpoint_def appendSignalPath_base_dir validEndpoint_def)
qed (use assms in \<open>auto simp: resolveSignalEndpoint_def\<close>)

text \<open>What the endpoint \<open>e\<close> of a signal is, by the setting \<open>own\<close> of the signal and the base.\<close>

definition signal_endpoint :: "platform \<Rightarrow> config \<Rightarrow> string \<Rightarrow> string \<Rightarrow> string \<Rightarrow> bool" where
  "signal_endpoint pf c own path e \<longleftrightarrow>
     (if own \<noteq> '''' then e = own
      else if cfg_Protocol c = ExportHTTP \<and> endpointIsURL (cfg_Endpoint c)
      then \<exists>u. pf_url_Parse pf (cfg_Endpoint c) = Some u
        \<and> pf_url_Parse pf e = Some (u\<lparr>url_path := base_dir u @ path\<rparr>)
      else e = cfg_Endpoint c)"

lemma resolveSignalEndpoint_is:
  assumes "url_laws pf" and "rooted pf (cfg_Endpoint c)" and "validEndpoint pf (cfg_Endpoint c)"
  shows "signal_endpoint pf c own path (resolveSignalEndpoint pf own (cfg_Endpoint c) (cfg_Protocol c) path)"
proof (cases "own = '''' \<and> cfg_Protocol c = ExportHTTP \<and> endpointIsURL (cfg_Endpoint c)")
  case True
  then obtain u where u: "pf_url_Parse pf (cfg_Endpoint c) = Some u" "url_scheme u \<noteq> ''''" "url_host u \<noteq> ''''"
    using assms(3) by (auto simp: validEndpoint_def endpointIsURL_def split: option.splits)
  have "prefix ''/'' (base_dir u @ path)"
    using assms(2) u(1) by (rule base_dir_rooted)
  with assms(1) u True show ?thesis
    by (simp add: signal_endpoint_def resolveSignalEndpoint_def appendSignalPath_base_dir url_laws_def)
qed (auto simp: signal_endpoint_def resolveSignalEndpoint_def)

text \<open>
  C27: a valid configuration resolves to three valid endpoints, one per signal. The endpoint of a
  signal is its own setting when it has one; otherwise, over HTTP a base URL gets the path of the
  signal (v1/traces, v1/metrics or v1/logs) below its own path, with one slash between them, and keeps
  its scheme and host, and any other base is used as it is.
\<close>

theorem ResolveEndpoints_valid:
  assumes "visits_all pf" and "url_laws pf" and "rooted pf (cfg_Endpoint c)" and "Config_Validate pf c = None"
    and "ResolveEndpoints pf c = (traces, metrics, logs)"
  shows "(\<forall>e \<in> {traces, metrics, logs}. validEndpoint pf e)
    \<and> signal_endpoint pf c (cfg_TracesEndpoint c) ''v1/traces'' traces
    \<and> signal_endpoint pf c (cfg_MetricsEndpoint c) ''v1/metrics'' metrics
    \<and> signal_endpoint pf c (cfg_LogsEndpoint c) ''v1/logs'' logs"
proof -
  from assms(1,4) have ok: "config_ok pf c" by (simp add: Validate_ok_config)
  then have endpoint: "cfg_Endpoint c \<noteq> ''''" "validEndpoint pf (cfg_Endpoint c)"
    and signals: "\<forall>e \<in> set (signal_endpoints c). e \<noteq> '''' \<longrightarrow> validEndpoint pf e" by (simp_all add: config_ok_def)
  have are: "traces = resolveSignalEndpoint pf (cfg_TracesEndpoint c) (cfg_Endpoint c) (cfg_Protocol c) ''v1/traces''"
    "metrics = resolveSignalEndpoint pf (cfg_MetricsEndpoint c) (cfg_Endpoint c) (cfg_Protocol c) ''v1/metrics''"
    "logs = resolveSignalEndpoint pf (cfg_LogsEndpoint c) (cfg_Endpoint c) (cfg_Protocol c) ''v1/logs''"
    using assms(5) endpoint(1) by (simp_all add: ResolveEndpoints_def Let_def)
  have "\<forall>e \<in> {traces, metrics, logs}. validEndpoint pf e"
    using signals unfolding are
    by (auto simp: signal_endpoints_def intro!: resolveSignalEndpoint_valid [OF assms(2,3) endpoint(2)])
  then show ?thesis unfolding are by (simp add: resolveSignalEndpoint_is [OF assms(2,3) endpoint(2)])
qed

section \<open>Headers\<close>

lemma update_fresh: "k \<notin> fst ` set m \<Longrightarrow> AList.update k v m = m @ [(k, v)]"
  by (induction m) auto

definition plain_header :: "string \<times> string \<Rightarrow> bool" where
  "plain_header kv \<longleftrightarrow> validHeaderKey (fst kv) \<and> set (snd kv) \<inter> {CHR '','', CHR ''%'', CHR ''+''} = {}"

lemma header_key_char_plain: "header_key_char c \<Longrightarrow> \<not> is_space c \<and> c \<noteq> CHR ''='' \<and> c \<noteq> CHR '',''"
  by (auto simp: header_key_char_def is_space_def Let_def)

lemma parseHeader_plain:
  assumes "plain_header (k, v)" and "k \<notin> fst ` set m"
  shows "parseHeader (k @ ''='' @ v) m = m @ [(k, v)]"
proof -
  have key: "\<forall>c \<in> set k. \<not> is_space c \<and> c \<noteq> CHR ''=''"
    using assms(1) header_key_char_plain by (auto simp: plain_header_def validHeaderKey_def list_all_iff)
  then have "str_cut ''='' (k @ ''='' @ v) = Some (k, v)" using str_cut_char [of "CHR ''=''" k v] by auto
  moreover have "query_unescape v = Some v"
    using assms(1) by (intro query_unescape_plain) (auto simp: plain_header_def)
  ultimately show ?thesis
    using key assms(2) by (simp add: parseHeader_def trim_space_plain update_fresh)
qed

lemma parseHeaders_fold:
  "\<forall>kv \<in> set hs. plain_header kv \<Longrightarrow> gomap_ok (m @ hs) \<Longrightarrow>
   fold parseHeader (map (\<lambda>(k, v). k @ ''='' @ v) hs) m = m @ hs"
proof (induction hs arbitrary: m)
  case (Cons kv hs)
  obtain k v where kv: "kv = (k, v)" by force
  with Cons.prems have "parseHeader (k @ ''='' @ v) m = m @ [(k, v)]"
    by (intro parseHeader_plain) (auto simp: gomap_ok_def)
  with kv Cons.IH [of "m @ [(k, v)]"] Cons.prems show ?case by simp
qed simp

text \<open>
  C29: the headers of OTEL_EXPORTER_OTLP_HEADERS are read back as they are written: a list of
  key=value entries with valid keys and values that need no escape parses to exactly those entries.
\<close>

theorem parseHeaders_round_trip:
  assumes "gomap_ok hs" and "\<forall>kv \<in> set hs. plain_header kv"
  shows "exporter_parseHeaders (str_join '','' (map (\<lambda>(k, v). k @ ''='' @ v) hs)) = hs"
proof (cases "hs = []")
  case False
  let ?parts = "map (\<lambda>(k, v). k @ ''='' @ v) hs"
  have "CHR '','' \<notin> set part" if "part \<in> set ?parts" for part
    using that assms(2) header_key_char_plain
    by (fastforce simp: plain_header_def validHeaderKey_def list_all_iff)
  with False have "str_split (CHR '','') (str_join '','' ?parts) = ?parts" by (intro str_split_join) auto
  moreover have "str_join '','' ?parts \<noteq> []"
    using False by (cases hs; cases "tl hs") auto
  ultimately show ?thesis
    using parseHeaders_fold [OF assms(2), of "[]"] assms(1) by (simp add: exporter_parseHeaders_def)
qed (simp add: exporter_parseHeaders_def)

end
