(* ===== verification/Output_Params.thy ===== *)
theory Output_Params
  imports Exporter_Settings
begin

text \<open>
  k6output/params.go, k6output/errors.go and buildPipelineConfig of k6output/output.go: the arguments
  of \<open>--out otel-gen=...\<close>, and the configuration that they make of the environment. The set of
  provided keys is a list without repetition.
\<close>

section \<open>Errors\<close>

text \<open>The error that a ConfigError wraps, by the conversion that failed.\<close>

datatype inner_error = ParseBoolError string | ParseDurationError string | AtoiError string | HeaderPairError string

datatype output_error = OutputConfigError string string string "inner_error option"

text \<open>The Error method, with the text of the wrapped error given by \<open>show\<close>.\<close>

fun output_error_Error :: "platform \<Rightarrow> (inner_error \<Rightarrow> string) \<Rightarrow> output_error \<Rightarrow> string" where
  "output_error_Error pf show (OutputConfigError kind field v inner) = ''k6output: '' @ kind
     @ (if field \<noteq> '''' \<and> v \<noteq> '''' then '' ('' @ field @ ''='' @ pf_quote pf v @ '')''
        else if field \<noteq> '''' then '' ('' @ field @ '')''
        else if v \<noteq> '''' then '' ('' @ pf_quote pf v @ '')'' else '''')
     @ (case inner of None \<Rightarrow> '''' | Some e \<Rightarrow> '': '' @ show e)"

section \<open>Arguments\<close>

record params =
  pa_Endpoint :: string
  pa_MetricsEndpoint :: string
  pa_Protocol :: exporter_protocol
  pa_Insecure :: bool
  pa_Certificate :: string
  pa_ClientCert :: string
  pa_ClientKey :: string
  pa_Headers :: "(string, string) gomap option"
  pa_Compression :: string
  pa_Timeout :: duration
  pa_BatchSize :: int
  pa_BatchTimeout :: duration
  pa_MaxQueueSize :: int
  pa_QueueSize :: int
  pa_FlushInterval :: duration
  pa_ScriptPath :: string
  pa_provided :: "string list"

definition minQueueSize :: int where "minQueueSize = 10"
definition maxQueueSize :: int where "maxQueueSize = 10000"

definition defaultParams :: params where
  "defaultParams = \<lparr>pa_Endpoint = ''localhost:4317'', pa_MetricsEndpoint = '''', pa_Protocol = ExportGRPC,
     pa_Insecure = False, pa_Certificate = '''', pa_ClientCert = '''', pa_ClientKey = '''', pa_Headers = None,
     pa_Compression = '''', pa_Timeout = 10 * second, pa_BatchSize = 512, pa_BatchTimeout = second,
     pa_MaxQueueSize = 2048, pa_QueueSize = 100, pa_FlushInterval = second, pa_ScriptPath = '''', pa_provided = []\<rparr>"

definition validEndpointArg :: "platform \<Rightarrow> string \<Rightarrow> bool" where
  "validEndpointArg pf endpoint =
     (if endpoint = '''' then False
      else if str_contains endpoint ''://''
      then (case pf_url_Parse pf endpoint of None \<Rightarrow> False | Some u \<Rightarrow> url_scheme u \<noteq> '''' \<and> url_host u \<noteq> '''')
      else (case split_host_port endpoint of None \<Rightarrow> False | Some (host, port) \<Rightarrow> host \<noteq> '''' \<and> port \<noteq> ''''))"

text \<open>The loop of parseHeaders; the left is the pair that is not a header.\<close>

fun parse_pairs :: "string list \<Rightarrow> (string, string) gomap \<Rightarrow> inner_error + (string, string) gomap" where
  "parse_pairs [] out = Inr out"
| "parse_pairs (x # xs) out =
     (let pair = trim_space x in
      if pair = '''' then parse_pairs xs out
      else case str_cut '':'' pair of
          None \<Rightarrow> Inl (HeaderPairError pair)
        | Some (k, v) \<Rightarrow>
            (let key = trim_space k; val = trim_space v in
             if key = '''' \<or> val = '''' then Inl (HeaderPairError pair)
             else parse_pairs xs (AList.update key val out)))"

definition output_parseHeaders :: "string \<Rightarrow> inner_error + (string, string) gomap option" where
  "output_parseHeaders s =
     (if trim_space s = '''' then Inr None
      else case parse_pairs (str_split (CHR '';'') s) [] of Inl e \<Rightarrow> Inl e | Inr m \<Rightarrow> Inr (Some m))"

definition parseIntField :: "string \<Rightarrow> string \<Rightarrow> output_error + int" where
  "parseIntField key val = (case atoi val of
       None \<Rightarrow> Inl (OutputConfigError ''type_mismatch'' key val (Some (AtoiError val))) | Some n \<Rightarrow> Inr n)"

definition parse_duration_field :: "string \<Rightarrow> string \<Rightarrow> output_error + duration" where
  "parse_duration_field key val = (case parse_duration val of
       None \<Rightarrow> Inl (OutputConfigError ''type_mismatch'' key val (Some (ParseDurationError val))) | Some d \<Rightarrow> Inr d)"

text \<open>The switch of applyKV: an error, the changed arguments, or None for an unknown key.\<close>

definition set_field :: "platform \<Rightarrow> params \<Rightarrow> string \<Rightarrow> string \<Rightarrow> output_error + params option" where
  "set_field pf p key val =
     (if key = ''endpoint'' then
        (if \<not> validEndpointArg pf val then Inl (OutputConfigError ''invalid_url'' key val None)
         else Inr (Some (p\<lparr>pa_Endpoint := val\<rparr>)))
      else if key = ''metricsEndpoint'' then
        (if \<not> validEndpointArg pf val then Inl (OutputConfigError ''invalid_url'' key val None)
         else Inr (Some (p\<lparr>pa_MetricsEndpoint := val\<rparr>)))
      else if key = ''protocol'' then
        (if to_lower val = ''grpc'' then Inr (Some (p\<lparr>pa_Protocol := ExportGRPC\<rparr>))
         else if to_lower val = ''http'' then Inr (Some (p\<lparr>pa_Protocol := ExportHTTP\<rparr>))
         else Inl (OutputConfigError ''invalid_protocol'' key val None))
      else if key = ''insecure'' then
        (case parse_bool val of
           None \<Rightarrow> Inl (OutputConfigError ''type_mismatch'' key val (Some (ParseBoolError val)))
         | Some b \<Rightarrow> Inr (Some (p\<lparr>pa_Insecure := b\<rparr>)))
      else if key = ''caCert'' then Inr (Some (p\<lparr>pa_Certificate := val\<rparr>))
      else if key = ''clientCert'' then Inr (Some (p\<lparr>pa_ClientCert := val\<rparr>))
      else if key = ''clientKey'' then Inr (Some (p\<lparr>pa_ClientKey := val\<rparr>))
      else if key = ''headers'' then
        (case output_parseHeaders val of
           Inl e \<Rightarrow> Inl (OutputConfigError ''type_mismatch'' key val (Some e))
         | Inr hs \<Rightarrow> Inr (Some (p\<lparr>pa_Headers := hs\<rparr>)))
      else if key = ''compression'' then
        (if val \<noteq> '''' \<and> val \<noteq> ''gzip'' then Inl (OutputConfigError ''invalid_args'' key val None)
         else Inr (Some (p\<lparr>pa_Compression := val\<rparr>)))
      else if key = ''timeout'' then
        (case parse_duration_field key val of Inl e \<Rightarrow> Inl e | Inr d \<Rightarrow> Inr (Some (p\<lparr>pa_Timeout := d\<rparr>)))
      else if key = ''batchSize'' then
        (case parseIntField key val of Inl e \<Rightarrow> Inl e | Inr n \<Rightarrow> Inr (Some (p\<lparr>pa_BatchSize := n\<rparr>)))
      else if key = ''batchTimeout'' then
        (case parse_duration_field key val of Inl e \<Rightarrow> Inl e | Inr d \<Rightarrow> Inr (Some (p\<lparr>pa_BatchTimeout := d\<rparr>)))
      else if key = ''maxQueueSize'' then
        (case parseIntField key val of Inl e \<Rightarrow> Inl e | Inr n \<Rightarrow> Inr (Some (p\<lparr>pa_MaxQueueSize := n\<rparr>)))
      else if key = ''queueSize'' then
        (case parseIntField key val of Inl e \<Rightarrow> Inl e
         | Inr n \<Rightarrow> if n < minQueueSize \<or> n > maxQueueSize
             then Inl (OutputConfigError ''invalid_args'' key val None) else Inr (Some (p\<lparr>pa_QueueSize := n\<rparr>)))
      else Inr None)"

definition markProvided :: "string \<Rightarrow> params \<Rightarrow> params" where
  "markProvided key p = p\<lparr>pa_provided := List.insert key (pa_provided p)\<rparr>"

definition wasProvided :: "params \<Rightarrow> string \<Rightarrow> bool" where
  "wasProvided p key \<longleftrightarrow> key \<in> set (pa_provided p)"

definition applyKV :: "platform \<Rightarrow> params \<Rightarrow> string \<Rightarrow> string \<Rightarrow> output_error + params" where
  "applyKV pf p key val = (case set_field pf p key val of
       Inl e \<Rightarrow> Inl e
     | Inr None \<Rightarrow> Inr p
     | Inr (Some p') \<Rightarrow> Inr (markProvided key p'))"

text \<open>The loop over the tokens, which returns at the first error.\<close>

fun parse_tokens :: "platform \<Rightarrow> string list \<Rightarrow> params \<Rightarrow> output_error + params" where
  "parse_tokens pf [] p = Inr p"
| "parse_tokens pf (x # xs) p =
     (let token = trim_space x in
      if token = '''' then parse_tokens pf xs p
      else case str_cut ''='' token of
          None \<Rightarrow> Inl (OutputConfigError ''invalid_args'' token ''(missing =)'' None)
        | Some (key, val) \<Rightarrow> (case applyKV pf p (trim_space key) (trim_space val) of
              Inl e \<Rightarrow> Inl e
            | Inr p' \<Rightarrow> parse_tokens pf xs p'))"

definition parseOutArgs :: "platform \<Rightarrow> string \<Rightarrow> output_error + params" where
  "parseOutArgs pf s =
     (if trim_space s = '''' then Inr defaultParams
      else parse_tokens pf (str_split (CHR '','') s) defaultParams)"

section \<open>The configuration\<close>

text \<open>copyStringMap copies the map, which is a value here.\<close>

definition exporterConfig :: "params \<Rightarrow> config" where
  "exporterConfig p = zero_config\<lparr>
     cfg_Endpoint := (if wasProvided p ''endpoint'' then pa_Endpoint p else ''''),
     cfg_MetricsEndpoint := (if wasProvided p ''metricsEndpoint'' then pa_MetricsEndpoint p else ''''),
     cfg_Protocol := (if wasProvided p ''protocol'' then pa_Protocol p else ExportGRPC),
     cfg_Insecure := (wasProvided p ''insecure'' \<and> pa_Insecure p),
     cfg_InsecureSet := wasProvided p ''insecure'',
     cfg_Certificate := (if wasProvided p ''caCert'' then pa_Certificate p else ''''),
     cfg_ClientCertificate := (if wasProvided p ''clientCert'' then pa_ClientCert p else ''''),
     cfg_ClientKey := (if wasProvided p ''clientKey'' then pa_ClientKey p else ''''),
     cfg_Headers := (if wasProvided p ''headers'' then pa_Headers p else None),
     cfg_Compression := (if wasProvided p ''compression'' then pa_Compression p else ''''),
     cfg_Timeout := (if wasProvided p ''timeout'' then pa_Timeout p else 0),
     cfg_BatchSize := (if wasProvided p ''batchSize'' then pa_BatchSize p else 0),
     cfg_BatchTimeout := (if wasProvided p ''batchTimeout'' then pa_BatchTimeout p else 0),
     cfg_MaxQueueSize := (if wasProvided p ''maxQueueSize'' then pa_MaxQueueSize p else 0)\<rparr>"

definition buildPipelineConfig :: "platform \<Rightarrow> params \<Rightarrow> config" where
  "buildPipelineConfig pf p =
     (let cfg = ConfigFromEnv pf; out = exporterConfig p in cfg\<lparr>
       cfg_Endpoint := (if wasProvided p ''endpoint'' then cfg_Endpoint out else cfg_Endpoint cfg),
       cfg_MetricsEndpoint := (if wasProvided p ''metricsEndpoint'' then cfg_MetricsEndpoint out else cfg_MetricsEndpoint cfg),
       cfg_Protocol := (if wasProvided p ''protocol'' then cfg_Protocol out else cfg_Protocol cfg),
       cfg_Insecure := (if wasProvided p ''insecure'' then cfg_Insecure out else cfg_Insecure cfg),
       cfg_InsecureSet := (wasProvided p ''insecure'' \<or> cfg_InsecureSet cfg),
       cfg_Certificate := (if wasProvided p ''caCert'' then cfg_Certificate out else cfg_Certificate cfg),
       cfg_ClientCertificate := (if wasProvided p ''clientCert'' then cfg_ClientCertificate out else cfg_ClientCertificate cfg),
       cfg_ClientKey := (if wasProvided p ''clientKey'' then cfg_ClientKey out else cfg_ClientKey cfg),
       cfg_Headers := (if wasProvided p ''headers'' then cfg_Headers out else cfg_Headers cfg),
       cfg_Compression := (if wasProvided p ''compression'' then cfg_Compression out else cfg_Compression cfg),
       cfg_Timeout := (if wasProvided p ''timeout'' then cfg_Timeout out else cfg_Timeout cfg),
       cfg_BatchSize := (if wasProvided p ''batchSize'' then cfg_BatchSize out else cfg_BatchSize cfg),
       cfg_BatchTimeout := (if wasProvided p ''batchTimeout'' then cfg_BatchTimeout out else cfg_BatchTimeout cfg),
       cfg_MaxQueueSize := (if wasProvided p ''maxQueueSize'' then cfg_MaxQueueSize out else cfg_MaxQueueSize cfg)\<rparr>)"

section \<open>What the arguments can be\<close>

text \<open>The arguments that parsing accepts, and that the settings that were not given are the defaults.\<close>

definition params_ok :: "platform \<Rightarrow> params \<Rightarrow> bool" where
  "params_ok pf p \<longleftrightarrow> validEndpoint pf (pa_Endpoint p)
     \<and> (wasProvided p ''metricsEndpoint'' \<longrightarrow> pa_MetricsEndpoint p \<noteq> '''' \<and> validEndpoint pf (pa_MetricsEndpoint p))
     \<and> (\<not> wasProvided p ''metricsEndpoint'' \<longrightarrow> pa_MetricsEndpoint p = '''')
     \<and> pa_Endpoint p \<noteq> '''' \<and> pa_Protocol p \<in> {ExportGRPC, ExportHTTP} \<and> pa_Compression p \<in> {'''', ''gzip''}
     \<and> minQueueSize \<le> pa_QueueSize p \<and> pa_QueueSize p \<le> maxQueueSize
     \<and> 0 < pa_FlushInterval p
     \<and> (case pa_Headers p of None \<Rightarrow> True | Some hs \<Rightarrow> gomap_ok hs \<and> (\<forall>(k, v) \<in> set hs. k \<noteq> '''' \<and> v \<noteq> ''''))"

lemma validEndpointArg_iff: "validEndpointArg pf e \<longleftrightarrow> e \<noteq> '''' \<and> validEndpoint pf e"
  by (simp add: validEndpointArg_def validEndpoint_def)

lemma params_ok_default: "params_ok pf defaultParams"
  using validEndpoint_default [of pf]
  by (simp add: params_ok_def defaultParams_def wasProvided_def defaultEndpoint_def minQueueSize_def maxQueueSize_def second_def)

lemma parse_pairs_ok:
  "parse_pairs xs out = Inr m \<Longrightarrow> gomap_ok out \<and> (\<forall>(k, v) \<in> set out. k \<noteq> '''' \<and> v \<noteq> '''') \<Longrightarrow>
   gomap_ok m \<and> (\<forall>(k, v) \<in> set m. k \<noteq> '''' \<and> v \<noteq> '''')"
proof (induction xs out rule: parse_pairs.induct)
  case (2 x xs out)
  show ?case
  proof (cases "trim_space x = ''''")
    case False
    with "2.prems"(1) obtain k v where cut: "str_cut '':'' (trim_space x) = Some (k, v)" "trim_space k \<noteq> ''''" "trim_space v \<noteq> ''''"
      and rest: "parse_pairs xs (AList.update (trim_space k) (trim_space v) out) = Inr m"
      by (auto simp: Let_def split: option.splits if_splits)
    have "set (AList.update (trim_space k) (trim_space v) out) \<subseteq> insert (trim_space k, trim_space v) (set out)"
      by (induction out) auto
    then have "\<forall>(k, v) \<in> set (AList.update (trim_space k) (trim_space v) out). k \<noteq> '''' \<and> v \<noteq> ''''"
      using "2.prems"(2) cut(2,3) by fastforce
    with "2.IH"(2) [OF refl False cut(1) refl refl refl _ rest] cut(2,3) "2.prems"(2) show ?thesis by simp
  qed (use 2 in simp)
qed simp

lemma set_field_cases:
  assumes "set_field pf p key val = Inr (Some p')"
  shows "(\<exists>x. key = ''endpoint'' \<and> validEndpointArg pf x \<and> p' = p\<lparr>pa_Endpoint := x\<rparr>)
    \<or> (\<exists>x. key = ''metricsEndpoint'' \<and> validEndpointArg pf x \<and> p' = p\<lparr>pa_MetricsEndpoint := x\<rparr>)
    \<or> key \<noteq> ''metricsEndpoint'' \<and>
      ((\<exists>x \<in> {ExportGRPC, ExportHTTP}. p' = p\<lparr>pa_Protocol := x\<rparr>)
      \<or> (\<exists>x. p' = p\<lparr>pa_Insecure := x\<rparr>) \<or> (\<exists>x. p' = p\<lparr>pa_Certificate := x\<rparr>)
      \<or> (\<exists>x. p' = p\<lparr>pa_ClientCert := x\<rparr>) \<or> (\<exists>x. p' = p\<lparr>pa_ClientKey := x\<rparr>)
      \<or> (\<exists>x. output_parseHeaders val = Inr x \<and> p' = p\<lparr>pa_Headers := x\<rparr>)
      \<or> (\<exists>x \<in> {'''', ''gzip''}. p' = p\<lparr>pa_Compression := x\<rparr>)
      \<or> (\<exists>x. p' = p\<lparr>pa_Timeout := x\<rparr>) \<or> (\<exists>x. p' = p\<lparr>pa_BatchSize := x\<rparr>)
      \<or> (\<exists>x. p' = p\<lparr>pa_BatchTimeout := x\<rparr>) \<or> (\<exists>x. p' = p\<lparr>pa_MaxQueueSize := x\<rparr>)
      \<or> (\<exists>x \<in> {minQueueSize..maxQueueSize}. p' = p\<lparr>pa_QueueSize := x\<rparr>))"
proof -
  have pick: "(if b then x else y) = z \<Longrightarrow> (b \<Longrightarrow> x = z \<Longrightarrow> P) \<Longrightarrow> (\<not> b \<Longrightarrow> y = z \<Longrightarrow> P) \<Longrightarrow> P"
    for b P and x y z :: "output_error + params option" by (cases b) simp_all
  show ?thesis
    using assms unfolding set_field_def
    by (elim pick) (simp_all split: option.splits sum.splits if_splits, auto)
qed

lemma set_field_ok:
  assumes ok: "params_ok pf p" and set: "set_field pf p key val = Inr (Some p')"
  shows "params_ok pf (markProvided key p')"
proof -
  have headers: "case hs of None \<Rightarrow> True | Some hs \<Rightarrow> gomap_ok hs \<and> (\<forall>(k, v) \<in> set hs. k \<noteq> '''' \<and> v \<noteq> '''')"
    if "output_parseHeaders val = Inr hs" for hs
    using that parse_pairs_ok [of "str_split (CHR '';'') val" "[]"]
    by (auto simp: output_parseHeaders_def split: if_splits sum.splits)
  from set_field_cases [OF set] show ?thesis
    using ok by (elim disjE exE conjE bexE)
      (simp_all add: params_ok_def validEndpointArg_iff markProvided_def wasProvided_def headers split del: if_split)
qed

lemma applyKV_ok: "params_ok pf p \<Longrightarrow> applyKV pf p key val = Inr p' \<Longrightarrow> params_ok pf p'"
  by (auto simp: applyKV_def set_field_ok split: sum.splits option.splits)

lemma parse_tokens_ok: "parse_tokens pf xs p = Inr p' \<Longrightarrow> params_ok pf p \<Longrightarrow> params_ok pf p'"
  by (induction pf xs p rule: parse_tokens.induct) (auto simp: Let_def applyKV_ok split: if_splits option.splits sum.splits)

text \<open>
  C33: the arguments that --out otel-gen accepts are usable whatever the string is: both endpoints are
  well-formed, the protocol is one of the two, the queue holds between 10 and 10000 samples, and the
  headers have distinct keys and no empty key or value.
\<close>

theorem parseOutArgs_sound: "parseOutArgs pf s = Inr p \<Longrightarrow> params_ok pf p"
  by (auto simp: parseOutArgs_def params_ok_default split: if_splits intro: parse_tokens_ok)

section \<open>Errors\<close>

text \<open>The kinds of the errors; only a type mismatch wraps the error of a conversion.\<close>

fun output_error_ok :: "output_error \<Rightarrow> bool" where
  "output_error_ok (OutputConfigError kind field v inner) \<longleftrightarrow>
     kind \<in> {''invalid_args'', ''invalid_protocol'', ''type_mismatch'', ''invalid_url''}
     \<and> field \<noteq> '''' \<and> (inner \<noteq> None \<longleftrightarrow> kind = ''type_mismatch'')"

lemma set_field_error: "set_field pf p key val = Inl e \<Longrightarrow> output_error_ok e"
proof -
  have pick: "(if b then x else y) = z \<Longrightarrow> (b \<Longrightarrow> x = z \<Longrightarrow> P) \<Longrightarrow> (\<not> b \<Longrightarrow> y = z \<Longrightarrow> P) \<Longrightarrow> P"
    for b P and x y z :: "output_error + params option" by (cases b) simp_all
  show "set_field pf p key val = Inl e \<Longrightarrow> ?thesis"
    unfolding set_field_def
    by (elim pick) (simp_all add: parse_duration_field_def parseIntField_def split: option.splits sum.splits if_splits, auto)
qed

lemma applyKV_error: "applyKV pf p key val = Inl e \<Longrightarrow> output_error_ok e"
  by (auto simp: applyKV_def set_field_error split: sum.splits option.splits)

lemma parse_tokens_error: "parse_tokens pf xs p = Inl e \<Longrightarrow> output_error_ok e"
  by (induction pf xs p rule: parse_tokens.induct) (auto simp: Let_def split: if_splits option.splits sum.splits dest: applyKV_error)

text \<open>
  C34: a string that --out otel-gen rejects is rejected with one of the four documented kinds and the
  name of the argument at fault, and with the error of a failed conversion exactly for a type mismatch.
\<close>

theorem parseOutArgs_errors: "parseOutArgs pf s = Inl e \<Longrightarrow> output_error_ok e"
  by (auto simp: parseOutArgs_def split: if_splits intro: parse_tokens_error)

section \<open>Arguments over the environment\<close>

text \<open>Arguments that MergeWith does not take for unset ones.\<close>

definition visible :: "params \<Rightarrow> bool" where
  "visible p \<longleftrightarrow> (wasProvided p ''endpoint'' \<longrightarrow> pa_Endpoint p \<noteq> '''') \<and> (wasProvided p ''metricsEndpoint'' \<longrightarrow> pa_MetricsEndpoint p \<noteq> '''')
     \<and> (wasProvided p ''protocol'' \<longrightarrow> pa_Protocol p \<noteq> ExportGRPC) \<and> (wasProvided p ''caCert'' \<longrightarrow> pa_Certificate p \<noteq> '''')
     \<and> (wasProvided p ''clientCert'' \<longrightarrow> pa_ClientCert p \<noteq> '''') \<and> (wasProvided p ''clientKey'' \<longrightarrow> pa_ClientKey p \<noteq> '''')
     \<and> (wasProvided p ''headers'' \<longrightarrow> pa_Headers p \<noteq> None) \<and> (wasProvided p ''compression'' \<longrightarrow> pa_Compression p \<noteq> '''')
     \<and> (wasProvided p ''timeout'' \<longrightarrow> pa_Timeout p \<noteq> 0) \<and> (wasProvided p ''batchSize'' \<longrightarrow> pa_BatchSize p > 0)
     \<and> (wasProvided p ''batchTimeout'' \<longrightarrow> pa_BatchTimeout p > 0) \<and> (wasProvided p ''maxQueueSize'' \<longrightarrow> pa_MaxQueueSize p > 0)"

lemma exporterConfig_fields [simp]:
  "cfg_TracesEndpoint (exporterConfig p) = ''''" "cfg_LogsEndpoint (exporterConfig p) = ''''"
  "cfg_ProfilesEndpoint (exporterConfig p) = ''''" "cfg_ResourceOverrides (exporterConfig p) = None"
  "cfg_Sampler (exporterConfig p) = ''''" "\<not> cfg_SamplerArgSet (exporterConfig p)"
  by (simp_all add: exporterConfig_def zero_config_def)

text \<open>
  C35: the arguments are laid over the environment as MergeWith lays one configuration over another,
  when no argument has the value that MergeWith takes for unset. In any case an argument that was
  given wins: the output can select gRPC where the environment says HTTP, which MergeWith cannot.
\<close>

theorem buildPipelineConfig_over_environment:
  "(visible p \<longrightarrow> buildPipelineConfig pf p = MergeWith (ConfigFromEnv pf) (exporterConfig p))
   \<and> cfg_Protocol (buildPipelineConfig pf p) = (if wasProvided p ''protocol'' then pa_Protocol p else cfg_Protocol (ConfigFromEnv pf))
   \<and> (pa_Protocol p = ExportGRPC \<longrightarrow> cfg_Protocol (MergeWith (ConfigFromEnv pf) (exporterConfig p)) = cfg_Protocol (ConfigFromEnv pf))"
proof (intro conjI impI)
  assume visible: "visible p"
  show "buildPipelineConfig pf p = MergeWith (ConfigFromEnv pf) (exporterConfig p)"
    using visible by (intro config.equality)
      (simp_all add: buildPipelineConfig_def Let_def visible_def, simp_all add: exporterConfig_def zero_config_def, metis option.distinct(1))
qed (simp_all add: buildPipelineConfig_def Let_def exporterConfig_def)

end
