(* ===== verification/Exporter_Pipeline.thy ===== *)
theory Exporter_Pipeline
  imports Exporter_Settings
begin

text \<open>
  exporter/exporters.go, exporter/resource.go, exporter/stats.go and exporter/pipeline.go: building
  the exporters and the providers of a pipeline, counting what they export, flushing and shutting
  down. The OpenTelemetry SDK is a parameter: each call into it is appended with its error to a log,
  the state that the operations thread, and \<open>sdk_error\<close> answers a call from the log so far.
\<close>

section \<open>Calls into the SDK\<close>

datatype otlp_signal = TraceSignal | MetricSignal | LogSignal

datatype otlp_option = WithHeaders "(string, string) gomap option" | WithTimeout duration
  | WithEndpointURL string | WithEndpoint string | WithInsecure | WithTLS tls_config | WithGzip

text \<open>The providers: the three of the pipeline and one per service key.\<close>

datatype provider = TracerProvider | MeterProvider | LoggerProvider
  | ServiceTracer string | ServiceLogger string

datatype sdk_call =
    NewExporter otlp_signal exporter_protocol "otlp_option list"
  | CloseExporter otlp_signal
  | ExportBatch otlp_signal nat
  | DetectResource
  | MergeResource "(string, string) gomap"
  | NewProvider provider
  | FlushProvider provider
  | StopProvider provider

type_synonym sdk_log = "(sdk_call \<times> string option) list"

text \<open>
  \<open>sdk_closes\<close> tells whether the Shutdown of a provider shuts its exporter down, and \<open>sdk_reports\<close>
  whether it then returns the error of its exporter; a batch span processor hands that to the global
  error handler instead.
\<close>

record sdk =
  sdk_error :: "sdk_log \<Rightarrow> sdk_call \<Rightarrow> string option"
  sdk_closes :: "provider \<Rightarrow> bool"
  sdk_reports :: "provider \<Rightarrow> bool"

definition sdk_do :: "sdk \<Rightarrow> sdk_call \<Rightarrow> sdk_log \<Rightarrow> string option \<times> sdk_log" where
  "sdk_do lib c w = (let e = sdk_error lib w c in (e, w @ [(c, e)]))"

section \<open>Exporters\<close>

text \<open>The options of the six constructors of an OTLP exporter, which differ in their package only.\<close>

definition otlp_options :: "config \<Rightarrow> tls_config option \<Rightarrow> string \<Rightarrow> otlp_option list" where
  "otlp_options c tls endpoint =
     [WithHeaders (cfg_Headers c), WithTimeout (cfg_Timeout c)]
     @ [if endpointIsURL endpoint then WithEndpointURL endpoint else WithEndpoint endpoint]
     @ (if cfg_Insecure c then [WithInsecure] else [])
     @ (case tls of None \<Rightarrow> [] | Some t \<Rightarrow> [WithTLS t])
     @ (if cfg_Compression c = ''gzip'' then [WithGzip] else [])"

definition new_exporter ::
  "sdk \<Rightarrow> otlp_signal \<Rightarrow> config \<Rightarrow> tls_config option \<Rightarrow> string \<Rightarrow> sdk_log \<Rightarrow> export_error option \<times> sdk_log" where
  "new_exporter lib sig c tls endpoint w =
     (if cfg_Protocol c = ExportGRPC \<or> cfg_Protocol c = ExportHTTP
      then (case sdk_do lib (NewExporter sig (cfg_Protocol c) (otlp_options c tls endpoint)) w of
          (e, w') \<Rightarrow> (map_option Foreign e, w'))
      else (Some (Foreign (''unknown protocol: '' @ exporter_protocol_String (cfg_Protocol c))), w))"

type_synonym builder = "config \<Rightarrow> tls_config option \<Rightarrow> sdk_log \<Rightarrow> export_error option \<times> sdk_log"

definition buildTraceExporter :: "platform \<Rightarrow> sdk \<Rightarrow> builder" where
  "buildTraceExporter pf lib c tls w =
     (case ResolveEndpoints pf c of (endpoint, _, _) \<Rightarrow> new_exporter lib TraceSignal c tls endpoint w)"

definition buildMetricExporter :: "platform \<Rightarrow> sdk \<Rightarrow> builder" where
  "buildMetricExporter pf lib c tls w =
     (case ResolveEndpoints pf c of (_, endpoint, _) \<Rightarrow> new_exporter lib MetricSignal c tls endpoint w)"

definition buildLogExporter :: "platform \<Rightarrow> sdk \<Rightarrow> builder" where
  "buildLogExporter pf lib c tls w =
     (case ResolveEndpoints pf c of (_, _, endpoint) \<Rightarrow> new_exporter lib LogSignal c tls endpoint w)"

section \<open>Counters\<close>

record stats =
  st_tracesExported :: int
  st_tracesFailed :: int
  st_metricsExported :: int
  st_metricsFailed :: int
  st_logsExported :: int
  st_logsFailed :: int
  st_profilesExported :: int
  st_profilesFailed :: int

definition zero_stats :: stats where
  "zero_stats = \<lparr>st_tracesExported = 0, st_tracesFailed = 0, st_metricsExported = 0, st_metricsFailed = 0,
     st_logsExported = 0, st_logsFailed = 0, st_profilesExported = 0, st_profilesFailed = 0\<rparr>"

text \<open>The data of a metric: the nine shapes that carry data points, of which only the number matters.\<close>

datatype metric_data = GaugeInt nat | GaugeFloat nat | SumInt nat | SumFloat nat | HistogramInt nat
  | HistogramFloat nat | ExponentialInt nat | ExponentialFloat nat | SummaryData nat | OtherData

fun data_points :: "metric_data \<Rightarrow> nat" where
  "data_points (GaugeInt n) = n"
| "data_points (GaugeFloat n) = n"
| "data_points (SumInt n) = n"
| "data_points (SumFloat n) = n"
| "data_points (HistogramInt n) = n"
| "data_points (HistogramFloat n) = n"
| "data_points (ExponentialInt n) = n"
| "data_points (ExponentialFloat n) = n"
| "data_points (SummaryData n) = n"
| "data_points OtherData = 0"

definition countMetricDataPoints :: "metric_data list list option \<Rightarrow> nat" where
  "countMetricDataPoints rm = (case rm of
       None \<Rightarrow> 0
     | Some scopes \<Rightarrow> sum_list (map (\<lambda>ms. sum_list (map data_points ms)) scopes))"

text \<open>ExportSpans, and the Export methods of the metric and the log exporter.\<close>

definition ExportSpans :: "sdk \<Rightarrow> nat \<Rightarrow> stats \<times> sdk_log \<Rightarrow> string option \<times> stats \<times> sdk_log" where
  "ExportSpans lib n = (\<lambda>(s, w). case sdk_do lib (ExportBatch TraceSignal n) w of
       (Some e, w') \<Rightarrow> (Some e, s\<lparr>st_tracesFailed := wrap64 (st_tracesFailed s + 1)\<rparr>, w')
     | (None, w') \<Rightarrow> (None, s\<lparr>st_tracesExported := wrap64 (st_tracesExported s + int n)\<rparr>, w'))"

definition ExportMetrics ::
  "sdk \<Rightarrow> metric_data list list option \<Rightarrow> stats \<times> sdk_log \<Rightarrow> string option \<times> stats \<times> sdk_log" where
  "ExportMetrics lib rm = (\<lambda>(s, w). let count = countMetricDataPoints rm in
     case sdk_do lib (ExportBatch MetricSignal count) w of
       (Some e, w') \<Rightarrow> (Some e, s\<lparr>st_metricsFailed := wrap64 (st_metricsFailed s + 1)\<rparr>, w')
     | (None, w') \<Rightarrow> (None, s\<lparr>st_metricsExported := wrap64 (st_metricsExported s + int count)\<rparr>, w'))"

definition ExportLogs :: "sdk \<Rightarrow> nat \<Rightarrow> stats \<times> sdk_log \<Rightarrow> string option \<times> stats \<times> sdk_log" where
  "ExportLogs lib n = (\<lambda>(s, w). case sdk_do lib (ExportBatch LogSignal n) w of
       (Some e, w') \<Rightarrow> (Some e, s\<lparr>st_logsFailed := wrap64 (st_logsFailed s + 1)\<rparr>, w')
     | (None, w') \<Rightarrow> (None, s\<lparr>st_logsExported := wrap64 (st_logsExported s + int n)\<rparr>, w'))"

section \<open>Pipelines\<close>

text \<open>The resource of the pipeline: what was detected, with the overrides merged over it.\<close>

datatype pipeline_resource = Detected | Merged "(string, string) gomap"

definition pipeline_buildResource ::
  "sdk \<Rightarrow> config \<Rightarrow> sdk_log \<Rightarrow> (export_error + pipeline_resource) \<times> sdk_log" where
  "pipeline_buildResource lib c w = (case sdk_do lib DetectResource w of
       (Some e, w1) \<Rightarrow> (Inl (Wrapped ''resource: auto-detect'' (Foreign e)), w1)
     | (None, w1) \<Rightarrow> (case cfg_ResourceOverrides c of
           None \<Rightarrow> (Inr Detected, w1)
         | Some attrs \<Rightarrow>
             if attrs = [] then (Inr Detected, w1)
             else (case sdk_do lib (MergeResource attrs) w1 of
                 (Some e, w2) \<Rightarrow> (Inl (Wrapped ''resource: merge'' (Foreign e)), w2)
               | (None, w2) \<Rightarrow> (Inr (Merged attrs), w2))))"

text \<open>The client for profiles is its configuration; None is the nil client.\<close>

definition newPyroscopeClient :: "platform \<Rightarrow> config \<Rightarrow> export_error + config option" where
  "newPyroscopeClient pf c =
     (if cfg_ProfilesEndpoint c = '''' then Inr None
      else if \<not> validEndpoint pf (cfg_ProfilesEndpoint c)
      then Inl (ConfigError ''ProfilesEndpoint'' (CvString (cfg_ProfilesEndpoint c)) endpoint_message)
      else Inr (Some c))"

datatype sampler = AlwaysSample | NeverSample | TraceIDRatioBased f64

definition samplerForConfig :: "config \<Rightarrow> sampler" where
  "samplerForConfig c =
     (if cfg_Sampler c = ''always_off'' then NeverSample
      else if cfg_Sampler c = ''traceidratio'' then TraceIDRatioBased (cfg_SamplerArg c)
      else AlwaysSample)"

definition minPeriodicReaderInterval :: duration where
  "minPeriodicReaderInterval = 10 * millisecond"

definition periodicReaderInterval :: "duration \<Rightarrow> duration" where
  "periodicReaderInterval i = (if i < minPeriodicReaderInterval then minPeriodicReaderInterval else i)"

text \<open>
  A pipeline. A sync.Once with the error it left is an option: None before it ran. The providers
  per service are their keys with the resource each was made with; \<open>pl_sampler\<close> and
  \<open>pl_interval\<close> are what newPipelineFromExporters passes to the providers.
\<close>

record 'r pipeline =
  pl_cfg :: config
  pl_res :: pipeline_resource
  pl_sampler :: sampler
  pl_interval :: duration
  pl_profileExp :: "config option"
  pl_svcTracers :: "(string, 'r) gomap"
  pl_svcLoggers :: "(string, 'r) gomap"
  pl_traceOnce :: "export_error option option"
  pl_logOnce :: "export_error option option"
  pl_shutdownOnce :: "export_error option option"

definition newPipelineFromExporters ::
  "sdk \<Rightarrow> config \<Rightarrow> pipeline_resource \<Rightarrow> config option \<Rightarrow> sdk_log \<Rightarrow> 'r pipeline \<times> sdk_log" where
  "newPipelineFromExporters lib c res profileExp w =
     (let w1 = snd (sdk_do lib (NewProvider TracerProvider) w);
          w2 = snd (sdk_do lib (NewProvider MeterProvider) w1);
          w3 = snd (sdk_do lib (NewProvider LoggerProvider) w2)
      in (\<lparr>pl_cfg = c, pl_res = res, pl_sampler = samplerForConfig c,
           pl_interval = periodicReaderInterval (cfg_BatchTimeout c), pl_profileExp = profileExp,
           pl_svcTracers = [], pl_svcLoggers = [], pl_traceOnce = None, pl_logOnce = None,
           pl_shutdownOnce = None\<rparr>, w3))"

definition close_exporter :: "sdk \<Rightarrow> otlp_signal \<Rightarrow> sdk_log \<Rightarrow> sdk_log" where
  "close_exporter lib sig w = snd (sdk_do lib (CloseExporter sig) w)"

text \<open>The stages of the construction; a failed stage closes the exporters of the stages before it.\<close>

definition newWithExporterBuilders ::
  "platform \<Rightarrow> sdk \<Rightarrow> config \<Rightarrow> builder \<Rightarrow> builder \<Rightarrow> builder \<Rightarrow> sdk_log \<Rightarrow> (export_error + 'r pipeline) \<times> sdk_log" where
  "newWithExporterBuilders pf lib cfg buildTrace buildMetric buildLog w =
     (let c = fillDefaults cfg in
      case Config_Validate pf c of
        Some err \<Rightarrow> (Inl (PipelineError ''validate'' (Some err)), w)
      | None \<Rightarrow> (case pipeline_buildResource lib c w of
          (Inl err, w) \<Rightarrow> (Inl (PipelineError ''resource'' (Some err)), w)
        | (Inr res, w) \<Rightarrow> (case buildTLSConfig pf c of
            Inl err \<Rightarrow> (Inl (PipelineError ''tls'' (Some err)), w)
          | Inr tls \<Rightarrow> (case buildTrace c tls w of
              (Some err, w) \<Rightarrow> (Inl (PipelineError ''trace_exporter'' (Some err)), w)
            | (None, w) \<Rightarrow> (case buildMetric c tls w of
                (Some err, w) \<Rightarrow> (Inl (PipelineError ''metric_exporter'' (Some err)), close_exporter lib TraceSignal w)
              | (None, w) \<Rightarrow> (case buildLog c tls w of
                  (Some err, w) \<Rightarrow> (Inl (PipelineError ''log_exporter'' (Some err)),
                    close_exporter lib MetricSignal (close_exporter lib TraceSignal w))
                | (None, w) \<Rightarrow> (case newPyroscopeClient pf c of
                    Inl err \<Rightarrow> (Inl (PipelineError ''profile_exporter'' (Some err)),
                      close_exporter lib LogSignal (close_exporter lib MetricSignal (close_exporter lib TraceSignal w)))
                  | Inr profileExp \<Rightarrow> (case newPipelineFromExporters lib c res profileExp w of (p, w) \<Rightarrow> (Inr p, w)))))))))"

definition exporter_New :: "platform \<Rightarrow> sdk \<Rightarrow> config \<Rightarrow> sdk_log \<Rightarrow> (export_error + 'r pipeline) \<times> sdk_log" where
  "exporter_New pf lib cfg w = newWithExporterBuilders pf lib cfg
     (buildTraceExporter pf lib) (buildMetricExporter pf lib) (buildLogExporter pf lib) w"

section \<open>Providers per service\<close>

definition TracerProviderForService ::
  "sdk \<Rightarrow> string \<Rightarrow> 'r \<Rightarrow> 'r pipeline \<times> sdk_log \<Rightarrow> provider \<times> 'r pipeline \<times> sdk_log" where
  "TracerProviderForService lib key res = (\<lambda>(p, w).
     if map_of (pl_svcTracers p) key \<noteq> None then (ServiceTracer key, p, w)
     else (ServiceTracer key, p\<lparr>pl_svcTracers := AList.update key res (pl_svcTracers p)\<rparr>,
           snd (sdk_do lib (NewProvider (ServiceTracer key)) w)))"

definition LoggerProviderForService ::
  "sdk \<Rightarrow> string \<Rightarrow> 'r \<Rightarrow> 'r pipeline \<times> sdk_log \<Rightarrow> provider \<times> 'r pipeline \<times> sdk_log" where
  "LoggerProviderForService lib key res = (\<lambda>(p, w).
     if map_of (pl_svcLoggers p) key \<noteq> None then (ServiceLogger key, p, w)
     else (ServiceLogger key, p\<lparr>pl_svcLoggers := AList.update key res (pl_svcLoggers p)\<rparr>,
           snd (sdk_do lib (NewProvider (ServiceLogger key)) w)))"

text \<open>The providers of svcProviderSnapshot, the tracers before the loggers.\<close>

definition svcProviderSnapshot :: "'r pipeline \<Rightarrow> provider list" where
  "svcProviderSnapshot p = map (ServiceTracer \<circ> fst) (pl_svcTracers p) @ map (ServiceLogger \<circ> fst) (pl_svcLoggers p)"

definition all_providers :: "'r pipeline \<Rightarrow> provider list" where
  "all_providers p = [TracerProvider, MeterProvider, LoggerProvider] @ svcProviderSnapshot p"

section \<open>Flush and shutdown\<close>

text \<open>The loop that collects the errors of one call per provider.\<close>

fun for_providers :: "(provider \<Rightarrow> 's \<Rightarrow> export_error option \<times> 's) \<Rightarrow> provider list \<Rightarrow> 's \<Rightarrow> export_error list \<times> 's" where
  "for_providers f [] s = ([], s)"
| "for_providers f (q # qs) s = (case f q s of (e, s1) \<Rightarrow> (case for_providers f qs s1 of
       (es, s2) \<Rightarrow> ((case e of None \<Rightarrow> es | Some err \<Rightarrow> err # es), s2)))"

definition flush_provider :: "sdk \<Rightarrow> provider \<Rightarrow> sdk_log \<Rightarrow> export_error option \<times> sdk_log" where
  "flush_provider lib q w = (case sdk_do lib (FlushProvider q) w of (e, w') \<Rightarrow> (map_option Foreign e, w'))"

definition ForceFlush :: "sdk \<Rightarrow> 'r pipeline \<times> sdk_log \<Rightarrow> export_error option \<times> 'r pipeline \<times> sdk_log" where
  "ForceFlush lib = (\<lambda>(p, w). case for_providers (flush_provider lib) (all_providers p) w of
     (es, w') \<Rightarrow> (join_errors es, p, w'))"

text \<open>The Shutdown of the two wrappers, which close the wrapped exporter once.\<close>

definition onceShutdownSpanExporter ::
  "sdk \<Rightarrow> 'r pipeline \<times> sdk_log \<Rightarrow> export_error option \<times> 'r pipeline \<times> sdk_log" where
  "onceShutdownSpanExporter lib = (\<lambda>(p, w). case pl_traceOnce p of
       Some err \<Rightarrow> (err, p, w)
     | None \<Rightarrow> (case sdk_do lib (CloseExporter TraceSignal) w of
           (e, w') \<Rightarrow> (map_option Foreign e, p\<lparr>pl_traceOnce := Some (map_option Foreign e)\<rparr>, w')))"

definition onceShutdownLogExporter ::
  "sdk \<Rightarrow> 'r pipeline \<times> sdk_log \<Rightarrow> export_error option \<times> 'r pipeline \<times> sdk_log" where
  "onceShutdownLogExporter lib = (\<lambda>(p, w). case pl_logOnce p of
       Some err \<Rightarrow> (err, p, w)
     | None \<Rightarrow> (case sdk_do lib (CloseExporter LogSignal) w of
           (e, w') \<Rightarrow> (map_option Foreign e, p\<lparr>pl_logOnce := Some (map_option Foreign e)\<rparr>, w')))"

text \<open>The Shutdown of the exporter that a provider was given; metrics have no wrapper.\<close>

fun close_for :: "sdk \<Rightarrow> provider \<Rightarrow> 'r pipeline \<times> sdk_log \<Rightarrow> export_error option \<times> 'r pipeline \<times> sdk_log" where
  "close_for lib TracerProvider st = onceShutdownSpanExporter lib st"
| "close_for lib (ServiceTracer _) st = onceShutdownSpanExporter lib st"
| "close_for lib LoggerProvider st = onceShutdownLogExporter lib st"
| "close_for lib (ServiceLogger _) st = onceShutdownLogExporter lib st"
| "close_for lib MeterProvider (p, w) = (case sdk_do lib (CloseExporter MetricSignal) w of
     (e, w') \<Rightarrow> (map_option Foreign e, p, w'))"

text \<open>The Shutdown of a provider: it stops, closes its exporter, and reports an error of its own or, if it
  does so, of the exporter.\<close>

definition stop_provider ::
  "sdk \<Rightarrow> provider \<Rightarrow> 'r pipeline \<times> sdk_log \<Rightarrow> export_error option \<times> 'r pipeline \<times> sdk_log" where
  "stop_provider lib q = (\<lambda>(p, w). case sdk_do lib (StopProvider q) w of
     (e, w1) \<Rightarrow> if \<not> sdk_closes lib q then (map_option Foreign e, p, w1)
       else (case close_for lib q (p, w1) of
         (e', st) \<Rightarrow> ((case e of None \<Rightarrow> if sdk_reports lib q then e' else None | Some err \<Rightarrow> Some (Foreign err)), st)))"

definition pipeline_Shutdown ::
  "sdk \<Rightarrow> 'r pipeline \<times> sdk_log \<Rightarrow> export_error option \<times> 'r pipeline \<times> sdk_log" where
  "pipeline_Shutdown lib st = (case pl_shutdownOnce (fst st) of
       Some err \<Rightarrow> (err, st)
     | None \<Rightarrow> (case for_providers (stop_provider lib) (all_providers (fst st)) st of
           (es, (p, w)) \<Rightarrow> (join_errors es, p\<lparr>pl_shutdownOnce := Some (join_errors es)\<rparr>, w)))"

section \<open>Profiles\<close>

text \<open>exporter/pyroscope.go. The name of a profile: the labels in the order of their keys.\<close>

definition sorted_entries :: "('v \<Rightarrow> string) \<Rightarrow> (string, 'v) gomap \<Rightarrow> (string \<times> string) list" where
  "sorted_entries f m = map (\<lambda>k. (k, case map_of m k of None \<Rightarrow> '''' | Some v \<Rightarrow> f v)) (sort_strings (map fst m))"

definition buildPyroscopeName :: "string \<Rightarrow> (string, string) gomap \<Rightarrow> string" where
  "buildPyroscopeName app labels =
     (if labels = [] then app
      else app @ ''{'' @ str_join '','' (map (\<lambda>(k, v). k @ ''='' @ v) (sorted_entries id labels)) @ ''}'')"

record pyroscope_push =
  py_AppName :: string
  py_Labels :: "(string, string) gomap"
  py_FromNanos :: int
  py_UntilNanos :: int
  py_SampleRate :: int
  py_Pprof :: string

text \<open>The request of PushProfile; the query is set on whatever query the endpoint has.\<close>

record profile_request =
  rq_url :: url
  rq_query :: "(string \<times> string) list"
  rq_headers :: "(string, string) gomap"
  rq_gzip :: bool
  rq_body :: string

definition profile_request_of :: "config \<Rightarrow> url \<Rightarrow> pyroscope_push \<Rightarrow> profile_request" where
  "profile_request_of c u p =
     \<lparr>rq_url = u,
      rq_query = [(''name'', buildPyroscopeName (py_AppName p) (py_Labels p)), (''from'', itoa (py_FromNanos p)),
        (''until'', itoa (py_UntilNanos p)), (''format'', ''pprof''), (''sampleRate'', itoa (py_SampleRate p))],
      rq_headers = (let h = fold (\<lambda>(k, v). AList.update k v) (case cfg_Headers c of None \<Rightarrow> [] | Some m \<Rightarrow> m)
            [(''Content-Type'', ''application/octet-stream'')]
          in if cfg_Compression c = ''gzip'' then AList.update ''Content-Encoding'' ''gzip'' h else h),
      rq_gzip = (cfg_Compression c = ''gzip''), rq_body = py_Pprof p\<rparr>"

text \<open>
  \<open>post\<close> is the HTTP client: an error on the left, a status code on the right. Building the request
  and compressing into a buffer have no error of their own here.
\<close>

definition PushProfile ::
  "platform \<Rightarrow> (profile_request \<Rightarrow> string + int) \<Rightarrow> config option \<Rightarrow> pyroscope_push \<Rightarrow> stats \<Rightarrow> export_error option \<times> stats" where
  "PushProfile pf post client p s = (case client of
       None \<Rightarrow> (None, s)
     | Some c \<Rightarrow> (case pf_url_Parse pf (trim_right (cfg_ProfilesEndpoint c) (CHR ''/'') @ ''/ingest'') of
           None \<Rightarrow> (Some (Foreign ''pyroscope ingest url''), s\<lparr>st_profilesFailed := wrap64 (st_profilesFailed s + 1)\<rparr>)
         | Some u \<Rightarrow> (case post (profile_request_of c u p) of
               Inl e \<Rightarrow> (Some (Wrapped ''pyroscope post'' (Foreign e)),
                 s\<lparr>st_profilesFailed := wrap64 (st_profilesFailed s + 1)\<rparr>)
             | Inr status \<Rightarrow>
                 if status < 200 \<or> status \<ge> 300
                 then (Some (Foreign (''pyroscope post: status '' @ itoa status)),
                   s\<lparr>st_profilesFailed := wrap64 (st_profilesFailed s + 1)\<rparr>)
                 else (None, s\<lparr>st_profilesExported := wrap64 (st_profilesExported s + 1)\<rparr>))))"

section \<open>What the counters count\<close>

text \<open>A batch of a signal handed to the wrapper of its exporter.\<close>

datatype batch = SpanBatch nat | MetricBatch "metric_data list list option" | LogBatch nat

fun export_batch :: "sdk \<Rightarrow> batch \<Rightarrow> stats \<times> sdk_log \<Rightarrow> string option \<times> stats \<times> sdk_log" where
  "export_batch lib (SpanBatch n) st = ExportSpans lib n st"
| "export_batch lib (MetricBatch rm) st = ExportMetrics lib rm st"
| "export_batch lib (LogBatch n) st = ExportLogs lib n st"

definition export_all :: "sdk \<Rightarrow> batch list \<Rightarrow> stats \<times> sdk_log \<Rightarrow> stats \<times> sdk_log" where
  "export_all lib bs st = fold (\<lambda>b st. snd (export_batch lib b st)) bs st"

text \<open>The items of a signal that the SDK took and the batches of it that failed, by the log.\<close>

definition taken :: "otlp_signal \<Rightarrow> sdk_log \<Rightarrow> nat" where
  "taken sig w = sum_list (map (\<lambda>(c, e). case c of ExportBatch s n \<Rightarrow> if s = sig \<and> e = None then n else 0 | _ \<Rightarrow> 0) w)"

definition failed :: "otlp_signal \<Rightarrow> sdk_log \<Rightarrow> nat" where
  "failed sig w = sum_list (map (\<lambda>(c, e). case c of ExportBatch s n \<Rightarrow> if s = sig \<and> e \<noteq> None then 1 else 0 | _ \<Rightarrow> 0) w)"

definition stats_of_log :: "sdk_log \<Rightarrow> stats" where
  "stats_of_log w = zero_stats\<lparr>st_tracesExported := wrap64 (int (taken TraceSignal w)),
     st_tracesFailed := wrap64 (int (failed TraceSignal w)), st_metricsExported := wrap64 (int (taken MetricSignal w)),
     st_metricsFailed := wrap64 (int (failed MetricSignal w)), st_logsExported := wrap64 (int (taken LogSignal w)),
     st_logsFailed := wrap64 (int (failed LogSignal w))\<rparr>"

lemma taken_snoc [simp]:
  "taken sig (w @ [(ExportBatch s n, e)]) = taken sig w + (if s = sig \<and> e = None then n else 0)"
  "failed sig (w @ [(ExportBatch s n, e)]) = failed sig w + (if s = sig \<and> e \<noteq> None then 1 else 0)"
  by (simp_all add: taken_def failed_def)

lemma export_batch_stats: "export_batch lib b (stats_of_log w, w) = (r, s', w') \<Longrightarrow> s' = stats_of_log w'"
  by (cases b) (auto simp: ExportSpans_def ExportMetrics_def ExportLogs_def sdk_do_def Let_def stats_of_log_def
      zero_stats_def add_ac split: option.splits)

text \<open>
  C32: the counters of a pipeline are determined by the exports: for each signal they are, modulo
  2^64, the number of spans, data points and records in the batches that were taken, and the number
  of batches that failed, whatever the order in which the signals export.
\<close>

theorem stats_account_for_exports:
  "fst (export_all lib bs (zero_stats, [])) = stats_of_log (snd (export_all lib bs (zero_stats, [])))"
proof -
  have "fst (fold (\<lambda>b st. snd (export_batch lib b st)) bs st) = stats_of_log (snd (fold (\<lambda>b st. snd (export_batch lib b st)) bs st))"
    if "fst st = stats_of_log (snd st)" for st
    using that
  proof (induction bs arbitrary: st)
    case (Cons b bs)
    obtain r s' w' where "export_batch lib b st = (r, s', w')" by (metis prod_cases3)
    moreover from this Cons.prems have "s' = stats_of_log w'"
      by (intro export_batch_stats [of lib b "snd st" r]) (metis prod.collapse)
    ultimately show ?case by (simp add: Cons.IH)
  qed simp
  moreover have "zero_stats = stats_of_log []" 
    by (simp add: stats_of_log_def zero_stats_def taken_def failed_def in_int64_def)
  ultimately show ?thesis by (simp add: export_all_def)
qed

end
