(* ===== verification/Exporter_Lifecycle.thy ===== *)
theory Exporter_Lifecycle
  imports Exporter_Pipeline
begin

text \<open>
  The life of a pipeline: what a failed construction leaves behind, and that over any sequence of
  operations each exporter is closed once, each provider made once and stopped at most once, and
  each Shutdown returns what the first one returned.
\<close>

section \<open>Counting calls\<close>

definition calls_to :: "sdk_call \<Rightarrow> sdk_log \<Rightarrow> nat" where
  "calls_to c w = count_list (map fst w) c"

fun opens :: "otlp_signal \<Rightarrow> sdk_call \<times> string option \<Rightarrow> bool" where
  "opens sig (NewExporter s _ _, None) = (s = sig)"
| "opens sig _ = False"

text \<open>The exporters that were built for a signal, and how often one was closed.\<close>

definition opened :: "otlp_signal \<Rightarrow> sdk_log \<Rightarrow> nat" where
  "opened sig w = length (filter (opens sig) w)"

definition shut :: "otlp_signal \<Rightarrow> sdk_log \<Rightarrow> nat" where
  "shut sig w = calls_to (CloseExporter sig) w"

lemma counts_append [simp]:
  "calls_to c (v @ w) = calls_to c v + calls_to c w" "opened sig (v @ w) = opened sig v + opened sig w"
  "shut sig (v @ w) = shut sig v + shut sig w"
  by (simp_all add: calls_to_def opened_def shut_def)

lemma counts_Cons [simp]:
  "calls_to c ((d, e) # w) = (if d = c then 1 else 0) + calls_to c w" "calls_to c [] = 0"
  "opened sig (ce # w) = (if opens sig ce then 1 else 0) + opened sig w" "opened sig [] = 0"
  "shut sig ((d, e) # w) = (if d = CloseExporter sig then 1 else 0) + shut sig w" "shut sig [] = 0"
  by (simp_all add: calls_to_def opened_def shut_def)

lemma sdk_do_eq: "sdk_do lib c w = (sdk_error lib w c, w @ [(c, sdk_error lib w c)])"
  by (simp add: sdk_do_def Let_def)

section \<open>Construction\<close>

lemma opens_iff: "opens sig (c, e) \<longleftrightarrow> e = None \<and> (\<exists>p os. c = NewExporter sig p os)"
  by (cases "(sig, c, e)" rule: opens.cases) auto

lemma new_exporter_counts:
  "new_exporter lib sig c tls ep w = (r, w') \<Longrightarrow>
   \<forall>s. opened s w' = opened s w + (if r = None \<and> s = sig then 1 else 0) \<and> shut s w' = shut s w"
  by (auto simp: new_exporter_def sdk_do_eq opens_iff split: if_splits)

lemma builder_counts:
  "buildTraceExporter pf lib c tls w = (r, w') \<Longrightarrow>
     \<forall>s. opened s w' = opened s w + (if r = None \<and> s = TraceSignal then 1 else 0) \<and> shut s w' = shut s w"
  "buildMetricExporter pf lib c tls w = (r, w') \<Longrightarrow>
     \<forall>s. opened s w' = opened s w + (if r = None \<and> s = MetricSignal then 1 else 0) \<and> shut s w' = shut s w"
  "buildLogExporter pf lib c tls w = (r, w') \<Longrightarrow>
     \<forall>s. opened s w' = opened s w + (if r = None \<and> s = LogSignal then 1 else 0) \<and> shut s w' = shut s w"
  by (auto simp: buildTraceExporter_def buildMetricExporter_def buildLogExporter_def split: prod.splits
      dest!: new_exporter_counts)

lemma buildResource_counts:
  "pipeline_buildResource lib c w = (r, w') \<Longrightarrow> \<forall>s. opened s w' = opened s w \<and> shut s w' = shut s w"
  by (auto simp: pipeline_buildResource_def sdk_do_eq opens_iff split: option.splits if_splits)

lemma close_exporter_counts [simp]:
  "opened s (close_exporter lib sig w) = opened s w"
  "shut s (close_exporter lib sig w) = shut s w + (if s = sig then 1 else 0)"
  by (auto simp: close_exporter_def sdk_do_eq opens_iff)

lemma newPipeline_counts:
  "newPipelineFromExporters lib c res pe w = (p, w') \<Longrightarrow>
   pl_cfg p = c \<and> (\<forall>s. opened s w' = opened s w \<and> shut s w' = shut s w)"
  by (auto simp: newPipelineFromExporters_def sdk_do_eq opens_iff Let_def)

lemma exporter_New_counts:
  assumes "visits_all pf" and "exporter_New pf lib cfg w = (r, w')"
  shows "case r of
      Inl err \<Rightarrow> (\<exists>stage inner. err = PipelineError stage (Some inner))
        \<and> (\<forall>s. shut s w' - shut s w = opened s w' - opened s w \<and> shut s w \<le> shut s w' \<and> opened s w \<le> opened s w')
    | Inr p \<Rightarrow> config_ok pf (pl_cfg p)
        \<and> (\<forall>s. opened s w' = opened s w + 1 \<and> shut s w' = shut s w)"
proof -
  let ?c = "fillDefaults cfg"
  show ?thesis
    using assms(2) Validate_ok_config [OF assms(1), of ?c]
    by (auto simp: exporter_New_def newWithExporterBuilders_def Let_def
        split: option.splits sum.splits prod.splits dest!: buildResource_counts builder_counts newPipeline_counts)
      (metis otlp_signal.exhaust)
qed

text \<open>
  C10: the construction of a pipeline leaks no exporter. When it fails, it fails with the stage that
  failed, and every exporter that an earlier stage built has been closed; when it succeeds, its
  configuration is valid, and one exporter per signal has been built and none closed.
\<close>

theorem exporter_New_no_leak:
  assumes "visits_all pf" and "exporter_New pf lib cfg w = (r, w')"
  shows "case r of
      Inl err \<Rightarrow> (\<exists>stage inner. err = PipelineError stage (Some inner))
        \<and> (\<forall>s. shut s w' - shut s w = opened s w' - opened s w)
    | Inr p \<Rightarrow> config_ok pf (pl_cfg p)
        \<and> (\<forall>s. opened s w' = opened s w + 1 \<and> shut s w' = shut s w)"
  using exporter_New_counts [OF assms] by (simp split: sum.splits)

section \<open>The operations of a pipeline\<close>

datatype 'r pipeline_op = OpTracer string 'r | OpLogger string 'r | OpFlush | OpShutdown

fun pipeline_step :: "sdk \<Rightarrow> 'r pipeline_op \<Rightarrow> 'r pipeline \<times> sdk_log \<Rightarrow> export_error option \<times> 'r pipeline \<times> sdk_log" where
  "pipeline_step lib (OpTracer key res) st = (None, snd (TracerProviderForService lib key res st))"
| "pipeline_step lib (OpLogger key res) st = (None, snd (LoggerProviderForService lib key res st))"
| "pipeline_step lib OpFlush st = ForceFlush lib st"
| "pipeline_step lib OpShutdown st = pipeline_Shutdown lib st"

fun run_ops :: "sdk \<Rightarrow> 'r pipeline_op list \<Rightarrow> 'r pipeline \<times> sdk_log \<Rightarrow> export_error option list \<times> 'r pipeline \<times> sdk_log" where
  "run_ops lib [] st = ([], st)"
| "run_ops lib (x # xs) st = (case pipeline_step lib x st of (r, st1) \<Rightarrow> (case run_ops lib xs st1 of
     (rs, st2) \<Rightarrow> (r # rs, st2)))"

definition is_tracer :: "provider \<Rightarrow> bool" where
  "is_tracer q \<longleftrightarrow> q = TracerProvider \<or> (\<exists>k. q = ServiceTracer k)"

definition is_logger :: "provider \<Rightarrow> bool" where
  "is_logger q \<longleftrightarrow> q = LoggerProvider \<or> (\<exists>k. q = ServiceLogger k)"

text \<open>What never changes: the settings and the providers.\<close>

definition same_providers :: "'r pipeline \<Rightarrow> 'r pipeline \<Rightarrow> bool" where
  "same_providers p p' \<longleftrightarrow> pl_svcTracers p' = pl_svcTracers p \<and> pl_svcLoggers p' = pl_svcLoggers p
     \<and> pl_shutdownOnce p' = pl_shutdownOnce p \<and> pl_cfg p' = pl_cfg p"

lemma stop_provider_step:
  assumes "stop_provider lib q (p, w) = (e, p', w')" and "\<forall>q. sdk_closes lib q"
  shows "same_providers p p'
    \<and> calls_to (StopProvider r) w' = calls_to (StopProvider r) w + (if r = q then 1 else 0)
    \<and> calls_to (NewProvider r) w' = calls_to (NewProvider r) w
    \<and> (pl_traceOnce p' = None \<longleftrightarrow> pl_traceOnce p = None \<and> \<not> is_tracer q)
    \<and> (pl_logOnce p' = None \<longleftrightarrow> pl_logOnce p = None \<and> \<not> is_logger q)
    \<and> shut TraceSignal w' = shut TraceSignal w + (if pl_traceOnce p = None \<and> is_tracer q then 1 else 0)
    \<and> shut LogSignal w' = shut LogSignal w + (if pl_logOnce p = None \<and> is_logger q then 1 else 0)
    \<and> shut MetricSignal w' = shut MetricSignal w + (if q = MeterProvider then 1 else 0)"
  using assms
  by (cases "(lib, q, (p, w))" rule: close_for.cases)
    (auto simp: stop_provider_def sdk_do_eq same_providers_def is_tracer_def is_logger_def
      onceShutdownSpanExporter_def onceShutdownLogExporter_def split: option.splits)

lemma stop_providers:
  assumes "\<forall>q. sdk_closes lib q"
  shows "for_providers (stop_provider lib) qs (p, w) = (es, p', w') \<Longrightarrow> same_providers p p'
    \<and> calls_to (StopProvider r) w' = calls_to (StopProvider r) w + count_list qs r
    \<and> calls_to (NewProvider r) w' = calls_to (NewProvider r) w
    \<and> (pl_traceOnce p' = None \<longleftrightarrow> pl_traceOnce p = None \<and> (\<forall>q \<in> set qs. \<not> is_tracer q))
    \<and> (pl_logOnce p' = None \<longleftrightarrow> pl_logOnce p = None \<and> (\<forall>q \<in> set qs. \<not> is_logger q))
    \<and> shut TraceSignal w' = shut TraceSignal w + (if pl_traceOnce p = None \<and> (\<exists>q \<in> set qs. is_tracer q) then 1 else 0)
    \<and> shut LogSignal w' = shut LogSignal w + (if pl_logOnce p = None \<and> (\<exists>q \<in> set qs. is_logger q) then 1 else 0)
    \<and> shut MetricSignal w' = shut MetricSignal w + count_list qs MeterProvider"
proof (induction qs arbitrary: p w es)
  case (Cons q qs)
  obtain e p1 w1 es1 where step: "stop_provider lib q (p, w) = (e, p1, w1)"
    and rest: "for_providers (stop_provider lib) qs (p1, w1) = (es1, p', w')"
    using Cons.prems by (auto split: prod.splits)
  note one = stop_provider_step [OF step assms, of r] and all = Cons.IH [OF rest]
  have "same_providers p p'" using one all by (simp add: same_providers_def)
  moreover have "pl_traceOnce p' = None \<longleftrightarrow> pl_traceOnce p = None \<and> (\<forall>q \<in> set (q # qs). \<not> is_tracer q)"
    "pl_logOnce p' = None \<longleftrightarrow> pl_logOnce p = None \<and> (\<forall>q \<in> set (q # qs). \<not> is_logger q)"
    using one all by simp_all
  moreover have "shut TraceSignal w' = shut TraceSignal w + (if pl_traceOnce p = None \<and> (\<exists>q \<in> set (q # qs). is_tracer q) then 1 else 0)"
    "shut LogSignal w' = shut LogSignal w + (if pl_logOnce p = None \<and> (\<exists>q \<in> set (q # qs). is_logger q) then 1 else 0)"
    using one all by simp_all
  moreover have "calls_to (StopProvider r) w' = calls_to (StopProvider r) w + count_list (q # qs) r"
    "shut MetricSignal w' = shut MetricSignal w + count_list (q # qs) MeterProvider"
    "calls_to (NewProvider r) w' = calls_to (NewProvider r) w" using one all by simp_all
  ultimately show ?case by blast
qed (simp add: same_providers_def)

lemma flush_providers:
  "for_providers (flush_provider lib) qs w = (es, w') \<Longrightarrow>
   (\<forall>r. calls_to (StopProvider r) w' = calls_to (StopProvider r) w \<and> calls_to (NewProvider r) w' = calls_to (NewProvider r) w)
   \<and> (\<forall>s. shut s w' = shut s w)"
  by (induction qs arbitrary: w es) (auto simp: flush_provider_def sdk_do_eq split: prod.splits)

section \<open>The invariant\<close>

text \<open>
  The providers that were made are those of the pipeline, each once; before the shutdown nothing is
  closed or stopped, after it every exporter was closed once and no provider stopped twice.
\<close>

definition pipeline_inv :: "'r pipeline \<Rightarrow> sdk_log \<Rightarrow> bool" where
  "pipeline_inv p w \<longleftrightarrow> gomap_ok (pl_svcTracers p) \<and> gomap_ok (pl_svcLoggers p)
     \<and> (\<forall>q. calls_to (NewProvider q) w = (if q \<in> set (all_providers p) then 1 else 0))
     \<and> (\<forall>s. shut s w = (if pl_shutdownOnce p = None then 0 else 1))
     \<and> (\<forall>q. calls_to (StopProvider q) w \<le> (if pl_shutdownOnce p = None then 0 else 1))
     \<and> (\<forall>q. calls_to (StopProvider q) w \<le> calls_to (NewProvider q) w)
     \<and> (pl_traceOnce p = None \<longleftrightarrow> pl_shutdownOnce p = None) \<and> (pl_logOnce p = None \<longleftrightarrow> pl_shutdownOnce p = None)"

lemma all_providers_iff:
  "q \<in> set (all_providers p) \<longleftrightarrow> q \<in> {TracerProvider, MeterProvider, LoggerProvider}
     \<or> (\<exists>k \<in> fst ` set (pl_svcTracers p). q = ServiceTracer k) \<or> (\<exists>k \<in> fst ` set (pl_svcLoggers p). q = ServiceLogger k)"
  by (auto simp: all_providers_def svcProviderSnapshot_def)

lemma distinct_all_providers:
  "gomap_ok (pl_svcTracers p) \<Longrightarrow> gomap_ok (pl_svcLoggers p) \<Longrightarrow> distinct (all_providers p)"
  by (auto simp: all_providers_def svcProviderSnapshot_def gomap_ok_def distinct_map inj_on_def)

lemma all_providers_same: "same_providers p p' \<Longrightarrow> set (all_providers p') = set (all_providers p)"
  by (auto simp: same_providers_def all_providers_iff)

lemma keys_update: "fst ` set (AList.update k v m) = insert k (fst ` set m)"
  using dom_update [of k v m] by (simp add: dom_map_of_conv_image_fst [symmetric] insert_commute)

lemma fresh_key: "map_of m k = None \<longleftrightarrow> k \<notin> fst ` set m"
  by (simp add: map_of_eq_None_iff)

lemma count_list_distinct: "distinct xs \<Longrightarrow> count_list xs x = (if x \<in> set xs then 1 else 0)"
  by (induction xs) auto

lemma new_pipeline_inv:
  assumes "exporter_New pf lib cfg [] = (Inr p, w)"
  shows "pipeline_inv p w \<and> pl_shutdownOnce p = None"
proof -
  have quiet: "calls_to (NewProvider q) w' = calls_to (NewProvider q) v \<and> calls_to (StopProvider q) w' = calls_to (StopProvider q) v
      \<and> shut s w' = shut s v"
    if "new_exporter lib sig c tls ep v = (None, w')" for q s sig c tls ep v w'
    using that by (auto simp: new_exporter_def sdk_do_eq split: if_splits)
  have resource: "calls_to (NewProvider q) w' = 0 \<and> calls_to (StopProvider q) w' = 0 \<and> shut s w' = 0"
    if "pipeline_buildResource lib c [] = (Inr res, w')" for q s c res w'
    using that by (auto simp: pipeline_buildResource_def sdk_do_eq split: option.splits if_splits)
  obtain c res tls pe w1 w2 w3 w4 where b: "pipeline_buildResource lib c [] = (Inr res, w1)"
    "buildTraceExporter pf lib c tls w1 = (None, w2)" "buildMetricExporter pf lib c tls w2 = (None, w3)"
    "buildLogExporter pf lib c tls w3 = (None, w4)" "newPipelineFromExporters lib c res pe w4 = (p, w)"
    using assms by (auto simp: exporter_New_def newWithExporterBuilders_def Let_def split: option.splits sum.splits prod.splits)
  have "calls_to (NewProvider q) w4 = 0 \<and> calls_to (StopProvider q) w4 = 0 \<and> shut s w4 = 0" for q s
    using resource [OF b(1), of q s] b(2-4)
    by (auto simp: buildTraceExporter_def buildMetricExporter_def buildLogExporter_def split: prod.splits
        dest!: quiet [where q = q and s = s])
  with b(5) show ?thesis
    by (auto simp: newPipelineFromExporters_def sdk_do_eq Let_def pipeline_inv_def all_providers_iff)
qed

lemma Shutdown_inv:
  assumes inv: "pipeline_inv p w" and closes: "\<forall>q. sdk_closes lib q"
    and run: "pipeline_Shutdown lib (p, w) = (r, p', w')"
  shows "pipeline_inv p' w' \<and> pl_shutdownOnce p' = Some r"
proof (cases "pl_shutdownOnce p")
  case None
  obtain es p1 w1 where stop: "for_providers (stop_provider lib) (all_providers p) (p, w) = (es, p1, w1)"
    by (metis prod_cases3)
  with None run have p': "p' = p1\<lparr>pl_shutdownOnce := Some (join_errors es)\<rparr>" "w' = w1" "r = join_errors es"
    by (auto simp: pipeline_Shutdown_def)
  note facts = stop_providers [OF closes stop]
  have count: "count_list (all_providers p) q = (if q \<in> set (all_providers p) then 1 else 0)" for q
    using inv by (intro count_list_distinct distinct_all_providers) (simp_all add: pipeline_inv_def)
  have same: "set (all_providers p') = set (all_providers p)" using facts unfolding p'
    by (auto simp: same_providers_def all_providers_iff)
  have ex: "\<exists>q \<in> set (all_providers p). is_tracer q" "\<exists>q \<in> set (all_providers p). is_logger q"
    "MeterProvider \<in> set (all_providers p)"
    by (auto simp: all_providers_def is_tracer_def is_logger_def)
  with facts have once: "pl_traceOnce p' \<noteq> None" "pl_logOnce p' \<noteq> None" unfolding p' by simp_all
  have shut: "shut s w' = 1" for s
    using facts inv None ex unfolding p' by (cases s) (simp_all add: pipeline_inv_def count)
  have "calls_to (StopProvider q) w' \<le> 1" "calls_to (StopProvider q) w' \<le> calls_to (NewProvider q) w'"
    "calls_to (NewProvider q) w' = (if q \<in> set (all_providers p) then 1 else 0)" for q
    using stop_providers [OF closes stop, of q] inv None unfolding p' by (simp_all add: pipeline_inv_def count)
  moreover have "pl_shutdownOnce p' = Some r" "gomap_ok (pl_svcTracers p')" "gomap_ok (pl_svcLoggers p')"
    using facts inv unfolding p' by (simp_all add: same_providers_def pipeline_inv_def)
  ultimately show ?thesis using once shut by (simp add: pipeline_inv_def same)
qed (use inv run in \<open>auto simp: pipeline_Shutdown_def\<close>)

lemma add_provider_inv:
  assumes "pipeline_inv p w" and "q \<notin> set (all_providers p)" and "set (all_providers p') = insert q (set (all_providers p))"
    and "gomap_ok (pl_svcTracers p')" "gomap_ok (pl_svcLoggers p')" and "pl_traceOnce p' = pl_traceOnce p"
    "pl_logOnce p' = pl_logOnce p" "pl_shutdownOnce p' = pl_shutdownOnce p"
  shows "pipeline_inv p' (w @ [(NewProvider q, e)])"
proof -
  have "calls_to (NewProvider r) (w @ [(NewProvider q, e)]) = (if r \<in> set (all_providers p') then 1 else 0)" for r
    using assms(1-3) by (auto simp: pipeline_inv_def)
  moreover have "calls_to (StopProvider r) (w @ [(NewProvider q, e)]) \<le> calls_to (NewProvider r) (w @ [(NewProvider q, e)])" for r
  proof -
    have "calls_to (StopProvider r) w \<le> calls_to (NewProvider r) w" using assms(1) unfolding pipeline_inv_def by blast
    then show ?thesis by simp
  qed
  ultimately show ?thesis using assms unfolding pipeline_inv_def by simp
qed

lemma step_inv:
  assumes inv: "pipeline_inv p w" and closes: "\<forall>q. sdk_closes lib q"
    and run: "pipeline_step lib x (p, w) = (r, p', w')"
  shows "pipeline_inv p' w'
    \<and> pl_shutdownOnce p' = (if x = OpShutdown then Some r else pl_shutdownOnce p)
    \<and> (pl_shutdownOnce p \<noteq> None \<longrightarrow> pl_shutdownOnce p' = pl_shutdownOnce p)"
proof (cases x)
  case (OpTracer key res)
  have "pipeline_inv (p\<lparr>pl_svcTracers := AList.update key res (pl_svcTracers p)\<rparr>) (w @ [(NewProvider (ServiceTracer key), e)])"
    if "map_of (pl_svcTracers p) key = None" for e
  proof (rule add_provider_inv [OF inv])
    show "ServiceTracer key \<notin> set (all_providers p)" using that by (auto simp: all_providers_iff fresh_key)
  qed (use inv in \<open>auto simp: all_providers_iff keys_update pipeline_inv_def\<close>)
  then show ?thesis
    using inv run OpTracer by (cases "map_of (pl_svcTracers p) key") (auto simp: TracerProviderForService_def sdk_do_eq)
next
  case (OpLogger key res)
  have "pipeline_inv (p\<lparr>pl_svcLoggers := AList.update key res (pl_svcLoggers p)\<rparr>) (w @ [(NewProvider (ServiceLogger key), e)])"
    if "map_of (pl_svcLoggers p) key = None" for e
  proof (rule add_provider_inv [OF inv])
    show "ServiceLogger key \<notin> set (all_providers p)" using that by (auto simp: all_providers_iff fresh_key)
  qed (use inv in \<open>auto simp: all_providers_iff keys_update pipeline_inv_def\<close>)
  then show ?thesis
    using inv run OpLogger by (cases "map_of (pl_svcLoggers p) key") (auto simp: LoggerProviderForService_def sdk_do_eq)
next
  case OpFlush
  then obtain es where "for_providers (flush_provider lib) (all_providers p) w = (es, w')" "p' = p"
    using run by (auto simp: ForceFlush_def split: prod.splits)
  from flush_providers [OF this(1)] have same: "calls_to (StopProvider q) w' = calls_to (StopProvider q) w"
    "calls_to (NewProvider q) w' = calls_to (NewProvider q) w" "shut s w' = shut s w" for q s by blast+
  have "pipeline_inv p w'" using inv unfolding pipeline_inv_def same .
  then show ?thesis using OpFlush \<open>p' = p\<close> by simp
next
  case OpShutdown
  with run Shutdown_inv [OF inv closes, of r p' w'] show ?thesis
    by (auto simp: pipeline_Shutdown_def split: option.splits)
qed

lemma run_inv:
  assumes "\<forall>q. sdk_closes lib q"
  shows "pipeline_inv p w \<Longrightarrow> run_ops lib xs (p, w) = (rs, p', w') \<Longrightarrow> pipeline_inv p' w'
    \<and> (pl_shutdownOnce p' = None \<longleftrightarrow> pl_shutdownOnce p = None \<and> OpShutdown \<notin> set xs)
    \<and> (pl_shutdownOnce p \<noteq> None \<longrightarrow> pl_shutdownOnce p' = pl_shutdownOnce p)
    \<and> length rs = length xs \<and> (\<forall>i < length xs. xs ! i = OpShutdown \<longrightarrow> pl_shutdownOnce p' = Some (rs ! i))"
proof (induction xs arbitrary: p w rs)
  case (Cons x xs)
  obtain r p1 w1 rs1 where step: "pipeline_step lib x (p, w) = (r, p1, w1)"
    and rest: "run_ops lib xs (p1, w1) = (rs1, p', w')" and rs: "rs = r # rs1"
    using Cons.prems(2) by (auto split: prod.splits)
  note one = step_inv [OF Cons.prems(1) assms step]
  then have "pipeline_inv p1 w1" by blast
  note all = Cons.IH [OF this rest]
  have "\<forall>i < length (x # xs). (x # xs) ! i = OpShutdown \<longrightarrow> pl_shutdownOnce p' = Some ((r # rs1) ! i)"
    using one all by (auto simp: nth_Cons less_Suc_eq_0_disj split: nat.split)
  with one all rs show ?case by (auto split: if_splits)
qed simp

text \<open>
  C5: over any sequence of operations on a new pipeline, each exporter is closed exactly once if the
  sequence contains a Shutdown and never otherwise, each provider is made at most once per service
  key and stopped at most once, and every Shutdown returns what the first one returned.
\<close>

theorem pipeline_lifecycle:
  assumes "\<forall>q. sdk_closes lib q" and "exporter_New pf lib cfg [] = (Inr p, w)"
    and "run_ops lib ops (p, w) = (rs, p', w')"
  shows "(\<forall>s. shut s w' = (if OpShutdown \<in> set ops then 1 else 0))
    \<and> (\<forall>q. calls_to (NewProvider q) w' \<le> 1 \<and> calls_to (StopProvider q) w' \<le> 1)
    \<and> (\<forall>i < length ops. \<forall>j < length ops. ops ! i = OpShutdown \<and> ops ! j = OpShutdown \<longrightarrow> rs ! i = rs ! j)"
proof -
  from new_pipeline_inv [OF assms(2)] have "pipeline_inv p w" "pl_shutdownOnce p = None" by simp_all
  note facts = run_inv [OF assms(1) this(1) assms(3)] this(2)
  have "rs ! i = rs ! j" if "i < length ops" "j < length ops" "ops ! i = OpShutdown" "ops ! j = OpShutdown" for i j
  proof -
    have "pl_shutdownOnce p' = Some (rs ! i)" "pl_shutdownOnce p' = Some (rs ! j)" using facts(1) that by blast+
    then show ?thesis by simp
  qed
  moreover have inv: "pipeline_inv p' w'" and once: "pl_shutdownOnce p' = None \<longleftrightarrow> OpShutdown \<notin> set ops"
    using facts by blast+
  moreover have "calls_to (NewProvider q) w' \<le> 1" "calls_to (StopProvider q) w' \<le> 1" for q
  proof -
    have "calls_to (NewProvider q) w' = (if q \<in> set (all_providers p') then 1 else 0)"
      "calls_to (StopProvider q) w' \<le> (if pl_shutdownOnce p' = None then 0 else 1)"
      using inv unfolding pipeline_inv_def by blast+
    then show "calls_to (NewProvider q) w' \<le> 1" "calls_to (StopProvider q) w' \<le> 1" by (simp_all split: if_splits)
  qed
  moreover have "shut s w' = (if OpShutdown \<in> set ops then 1 else 0)" for s
    using inv once by (simp add: pipeline_inv_def)
  ultimately show ?thesis by blast
qed

section \<open>Providers made too late\<close>

lemma run_late:
  assumes "\<forall>q. sdk_closes lib q" and "pipeline_inv p w" and "pl_shutdownOnce p \<noteq> None"
  shows "run_ops lib xs (p, w) = (rs, p', w') \<Longrightarrow> calls_to (StopProvider q) w' = calls_to (StopProvider q) w"
  using assms(2,3)
proof (induction xs arbitrary: p w rs)
  case (Cons x xs)
  obtain r p1 w1 rs1 where step: "pipeline_step lib x (p, w) = (r, p1, w1)"
    and rest: "run_ops lib xs (p1, w1) = (rs1, p', w')"
    using Cons.prems(1) by (auto split: prod.splits)
  have "calls_to (StopProvider q) w1 = calls_to (StopProvider q) w"
  proof (cases x)
    case OpFlush
    then obtain es where "for_providers (flush_provider lib) (all_providers p) w = (es, w1)"
      using step by (auto simp: ForceFlush_def split: prod.splits)
    from flush_providers [OF this] show ?thesis by simp
  next
    case OpShutdown
    with step Cons.prems(3) show ?thesis by (auto simp: pipeline_Shutdown_def)
  qed (use step in \<open>auto simp: TracerProviderForService_def LoggerProviderForService_def sdk_do_eq split: if_splits\<close>)
  with Cons.IH [OF rest] step_inv [OF Cons.prems(2) assms(1) step] Cons.prems(3) show ?case by simp
qed simp

lemma for_providers_grows:
  assumes "\<And>q s e s'. f q s = (e, s') \<Longrightarrow> calls_to c (g s) \<le> calls_to c (g s')"
  shows "for_providers f qs s = (es, s') \<Longrightarrow> calls_to c (g s) \<le> calls_to c (g s')"
proof (induction qs arbitrary: s es)
  case (Cons q qs)
  then obtain e s1 es1 where "f q s = (e, s1)" "for_providers f qs s1 = (es1, s')" by (auto split: prod.splits)
  with assms Cons.IH show ?case by (meson order.trans)
qed simp

lemma stop_grows: "stop_provider lib q s = (e, s') \<Longrightarrow> calls_to c (snd s) \<le> calls_to c (snd s')"
  by (cases s; cases q)
    (auto simp: stop_provider_def sdk_do_eq onceShutdownSpanExporter_def onceShutdownLogExporter_def
      split: option.splits if_splits)

lemma step_grows: "pipeline_step lib x s = (r, s') \<Longrightarrow> calls_to c (snd s) \<le> calls_to c (snd s')"
proof (cases x)
  case OpFlush
  moreover have "flush_provider lib q w = (e, w') \<Longrightarrow> calls_to c (id w) \<le> calls_to c (id w')" for q w e w'
    by (auto simp: flush_provider_def sdk_do_eq)
  ultimately show "pipeline_step lib x s = (r, s') \<Longrightarrow> ?thesis"
    by (auto simp: ForceFlush_def split: prod.splits dest!: for_providers_grows [where g = id and c = c, rotated])
next
  case OpShutdown
  then show "pipeline_step lib x s = (r, s') \<Longrightarrow> ?thesis"
    by (auto simp: pipeline_Shutdown_def split: option.splits prod.splits
        dest!: for_providers_grows [where g = snd and c = c, rotated] stop_grows [where c = c])
qed (auto simp: TracerProviderForService_def LoggerProviderForService_def sdk_do_eq split: if_splits prod.splits)

lemma run_grows: "run_ops lib xs s = (rs, p', w') \<Longrightarrow> calls_to c (snd s) \<le> calls_to c w'"
proof (induction xs arbitrary: s rs)
  case (Cons x xs)
  then obtain r s1 rs1 where "pipeline_step lib x s = (r, s1)" "run_ops lib xs s1 = (rs1, p', w')"
    by (auto split: prod.splits)
  with step_grows Cons.IH show ?case by (meson order.trans)
qed simp

text \<open>
  A provider that is asked for after the shutdown, as the synthesizer of a late iteration does,
  is made over the closed exporter and is never stopped, whatever operations follow.
\<close>

theorem late_provider_never_stopped:
  assumes "\<forall>q. sdk_closes lib q" and "exporter_New pf lib cfg [] = (Inr p, w)"
    and "run_ops lib ops (p, w) = (rs, p1, w1)" and "OpShutdown \<in> set ops" and "map_of (pl_svcTracers p1) key = None"
    and "run_ops lib (OpTracer key res # later) (p1, w1) = (rs', p2, w2)"
  shows "calls_to (NewProvider (ServiceTracer key)) w2 = 1 \<and> calls_to (StopProvider (ServiceTracer key)) w2 = 0"
proof -
  from new_pipeline_inv [OF assms(2)] have inv0: "pipeline_inv p w" by simp
  from run_inv [OF assms(1) inv0 assms(3)] assms(4) have inv1: "pipeline_inv p1 w1" and once: "pl_shutdownOnce p1 \<noteq> None"
    by auto
  have new: "ServiceTracer key \<notin> set (all_providers p1)" using assms(5) by (auto simp: all_providers_iff fresh_key)
  then have "calls_to (NewProvider (ServiceTracer key)) w1 = 0" using inv1 by (simp add: pipeline_inv_def)
  then have "calls_to (StopProvider (ServiceTracer key)) w1 = 0"
    using inv1 unfolding pipeline_inv_def by (metis le_zero_eq)
  with run_late [OF assms(1) inv1 once assms(6)] have stopped: "calls_to (StopProvider (ServiceTracer key)) w2 = 0" by simp
  define st where "st = snd (TracerProviderForService lib key res (p1, w1))"
  have st: "ServiceTracer key \<in> set (all_providers (fst st))"
    using assms(5) by (auto simp: st_def TracerProviderForService_def all_providers_iff keys_update)
  obtain r q1 v1 where step: "pipeline_step lib (OpTracer key res) (p1, w1) = (r, q1, v1)" by (metis prod_cases3)
  then have "st = (q1, v1)" by (simp add: st_def)
  obtain rs2 where rest: "run_ops lib later (q1, v1) = (rs2, p2, w2)" using assms(6) step by (auto split: prod.splits)
  have inv2: "pipeline_inv q1 v1" using step_inv [OF inv1 assms(1) step] by blast
  have "calls_to (NewProvider (ServiceTracer key)) v1 = 1"
    using st \<open>st = (q1, v1)\<close> inv2 by (simp add: pipeline_inv_def)
  moreover have "calls_to (NewProvider (ServiceTracer key)) v1 \<le> calls_to (NewProvider (ServiceTracer key)) w2"
    using run_grows [OF rest] by simp
  moreover have "calls_to (NewProvider (ServiceTracer key)) w2 \<le> 1"
    using run_inv [OF assms(1) inv2 rest] by (auto simp: pipeline_inv_def)
  ultimately show ?thesis using stopped by simp
qed

end
