(* ===== verification/Output_Convert.thy ===== *)
theory Output_Convert
  imports Exporter_Lifecycle
begin

text \<open>
  k6output/convert.go and the emitting half of k6output/output.go: the instrument of a k6 metric, the
  attributes of a sample and the cache that keeps them, and what one sample records. A metric API call
  that fails is answered by the parameter \<open>refuses\<close>.
\<close>

section \<open>Metrics\<close>

datatype k6_type = K6Counter | K6Gauge | K6Trend | K6Rate | K6Other int

datatype instrument_type = InstCounter | InstHistogram | InstGauge

record k6_spec =
  ks_k6Name :: string
  ks_otelName :: string
  ks_unit :: string
  ks_type :: instrument_type

definition knownK6Metrics :: "k6_spec list" where
  "knownK6Metrics = map (\<lambda>(k, o', u, t). \<lparr>ks_k6Name = k, ks_otelName = o', ks_unit = u, ks_type = t\<rparr>)
    [(''http_req_duration'', ''k6.http.request.duration'', ''ms'', InstHistogram),
     (''http_req_failed'', ''k6.http.request.failed.total'', ''{request}'', InstCounter),
     (''http_reqs'', ''k6.http.requests.total'', ''{request}'', InstCounter),
     (''iterations'', ''k6.iterations.total'', ''{iteration}'', InstCounter),
     (''iteration_duration'', ''k6.iteration.duration'', ''ms'', InstHistogram),
     (''vus'', ''k6.vus'', ''{vu}'', InstGauge),
     (''vus_max'', ''k6.vus.max'', ''{vu}'', InstGauge),
     (''data_sent'', ''k6.data.sent.total'', ''By'', InstCounter),
     (''data_received'', ''k6.data.received.total'', ''By'', InstCounter),
     (''checks'', ''k6.checks.total'', ''{check}'', InstCounter),
     (''group_duration'', ''k6.group.duration'', ''ms'', InstHistogram)]"

definition knownMetricSpec :: "string \<Rightarrow> k6_spec option" where
  "knownMetricSpec name = find (\<lambda>spec. ks_k6Name spec = name) knownK6Metrics"

definition k6UnitHint :: "string \<Rightarrow> string" where
  "k6UnitHint name = (case find (\<lambda>spec. ks_k6Name spec = name) knownK6Metrics of
       None \<Rightarrow> '''' | Some spec \<Rightarrow> ks_unit spec)"

definition dotted :: "string \<Rightarrow> string" where
  "dotted s = replace_all s (CHR ''_'') (CHR ''.'')"

definition stringsHasTotalSuffix :: "string \<Rightarrow> bool" where
  "stringsHasTotalSuffix name = has_suffix name ''.total''"

section \<open>Attributes\<close>

type_synonym tags = "(string, string) gomap"
type_synonym attribute_set = "(string \<times> string) list"

definition hashTags :: "tags \<Rightarrow> string" where
  "hashTags tags = concat (map (\<lambda>(k, v). k @ ''='' @ v @ '';'') (sorted_entries id tags))"

text \<open>The attributes in the order of their keys, which is how NewSet keeps them.\<close>

definition tagsToAttributes :: "tags \<Rightarrow> attribute_set" where
  "tagsToAttributes tags = map (\<lambda>(k, v). (''k6.tag.'' @ k, v)) (sorted_entries id tags)"

definition tag_cache_get :: "tags \<Rightarrow> (string, attribute_set) gomap \<Rightarrow> attribute_set \<times> (string, attribute_set) gomap" where
  "tag_cache_get tags cache = (case map_of cache (hashTags tags) of
       Some v \<Rightarrow> (v, cache)
     | None \<Rightarrow> (tagsToAttributes tags, AList.update (hashTags tags) (tagsToAttributes tags) cache))"

section \<open>Instruments\<close>

record k6_instrument =
  in_type :: instrument_type
  in_name :: string
  in_unit :: string

text \<open>The three sync.Maps, the cache, and what was recorded.\<close>

record emitter =
  em_counters :: "(string, k6_instrument) gomap"
  em_histograms :: "(string, k6_instrument) gomap"
  em_gauges :: "(string, k6_instrument) gomap"
  em_cache :: "(string, attribute_set) gomap"
  em_recorded :: "(k6_instrument \<times> f64 \<times> attribute_set) list"
  em_warnings :: "msg list"

definition zero_emitter :: emitter where
  "zero_emitter = \<lparr>em_counters = [], em_histograms = [], em_gauges = [], em_cache = [], em_recorded = [], em_warnings = []\<rparr>"

type_synonym refusal = "k6_instrument \<Rightarrow> bool"

text \<open>LoadOrStore.\<close>

definition load_or_store :: "'k \<Rightarrow> 'v \<Rightarrow> ('k, 'v) gomap \<Rightarrow> 'v \<times> ('k, 'v) gomap" where
  "load_or_store k v m = (case map_of m k of Some w \<Rightarrow> (w, m) | None \<Rightarrow> (v, AList.update k v m))"

definition buildInstrument ::
  "refusal \<Rightarrow> string \<Rightarrow> string \<Rightarrow> instrument_type \<Rightarrow> string \<Rightarrow> emitter \<Rightarrow> k6_instrument option \<times> emitter" where
  "buildInstrument refuses k6Name otelName t u em =
     (let inst = \<lparr>in_type = t, in_name = otelName, in_unit = u\<rparr> in
      if refuses inst then (None, em)
      else case t of
          InstCounter \<Rightarrow> (case load_or_store k6Name inst (em_counters em) of (a, m) \<Rightarrow> (Some a, em\<lparr>em_counters := m\<rparr>))
        | InstHistogram \<Rightarrow> (case load_or_store k6Name inst (em_histograms em) of (a, m) \<Rightarrow> (Some a, em\<lparr>em_histograms := m\<rparr>))
        | InstGauge \<Rightarrow> (case load_or_store k6Name inst (em_gauges em) of (a, m) \<Rightarrow> (Some a, em\<lparr>em_gauges := m\<rparr>)))"

definition warn :: "string \<Rightarrow> f64 fmt_arg list \<Rightarrow> emitter \<Rightarrow> emitter" where
  "warn f args em = em\<lparr>em_warnings := em_warnings em @ [Msg f args]\<rparr>"

definition buildLazyInstrument ::
  "refusal \<Rightarrow> string \<Rightarrow> string \<Rightarrow> instrument_type \<Rightarrow> string \<Rightarrow> emitter \<Rightarrow> k6_instrument option \<times> emitter" where
  "buildLazyInstrument refuses k6Name otelName t u em = (case buildInstrument refuses k6Name otelName t u em of
       (None, em) \<Rightarrow> (None, warn ''k6output: lazy build %s'' [AStr otelName] em)
     | (Some inst, em) \<Rightarrow> (Some inst, em))"

text \<open>The map of an instrument type.\<close>

fun instruments_of :: "instrument_type \<Rightarrow> emitter \<Rightarrow> (string, k6_instrument) gomap" where
  "instruments_of InstCounter em = em_counters em"
| "instruments_of InstHistogram em = em_histograms em"
| "instruments_of InstGauge em = em_gauges em"

definition lookup_or_build ::
  "refusal \<Rightarrow> string \<Rightarrow> string \<Rightarrow> instrument_type \<Rightarrow> string \<Rightarrow> emitter \<Rightarrow> k6_instrument option \<times> emitter" where
  "lookup_or_build refuses name otelName t u em = (case map_of (instruments_of t em) name of
       Some v \<Rightarrow> (Some v, em)
     | None \<Rightarrow> buildLazyInstrument refuses name otelName t u em)"

text \<open>\<open>started\<close> is False while there is no meter provider.\<close>

definition lookupOrBuildInstrument ::
  "refusal \<Rightarrow> bool \<Rightarrow> string \<Rightarrow> k6_type \<Rightarrow> string \<Rightarrow> emitter \<Rightarrow> k6_instrument option \<times> emitter" where
  "lookupOrBuildInstrument refuses started name k6Type u em =
     (if name = '''' \<or> \<not> started then (None, em)
      else case knownMetricSpec name of
          Some spec \<Rightarrow> lookup_or_build refuses name (ks_otelName spec) (ks_type spec) (ks_unit spec) em
        | None \<Rightarrow>
            (let otelName = ''k6.'' @ dotted name in
             case k6Type of
               K6Counter \<Rightarrow> lookup_or_build refuses name
                 (if stringsHasTotalSuffix otelName then otelName else otelName @ ''.total'') InstCounter u em
             | K6Rate \<Rightarrow> lookup_or_build refuses name (otelName @ ''.total'') InstCounter u em
             | K6Trend \<Rightarrow> lookup_or_build refuses name otelName InstHistogram u em
             | K6Gauge \<Rightarrow> lookup_or_build refuses name otelName InstGauge u em
             | K6Other _ \<Rightarrow> (None, warn ''k6output: unsupported k6 metric type'' [AStr name] em)))"

text \<open>buildKnownInstruments at the start; it stops at the first instrument that is refused.\<close>

fun build_known :: "refusal \<Rightarrow> k6_spec list \<Rightarrow> emitter \<Rightarrow> string option \<times> emitter" where
  "build_known refuses [] em = (None, em)"
| "build_known refuses (spec # specs) em =
     (case buildInstrument refuses (ks_k6Name spec) (ks_otelName spec) (ks_type spec) (ks_unit spec) em of
        (None, em) \<Rightarrow> (Some (ks_otelName spec), em)
      | (Some _, em) \<Rightarrow> build_known refuses specs em)"

definition buildKnownInstruments :: "refusal \<Rightarrow> emitter \<Rightarrow> string option \<times> emitter" where
  "buildKnownInstruments refuses em = build_known refuses knownK6Metrics em"

section \<open>Samples\<close>

text \<open>A sample; a nil metric is None, nil tags and empty tags are the empty map.\<close>

record sample =
  sm_metric :: "(string \<times> k6_type) option"
  sm_value :: f64
  sm_tags :: tags

text \<open>The value that a sample records, None when it records nothing.\<close>

definition sample_value :: "k6_type \<Rightarrow> f64 \<Rightarrow> f64 option" where
  "sample_value t v =
     (if t = K6Rate then (if feq v (Fin 0) then None else Some (Fin 1))
      else if t = K6Counter \<and> flt v (Fin 0) then None else Some v)"

definition emitSample :: "refusal \<Rightarrow> bool \<Rightarrow> sample \<Rightarrow> emitter \<Rightarrow> emitter" where
  "emitSample refuses started sm em = (case sm_metric sm of
       None \<Rightarrow> em
     | Some (name, t) \<Rightarrow> (case lookupOrBuildInstrument refuses started name t (k6UnitHint name) em of
           (None, em) \<Rightarrow> em
         | (Some inst, em) \<Rightarrow> (case sample_value t (sm_value sm) of
               None \<Rightarrow> em
             | Some v \<Rightarrow> (case tag_cache_get (sm_tags sm) (em_cache em) of
                   (attrs, cache) \<Rightarrow> em\<lparr>em_cache := cache, em_recorded := em_recorded em @ [(inst, v, attrs)]\<rparr>))))"

definition emitContainer :: "refusal \<Rightarrow> bool \<Rightarrow> sample list option \<Rightarrow> emitter \<Rightarrow> emitter" where
  "emitContainer refuses started container em = (case container of
       None \<Rightarrow> em
     | Some sms \<Rightarrow> fold (emitSample refuses started) sms em)"

section \<open>The cache of attribute sets\<close>

text \<open>Tags whose hash can be read back.\<close>

definition clean_tags :: "tags \<Rightarrow> bool" where
  "clean_tags tags \<longleftrightarrow> (\<forall>(k, v) \<in> set tags. CHR ''='' \<notin> set k \<and> CHR '';'' \<notin> set k \<and> CHR '';'' \<notin> set v)"

lemma sorted_entries_set: "(k, v) \<in> set (sorted_entries id m) \<Longrightarrow> (k, v) \<in> set m"
proof -
  assume "(k, v) \<in> set (sorted_entries id m)"
  then have k: "k \<in> fst ` set m" and v: "v = (case map_of m k of None \<Rightarrow> '''' | Some w \<Rightarrow> id w)"
    by (auto simp: sorted_entries_def)
  from k obtain w where "map_of m k = Some w" by (metis fresh_key not_None_eq)
  with v show ?thesis by (simp add: map_of_SomeD)
qed

definition entry_text :: "string \<times> string \<Rightarrow> string" where
  "entry_text kv = fst kv @ ''='' @ snd kv"

lemma hashTags_split:
  assumes "\<forall>(k, v) \<in> set es. CHR '';'' \<notin> set k \<and> CHR '';'' \<notin> set v"
  shows "str_split (CHR '';'') (concat (map (\<lambda>(k, v). k @ ''='' @ v @ '';'') es)) = map entry_text es @ [[]]"
  using assms
proof (induction es)
  case (Cons kv es)
  obtain k v where kv: "kv = (k, v)" by force
  have "CHR '';'' \<notin> set (entry_text kv)" using Cons.prems by (simp add: entry_text_def kv)
  then have "str_split (CHR '';'') (entry_text kv @ CHR '';'' # concat (map (\<lambda>(k, v). k @ ''='' @ v @ '';'') es))
      = entry_text kv # str_split (CHR '';'') (concat (map (\<lambda>(k, v). k @ ''='' @ v @ '';'') es))"
    by (rule str_split_cons)
  then show ?case using Cons by (simp add: kv entry_text_def)
qed simp

lemma entry_text_inj:
  "CHR ''='' \<notin> set (fst a) \<Longrightarrow> CHR ''='' \<notin> set (fst b) \<Longrightarrow> entry_text a = entry_text b \<Longrightarrow> a = b"
proof -
  assume a: "CHR ''='' \<notin> set (fst a)" and b: "CHR ''='' \<notin> set (fst b)" and eq: "entry_text a = entry_text b"
  have "str_cut ''='' (entry_text a) = Some (fst a, snd a)" using a by (simp add: entry_text_def str_cut_char)
  moreover have "str_cut ''='' (entry_text b) = Some (fst b, snd b)" using b by (simp add: entry_text_def str_cut_char)
  ultimately show "a = b" by (simp add: eq prod_eq_iff)
qed

lemma hashTags_inj:
  assumes "clean_tags s" and "clean_tags t" and "hashTags s = hashTags t"
  shows "tagsToAttributes s = tagsToAttributes t"
proof -
  have semi: "\<forall>(k, v) \<in> set (sorted_entries id m). CHR '';'' \<notin> set k \<and> CHR '';'' \<notin> set v"
    and eq: "\<forall>kv \<in> set (sorted_entries id m). CHR ''='' \<notin> set (fst kv)" if "clean_tags m" for m
    using that by (fastforce simp: clean_tags_def dest: sorted_entries_set)+
  from assms(3) have "map entry_text (sorted_entries id s) = map entry_text (sorted_entries id t)"
    using hashTags_split [OF semi [OF assms(1)]] hashTags_split [OF semi [OF assms(2)]] by (simp add: hashTags_def)
  then have "sorted_entries id s = sorted_entries id t"
    by (rule map_inj_on) (use eq [OF assms(1)] eq [OF assms(2)] in \<open>blast intro: inj_onI entry_text_inj\<close>)
  then show ?thesis by (simp add: tagsToAttributes_def)
qed

definition cache_ok :: "(string, attribute_set) gomap \<Rightarrow> bool" where
  "cache_ok cache \<longleftrightarrow> (\<forall>h a. map_of cache h = Some a \<longrightarrow> (\<exists>t. clean_tags t \<and> hashTags t = h \<and> a = tagsToAttributes t))"

lemma tag_cache_get_ok:
  assumes "cache_ok cache" and "clean_tags t"
  shows "fst (tag_cache_get t cache) = tagsToAttributes t \<and> cache_ok (snd (tag_cache_get t cache))"
proof (cases "map_of cache (hashTags t)")
  case None
  have "cache_ok (AList.update (hashTags t) (tagsToAttributes t) cache)"
    using assms by (auto simp: cache_ok_def update_conv')
  with None show ?thesis by (simp add: tag_cache_get_def)
next
  case (Some a)
  with assms(1) obtain s where "clean_tags s" "hashTags s = hashTags t" "a = tagsToAttributes s"
    unfolding cache_ok_def by blast
  with Some assms show ?thesis by (simp add: tag_cache_get_def hashTags_inj [of s t])
qed

text \<open>
  The hash under which the attributes of a sample are cached does not mark where a tag ends: two
  tag sets, of which one has a value that contains the separators, share an entry, and a sample with
  the one is exported with the attributes of the other.
\<close>

theorem tag_cache_collides:
  "\<exists>s t. gomap_ok s \<and> gomap_ok t \<and> tagsToAttributes s \<noteq> tagsToAttributes t
    \<and> fst (tag_cache_get t (snd (tag_cache_get s []))) = tagsToAttributes s"
proof (intro exI conjI)
  let ?s = "[(''b'', ''1;url=/q?a'')]" and ?t = "[(''b'', ''1''), (''url'', ''/q?a'')]"
  show "gomap_ok ?s" "gomap_ok ?t" by simp_all
  show "tagsToAttributes ?s \<noteq> tagsToAttributes ?t" by code_simp
  show "fst (tag_cache_get ?t (snd (tag_cache_get ?s []))) = tagsToAttributes ?s" by code_simp
qed

section \<open>What a run of samples records\<close>

text \<open>The instrument of a metric by its name and type alone.\<close>

definition instrument_for :: "string \<Rightarrow> k6_type \<Rightarrow> k6_instrument option" where
  "instrument_for name t = (case knownMetricSpec name of
       Some spec \<Rightarrow> Some \<lparr>in_type = ks_type spec, in_name = ks_otelName spec, in_unit = ks_unit spec\<rparr>
     | None \<Rightarrow> (let otelName = ''k6.'' @ dotted name in case t of
           K6Counter \<Rightarrow> Some \<lparr>in_type = InstCounter,
             in_name = (if stringsHasTotalSuffix otelName then otelName else otelName @ ''.total''), in_unit = ''''\<rparr>
         | K6Rate \<Rightarrow> Some \<lparr>in_type = InstCounter, in_name = otelName @ ''.total'', in_unit = ''''\<rparr>
         | K6Trend \<Rightarrow> Some \<lparr>in_type = InstHistogram, in_name = otelName, in_unit = ''''\<rparr>
         | K6Gauge \<Rightarrow> Some \<lparr>in_type = InstGauge, in_name = otelName, in_unit = ''''\<rparr>
         | K6Other _ \<Rightarrow> None))"

definition recorded_for :: "sample \<Rightarrow> (k6_instrument \<times> f64 \<times> attribute_set) list" where
  "recorded_for sm = (case sm_metric sm of
       None \<Rightarrow> []
     | Some (name, t) \<Rightarrow> if name = '''' then [] else (case instrument_for name t of
           None \<Rightarrow> []
         | Some inst \<Rightarrow> (case sample_value t (sm_value sm) of
               None \<Rightarrow> [] | Some v \<Rightarrow> [(inst, v, tagsToAttributes (sm_tags sm))])))"

text \<open>The instruments kept are those of the metrics, whose types are \<open>ty\<close>.\<close>

definition emitter_ok :: "(string \<Rightarrow> k6_type) \<Rightarrow> emitter \<Rightarrow> bool" where
  "emitter_ok ty em \<longleftrightarrow> cache_ok (em_cache em)
     \<and> (\<forall>T name v. map_of (instruments_of T em) name = Some v \<longrightarrow> instrument_for name (ty name) = Some v)"

lemma instruments_of_update [simp]:
  "instruments_of T (em\<lparr>em_counters := m\<rparr>) = (if T = InstCounter then m else instruments_of T em)"
  "instruments_of T (em\<lparr>em_histograms := m\<rparr>) = (if T = InstHistogram then m else instruments_of T em)"
  "instruments_of T (em\<lparr>em_gauges := m\<rparr>) = (if T = InstGauge then m else instruments_of T em)"
  "instruments_of T (em\<lparr>em_cache := c\<rparr>) = instruments_of T em"
  "instruments_of T (em\<lparr>em_recorded := r\<rparr>) = instruments_of T em"
  "instruments_of T (em\<lparr>em_warnings := ws\<rparr>) = instruments_of T em"
  "instruments_of T zero_emitter = []"
  by (cases T; simp add: zero_emitter_def)+

lemma lookup_or_build_ok:
  assumes "emitter_ok ty em" and "instrument_for name (ty name) = Some \<lparr>in_type = t, in_name = otelName, in_unit = u\<rparr>"
  shows "\<exists>em'. lookup_or_build (\<lambda>_. False) name otelName t u em
      = (Some \<lparr>in_type = t, in_name = otelName, in_unit = u\<rparr>, em')
    \<and> emitter_ok ty em' \<and> em_recorded em' = em_recorded em"
proof (cases "map_of (instruments_of t em) name")
  case None
  let ?inst = "\<lparr>in_type = t, in_name = otelName, in_unit = u\<rparr>"
  have keep: "emitter_ok ty em'" if "em_cache em' = em_cache em"
      "\<And>T. instruments_of T em' = (if T = t then AList.update name ?inst (instruments_of t em) else instruments_of T em)" for em'
    using assms that by (auto simp: emitter_ok_def update_conv' split: if_splits)
  show ?thesis
  proof (cases t)
    case InstCounter
    then have "emitter_ok ty (em\<lparr>em_counters := AList.update name ?inst (em_counters em)\<rparr>)"
      by (intro keep) simp_all
    with InstCounter None show ?thesis
      by (auto simp: lookup_or_build_def buildLazyInstrument_def buildInstrument_def load_or_store_def Let_def)
  next
    case InstHistogram
    then have "emitter_ok ty (em\<lparr>em_histograms := AList.update name ?inst (em_histograms em)\<rparr>)"
      by (intro keep) simp_all
    with InstHistogram None show ?thesis
      by (auto simp: lookup_or_build_def buildLazyInstrument_def buildInstrument_def load_or_store_def Let_def)
  next
    case InstGauge
    then have "emitter_ok ty (em\<lparr>em_gauges := AList.update name ?inst (em_gauges em)\<rparr>)"
      by (intro keep) simp_all
    with InstGauge None show ?thesis
      by (auto simp: lookup_or_build_def buildLazyInstrument_def buildInstrument_def load_or_store_def Let_def)
  qed
next
  case (Some v)
  with assms have "v = \<lparr>in_type = t, in_name = otelName, in_unit = u\<rparr>"
    unfolding emitter_ok_def by (metis option.inject)
  with Some assms(1) show ?thesis by (simp add: lookup_or_build_def)
qed

lemma unit_hint: "k6UnitHint name = (case knownMetricSpec name of None \<Rightarrow> '''' | Some spec \<Rightarrow> ks_unit spec)"
  by (simp add: k6UnitHint_def knownMetricSpec_def)

lemma lookupOrBuild_ok:
  assumes em: "emitter_ok ty em" and t: "t = ty name" and name: "name \<noteq> ''''"
  shows "\<exists>em'. lookupOrBuildInstrument (\<lambda>_. False) True name t (k6UnitHint name) em = (instrument_for name t, em')
    \<and> emitter_ok ty em' \<and> em_recorded em' = em_recorded em"
proof (cases "instrument_for name t")
  case None
  then obtain n where "knownMetricSpec name = None" "t = K6Other n"
    by (auto simp: instrument_for_def Let_def split: option.splits k6_type.splits)
  with None name em show ?thesis by (simp add: lookupOrBuildInstrument_def Let_def warn_def emitter_ok_def)
next
  case (Some inst)
  have "lookupOrBuildInstrument (\<lambda>_. False) True name t (k6UnitHint name) em
      = lookup_or_build (\<lambda>_. False) name (in_name inst) (in_type inst) (in_unit inst) em"
    using Some name by (auto simp: lookupOrBuildInstrument_def instrument_for_def Let_def unit_hint
        split: option.splits k6_type.splits if_splits)
  moreover have "\<lparr>in_type = in_type inst, in_name = in_name inst, in_unit = in_unit inst\<rparr> = inst" by simp
  ultimately show ?thesis
    using lookup_or_build_ok [OF em, of name "in_type inst" "in_name inst" "in_unit inst"] Some t by metis
qed

lemma emitSample_ok:
  assumes "emitter_ok ty em" and "clean_tags (sm_tags sm)" and "\<forall>name t. sm_metric sm = Some (name, t) \<longrightarrow> t = ty name"
  shows "emitter_ok ty (emitSample (\<lambda>_. False) True sm em)
    \<and> em_recorded (emitSample (\<lambda>_. False) True sm em) = em_recorded em @ recorded_for sm"
proof (cases "sm_metric sm")
  case (Some nt)
  obtain name t where nt: "nt = (name, t)" by force
  show ?thesis
  proof (cases "name = ''''")
    case False
    obtain em' where em': "lookupOrBuildInstrument (\<lambda>_. False) True name t (k6UnitHint name) em = (instrument_for name t, em')"
      "emitter_ok ty em'" "em_recorded em' = em_recorded em"
      using lookupOrBuild_ok [OF assms(1) _ False, of t] assms(3) Some nt by auto
    have cache: "fst (tag_cache_get (sm_tags sm) (em_cache em')) = tagsToAttributes (sm_tags sm)"
      "cache_ok (snd (tag_cache_get (sm_tags sm) (em_cache em')))"
      using tag_cache_get_ok [OF _ assms(2)] em'(2) by (auto simp: emitter_ok_def)
    have "emitter_ok ty (em'\<lparr>em_cache := c, em_recorded := r\<rparr>)" if "cache_ok c" for c r
      using that em'(2) by (simp add: emitter_ok_def)
    with em' cache Some nt False show ?thesis
      by (auto simp: emitSample_def recorded_for_def split: option.split prod.split)
  qed (use assms(1) Some nt in \<open>simp add: emitSample_def recorded_for_def lookupOrBuildInstrument_def\<close>)
qed (use assms(1) in \<open>simp add: emitSample_def recorded_for_def\<close>)

text \<open>
  C13: the instruments that are built on demand and the attribute sets that are cached are an
  optimisation only: a run of samples whose tags are free of the separators of the hash records, in
  order, for every sample the value that the rules for its type give, on the instrument that its name
  and type determine, with its own tags.
\<close>

theorem emitted_samples:
  assumes "\<forall>sm \<in> set sms. clean_tags (sm_tags sm) \<and> (\<forall>name t. sm_metric sm = Some (name, t) \<longrightarrow> t = ty name)"
  shows "em_recorded (fold (emitSample (\<lambda>_. False) True) sms zero_emitter) = concat (map recorded_for sms)"
proof -
  have "em_recorded (fold (emitSample (\<lambda>_. False) True) sms em) = em_recorded em @ concat (map recorded_for sms)"
    if "emitter_ok ty em" for em
    using assms that
  proof (induction sms arbitrary: em)
    case (Cons sm sms)
    with emitSample_ok [of ty em sm] show ?case by simp
  qed simp
  moreover have "emitter_ok ty zero_emitter"
    by (simp add: emitter_ok_def) (simp add: cache_ok_def zero_emitter_def)
  ultimately show ?thesis by (simp add: zero_emitter_def)
qed

end
