(* ===== verification/Once.thy ===== *)
theory Once
  imports Prelude
begin

text \<open>
  The contract of a sync.Once whose first run leaves a result: the operation returns what it left,
  and once it has left a result it returns that and changes nothing. The shutdown of a pipeline, the
  shared pipeline and the loading of a topology are such operations.
\<close>

text \<open>Calls of an operation with the given arguments, one after the other.\<close>

primrec run_all :: "('a \<Rightarrow> 's \<Rightarrow> 'r \<times> 's) \<Rightarrow> 'a list \<Rightarrow> 's \<Rightarrow> 'r list \<times> 's" where
  "run_all f [] s = ([], s)"
| "run_all f (a # as) s = (case f a s of (r, s1) \<Rightarrow> (case run_all f as s1 of (rs, s2) \<Rightarrow> (r # rs, s2)))"

locale once =
  fixes run :: "'a \<Rightarrow> 's \<Rightarrow> 'r \<times> 's" and left :: "'s \<Rightarrow> 'r option"
  assumes leaves: "left (snd (run a s)) = Some (fst (run a s))"
    and again: "left s = Some r \<Longrightarrow> run a s = (r, s)"
begin

lemma run_all_left: "left s = Some r \<Longrightarrow> run_all run as s = (replicate (length as) r, s)"
  by (induction as) (simp_all add: again)

text \<open>Only the first call runs; the others return its result.\<close>

lemma run_all_first:
  "run_all run (a # as) s = (replicate (Suc (length as)) (fst (run a s)), snd (run a s))"
  by (simp add: run_all_left [OF leaves] split: prod.split) (metis leaves run_all_left prod.sel)

end

end
