(* ===== verification/Exporter_Shared.thy ===== *)
theory Exporter_Shared
  imports Exporter_Lifecycle Once
begin

text \<open>
  exporter/shared.go: the process-wide pipeline, made by the first caller. The state is the holder
  and the state that the factories of the callers work on; a nil factory and a nil pipeline are None.
  The mutex makes each operation atomic.
\<close>

record 'p shared =
  sh_once :: bool
  sh_pipeline :: "'p option"
  sh_initErr :: "export_error option"

definition zero_shared :: "'p shared" where
  "zero_shared = \<lparr>sh_once = False, sh_pipeline = None, sh_initErr = None\<rparr>"

type_synonym ('p, 's) factory = "('s \<Rightarrow> (export_error + 'p option) \<times> 's) option"

definition GetShared ::
  "('p, 's) factory \<Rightarrow> 'p shared \<times> 's \<Rightarrow> ('p option \<times> export_error option) \<times> 'p shared \<times> 's" where
  "GetShared factory = (\<lambda>(h, s).
     let (h, s) = (if sh_once h then (h, s)
         else (let h = h\<lparr>sh_once := True\<rparr> in case factory of
             None \<Rightarrow> (h\<lparr>sh_initErr := Some (SharedError ''not_set'' None)\<rparr>, s)
           | Some f \<Rightarrow> (case f s of
                 (Inl err, s) \<Rightarrow> (h\<lparr>sh_initErr := Some (SharedError ''init_failed'' (Some err))\<rparr>, s)
               | (Inr None, s) \<Rightarrow> (h\<lparr>sh_initErr := Some (SharedError ''not_set'' None)\<rparr>, s)
               | (Inr (Some p), s) \<Rightarrow> (h\<lparr>sh_pipeline := Some p\<rparr>, s))))
     in ((sh_pipeline h, sh_initErr h), h, s))"

definition SetShared :: "'p option \<Rightarrow> 'p shared \<times> 's \<Rightarrow> export_error option \<times> 'p shared \<times> 's" where
  "SetShared p = (\<lambda>(h, s). case p of
       None \<Rightarrow> (Some (SharedError ''not_set'' None), h, s)
     | Some _ \<Rightarrow>
         if sh_once h then (Some (SharedError ''already_initialized'' (sh_initErr h)), h, s)
         else (None, h\<lparr>sh_once := True, sh_pipeline := p\<rparr>, s))"

definition ResetShared :: "'p shared \<times> 's \<Rightarrow> 'p shared \<times> 's" where
  "ResetShared = (\<lambda>(h, s). (h\<lparr>sh_once := False, sh_pipeline := None, sh_initErr := None\<rparr>, s))"

section \<open>Once\<close>

text \<open>What the holder has left: the pipeline or the error.\<close>

definition shared_left :: "'p shared \<times> 's \<Rightarrow> ('p option \<times> export_error option) option" where
  "shared_left st = (if sh_once (fst st) then Some (sh_pipeline (fst st), sh_initErr (fst st)) else None)"

interpretation shared_once: once GetShared shared_left
  by unfold_locales (auto simp: GetShared_def shared_left_def Let_def split: option.splits prod.splits sum.splits)

interpretation shutdown_once: once "\<lambda>_. pipeline_Shutdown lib" "\<lambda>st. pl_shutdownOnce (fst st)" for lib
  by unfold_locales (auto simp: pipeline_Shutdown_def split: option.splits prod.splits)

text \<open>The holder has either nothing, a pipeline or an error.\<close>

definition shared_ok :: "'p shared \<Rightarrow> bool" where
  "shared_ok h \<longleftrightarrow> (if sh_once h then (sh_pipeline h = None) \<noteq> (sh_initErr h = None)
     else sh_pipeline h = None \<and> sh_initErr h = None)"

lemma shared_ok_zero [simp]: "shared_ok zero_shared"
  by (simp add: shared_ok_def zero_shared_def)

lemma GetShared_ok: "shared_ok (fst st) \<Longrightarrow> shared_ok (fst (snd (GetShared f st)))"
  by (cases st) (auto simp: GetShared_def shared_ok_def Let_def split: option.splits prod.splits sum.splits)

lemma SetShared_ok: "shared_ok (fst st) \<Longrightarrow> shared_ok (fst (snd (SetShared p st)))"
  by (cases st) (auto simp: SetShared_def shared_ok_def split: option.splits)

text \<open>
  C30: all callers share one pipeline. However many callers there are and whatever factories they
  bring, only the factory of the first one runs, a failed or missing factory is not retried, every
  caller gets the same pipeline or the same error but never both, and the pipeline can no longer be
  replaced.
\<close>

theorem GetShared_shares:
  assumes "shared_ok h" and "run_all GetShared (f # fs) (h, s) = (rs, h', s')"
  shows "\<exists>p err. rs = replicate (Suc (length fs)) (p, err) \<and> (p = None) \<noteq> (err = None)
    \<and> (h', s') = snd (GetShared f (h, s))
    \<and> SetShared (Some q) (h', s') = (Some (SharedError ''already_initialized'' err), h', s')"
proof -
  from assms(2) have rs: "rs = replicate (Suc (length fs)) (fst (GetShared f (h, s)))"
    and h': "(h', s') = snd (GetShared f (h, s))" by (simp_all only: shared_once.run_all_first prod.inject)
  from GetShared_ok [of "(h, s)" f] assms(1) have ok: "shared_ok h'" by (simp flip: h')
  from shared_once.leaves [of f "(h, s)"] have "shared_left (h', s') = Some (fst (GetShared f (h, s)))" by (simp add: h')
  with ok have "sh_once h'" "fst (GetShared f (h, s)) = (sh_pipeline h', sh_initErr h')"
    "(sh_pipeline h' = None) \<noteq> (sh_initErr h' = None)"
    by (auto simp: shared_left_def shared_ok_def split: if_splits)
  moreover from this(1) have "SetShared (Some q) (h', s') = (Some (SharedError ''already_initialized'' (sh_initErr h')), h', s')"
    by (simp add: SetShared_def)
  ultimately show ?thesis using rs h' by metis
qed

end
