(* ===== verification/Output_Life.thy ===== *)
theory Output_Life
  imports Output_Params Output_Convert Exporter_Shared
begin

text \<open>
  The life of the k6 output in k6output/output.go: New, Start, Description and Stop. The state of an
  operation is the output, the holder of the shared pipeline and the log of the SDK. The queue and the
  goroutine that Start makes are the subject of \<open>Output_Queue\<close>, the samples it emits that of
  \<open>Output_Convert\<close>. The host name, the versions, the answers of the metric API and the
  outcome of the waits and flushes of Stop are parameters.
\<close>

record host =
  ho_otelVersion :: string
  ho_goVersion :: string
  ho_buildVersion :: string
  ho_hostname :: "string option"
  ho_refuses :: refusal
  ho_flushStops :: bool
  ho_meterFlush :: "string option"

section \<open>Construction\<close>

text \<open>\<open>filepath.Base\<close>.\<close>

definition path_base :: "string \<Rightarrow> string" where
  "path_base path = (let p = trim_right path (CHR ''/'') in
     if path = '''' then ''.'' else if p = '''' then ''/''
     else rev (takeWhile (\<lambda>c. c \<noteq> CHR ''/'') (rev p)))"

definition buildRunnerResource :: "host \<Rightarrow> string option \<Rightarrow> (string \<times> string) list" where
  "buildRunnerResource ho script =
     [(''service.name'', ''xk6-otel-gen-runner''), (''telemetry.sdk.name'', ''opentelemetry''),
      (''telemetry.sdk.language'', ''go''), (''telemetry.sdk.version'', ho_otelVersion ho),
      (''process.runtime.name'', ''go''), (''process.runtime.version'', ho_goVersion ho)]
     @ (if ho_buildVersion ho \<noteq> '''' then [(''service.version'', ho_buildVersion ho)] else [])
     @ (case script of None \<Rightarrow> [] | Some path \<Rightarrow> if path \<noteq> '''' then [(''k6.test.name'', path_base path)] else [])
     @ (case ho_hostname ho of None \<Rightarrow> [] | Some h \<Rightarrow> if h \<noteq> '''' then [(''host.name'', h)] else [])"

text \<open>
  The output. \<open>ou_started\<close> is startOnce with startErr; \<open>ou_pipeline\<close>, \<open>ou_meter\<close> and
  \<open>ou_running\<close> tell which of the fields that Start sets are not nil; \<open>ou_drops\<close> is the counter
  of the queue when Stop reads it.
\<close>

record k6_output =
  ou_params :: params
  ou_resource :: "(string \<times> string) list"
  ou_started :: "export_error option option"
  ou_stopped :: bool
  ou_pipeline :: bool
  ou_meter :: bool
  ou_running :: bool
  ou_emitter :: emitter
  ou_drops :: nat
  ou_messages :: "msg list"

definition output_New :: "platform \<Rightarrow> host \<Rightarrow> string \<Rightarrow> string option \<Rightarrow> output_error + k6_output" where
  "output_New pf ho configArgument script = (case parseOutArgs pf configArgument of
       Inl e \<Rightarrow> Inl e
     | Inr p \<Rightarrow> Inr \<lparr>ou_params = (case script of None \<Rightarrow> p | Some path \<Rightarrow> p\<lparr>pa_ScriptPath := path\<rparr>),
         ou_resource = buildRunnerResource ho script, ou_started = None, ou_stopped = False, ou_pipeline = False,
         ou_meter = False, ou_running = False, ou_emitter = zero_emitter, ou_drops = 0, ou_messages = []\<rparr>)"

definition Description :: "platform \<Rightarrow> k6_output option \<Rightarrow> string" where
  "Description pf p = (case p of
       None \<Rightarrow> ''k6 native metrics to OTLP/Metrics via xk6-otel-gen''
     | Some o' \<Rightarrow> (case ResolveEndpoints pf (zero_config\<lparr>cfg_Protocol := pa_Protocol (ou_params o'),
           cfg_Endpoint := pa_Endpoint (ou_params o'), cfg_MetricsEndpoint := pa_MetricsEndpoint (ou_params o')\<rparr>) of
         (_, metricsEndpoint, _) \<Rightarrow>
           ''k6 native metrics to OTLP/Metrics via xk6-otel-gen (endpoint='' @ metricsEndpoint @ '')''))"

section \<open>Start\<close>

type_synonym 'r output_state = "k6_output \<times> 'r pipeline shared \<times> sdk_log"

text \<open>The factory that Start hands to GetShared.\<close>

definition pipeline_factory :: "platform \<Rightarrow> sdk \<Rightarrow> config \<Rightarrow> ('r pipeline, sdk_log) factory" where
  "pipeline_factory pf lib cfg = Some (\<lambda>w. case exporter_New pf lib cfg w of
     (Inl e, w) \<Rightarrow> (Inl e, w) | (Inr p, w) \<Rightarrow> (Inr (Some p), w))"

definition start_once :: "platform \<Rightarrow> sdk \<Rightarrow> host \<Rightarrow> 'r output_state \<Rightarrow> export_error option \<times> 'r output_state" where
  "start_once pf lib ho = (\<lambda>(ou, h, w).
     case GetShared (pipeline_factory pf lib (buildPipelineConfig pf (ou_params ou))) (h, w) of
       ((_, Some err), h, w) \<Rightarrow> (Some (Wrapped ''k6output: pipeline init'' err), ou, h, w)
     | ((_, None), h, w) \<Rightarrow>
         (let ou = ou\<lparr>ou_pipeline := True, ou_meter := True\<rparr> in
          case buildKnownInstruments (ho_refuses ho) (ou_emitter ou) of
            (Some otelName, em) \<Rightarrow>
              (Some (Wrapped ''k6output: instruments'' (Foreign (''build '' @ otelName))), ou\<lparr>ou_emitter := em\<rparr>, h, w)
          | (None, em) \<Rightarrow> (None, ou\<lparr>ou_emitter := em, ou_running := True\<rparr>, h, w)))"

definition output_Start :: "platform \<Rightarrow> sdk \<Rightarrow> host \<Rightarrow> 'r output_state \<Rightarrow> export_error option \<times> 'r output_state" where
  "output_Start pf lib ho st = (case ou_started (fst st) of
       Some err \<Rightarrow> (err, st)
     | None \<Rightarrow> (case start_once pf lib ho st of (err, ou, h, w) \<Rightarrow> (err, ou\<lparr>ou_started := Some err\<rparr>, h, w)))"

section \<open>Stop\<close>

text \<open>The Shutdown of the pipeline that the holder shares.\<close>

definition shutdown_shared :: "sdk \<Rightarrow> 'r pipeline shared \<times> sdk_log \<Rightarrow> export_error option \<times> 'r pipeline shared \<times> sdk_log" where
  "shutdown_shared lib = (\<lambda>(h, w). case sh_pipeline h of
       None \<Rightarrow> (None, h, w)
     | Some p \<Rightarrow> (case pipeline_Shutdown lib (p, w) of (r, p', w') \<Rightarrow> (r, h\<lparr>sh_pipeline := Some p'\<rparr>, w')))"

text \<open>What Stop logs, in order: the two warnings, the error of the shutdown, and the drops.\<close>

definition stop_messages :: "host \<Rightarrow> k6_output \<Rightarrow> export_error option \<Rightarrow> msg list" where
  "stop_messages ho ou e =
     (if ou_running ou \<and> \<not> ho_flushStops ho then [Msg ''k6output: flush loop did not stop within %s'' [ADur (5 * second)]] else [])
     @ (if ou_meter ou then (case ho_meterFlush ho of None \<Rightarrow> []
          | Some e \<Rightarrow> [Msg ''k6output: runner metric flush: %v'' [AStr e]]) else [])
     @ (if e \<noteq> None then [Msg ''k6output: Shutdown: %v'' []] else [])
     @ [Msg ''k6output: final stats: queue_drops=%d'' [AInt (int (ou_drops ou))]]"

definition output_Stop :: "sdk \<Rightarrow> host \<Rightarrow> 'r output_state \<Rightarrow> export_error option \<times> 'r output_state" where
  "output_Stop lib ho = (\<lambda>(ou, h, w).
     if ou_stopped ou then (None, ou, h, w)
     else (case if ou_pipeline ou then shutdown_shared lib (h, w) else (None, h, w) of
       (e, h, w) \<Rightarrow> (None, ou\<lparr>ou_stopped := True, ou_messages := ou_messages ou @ stop_messages ho ou e\<rparr>, h, w)))"

interpretation start_once: once "\<lambda>_. output_Start pf lib ho" "\<lambda>st. ou_started (fst st)" for pf lib ho
  by unfold_locales (auto simp: output_Start_def split: option.splits prod.splits)

interpretation stop_once: once "\<lambda>_. output_Stop lib ho" "\<lambda>st. if ou_stopped (fst st) then Some None else None" for lib ho
  by unfold_locales (auto simp: output_Stop_def split: prod.splits)

section \<open>Starting and stopping\<close>

lemma GetShared_zero_cases:
  "GetShared (pipeline_factory pf lib cfg) (zero_shared, w) = (case exporter_New pf lib cfg w of
     (Inl e, w') \<Rightarrow> ((None, Some (SharedError ''init_failed'' (Some e))),
       \<lparr>sh_once = True, sh_pipeline = None, sh_initErr = Some (SharedError ''init_failed'' (Some e))\<rparr>, w')
   | (Inr p, w') \<Rightarrow> ((Some p, None), \<lparr>sh_once = True, sh_pipeline = Some p, sh_initErr = None\<rparr>, w'))"
  by (simp add: GetShared_def zero_shared_def pipeline_factory_def split: prod.split sum.split)

lemma Stop_pipeline:
  assumes "\<not> ou_stopped ou"
  shows "snd (snd (output_Stop lib ho (ou, h, w))) = (if ou_pipeline ou then snd (shutdown_shared lib (h, w)) else (h, w))
    \<and> fst (output_Stop lib ho (ou, h, w)) = None \<and> ou_stopped (fst (snd (output_Stop lib ho (ou, h, w))))"
  using assms by (auto simp: output_Stop_def split: prod.splits)

lemma pipeline_shut_all:
  assumes "pipeline_inv p w" and "\<forall>q. sdk_closes lib q" and "pipeline_Shutdown lib (p, w) = (r, p', w')"
  shows "shut s w' = 1"
  using Shutdown_inv [OF assms] by (simp add: pipeline_inv_def)

text \<open>The log grows by calls that open nothing.\<close>

lemma Shutdown_opens_nothing:
  assumes "pipeline_Shutdown lib (p, w) = (r, p', w')"
  shows "opened s w' = opened s w"
proof -
  have one: "stop_provider lib q st = (e, st') \<Longrightarrow> opened s (snd st') = opened s (snd st)" for q e and st st' :: "'a pipeline \<times> sdk_log"
    by (cases st; cases q) (auto simp: stop_provider_def sdk_do_eq opens_iff onceShutdownSpanExporter_def
        onceShutdownLogExporter_def split: option.splits if_splits)
  have "for_providers (stop_provider lib) qs st = (es, st') \<Longrightarrow> opened s (snd st') = opened s (snd st)"
    for qs es and st st' :: "'a pipeline \<times> sdk_log"
    by (induction qs arbitrary: st es) (auto split: prod.splits dest!: one)
  from this [of "all_providers p" "(p, w)"] assms show ?thesis
    by (auto simp: pipeline_Shutdown_def split: option.splits prod.splits)
qed

text \<open>
  C9: a k6 run with the output leaves nothing open. Start returns the same error however often it is
  called, Stop never returns an error, and after a Start and any number of Stops every exporter that
  was built is closed exactly as often as it was built, whether the pipeline could not be built, an
  instrument was refused, or the run went through.
\<close>

theorem output_leaves_nothing_open:
  assumes "visits_all pf" and "\<forall>q. sdk_closes lib q" and "output_New pf ho arg script = Inr ou"
    and "run_all (\<lambda>_. output_Start pf lib ho) (replicate (Suc m) ()) (ou, zero_shared :: 'r pipeline shared, []) = (errs, st)"
    and "run_all (\<lambda>_. output_Stop lib ho) (replicate (Suc n) ()) st = (rs, ou', h, w)"
  shows "(\<exists>err. errs = replicate (Suc m) err) \<and> rs = replicate (Suc n) None \<and> (\<forall>s. shut s w = opened s w)"
proof -
  have ou: "ou_started ou = None" "\<not> ou_stopped ou" "\<not> ou_pipeline ou"
    using assms(3) by (auto simp: output_New_def split: sum.splits)
  obtain err ou1 h1 w1 where start: "output_Start pf lib ho (ou, zero_shared :: 'r pipeline shared, []) = (err, ou1, h1, w1)"
    by (metis prod_cases4)
  then have errs: "errs = replicate (Suc m) err" "st = (ou1, h1, w1)"
    using assms(4) start_once.run_all_first [of pf lib ho "()" "replicate m ()" "(ou, zero_shared :: 'r pipeline shared, [])"] by simp_all
  let ?cfg = "buildPipelineConfig pf (ou_params ou)"
  obtain r0 w0 where new: "exporter_New pf lib ?cfg [] = (r0 :: export_error + 'r pipeline, w0)" by force
  note counts = exporter_New_counts [OF assms(1) new]
  have stop: "(h, w) = (if ou_pipeline ou1 then snd (shutdown_shared lib (h1, w1)) else (h1, w1))" "rs = replicate (Suc n) None"
  proof -
    have "\<not> ou_stopped ou1"
      using start ou by (auto simp: output_Start_def start_once_def Let_def split: prod.splits option.splits)
    note stop = Stop_pipeline [OF this, of lib ho h1 w1]
    have "rs = replicate (Suc n) (fst (output_Stop lib ho (ou1, h1, w1)))" and "(ou', h, w) = snd (output_Stop lib ho (ou1, h1, w1))"
      using assms(5) unfolding errs(2) replicate_Suc stop_once.run_all_first by simp_all
    with stop show "(h, w) = (if ou_pipeline ou1 then snd (shutdown_shared lib (h1, w1)) else (h1, w1))"
      "rs = replicate (Suc n) None" by (simp_all add: prod_eq_iff)
  qed
  have "shut s w = opened s w" for s
  proof (cases r0)
    case (Inl e)
    then have "\<not> ou_pipeline ou1" "w1 = w0"
      using start ou new by (auto simp: output_Start_def start_once_def GetShared_zero_cases)
    with counts stop Inl show ?thesis by simp
  next
    case (Inr p)
    then have "ou_pipeline ou1 \<and> h1 = \<lparr>sh_once = True, sh_pipeline = Some p, sh_initErr = None\<rparr> \<and> w1 = w0"
      using start ou new by (auto simp: output_Start_def start_once_def GetShared_zero_cases Let_def split: prod.splits option.splits)
    moreover obtain r p' w' where "pipeline_Shutdown lib (p, w0) = (r, p', w')" by (metis prod_cases3)
    moreover from this new_pipeline_inv new Inr assms(2) have "shut s w' = 1"
      using pipeline_shut_all by blast
    ultimately show ?thesis
      using counts Inr stop Shutdown_opens_nothing [of lib p w0 r p' w' s] by (simp add: shutdown_shared_def)
  qed
  with errs stop show ?thesis by blast
qed

end
