(* ===== verification/Output_Queue.thy ===== *)
theory Output_Queue
  imports Prelude "HOL-Library.Sublist" "HOL-Library.Multiset"
begin

text \<open>
  The sample queue of k6output/output.go as a step relation: k6's goroutine runs AddMetricSamples and
  the three channel operations of tryPush, the flush goroutine runs flushLoop, and Stop cancels the
  context. Each step is one select; a select with several ready cases may take any of them. The lists
  \<open>qs_offered\<close> and \<open>qs_dropped\<close> record the samples whose tryPush has returned and those
  that were thrown away; the program keeps the number of the latter in an atomic 64-bit counter, and
  \<open>qs_drops\<close> is that number below 2^64 drops, where the counter would wrap.
\<close>

section \<open>State\<close>

text \<open>Where k6's goroutine is: outside, or in one of the selects of tryPush with the rest of its batch.\<close>

datatype 's producer = Idle | TryFirst 's "'s list" | DropOldest 's "'s list" | TrySecond 's "'s list"

datatype flusher = Running | Draining | Finished

record 's queue_state =
  qs_cap :: nat
  qs_queue :: "'s list"
  qs_drops :: nat
  qs_cancelled :: bool
  qs_producer :: "'s producer"
  qs_flusher :: flusher
  qs_batch :: "'s list"
  qs_emitted :: "'s list"
  qs_offered :: "'s list"
  qs_dropped :: "'s list"

definition maxFlushBatchSize :: nat where "maxFlushBatchSize = 1024"

definition queue_start :: "nat \<Rightarrow> 's queue_state" where
  "queue_start cap = \<lparr>qs_cap = cap, qs_queue = [], qs_drops = 0, qs_cancelled = False, qs_producer = Idle,
     qs_flusher = Running, qs_batch = [], qs_emitted = [], qs_offered = [], qs_dropped = []\<rparr>"

text \<open>The loop of AddMetricSamples goes on with the next sample.\<close>

fun next_sample :: "'s list \<Rightarrow> 's producer" where
  "next_sample [] = Idle"
| "next_sample (s # ss) = TryFirst s ss"

definition queue_flush :: "'s queue_state \<Rightarrow> 's queue_state" where
  "queue_flush st = st\<lparr>qs_emitted := qs_emitted st @ qs_batch st, qs_batch := []\<rparr>"

definition receive :: "'s \<Rightarrow> 's list \<Rightarrow> 's queue_state \<Rightarrow> 's queue_state" where
  "receive x xs st = (let st = st\<lparr>qs_queue := xs, qs_batch := qs_batch st @ [x]\<rparr> in
     if length (qs_batch st) \<ge> maxFlushBatchSize then queue_flush st else st)"

definition enqueue :: "'s \<Rightarrow> 's list \<Rightarrow> 's queue_state \<Rightarrow> 's queue_state" where
  "enqueue s rest st = st\<lparr>qs_queue := qs_queue st @ [s], qs_offered := qs_offered st @ [s], qs_producer := next_sample rest\<rparr>"

section \<open>Steps\<close>

inductive queue_step :: "'s queue_state \<Rightarrow> 's queue_state \<Rightarrow> bool" where
  add: "qs_producer st = Idle \<Longrightarrow> \<not> qs_cancelled st \<Longrightarrow> queue_step st (st\<lparr>qs_producer := next_sample ss\<rparr>)"
| push: "qs_producer st = TryFirst s rest \<Longrightarrow> length (qs_queue st) < qs_cap st \<Longrightarrow> queue_step st (enqueue s rest st)"
| full: "qs_producer st = TryFirst s rest \<Longrightarrow> length (qs_queue st) \<ge> qs_cap st \<Longrightarrow>
    queue_step st (st\<lparr>qs_producer := DropOldest s rest\<rparr>)"
| drop_oldest: "qs_producer st = DropOldest s rest \<Longrightarrow> qs_queue st = x # xs \<Longrightarrow>
    queue_step st (st\<lparr>qs_queue := xs, qs_drops := qs_drops st + 1, qs_dropped := qs_dropped st @ [x],
      qs_producer := TrySecond s rest\<rparr>)"
| nothing_to_drop: "qs_producer st = DropOldest s rest \<Longrightarrow> qs_queue st = [] \<Longrightarrow>
    queue_step st (st\<lparr>qs_producer := TrySecond s rest\<rparr>)"
| push_again: "qs_producer st = TrySecond s rest \<Longrightarrow> length (qs_queue st) < qs_cap st \<Longrightarrow> queue_step st (enqueue s rest st)"
| give_up: "qs_producer st = TrySecond s rest \<Longrightarrow> length (qs_queue st) \<ge> qs_cap st \<Longrightarrow>
    queue_step st (st\<lparr>qs_drops := qs_drops st + 1, qs_dropped := qs_dropped st @ [s],
      qs_offered := qs_offered st @ [s], qs_producer := next_sample rest\<rparr>)"
| cancel: "queue_step st (st\<lparr>qs_cancelled := True\<rparr>)"
| recv: "qs_flusher st \<noteq> Finished \<Longrightarrow> qs_queue st = x # xs \<Longrightarrow> queue_step st (receive x xs st)"
| tick: "qs_flusher st = Running \<Longrightarrow> queue_step st (queue_flush st)"
| see_cancel: "qs_flusher st = Running \<Longrightarrow> qs_cancelled st \<Longrightarrow> queue_step st (st\<lparr>qs_flusher := Draining\<rparr>)"
| finish: "qs_flusher st = Draining \<Longrightarrow> qs_queue st = [] \<Longrightarrow> queue_step st ((queue_flush st)\<lparr>qs_flusher := Finished\<rparr>)"

abbreviation queue_steps :: "'s queue_state \<Rightarrow> 's queue_state \<Rightarrow> bool" where
  "queue_steps \<equiv> queue_step\<^sup>*\<^sup>*"

section \<open>Conservation\<close>

text \<open>What has been taken from or is still in the queue, in the order in which it was offered.\<close>

definition accepted :: "'s queue_state \<Rightarrow> 's list" where
  "accepted st = qs_emitted st @ qs_batch st @ qs_queue st"

definition queue_inv :: "nat \<Rightarrow> 's queue_state \<Rightarrow> bool" where
  "queue_inv cap st \<longleftrightarrow> qs_cap st = cap \<and> length (qs_queue st) \<le> cap \<and> length (qs_batch st) < maxFlushBatchSize
     \<and> subseq (accepted st) (qs_offered st)
     \<and> mset (qs_offered st) = mset (accepted st) + mset (qs_dropped st) \<and> qs_drops st = length (qs_dropped st)
     \<and> (qs_flusher st = Draining \<longrightarrow> qs_cancelled st) \<and> (qs_flusher st = Finished \<longrightarrow> qs_cancelled st \<and> qs_batch st = [])"

lemma accepted_simps [simp]:
  "accepted (receive x xs st) = qs_emitted st @ qs_batch st @ x # xs"
  "accepted (queue_flush st) = accepted st"
  "accepted (enqueue s rest st) = accepted st @ [s]"
  by (simp_all add: accepted_def receive_def queue_flush_def enqueue_def Let_def)

lemma receive_fields [simp]:
  "qs_cap (receive x xs st) = qs_cap st" "qs_queue (receive x xs st) = xs" "qs_drops (receive x xs st) = qs_drops st"
  "qs_cancelled (receive x xs st) = qs_cancelled st" "qs_producer (receive x xs st) = qs_producer st"
  "qs_flusher (receive x xs st) = qs_flusher st" "qs_offered (receive x xs st) = qs_offered st"
  "qs_dropped (receive x xs st) = qs_dropped st"
  by (simp_all add: receive_def queue_flush_def Let_def)

lemma queue_flush_fields [simp]:
  "qs_cap (queue_flush st) = qs_cap st" "qs_queue (queue_flush st) = qs_queue st" "qs_drops (queue_flush st) = qs_drops st"
  "qs_cancelled (queue_flush st) = qs_cancelled st" "qs_producer (queue_flush st) = qs_producer st"
  "qs_flusher (queue_flush st) = qs_flusher st" "qs_offered (queue_flush st) = qs_offered st"
  "qs_dropped (queue_flush st) = qs_dropped st"
  by (simp_all add: queue_flush_def)

lemma receive_batch: "length (qs_batch st) < maxFlushBatchSize \<Longrightarrow> length (qs_batch (receive x xs st)) < maxFlushBatchSize"
  by (simp add: receive_def queue_flush_def Let_def maxFlushBatchSize_def)

lemma queue_step_inv: "queue_step st st' \<Longrightarrow> queue_inv cap st \<Longrightarrow> queue_inv cap st'"
proof (induction rule: queue_step.induct)
  case (drop_oldest st s rest x xs)
  have "subseq (qs_emitted st @ qs_batch st @ xs) (qs_emitted st @ qs_batch st @ x # xs)" by (simp add: subseq_append' subseq_Cons')
  also have "subseq \<dots> (qs_offered st)" using drop_oldest by (simp add: queue_inv_def accepted_def)
  finally show ?case using drop_oldest by (simp add: queue_inv_def accepted_def)
next
  case (recv st x xs)
  then have "accepted (receive x xs st) = accepted st" by (simp add: accepted_def [of st])
  with recv show ?case by (simp add: queue_inv_def receive_batch)
next
  case (push st s rest)
  then have "subseq (accepted st @ [s]) (qs_offered st @ [s])" by (simp add: queue_inv_def)
  moreover have "qs_offered (enqueue s rest st) = qs_offered st @ [s]" by (simp add: enqueue_def)
  ultimately show ?case using push by (simp add: queue_inv_def) (simp add: enqueue_def)
next
  case (push_again st s rest)
  then have "subseq (accepted st @ [s]) (qs_offered st @ [s])" by (simp add: queue_inv_def)
  moreover have "qs_offered (enqueue s rest st) = qs_offered st @ [s]" by (simp add: enqueue_def)
  ultimately show ?case using push_again by (simp add: queue_inv_def) (simp add: enqueue_def)
next
  case (give_up st s rest)
  then have "subseq (accepted st) (qs_offered st @ [s])" by (auto simp: queue_inv_def intro: subseq_order.trans [OF _ list_emb_append2])
  with give_up show ?case by (simp add: queue_inv_def accepted_def)
qed (auto simp: queue_inv_def accepted_def queue_flush_def maxFlushBatchSize_def)

lemma queue_steps_inv: "queue_steps st st' \<Longrightarrow> queue_inv cap st \<Longrightarrow> queue_inv cap st'"
  by (induction rule: rtranclp_induct) (auto intro: queue_step_inv)

lemma queue_start_inv: "queue_inv cap (queue_start cap)"
  by (simp add: queue_inv_def queue_start_def accepted_def maxFlushBatchSize_def)

text \<open>
  C6: however k6, the flush loop and the shutdown interleave, the queue holds at most its capacity, a
  batch less than 1024 samples, and no sample is lost unnoticed or reordered: of the samples offered
  so far, those that were emitted, are batched or are still queued are a subsequence, and the others
  are exactly those that were dropped, which the drop counter counts.
\<close>

theorem queue_conserves:
  assumes "queue_steps (queue_start cap) st"
  shows "length (qs_queue st) \<le> cap \<and> length (qs_batch st) < 1024
    \<and> subseq (qs_emitted st @ qs_batch st @ qs_queue st) (qs_offered st)
    \<and> mset (qs_offered st) = mset (qs_emitted st @ qs_batch st @ qs_queue st) + mset (qs_dropped st)
    \<and> qs_drops st = length (qs_dropped st)"
  using queue_steps_inv [OF assms queue_start_inv] by (auto simp: queue_inv_def accepted_def maxFlushBatchSize_def)

section \<open>Draining\<close>

text \<open>The last phase: the flush loop has seen the cancellation and no sample is on its way.\<close>

definition quiet :: "'s queue_state \<Rightarrow> bool" where
  "quiet st \<longleftrightarrow> qs_cancelled st \<and> qs_producer st = Idle \<and> qs_flusher st \<noteq> Running"

inductive_cases queue_stepE: "queue_step st st'"

text \<open>A quiet state only drains: a step that changes it takes one sample, or finishes.\<close>

lemma quiet_step:
  assumes "quiet st" and "queue_step st st'"
  shows "st' = st \<and> qs_cancelled st \<or> qs_flusher st \<noteq> Finished \<and> (\<exists>x xs. qs_queue st = x # xs \<and> st' = receive x xs st)
    \<or> qs_flusher st = Draining \<and> qs_queue st = [] \<and> st' = (queue_flush st)\<lparr>qs_flusher := Finished\<rparr>"
  using assms(2,1) by cases (auto simp: quiet_def)

lemma quiet_stable: "quiet st \<Longrightarrow> queue_step st st' \<Longrightarrow> quiet st'"
  using quiet_step [of st st'] by (auto simp: quiet_def)

text \<open>A step that changes the state; a cancellation that is repeated does not.\<close>

definition moving_step :: "'s queue_state \<Rightarrow> 's queue_state \<Rightarrow> bool" where
  "moving_step st st' \<longleftrightarrow> queue_step st st' \<and> st' \<noteq> st"

text \<open>The steps that the flush loop has still to take: one per queued sample, and one to finish.\<close>

definition work_left :: "'s queue_state \<Rightarrow> nat" where
  "work_left st = (if qs_flusher st = Finished then 0 else Suc (length (qs_queue st)))"

lemma receive_moves: "qs_queue st = x # xs \<Longrightarrow> receive x xs st \<noteq> st"
  by (metis not_Cons_self2 receive_fields(2))

text \<open>Until it has finished, a quiet state can move, and each such step does a part of the work.\<close>

lemma quiet_moves:
  assumes "quiet st" and "qs_flusher st \<noteq> Finished"
  shows "\<exists>st'. moving_step st st'"
proof (cases "qs_queue st")
  case Nil
  have "qs_flusher st = Draining" using assms by (cases "qs_flusher st") (auto simp: quiet_def)
  with Nil have "queue_step st ((queue_flush st)\<lparr>qs_flusher := Finished\<rparr>)" by (intro finish)
  moreover have "(queue_flush st)\<lparr>qs_flusher := Finished\<rparr> \<noteq> st" using assms(2) by (auto dest: arg_cong [of _ _ qs_flusher])
  ultimately show ?thesis by (auto simp: moving_step_def)
next
  case (Cons x xs)
  then have "moving_step st (receive x xs st)"
    using recv [OF assms(2) Cons] receive_moves [OF Cons] by (simp add: moving_step_def)
  then show ?thesis ..
qed

definition drained :: "'s queue_state \<Rightarrow> bool" where
  "drained st \<longleftrightarrow> qs_queue st = [] \<and> qs_batch st = []"

lemma moving_step_works:
  assumes "quiet st" and "moving_step st st'" and "qs_flusher st = Finished \<longrightarrow> drained st"
  shows "quiet st' \<and> Suc (work_left st') = work_left st \<and> accepted st' = accepted st
    \<and> qs_offered st' = qs_offered st \<and> qs_dropped st' = qs_dropped st \<and> qs_drops st' = qs_drops st
    \<and> (qs_flusher st' = Finished \<longrightarrow> drained st')"
proof -
  from assms(2) have step: "queue_step st st'" and "st' \<noteq> st" by (simp_all add: moving_step_def)
  with quiet_step [OF assms(1) step] consider
      x xs where "qs_flusher st \<noteq> Finished" "qs_queue st = x # xs" "st' = receive x xs st"
    | "qs_flusher st = Draining" "qs_queue st = []" "st' = (queue_flush st)\<lparr>qs_flusher := Finished\<rparr>" by blast
  then show ?thesis
  proof cases
    case 1
    then have "accepted st' = accepted st" by (simp add: accepted_def [of st])
    with 1 quiet_stable [OF assms(1) step] show ?thesis by (simp add: work_left_def)
  next
    case 2
    with quiet_stable [OF assms(1) step] show ?thesis
      by (simp add: work_left_def drained_def accepted_def queue_flush_def)
  qed
qed

lemma moving_steps_work:
  "(moving_step ^^ n) st st' \<Longrightarrow> quiet st \<Longrightarrow> qs_flusher st = Finished \<longrightarrow> drained st \<Longrightarrow>
   quiet st' \<and> n + work_left st' = work_left st \<and> accepted st' = accepted st
    \<and> qs_offered st' = qs_offered st \<and> qs_dropped st' = qs_dropped st \<and> qs_drops st' = qs_drops st
    \<and> (qs_flusher st' = Finished \<longrightarrow> drained st')"
proof (induction n arbitrary: st')
  case (Suc n)
  from Suc.prems(1) obtain st1 where run: "(moving_step ^^ n) st st1" and step: "moving_step st1 st'" by auto
  from Suc.IH [OF run Suc.prems(2,3)] moving_step_works [OF _ step] show ?case by simp
qed simp

text \<open>
  C31: a shutdown while no sample is on its way ends with every sample accounted for, in every run.
  From a state in which the flush loop drains and no sample is on its way, whatever steps follow, each
  one that changes anything is one of the loop's own: it receives a queued sample or finishes. There
  are as many of them as samples are queued, and one more; before that the loop is never stuck, and
  after that nothing moves any more. When it has finished, nothing is queued or batched, what was
  batched and queued has been emitted in order, and each offered sample has been emitted or counted
  as dropped.
\<close>

theorem queue_drains:
  assumes "queue_steps (queue_start cap) st" and "quiet st" and "qs_flusher st = Draining"
    and "(moving_step ^^ n) st st'"
  shows "if n \<le> length (qs_queue st) then qs_flusher st' \<noteq> Finished \<and> (\<exists>st''. moving_step st' st'')
    else n = Suc (length (qs_queue st)) \<and> qs_flusher st' = Finished \<and> (\<nexists>st''. moving_step st' st'')
      \<and> qs_queue st' = [] \<and> qs_batch st' = [] \<and> qs_emitted st' = qs_emitted st @ qs_batch st @ qs_queue st
      \<and> mset (qs_offered st') = mset (qs_emitted st') + mset (qs_dropped st')
      \<and> qs_drops st' = length (qs_dropped st')"
proof -
  from moving_steps_work [OF assms(4,2)] assms(3) have quiet: "quiet st'"
    and work: "n + work_left st' = Suc (length (qs_queue st))" and same: "accepted st' = accepted st"
      "qs_offered st' = qs_offered st" "qs_dropped st' = qs_dropped st" "qs_drops st' = qs_drops st"
    and fin: "qs_flusher st' = Finished \<longrightarrow> drained st'" by (simp_all add: work_left_def)
  have inv: "queue_inv cap st" by (rule queue_steps_inv [OF assms(1) queue_start_inv])
  show ?thesis
  proof (cases "qs_flusher st' = Finished")
    case True
    have "\<nexists>st''. moving_step st' st''"
      using moving_step_works [OF quiet _ fin] True by (force simp: work_left_def)
    with True work fin same inv show ?thesis
      by (auto simp: work_left_def drained_def accepted_def queue_inv_def)
  next
    case False
    with quiet_moves [OF quiet] work show ?thesis by (auto simp: work_left_def)
  qed
qed

section \<open>Samples that come too late\<close>

text \<open>
  A sample that is on its way when the context is cancelled can be put into the queue after the
  flush loop has finished: it is then neither emitted nor counted as dropped.
\<close>

theorem late_sample_lost:
  "\<exists>st. queue_steps (queue_start 10) st \<and> qs_flusher st = Finished \<and> qs_producer st = Idle
     \<and> qs_offered st = [''late''] \<and> qs_emitted st = [] \<and> qs_drops st = 0"
proof -
  let ?s0 = "queue_start 10 :: string queue_state"
  let ?s1 = "?s0\<lparr>qs_producer := next_sample [''late'']\<rparr>"
  let ?s2 = "?s1\<lparr>qs_cancelled := True\<rparr>"
  let ?s3 = "?s2\<lparr>qs_flusher := Draining\<rparr>"
  let ?s4 = "(queue_flush ?s3)\<lparr>qs_flusher := Finished\<rparr>"
  let ?s5 = "enqueue ''late'' [] ?s4"
  have "queue_step ?s0 ?s1" by (rule add) (simp_all add: queue_start_def)
  moreover have "queue_step ?s1 ?s2" by (rule cancel)
  moreover have "queue_step ?s2 ?s3" by (rule see_cancel) (simp_all add: queue_start_def)
  moreover have "queue_step ?s3 ?s4" by (rule finish) (simp_all add: queue_start_def)
  moreover have "queue_step ?s4 ?s5" by (rule push) (simp_all add: queue_start_def queue_flush_def)
  ultimately have "queue_steps ?s0 ?s5" by (meson converse_rtranclp_into_rtranclp rtranclp.rtrancl_refl)
  moreover have "qs_flusher ?s5 = Finished \<and> qs_producer ?s5 = Idle \<and> qs_offered ?s5 = [''late''] \<and> qs_emitted ?s5 = []
      \<and> qs_drops ?s5 = 0" by (simp add: enqueue_def queue_flush_def queue_start_def)
  ultimately show ?thesis by blast
qed

end
