(* ===== verification/Exporter_Demo.thy ===== *)
theory Exporter_Demo
  imports Exporter_Shared
begin

text \<open>
  A concrete platform and SDK, to which the theorems on the exporter are applied: URLs are split at
  \<open>://\<close> and at the first slash, no file and no variable exists, and maps are visited in their order.
\<close>

section \<open>A platform\<close>

definition demo_url_Parse :: "string \<Rightarrow> url option" where
  "demo_url_Parse s = (case str_cut ''://'' s of
       None \<Rightarrow> None
     | Some (scheme, rest) \<Rightarrow> Some \<lparr>url_scheme = scheme, url_host = takeWhile (\<lambda>c. c \<noteq> CHR ''/'') rest,
         url_path = dropWhile (\<lambda>c. c \<noteq> CHR ''/'') rest, url_rest = ''''\<rparr>)"

definition demo_url_String :: "url \<Rightarrow> string" where
  "demo_url_String u = url_scheme u @ ''://'' @ url_host u @ url_path u"

definition demo_pf :: platform where
  "demo_pf = \<lparr>pf_url_Parse = demo_url_Parse, pf_url_String = demo_url_String, pf_ParseFloat = (\<lambda>_. None), pf_FormatFloat = (\<lambda>_. ''0''),
     pf_LookupEnv = (\<lambda>_. None), pf_ReadFile = (\<lambda>_. Inl ''no such file''), pf_AppendCerts = (\<lambda>_. False),
     pf_LoadKeyPair = (\<lambda>_ _. Some ''no such file''), pf_quote = id, pf_visit = id\<rparr>"

lemma demo_visits_all: "visits_all demo_pf"
  by (simp add: visits_all_def demo_pf_def)

lemma prefix_long: "length sep \<le> length a \<Longrightarrow> prefix sep (a @ b) = prefix sep a"
  using prefix_length_prefix [of sep "a @ b" a] by auto

lemma str_cut_stable:
  "sep \<noteq> [] \<Longrightarrow> str_cut sep s = Some (a, b) \<Longrightarrow> str_cut sep (a @ sep @ b') = Some (a, b')"
proof (induction s arbitrary: a)
  case (Cons c cs)
  show ?case
  proof (cases "prefix sep (c # cs)")
    case True
    with Cons.prems show ?thesis by (cases sep) (auto simp: map_option_case)
  next
    case False
    with Cons.prems obtain a1 where a: "a = c # a1" "str_cut sep cs = Some (a1, b)" by (auto split: option.splits)
    from str_cut_Some [OF a(2)] False have "\<not> prefix sep ((c # a1 @ sep) @ b)" by simp
    then have "\<not> prefix sep ((c # a1 @ sep) @ b')" by (simp only: prefix_long length_append length_Cons le_add2 trans_le_add2 le_SucI) auto
    with a Cons.IH [OF Cons.prems(1) a(2)] show ?thesis by simp
  qed
qed (auto split: if_splits)

lemma demo_url_laws: "url_laws demo_pf"
proof -
  have "demo_url_Parse (demo_url_String (u\<lparr>url_path := p\<rparr>)) = Some (u\<lparr>url_path := p\<rparr>)
      \<and> str_contains (demo_url_String (u\<lparr>url_path := p\<rparr>)) ''://''"
    if parse: "demo_url_Parse s = Some u" and p: "prefix ''/'' p" for s u p
  proof -
    from parse obtain rest where cut: "str_cut ''://'' s = Some (url_scheme u, rest)"
      and u: "url_host u = takeWhile (\<lambda>c. c \<noteq> CHR ''/'') rest" "url_rest u = ''''"
      by (auto simp: demo_url_Parse_def split: option.splits)
    have "str_cut ''://'' (url_scheme u @ ''://'' @ (url_host u @ p)) = Some (url_scheme u, url_host u @ p)"
      using str_cut_stable [OF _ cut] by simp
    moreover have "takeWhile (\<lambda>c. c \<noteq> CHR ''/'') (url_host u @ p) = url_host u"
      "dropWhile (\<lambda>c. c \<noteq> CHR ''/'') (url_host u @ p) = p"
    proof -
      from p obtain zs where zs: "p = CHR ''/'' # zs" by (auto elim!: prefixE)
      have "\<forall>c \<in> set (url_host u). c \<noteq> CHR ''/''" by (auto simp: u dest: set_takeWhileD)
      then show "takeWhile (\<lambda>c. c \<noteq> CHR ''/'') (url_host u @ p) = url_host u"
        "dropWhile (\<lambda>c. c \<noteq> CHR ''/'') (url_host u @ p) = p"
        by (simp_all add: zs takeWhile_append2 dropWhile_append2)
    qed
    ultimately show ?thesis
      using u(2) by (auto simp: demo_url_Parse_def demo_url_String_def str_contains_def sublist_def)
  qed
  then show ?thesis by (auto simp: url_laws_def demo_pf_def)
qed

section \<open>Settings\<close>

definition demo_config :: config where
  "demo_config = fillDefaults (zero_config\<lparr>cfg_Protocol := ExportHTTP, cfg_Endpoint := ''http://collector:4318/otlp'',
     cfg_LogsEndpoint := ''http://logs:9000/push''\<rparr>)"

lemma demo_config_valid: "Config_Validate demo_pf demo_config = None"
  by code_simp

lemma Config_Validate_iff_witness:
  "visits_all demo_pf \<and> Config_Validate demo_pf demo_config = None \<and> config_ok demo_pf demo_config"
  using Config_Validate_iff [OF demo_visits_all] demo_visits_all demo_config_valid by simp

lemma demo_endpoints: "ResolveEndpoints demo_pf demo_config =
  (''http://collector:4318/otlp/v1/traces'', ''http://collector:4318/otlp/v1/metrics'', ''http://logs:9000/push'')"
  by code_simp

lemma ResolveEndpoints_valid_witness:
  "validEndpoint demo_pf ''http://collector:4318/otlp/v1/traces'' \<and> validEndpoint demo_pf ''http://logs:9000/push''"
proof -
  have "rooted demo_pf (cfg_Endpoint demo_config)" by code_simp
  from ResolveEndpoints_valid [OF demo_visits_all demo_url_laws this demo_config_valid demo_endpoints]
  show ?thesis by blast
qed

lemma parseHeaders_round_trip_witness:
  "exporter_parseHeaders ''api-key=secret,tenant=t 1'' = [(''api-key'', ''secret''), (''tenant'', ''t 1'')]"
proof -
  have "gomap_ok [(''api-key'', ''secret''), (''tenant'', ''t 1'')]"
    "\<forall>kv \<in> set [(''api-key'', ''secret''), (''tenant'', ''t 1'')]. plain_header kv" by code_simp+
  from parseHeaders_round_trip [OF this] show ?thesis by simp
qed

section \<open>Pipelines\<close>

text \<open>An SDK in which every call succeeds, and one that refuses the metric exporter.\<close>

definition demo_sdk :: sdk where
  "demo_sdk = \<lparr>sdk_error = (\<lambda>_ _. None), sdk_closes = (\<lambda>_. True), sdk_reports = (\<lambda>q. q = MeterProvider)\<rparr>"

definition refusing_sdk :: sdk where
  "refusing_sdk = \<lparr>sdk_error = (\<lambda>_ c. case c of NewExporter MetricSignal _ _ \<Rightarrow> Some ''refused'' | _ \<Rightarrow> None),
     sdk_closes = (\<lambda>_. True), sdk_reports = (\<lambda>q. q = MeterProvider)\<rparr>"

lemma exporter_New_no_leak_witness:
  "\<exists>w'. exporter_New demo_pf refusing_sdk demo_config [] =
      (Inl (PipelineError ''metric_exporter'' (Some (Foreign ''refused''))) :: export_error + unit pipeline, w')
    \<and> opened TraceSignal w' = 1 \<and> shut TraceSignal w' = 1"
proof -
  define out :: "(export_error + unit pipeline) \<times> sdk_log"
    where "out = exporter_New demo_pf refusing_sdk demo_config []"
  have run: "exporter_New demo_pf refusing_sdk demo_config [] = (fst out, snd out)" by (simp add: out_def)
  have err: "fst out = Inl (PipelineError ''metric_exporter'' (Some (Foreign ''refused'')))"
    unfolding out_def by code_simp
  have opened: "opened TraceSignal (snd out) = 1" unfolding out_def by code_simp
  from exporter_New_no_leak [OF demo_visits_all run] have "shut TraceSignal (snd out) = opened TraceSignal (snd out)"
    by (simp add: err)
  with run err opened show ?thesis by auto
qed

lemma demo_sdk_closes: "\<forall>q. sdk_closes demo_sdk q"
  by (simp add: demo_sdk_def)

definition demo_out :: "(export_error + unit pipeline) \<times> sdk_log" where
  "demo_out = exporter_New demo_pf demo_sdk demo_config []"

lemma demo_New: "exporter_New demo_pf demo_sdk demo_config [] = (Inr (projr (fst demo_out)), snd demo_out)"
proof -
  have "\<not> isl (fst demo_out)" unfolding demo_out_def by code_simp
  then show ?thesis unfolding demo_out_def by (metis prod.collapse sum.collapse(2))
qed

definition demo_ops :: "unit pipeline_op list" where
  "demo_ops = [OpTracer ''web'' (), OpTracer ''web'' (), OpFlush, OpShutdown, OpShutdown]"

lemma pipeline_lifecycle_witness:
  "\<exists>rs p w. run_ops demo_sdk demo_ops (projr (fst demo_out), snd demo_out) = (rs, p, w)
    \<and> (\<forall>s. shut s w = 1) \<and> calls_to (NewProvider (ServiceTracer ''web'')) w \<le> 1"
proof -
  obtain rs p w where run: "run_ops demo_sdk demo_ops (projr (fst demo_out), snd demo_out) = (rs, p, w)"
    by (metis prod_cases3)
  from pipeline_lifecycle [OF demo_sdk_closes demo_New run] have "(\<forall>s. shut s w = 1) \<and> calls_to (NewProvider (ServiceTracer ''web'')) w \<le> 1"
    by (simp add: demo_ops_def)
  with run show ?thesis by blast
qed

lemma late_provider_never_stopped_witness:
  "\<exists>rs p w. run_ops demo_sdk [OpShutdown, OpTracer ''web'' (), OpShutdown] (projr (fst demo_out), snd demo_out) = (rs, p, w)
    \<and> calls_to (NewProvider (ServiceTracer ''web'')) w = 1 \<and> calls_to (StopProvider (ServiceTracer ''web'')) w = 0"
proof -
  obtain rs1 p1 w1 where first: "run_ops demo_sdk [OpShutdown] (projr (fst demo_out), snd demo_out) = (rs1, p1, w1)"
    by (metis prod_cases3)
  obtain rs p w where rest: "run_ops demo_sdk [OpTracer ''web'' (), OpShutdown] (p1, w1) = (rs, p, w)"
    by (metis prod_cases3)
  have "pl_svcTracers (fst (snd (run_ops demo_sdk [OpShutdown] (projr (fst demo_out), snd demo_out)))) = []"
    by code_simp
  then have new: "map_of (pl_svcTracers p1) ''web'' = None" by (simp only: first fst_conv snd_conv map_of.simps)
  from late_provider_never_stopped [OF demo_sdk_closes demo_New first _ new rest]
  have "calls_to (NewProvider (ServiceTracer ''web'')) w = 1 \<and> calls_to (StopProvider (ServiceTracer ''web'')) w = 0" by simp
  moreover have "run_ops demo_sdk [OpShutdown, OpTracer ''web'' (), OpShutdown] (projr (fst demo_out), snd demo_out)
      = (rs1 @ rs, p, w)"
    using first rest by (auto split: prod.splits)
  ultimately show ?thesis by blast
qed

section \<open>The shared pipeline\<close>

text \<open>Two callers: the first one's factory fails, the second one's would succeed; the factories count
  their calls.\<close>

definition demo_factory :: "(export_error + nat option) \<Rightarrow> (nat, nat) factory" where
  "demo_factory r = Some (\<lambda>n. (r, Suc n))"

lemma GetShared_shares_witness:
  "\<exists>h'. run_all GetShared [demo_factory (Inl (Foreign ''no network'')), demo_factory (Inr (Some 7))] (zero_shared, 0)
      = (replicate 2 (None, Some (SharedError ''init_failed'' (Some (Foreign ''no network'')))), h', 1)
    \<and> fst (SetShared (Some 8) (h', 1 :: nat)) =
        Some (SharedError ''already_initialized'' (Some (SharedError ''init_failed'' (Some (Foreign ''no network'')))))"
proof -
  let ?fs = "[demo_factory (Inr (Some 7))]" and ?f = "demo_factory (Inl (Foreign ''no network''))"
  have first: "GetShared ?f (zero_shared, 0) = ((None, Some (SharedError ''init_failed'' (Some (Foreign ''no network'')))),
      \<lparr>sh_once = True, sh_pipeline = None, sh_initErr = Some (SharedError ''init_failed'' (Some (Foreign ''no network'')))\<rparr>, 1)"
    by (simp add: GetShared_def demo_factory_def zero_shared_def)
  obtain rs h' s' where run: "run_all GetShared (?f # ?fs) (zero_shared, 0) = (rs, h', s')" by (metis prod_cases3)
  from GetShared_shares [OF shared_ok_zero run, of 8] first run obtain p err where
    "rs = replicate 2 (p, err)" "h' = \<lparr>sh_once = True, sh_pipeline = None, sh_initErr = Some (SharedError ''init_failed'' (Some (Foreign ''no network'')))\<rparr>"
    "s' = 1" "SetShared (Some 8) (h', s') = (Some (SharedError ''already_initialized'' err), h', s')"
    by (auto simp: numeral_2_eq_2)
  moreover have "rs = replicate 2 (None, Some (SharedError ''init_failed'' (Some (Foreign ''no network''))))"
    using run unfolding shared_once.run_all_first first by (auto simp: numeral_2_eq_2)
  ultimately show ?thesis using run by auto
qed

end
