(* ===== verification/Output_Demo.thy ===== *)
theory Output_Demo
  imports Output_Life Output_Queue Exporter_Demo
begin

text \<open>
  The theorems on the k6 output applied to concrete arguments, samples and runs, on the platform and
  the SDK of \<open>Exporter_Demo\<close>.
\<close>

section \<open>Arguments\<close>

definition demo_args :: string where
  "demo_args = ''endpoint=collector:4318, protocol=HTTP, queueSize=50, headers=api-key:secret;tenant:t1, unknown=1''"

definition demo_params :: params where
  "demo_params = projr (parseOutArgs demo_pf demo_args)"

lemma demo_args_parse: "parseOutArgs demo_pf demo_args = Inr demo_params"
proof -
  have "\<not> isl (parseOutArgs demo_pf demo_args)" by code_simp
  then show ?thesis unfolding demo_params_def by (metis sum.collapse(2))
qed

lemma demo_params_fields: "pa_QueueSize demo_params = 50 \<and> pa_Protocol demo_params = ExportHTTP
  \<and> pa_Headers demo_params = Some [(''api-key'', ''secret''), (''tenant'', ''t1'')] \<and> visible demo_params"
  by code_simp

lemma parseOutArgs_sound_witness:
  "parseOutArgs demo_pf demo_args = Inr demo_params \<and> params_ok demo_pf demo_params \<and> pa_QueueSize demo_params = 50"
  using parseOutArgs_sound [OF demo_args_parse] demo_args_parse demo_params_fields by blast

lemma parseOutArgs_errors_witness:
  "parseOutArgs demo_pf ''queueSize=5'' = Inl (OutputConfigError ''invalid_args'' ''queueSize'' ''5'' None)
   \<and> output_error_ok (OutputConfigError ''invalid_args'' ''queueSize'' ''5'' None)"
proof -
  have "parseOutArgs demo_pf ''queueSize=5'' = Inl (OutputConfigError ''invalid_args'' ''queueSize'' ''5'' None)" by code_simp
  from parseOutArgs_errors [OF this] this show ?thesis by blast
qed

lemma buildPipelineConfig_over_environment_witness:
  "buildPipelineConfig demo_pf demo_params = MergeWith (ConfigFromEnv demo_pf) (exporterConfig demo_params)"
  using buildPipelineConfig_over_environment [of demo_params demo_pf] demo_params_fields by blast

section \<open>Samples\<close>

definition demo_samples :: "sample list" where
  "demo_samples =
     [\<lparr>sm_metric = Some (''http_reqs'', K6Counter), sm_value = Fin 1, sm_tags = [(''status'', ''200''), (''method'', ''GET'')]\<rparr>,
      \<lparr>sm_metric = Some (''my_rate'', K6Rate), sm_value = Fin 0, sm_tags = []\<rparr>,
      \<lparr>sm_metric = Some (''my_rate'', K6Rate), sm_value = Fin 3, sm_tags = []\<rparr>]"

lemma emitted_samples_witness:
  "em_recorded (fold (emitSample (\<lambda>_. False) True) demo_samples zero_emitter) =
     [(\<lparr>in_type = InstCounter, in_name = ''k6.http.requests.total'', in_unit = ''{request}''\<rparr>, Fin 1,
       [(''k6.tag.method'', ''GET''), (''k6.tag.status'', ''200'')]),
      (\<lparr>in_type = InstCounter, in_name = ''k6.my.rate.total'', in_unit = ''''\<rparr>, Fin 1, [])]"
proof -
  let ?ty = "\<lambda>name. if name = ''http_reqs'' then K6Counter else K6Rate"
  have "\<forall>sm \<in> set demo_samples. clean_tags (sm_tags sm) \<and> (\<forall>name t. sm_metric sm = Some (name, t) \<longrightarrow> t = ?ty name)"
    by (simp add: demo_samples_def clean_tags_def)
  from emitted_samples [OF this] have "em_recorded (fold (emitSample (\<lambda>_. False) True) demo_samples zero_emitter)
    = concat (map recorded_for demo_samples)" .
  also have "\<dots> = [(\<lparr>in_type = InstCounter, in_name = ''k6.http.requests.total'', in_unit = ''{request}''\<rparr>, Fin 1,
       [(''k6.tag.method'', ''GET''), (''k6.tag.status'', ''200'')]),
      (\<lparr>in_type = InstCounter, in_name = ''k6.my.rate.total'', in_unit = ''''\<rparr>, Fin 1, [])]" by code_simp
  finally show ?thesis .
qed

section \<open>The queue\<close>

text \<open>One sample is queued, then the context is cancelled.\<close>

definition demo_queue :: "string queue_state" where
  "demo_queue = (enqueue ''a'' [] ((queue_start 10)\<lparr>qs_producer := next_sample [''a'']\<rparr>))
     \<lparr>qs_cancelled := True, qs_flusher := Draining\<rparr>"

lemma demo_queue_reached: "queue_steps (queue_start 10) demo_queue"
proof -
  let ?s0 = "queue_start 10 :: string queue_state"
  let ?s1 = "?s0\<lparr>qs_producer := next_sample [''a'']\<rparr>"
  let ?s2 = "enqueue ''a'' [] ?s1"
  let ?s3 = "?s2\<lparr>qs_cancelled := True\<rparr>"
  have "queue_step ?s0 ?s1" by (rule add) (simp_all add: queue_start_def)
  moreover have "queue_step ?s1 ?s2" by (rule push) (simp_all add: queue_start_def)
  moreover have "queue_step ?s2 ?s3" by (rule cancel)
  moreover have "queue_step ?s3 (?s3\<lparr>qs_flusher := Draining\<rparr>)" by (rule see_cancel) (simp_all add: queue_start_def enqueue_def)
  ultimately show ?thesis unfolding demo_queue_def
    by (meson converse_rtranclp_into_rtranclp rtranclp.rtrancl_refl)
qed

lemma queue_conserves_witness:
  "queue_steps (queue_start 10) demo_queue \<and> qs_offered demo_queue = [''a''] \<and> length (qs_queue demo_queue) \<le> 10
   \<and> qs_drops demo_queue = length (qs_dropped demo_queue)"
proof -
  have "qs_offered demo_queue = [''a'']" by code_simp
  with queue_conserves [OF demo_queue_reached] demo_queue_reached show ?thesis by blast
qed

lemma queue_drains_witness:
  "\<exists>st'. (moving_step ^^ 2) demo_queue st' \<and> qs_flusher st' = Finished \<and> qs_emitted st' = [''a'']
    \<and> (\<nexists>st''. moving_step st' st'')"
proof -
  have demo: "quiet demo_queue" "qs_flusher demo_queue = Draining" "length (qs_queue demo_queue) = 1"
    "qs_emitted demo_queue @ qs_batch demo_queue @ qs_queue demo_queue = [''a'']" by code_simp+
  note drains = queue_drains [OF demo_queue_reached demo(1,2)]
  obtain st1 where st1: "moving_step demo_queue st1" using quiet_moves [OF demo(1)] demo(2) by auto
  with drains [of 1 st1] demo(3) obtain st2 where "moving_step st1 st2" by auto
  with st1 have "(moving_step ^^ 2) demo_queue st2" by (auto simp: numeral_2_eq_2)
  with drains [OF this] demo(3,4) show ?thesis by auto
qed

section \<open>A run\<close>

definition demo_host :: host where
  "demo_host = \<lparr>ho_otelVersion = ''1.43.0'', ho_goVersion = ''go1.25'', ho_buildVersion = '''',
     ho_hostname = Some ''runner'', ho_refuses = (\<lambda>_. False), ho_flushStops = True, ho_meterFlush = None\<rparr>"

definition demo_output :: k6_output where
  "demo_output = projr (output_New demo_pf demo_host demo_args (Some ''/tests/run.js''))"

lemma demo_output_New: "output_New demo_pf demo_host demo_args (Some ''/tests/run.js'') = Inr demo_output"
  unfolding demo_output_def by (simp add: output_New_def demo_args_parse)

lemma output_leaves_nothing_open_witness:
  "\<exists>errs st rs ou h w.
     run_all (\<lambda>_. output_Start demo_pf demo_sdk demo_host) [(), ()] (demo_output, zero_shared :: unit pipeline shared, []) = (errs, st)
   \<and> run_all (\<lambda>_. output_Stop demo_sdk demo_host) [()] st = (rs, ou, h, w)
   \<and> rs = [None] \<and> (\<forall>s. shut s w = opened s w)"
proof -
  obtain errs st where start: "run_all (\<lambda>_. output_Start demo_pf demo_sdk demo_host) (replicate (Suc 1) ())
      (demo_output, zero_shared :: unit pipeline shared, []) = (errs, st)" by (metis prod.exhaust)
  obtain rs ou h w where stop: "run_all (\<lambda>_. output_Stop demo_sdk demo_host) (replicate (Suc 0) ()) st = (rs, ou, h, w)"
    by (metis prod_cases4)
  from output_leaves_nothing_open [OF demo_visits_all demo_sdk_closes demo_output_New start stop]
  have "rs = [None] \<and> (\<forall>s. shut s w = opened s w)" by simp
  with start stop show ?thesis by auto
qed

end
