(* ===== verification/Module_Config.thy ===== *)
theory Module_Config
  imports Exporter_Config Topology_Parse Journey_Plan
begin

text \<open>
  k6otelgen/config.go and k6otelgen/errors.go: how the object that a script hands to configure
  becomes a configuration of the exporter, and how an error becomes the message of a JavaScript
  exception. The values of the object are those that the runtime of k6 exports: its integers are int64.
\<close>

section \<open>Errors\<close>

text \<open>
  ConfigError of the package with its kind, path and inner error, and the errors of the packages it
  calls; \<open>GenText\<close> is a fmt.Errorf, \<open>GenDuration\<close> the error of time.ParseDuration.
\<close>

datatype gen_error =
    GenConfig string string "gen_error option"
  | GenExporter export_error
  | GenTopology parse_failure
  | GenPlan plan_error
  | GenExecute execute_error
  | GenText msg
  | GenDuration string
  | GenForeign string

text \<open>The Error method; \<open>render\<close> is the Error method of the other errors.\<close>

fun gen_error_Error :: "(gen_error \<Rightarrow> string) \<Rightarrow> gen_error \<Rightarrow> string" where
  "gen_error_Error render (GenConfig kind path inner) =
     ''k6otelgen: '' @ kind @ (if path = '''' then '''' else '' ('' @ path @ '')'')
       @ (case inner of None \<Rightarrow> '''' | Some e \<Rightarrow> '': '' @ gen_error_Error render e)"
| "gen_error_Error render e = render e"

text \<open>
  errors.As for the two error types of the exporter: the first match along the chain of wrapped
  errors, where an errors.Join is searched in order.
\<close>

fun as_export_config :: "export_error \<Rightarrow> export_error option"
and as_export_configs :: "export_error list \<Rightarrow> export_error option" where
  "as_export_config (ConfigError f v m) = Some (ConfigError f v m)"
| "as_export_config (PipelineError stage inner) = (case inner of None \<Rightarrow> None | Some e \<Rightarrow> as_export_config e)"
| "as_export_config (SharedError reason inner) = (case inner of None \<Rightarrow> None | Some e \<Rightarrow> as_export_config e)"
| "as_export_config (Wrapped p e) = as_export_config e"
| "as_export_config (Joined es) = as_export_configs es"
| "as_export_config (Foreign m) = None"
| "as_export_configs [] = None"
| "as_export_configs (e # es) = (case as_export_config e of None \<Rightarrow> as_export_configs es | Some c \<Rightarrow> Some c)"

fun as_pipeline_error :: "export_error \<Rightarrow> export_error option"
and as_pipeline_errors :: "export_error list \<Rightarrow> export_error option" where
  "as_pipeline_error (ConfigError f v m) = None"
| "as_pipeline_error (PipelineError stage inner) = Some (PipelineError stage inner)"
| "as_pipeline_error (SharedError reason inner) = (case inner of None \<Rightarrow> None | Some e \<Rightarrow> as_pipeline_error e)"
| "as_pipeline_error (Wrapped p e) = as_pipeline_error e"
| "as_pipeline_error (Joined es) = as_pipeline_errors es"
| "as_pipeline_error (Foreign m) = None"
| "as_pipeline_errors [] = None"
| "as_pipeline_errors (e # es) = (case as_pipeline_error e of None \<Rightarrow> as_pipeline_errors es | Some c \<Rightarrow> Some c)"

text \<open>The message of the exception for an error that is not nil.\<close>

fun formatErrorMessage :: "(gen_error \<Rightarrow> string) \<Rightarrow> gen_error option \<Rightarrow> string" where
  "formatErrorMessage render None = ''k6otelgen: <nil>''"
| "formatErrorMessage render (Some (GenConfig kind path inner)) =
     ''k6otelgen: ['' @ kind @ ''] '' @ gen_error_Error render (GenConfig kind path inner)"
| "formatErrorMessage render (Some (GenExporter e)) = (case as_export_config e of
       Some c \<Rightarrow> ''k6otelgen: exporter config: '' @ render (GenExporter c)
     | None \<Rightarrow> (case as_pipeline_error e of
           Some p \<Rightarrow> ''k6otelgen: exporter pipeline: '' @ render (GenExporter p)
         | None \<Rightarrow> ''k6otelgen: '' @ render (GenExporter e)))"
| "formatErrorMessage render (Some (GenPlan e)) = ''k6otelgen: plan: '' @ render (GenPlan e)"
| "formatErrorMessage render (Some (GenExecute e)) = ''k6otelgen: execute: '' @ render (GenExecute e)"
| "formatErrorMessage render (Some e) = ''k6otelgen: '' @ render e"

section \<open>Values of an option\<close>

text \<open>The verb %T of fmt.\<close>

fun any_type :: "any \<Rightarrow> string" where
  "any_type AnyNil = ''<nil>''"
| "any_type (AnyBool _) = ''bool''"
| "any_type (AnyInt _) = ''int64''"
| "any_type (AnyFloat _) = ''float64''"
| "any_type (AnyString _) = ''string''"
| "any_type (AnyList _) = ''[]interface {}''"
| "any_type (AnyMap _) = ''map[string]interface {}''"

definition typeMismatch :: "string \<Rightarrow> any \<Rightarrow> string \<Rightarrow> gen_error" where
  "typeMismatch path v want =
     GenConfig ''type_mismatch'' path (Some (GenText (Msg ''expected %s, got %T'' [AStr want, AStr (any_type v)])))"

fun toFloat64 :: "any \<Rightarrow> gen_error + f64" where
  "toFloat64 (AnyInt x) = Inr (of_int64 x)"
| "toFloat64 (AnyFloat x) = Inr x"
| "toFloat64 v = Inl (GenText (Msg ''expected number, got %T'' [AStr (any_type v)]))"

fun toDuration :: "any \<Rightarrow> gen_error + duration" where
  "toDuration (AnyInt x) = Inr (wrap64 (x * millisecond))"
| "toDuration (AnyFloat x) = Inr (to_int64 (fmul x (of_int64 millisecond)))"
| "toDuration (AnyString x) = (case parse_duration x of None \<Rightarrow> Inl (GenDuration x) | Some d \<Rightarrow> Inr d)"
| "toDuration v = Inl (GenText (Msg ''expected number or duration string, got %T'' [AStr (any_type v)]))"

text \<open>The entries of an object as strings; the first one that is no string or number ends the loop.\<close>

fun string_entries :: "platform \<Rightarrow> (string \<times> any) list \<Rightarrow> gen_error + (string, string) gomap" where
  "string_entries pf [] = Inr []"
| "string_entries pf ((key, value) # raw) =
     (let rest = (\<lambda>s. case string_entries pf raw of Inl e \<Rightarrow> Inl e | Inr out \<Rightarrow> Inr ((key, s) # out)) in
      case value of
        AnyString x \<Rightarrow> rest x
      | AnyInt x \<Rightarrow> rest (itoa x)
      | AnyFloat x \<Rightarrow> rest (pf_FormatFloat pf x)
      | _ \<Rightarrow> Inl (GenText (Msg ''value for %q is %T, not string-coercible'' [AStr key, AStr (any_type value)])))"

fun toStringMap :: "platform \<Rightarrow> any \<Rightarrow> gen_error + (string, string) gomap" where
  "toStringMap pf (AnyMap raw) = string_entries pf raw"
| "toStringMap pf v = Inl (GenText (Msg ''expected object, got %T'' [AStr (any_type v)]))"

text \<open>\<open>math.Trunc(x) != x\<close>, which holds of a NaN.\<close>

fun not_integral :: "f64 \<Rightarrow> bool" where
  "not_integral FNaN = True"
| "not_integral (Fin r) = (of_int (trunc_rat r) \<noteq> r)"
| "not_integral _ = False"

text \<open>int is int64; \<open>float64(maxInt)\<close> is 2^63, as the largest int64 is not representable.\<close>

fun toInt :: "any \<Rightarrow> gen_error + int" where
  "toInt (AnyInt x) = (if x > 2 ^ 63 - 1 \<or> x < - (2 ^ 63)
     then Inl (GenText (Msg ''integer %d overflows int'' [AInt x])) else Inr x)"
| "toInt (AnyFloat x) =
     (if not_integral x then Inl (GenText (Msg ''number %v is not an integer'' [AFloat x]))
      else if flt (of_int64 (2 ^ 63 - 1)) x \<or> flt x (of_int64 (- (2 ^ 63)))
      then Inl (GenText (Msg ''number %v overflows int'' [AFloat x])) else Inr (to_int64 x))"
| "toInt v = Inl (GenText (Msg ''expected integer number, got %T'' [AStr (any_type v)]))"

section \<open>Options\<close>

text \<open>The cases that take a string, and those that convert the value first.\<close>

type_synonym assignment = "config \<Rightarrow> config"

definition string_opt :: "string \<Rightarrow> any \<Rightarrow> (string \<Rightarrow> assignment) \<Rightarrow> gen_error + assignment" where
  "string_opt key value assign =
     (case value of AnyString s \<Rightarrow> Inr (assign s) | _ \<Rightarrow> Inl (typeMismatch key value ''string''))"

definition converted_opt :: "string \<Rightarrow> gen_error + 'a \<Rightarrow> ('a \<Rightarrow> assignment) \<Rightarrow> gen_error + assignment" where
  "converted_opt key r assign =
     (case r of Inl e \<Rightarrow> Inl (GenConfig ''type_mismatch'' key (Some e)) | Inr x \<Rightarrow> Inr (assign x))"

text \<open>What the case of one key assigns; an unknown key assigns nothing.\<close>

definition opt_assignment :: "platform \<Rightarrow> string \<Rightarrow> any \<Rightarrow> gen_error + assignment" where
  "opt_assignment pf key value =
     (if key = ''endpoint'' then string_opt key value (\<lambda>s c. c\<lparr>cfg_Endpoint := s\<rparr>)
      else if key = ''tracesEndpoint'' then string_opt key value (\<lambda>s c. c\<lparr>cfg_TracesEndpoint := s\<rparr>)
      else if key = ''metricsEndpoint'' then string_opt key value (\<lambda>s c. c\<lparr>cfg_MetricsEndpoint := s\<rparr>)
      else if key = ''logsEndpoint'' then string_opt key value (\<lambda>s c. c\<lparr>cfg_LogsEndpoint := s\<rparr>)
      else if key = ''profilesEndpoint'' then string_opt key value (\<lambda>s c. c\<lparr>cfg_ProfilesEndpoint := s\<rparr>)
      else if key = ''protocol'' then (case value of
          AnyString s \<Rightarrow>
            if s = ''grpc'' then Inr (\<lambda>c. c\<lparr>cfg_Protocol := ExportGRPC\<rparr>)
            else if s = ''http'' then Inr (\<lambda>c. c\<lparr>cfg_Protocol := ExportHTTP\<rparr>)
            else Inl (GenConfig ''invalid_protocol'' s None)
        | _ \<Rightarrow> Inl (typeMismatch key value ''string''))
      else if key = ''insecure'' then (case value of
          AnyBool b \<Rightarrow> Inr (\<lambda>c. c\<lparr>cfg_Insecure := b, cfg_InsecureSet := True\<rparr>)
        | _ \<Rightarrow> Inl (typeMismatch key value ''bool''))
      else if key = ''caCert'' then string_opt key value (\<lambda>s c. c\<lparr>cfg_Certificate := s\<rparr>)
      else if key = ''clientCert'' then string_opt key value (\<lambda>s c. c\<lparr>cfg_ClientCertificate := s\<rparr>)
      else if key = ''clientKey'' then string_opt key value (\<lambda>s c. c\<lparr>cfg_ClientKey := s\<rparr>)
      else if key = ''headers'' then converted_opt key (toStringMap pf value) (\<lambda>m c. c\<lparr>cfg_Headers := Some m\<rparr>)
      else if key = ''compression'' then string_opt key value (\<lambda>s c. c\<lparr>cfg_Compression := s\<rparr>)
      else if key = ''timeout'' then converted_opt key (toDuration value) (\<lambda>d c. c\<lparr>cfg_Timeout := d\<rparr>)
      else if key = ''batchSize'' then converted_opt key (toInt value) (\<lambda>n c. c\<lparr>cfg_BatchSize := n\<rparr>)
      else if key = ''batchTimeout'' then converted_opt key (toDuration value) (\<lambda>d c. c\<lparr>cfg_BatchTimeout := d\<rparr>)
      else if key = ''maxQueueSize'' then converted_opt key (toInt value) (\<lambda>n c. c\<lparr>cfg_MaxQueueSize := n\<rparr>)
      else if key = ''resourceOverrides'' then converted_opt key (toStringMap pf value) (\<lambda>m c. c\<lparr>cfg_ResourceOverrides := Some m\<rparr>)
      else if key = ''sampler'' then (case value of
          AnyString s \<Rightarrow>
            if s \<in> {''always_on'', ''always_off'', ''traceidratio''} then Inr (\<lambda>c. c\<lparr>cfg_Sampler := s\<rparr>)
            else Inl (GenConfig ''invalid_sampler'' s None)
        | _ \<Rightarrow> Inl (typeMismatch key value ''string''))
      else if key = ''samplerArg'' then converted_opt key (toFloat64 value) (\<lambda>x c. c\<lparr>cfg_SamplerArg := x, cfg_SamplerArgSet := True\<rparr>)
      else Inr id)"

text \<open>The loop over the object, in the order in which the range visits it.\<close>

fun apply_opts :: "platform \<Rightarrow> (string, any) gomap \<Rightarrow> config \<Rightarrow> gen_error + config" where
  "apply_opts pf [] c = Inr c"
| "apply_opts pf ((key, value) # opts) c = (case opt_assignment pf key value of
       Inl e \<Rightarrow> Inl e | Inr f \<Rightarrow> apply_opts pf opts (f c))"

definition optsToConfig :: "platform \<Rightarrow> (string, any) gomap \<Rightarrow> gen_error + config" where
  "optsToConfig pf opts = (case apply_opts pf opts zero_config of
       Inl e \<Rightarrow> Inl e
     | Inr c \<Rightarrow>
         if cfg_SamplerArgSet c \<and> (flt (cfg_SamplerArg c) (Fin 0) \<or> flt (Fin 1) (cfg_SamplerArg c))
         then Inl (GenConfig ''invalid_sampler_arg'' (pf_FormatFloat pf (cfg_SamplerArg c)) None) else Inr c)"

end
