(* ===== verification/Module_Options.thy ===== *)
theory Module_Options
  imports Module_Config Exporter_Settings
begin

text \<open>
  What configure makes of its options: the configuration is read off the options field by field,
  whatever the order in which the range visits them, and a number becomes the int that it denotes.
\<close>

section \<open>The configuration that options denote\<close>

text \<open>The value of one option; the second argument is the value of an option that is not given.\<close>

definition opt_value :: "(any \<Rightarrow> gen_error + 'a) \<Rightarrow> 'a \<Rightarrow> (string, any) gomap \<Rightarrow> string \<Rightarrow> 'a" where
  "opt_value conv d opts key = (case map_of opts key of
       None \<Rightarrow> d | Some v \<Rightarrow> (case conv v of Inl _ \<Rightarrow> d | Inr x \<Rightarrow> x))"

fun as_string :: "any \<Rightarrow> gen_error + string" where
  "as_string (AnyString s) = Inr s" | "as_string v = Inl (GenForeign '''')"

fun as_bool :: "any \<Rightarrow> gen_error + bool" where
  "as_bool (AnyBool b) = Inr b" | "as_bool v = Inl (GenForeign '''')"

fun as_protocol :: "any \<Rightarrow> gen_error + exporter_protocol" where
  "as_protocol (AnyString s) =
     (if s = ''grpc'' then Inr ExportGRPC else if s = ''http'' then Inr ExportHTTP else Inl (GenForeign ''''))"
| "as_protocol v = Inl (GenForeign '''')"

fun as_sampler :: "any \<Rightarrow> gen_error + string" where
  "as_sampler (AnyString s) =
     (if s \<in> {''always_on'', ''always_off'', ''traceidratio''} then Inr s else Inl (GenForeign ''''))"
| "as_sampler v = Inl (GenForeign '''')"

definition is_ok :: "'e + 'a \<Rightarrow> bool" where
  "is_ok r \<longleftrightarrow> (case r of Inl _ \<Rightarrow> False | Inr _ \<Rightarrow> True)"

lemma is_ok_simps [simp]: "is_ok (Inr x)" "\<not> is_ok (Inl e)"
  by (simp_all add: is_ok_def)

text \<open>The options by the type of their value.\<close>

definition string_keys :: "string set" where
  "string_keys = {''endpoint'', ''tracesEndpoint'', ''metricsEndpoint'', ''logsEndpoint'', ''profilesEndpoint'',
     ''caCert'', ''clientCert'', ''clientKey'', ''compression''}"

definition opt_acceptable :: "platform \<Rightarrow> string \<Rightarrow> any \<Rightarrow> bool" where
  "opt_acceptable pf key v \<longleftrightarrow>
     (key \<in> string_keys \<longrightarrow> is_ok (as_string v))
   \<and> (key = ''protocol'' \<longrightarrow> is_ok (as_protocol v)) \<and> (key = ''insecure'' \<longrightarrow> is_ok (as_bool v))
   \<and> (key \<in> {''headers'', ''resourceOverrides''} \<longrightarrow> is_ok (toStringMap pf v))
   \<and> (key \<in> {''timeout'', ''batchTimeout''} \<longrightarrow> is_ok (toDuration v))
   \<and> (key \<in> {''batchSize'', ''maxQueueSize''} \<longrightarrow> is_ok (toInt v))
   \<and> (key = ''sampler'' \<longrightarrow> is_ok (as_sampler v)) \<and> (key = ''samplerArg'' \<longrightarrow> is_ok (toFloat64 v))"

definition config_of_opts :: "platform \<Rightarrow> (string, any) gomap \<Rightarrow> config \<Rightarrow> config" where
  "config_of_opts pf opts c =
     (let str = (\<lambda>key d. opt_value as_string d opts key) in
      \<lparr>cfg_Protocol = opt_value as_protocol (cfg_Protocol c) opts ''protocol'',
       cfg_Endpoint = str ''endpoint'' (cfg_Endpoint c), cfg_TracesEndpoint = str ''tracesEndpoint'' (cfg_TracesEndpoint c),
       cfg_MetricsEndpoint = str ''metricsEndpoint'' (cfg_MetricsEndpoint c), cfg_LogsEndpoint = str ''logsEndpoint'' (cfg_LogsEndpoint c),
       cfg_ProfilesEndpoint = str ''profilesEndpoint'' (cfg_ProfilesEndpoint c),
       cfg_Headers = opt_value (map_sum id Some \<circ> toStringMap pf) (cfg_Headers c) opts ''headers'',
       cfg_Insecure = opt_value as_bool (cfg_Insecure c) opts ''insecure'',
       cfg_InsecureSet = opt_value (map_sum id (\<lambda>_. True) \<circ> as_bool) (cfg_InsecureSet c) opts ''insecure'',
       cfg_Certificate = str ''caCert'' (cfg_Certificate c), cfg_ClientCertificate = str ''clientCert'' (cfg_ClientCertificate c),
       cfg_ClientKey = str ''clientKey'' (cfg_ClientKey c), cfg_Compression = str ''compression'' (cfg_Compression c),
       cfg_Timeout = opt_value toDuration (cfg_Timeout c) opts ''timeout'',
       cfg_BatchSize = opt_value toInt (cfg_BatchSize c) opts ''batchSize'',
       cfg_BatchTimeout = opt_value toDuration (cfg_BatchTimeout c) opts ''batchTimeout'',
       cfg_MaxQueueSize = opt_value toInt (cfg_MaxQueueSize c) opts ''maxQueueSize'',
       cfg_ResourceOverrides = opt_value (map_sum id Some \<circ> toStringMap pf) (cfg_ResourceOverrides c) opts ''resourceOverrides'',
       cfg_Sampler = opt_value as_sampler (cfg_Sampler c) opts ''sampler'',
       cfg_SamplerArg = opt_value toFloat64 (cfg_SamplerArg c) opts ''samplerArg'',
       cfg_SamplerArgSet = opt_value (map_sum id (\<lambda>_. True) \<circ> toFloat64) (cfg_SamplerArgSet c) opts ''samplerArg''\<rparr>)"

lemma opt_value_Nil [simp]: "opt_value conv d [] key = d"
  by (simp add: opt_value_def)

text \<open>The first entry gives the start value of the rest, as its key does not occur there again.\<close>

lemma opt_value_Cons:
  "k \<notin> fst ` set opts \<Longrightarrow> opt_value conv d ((k, v) # opts) key =
     opt_value conv (if key = k then (case conv v of Inl _ \<Rightarrow> d | Inr x \<Rightarrow> x) else d) opts key"
  by (auto simp: opt_value_def image_iff dest!: map_of_SomeD split: option.splits)

lemma string_opt_cases:
  "string_opt key v assign = Inr f \<longleftrightarrow> (\<exists>s. v = AnyString s \<and> f = assign s)"
  "is_ok (string_opt key v assign) \<longleftrightarrow> is_ok (as_string v)"
  by (auto simp: string_opt_def split: any.splits)

lemma converted_opt_cases:
  "converted_opt key r assign = Inr f \<longleftrightarrow> (\<exists>x. r = Inr x \<and> f = assign x)"
  "is_ok (converted_opt key r assign) \<longleftrightarrow> is_ok r"
  by (auto simp: converted_opt_def split: sum.splits)

lemma opt_assignment_ok: "is_ok (opt_assignment pf key v) \<longleftrightarrow> opt_acceptable pf key v"
  unfolding opt_assignment_def
  by (auto simp: opt_acceptable_def string_keys_def string_opt_cases converted_opt_cases split: any.splits)

lemma config_of_opts_Nil: "config_of_opts pf [] c = c"
  by (simp add: config_of_opts_def)

lemma opt_value_single:
  "opt_value conv d [(k, v)] key = (if key = k then (case conv v of Inl _ \<Rightarrow> d | Inr x \<Rightarrow> x) else d)"
  by (simp add: opt_value_def)

lemma config_of_opts_split:
  assumes "k \<notin> fst ` set opts"
  shows "config_of_opts pf ((k, v) # opts) c = config_of_opts pf opts (config_of_opts pf [(k, v)] c)"
  unfolding config_of_opts_def Let_def opt_value_Cons [OF assms] by (simp only: opt_value_single config.select_convs)

lemma config_of_opt:
  assumes "opt_assignment pf k v = Inr f"
  shows "config_of_opts pf [(k, v)] c = f c"
  using assms unfolding opt_assignment_def
  by (simp only: split: if_split_asm)
    (auto simp: config_of_opts_def Let_def opt_value_single string_opt_cases converted_opt_cases split: any.split_asm if_split_asm)

lemma config_of_opts_Cons:
  assumes "k \<notin> fst ` set opts" and "opt_assignment pf k v = Inr f"
  shows "config_of_opts pf ((k, v) # opts) c = config_of_opts pf opts (f c)"
  by (simp only: config_of_opts_split [OF assms(1)] config_of_opt [OF assms(2)])

lemma apply_opts_spec:
  assumes "gomap_ok opts"
  shows "apply_opts pf opts c = Inr c' \<longleftrightarrow> (\<forall>(k, v) \<in> set opts. opt_acceptable pf k v) \<and> c' = config_of_opts pf opts c"
  using assms
proof (induction opts arbitrary: c)
  case (Cons kv opts)
  obtain k v where kv: "kv = (k, v)" by force
  show ?case
  proof (cases "opt_assignment pf k v")
    case (Inl e)
    then have "\<not> opt_acceptable pf k v" by (simp flip: opt_assignment_ok)
    with Inl show ?thesis by (simp add: kv)
  next
    case (Inr f)
    then have "opt_acceptable pf k v" by (simp flip: opt_assignment_ok)
    with Inr Cons show ?thesis by (simp add: kv config_of_opts_Cons)
  qed
qed (auto simp: config_of_opts_Nil)

text \<open>
  C39: configure reads its options field by field: it accepts them exactly when every option it knows
  has a value of its type and the sampler argument, if there is one, is neither below 0 nor above 1;
  it then gives each field the value of its option, or the zero value, in whatever order the range
  visits the object.
\<close>

theorem optsToConfig_reads_options:
  assumes "gomap_ok opts"
  shows "optsToConfig pf opts = Inr c \<longleftrightarrow>
      (\<forall>(k, v) \<in> set opts. opt_acceptable pf k v) \<and> c = config_of_opts pf opts zero_config
    \<and> \<not> (cfg_SamplerArgSet c \<and> (flt (cfg_SamplerArg c) (Fin 0) \<or> flt (Fin 1) (cfg_SamplerArg c)))"
  using apply_opts_spec [OF assms, of pf zero_config]
  by (auto simp: optsToConfig_def split: sum.splits)

section \<open>Numbers\<close>

lemma of_int64_max: "of_int64 9223372036854775807 = Fin 9223372036854775808" "of_int64 (- 9223372036854775808) = Fin (- 9223372036854775808)"
  by code_simp+

lemma trunc_integral: "of_int (trunc_rat r) = r \<Longrightarrow> \<exists>n. r = of_int n \<and> trunc_rat r = n"
  by auto

text \<open>
  C40: a number that batchSize or maxQueueSize accepts is the integer that was written, within the
  range of int64, except for one: 2^63, which the comparison with the rounded maximum lets through,
  becomes the smallest int64.
\<close>

theorem toInt_exact:
  assumes "toInt v = Inr n"
  shows "in_int64 n \<and> (v = AnyInt n \<or> (\<exists>x. v = AnyFloat x \<and>
    (fval x = of_int n \<or> x = Fin (2 ^ 63) \<and> n = - (2 ^ 63))))"
proof (cases v)
  case (AnyFloat x)
  show ?thesis
  proof (cases x)
    case (Fin r)
    with AnyFloat assms have r: "of_int (trunc_rat r) = r" "- (2 ^ 63) \<le> r" "r \<le> 2 ^ 63" and n: "n = to_int64 (Fin r)"
      by (auto simp: of_int64_max split: if_splits)
    show ?thesis
    proof (cases "in_int64 (trunc_rat r)")
      case True
      then show ?thesis using AnyFloat Fin r n by (simp add: to_int64_def)
    next
      case False
      have "(- (2 ^ 63) :: int) \<le> trunc_rat r" "trunc_rat r \<le> 2 ^ 63"
        using r by (metis of_int_le_iff of_int_minus of_int_numeral of_int_power)+
      with False have "trunc_rat r = 2 ^ 63" by (auto simp: in_int64_def)
      with r(1) have "r = 2 ^ 63" by (metis of_int_numeral of_int_power)
      moreover from n False have "n = - (2 ^ 63)" by (simp add: to_int64_def)
      ultimately show ?thesis using AnyFloat Fin by (simp add: in_int64_def)
    qed
  qed (use AnyFloat assms in \<open>auto simp: of_int64_max to_int64_def in_int64_def trunc_rat_def split: if_splits\<close>)
qed (use assms in \<open>auto simp: in_int64_def split: if_splits\<close>)

end
