(* ===== verification/Module_State.thy ===== *)
theory Module_State
  imports Module_Config Output_Life Journey_Delivery Journey_Engine "HOL-Library.Word"
begin

unbundle bit_operations_syntax

text \<open>
  k6otelgen/module.go, instance.go, handle.go and metrics.go: the module that a test run has once,
  the instance that each virtual user has, and the calls that a script makes on them. A call takes
  the module (the root with the shared pipeline) and an instance and returns both; calls of different
  virtual users do not overlap.
\<close>

section \<open>Environment\<close>

text \<open>
  What the module takes from elsewhere: the platform, the OpenTelemetry libraries, the YAML decoder,
  the random source of a seed, and the fuel that plans are built with.
\<close>

record module_env =
  me_pf :: platform
  me_lib :: sdk
  me_ot :: otel
  me_yaml :: "string \<Rightarrow> bool \<Rightarrow> string + raw_schema"
  me_random :: "64 word \<Rightarrow> environment"
  me_fuel :: nat

text \<open>
  A virtual user of k6: its VUID once it has a State, whether the
  State has a channel of samples, the registry of its init environment by the metrics it accepts,
  whether it has a logger, its context, and whether that is done.
\<close>

record vu =
  vu_state :: "64 word option"
  vu_samples :: bool
  vu_registry :: "(string \<Rightarrow> bool) option"
  vu_logger :: bool
  vu_context :: "span_context option"
  vu_done :: bool

section \<open>State\<close>

record native_metrics =
  nm_counters :: "string list"
  nm_queueDrops :: "string option"

record root_module =
  rm_schemaOnce :: bool
  rm_schemaErr :: "gen_error option"
  rm_schema :: "schema option"
  rm_overlay :: "fault_overlay option"
  rm_loadedPath :: string
  rm_loadLogOnce :: bool
  rm_configureOnce :: bool
  rm_configureErr :: "gen_error option"
  rm_config :: config
  rm_configured :: bool
  rm_observableOnce :: bool
  rm_observableErr :: "gen_error option"
  rm_observableReg :: "registration option"
  rm_accumulators :: observable_state
  rm_handle :: "string option"

text \<open>The zero value that the function New of the package returns.\<close>

definition module_New :: root_module where
  "module_New = \<lparr>rm_schemaOnce = False, rm_schemaErr = None, rm_schema = None, rm_overlay = None,
     rm_loadedPath = '''', rm_loadLogOnce = False, rm_configureOnce = False, rm_configureErr = None,
     rm_config = zero_config, rm_configured = False, rm_observableOnce = False, rm_observableErr = None,
     rm_observableReg = None, rm_accumulators = [], rm_handle = None\<rparr>"

text \<open>
  An instance, with the clock when its seed is taken; its handle is the path it was loaded from and shares its engine. \<open>mi_run\<close> is the
  run of its synthesizer, \<open>mi_pushed\<close> what it has pushed into the samples of k6, \<open>mi_logs\<close> what
  its logger got. The pointer to the root module is nil when \<open>mi_root\<close> is False.
\<close>

record module_instance =
  mi_root :: bool
  mi_vu :: "vu option"
  mi_nanos :: int
  mi_engine :: "engine option"
  mi_run :: "synth_state run"
  mi_handle :: "string option"
  mi_logger :: bool
  mi_native :: "native_metrics option"
  mi_lastStats :: stats
  mi_initErr :: "gen_error option"
  mi_pushed :: "(string \<times> f64) list"
  mi_logs :: "msg list"

record 'r world =
  wo_root :: root_module
  wo_shared :: "'r pipeline shared"
  wo_log :: sdk_log

definition new_world :: "'r world" where
  "new_world = \<lparr>wo_root = module_New, wo_shared = zero_shared, wo_log = []\<rparr>"

text \<open>A call returns, returns an error (or throws its message), or panics in Go.\<close>

datatype 'a call = Returned 'a | Failed gen_error | Panicked msg

text \<open>The JavaScript side: an error becomes a TypeError with its message.\<close>

datatype 'a js = Value 'a | TypeError string | GoPanic msg

fun throwJSException :: "(gen_error \<Rightarrow> string) \<Rightarrow> 'a call \<Rightarrow> 'a js" where
  "throwJSException render (Returned x) = Value x"
| "throwJSException render (Failed e) = TypeError (formatErrorMessage render (Some e))"
| "throwJSException render (Panicked m) = GoPanic m"

section \<open>Virtual users\<close>

text \<open>\<open>nanos\<close> is the clock when the seed is taken.\<close>

definition seedForVU :: "int \<Rightarrow> vu option \<Rightarrow> 64 word" where
  "seedForVU nanos v =
     (let seed = word_of_int nanos in
      case v of None \<Rightarrow> seed | Some u \<Rightarrow> (case vu_state u of None \<Rightarrow> seed | Some vuid \<Rightarrow> seed XOR vuid))"

definition loggerForVU :: "vu option \<Rightarrow> bool" where
  "loggerForVU v = (case v of None \<Rightarrow> False | Some u \<Rightarrow> vu_logger u)"

definition vuContext :: "vu option \<Rightarrow> span_context" where
  "vuContext v = (case v of None \<Rightarrow> no_span | Some u \<Rightarrow> (case vu_context u of None \<Rightarrow> no_span | Some c \<Rightarrow> c))"

definition stat_names :: "string list" where
  "stat_names = [''otel_gen_traces_exported'', ''otel_gen_traces_failed'', ''otel_gen_metrics_exported'',
     ''otel_gen_metrics_failed'', ''otel_gen_logs_exported'', ''otel_gen_logs_failed'']"

definition metricQueueDrops :: string where "metricQueueDrops = ''otel_gen_queue_drops''"

definition newNativeMetrics :: "vu option \<Rightarrow> native_metrics option" where
  "newNativeMetrics v = (case v of
       None \<Rightarrow> None
     | Some u \<Rightarrow> (case vu_registry u of
           None \<Rightarrow> None
         | Some accepts \<Rightarrow>
             if list_all accepts stat_names \<and> accepts metricQueueDrops
             then Some \<lparr>nm_counters = stat_names, nm_queueDrops = Some metricQueueDrops\<rparr> else None))"

definition gen_log :: "string \<Rightarrow> f64 fmt_arg list \<Rightarrow> module_instance \<Rightarrow> module_instance" where
  "gen_log m args mi = (if mi_logger mi then mi\<lparr>mi_logs := mi_logs mi @ [Msg m args]\<rparr> else mi)"

section \<open>The pipeline\<close>

definition getOrBuildPipeline :: "module_env \<Rightarrow> module_instance \<Rightarrow> 'r world \<Rightarrow> (gen_error + 'r pipeline option) \<times> 'r world" where
  "getOrBuildPipeline me mi wo =
     (if \<not> mi_root mi then (Inl (GenConfig ''not_loaded'' '''' None), wo)
      else case GetShared (pipeline_factory (me_pf me) (me_lib me) (rm_config (wo_root wo))) (wo_shared wo, wo_log wo) of
        ((p, err), h, w) \<Rightarrow> ((case err of Some e \<Rightarrow> Inl (GenExporter e) | None \<Rightarrow> Inr p), wo\<lparr>wo_shared := h, wo_log := w\<rparr>))"

text \<open>The registration of the observable metrics, once; its pipeline is not nil.\<close>

definition register_observables :: "module_env \<Rightarrow> root_module \<Rightarrow> root_module" where
  "register_observables me rm =
     (if rm_observableOnce rm then rm
      else (case RegisterServiceMetrics (me_ot me) True (rm_schema rm) True of
          Inl m \<Rightarrow> rm\<lparr>rm_observableOnce := True, rm_accumulators := [], rm_observableErr := Some (GenText m)\<rparr>
        | Inr reg \<Rightarrow> rm\<lparr>rm_observableOnce := True, rm_accumulators := [], rm_observableReg := Some reg\<rparr>))"

definition ensureObservableRegistration ::
  "module_env \<Rightarrow> 'r pipeline option \<Rightarrow> root_module \<Rightarrow> gen_error option \<times> root_module" where
  "ensureObservableRegistration me p rm = (case p of
       None \<Rightarrow> (Some (GenConfig ''pipeline_error'' '''' None), rm)
     | Some _ \<Rightarrow> (let rm = register_observables me rm in (rm_observableErr rm, rm)))"

text \<open>lateInit; NewEngineWithSeed may panic.\<close>

definition lateInit :: "module_env \<Rightarrow> module_instance \<times> 'r world \<Rightarrow> unit call \<times> module_instance \<times> 'r world" where
  "lateInit me = (\<lambda>(mi, wo).
     if \<not> mi_root mi \<or> rm_schema (wo_root wo) = None then (Failed (GenConfig ''not_loaded'' '''' None), mi, wo)
     else case getOrBuildPipeline me mi wo of
       (Inl e, wo) \<Rightarrow> (Failed e, mi, wo)
     | (Inr p, wo) \<Rightarrow> (case ensureObservableRegistration me p (wo_root wo) of
           (Some e, rm) \<Rightarrow> (Failed e, mi, wo\<lparr>wo_root := rm\<rparr>)
         | (None, rm) \<Rightarrow> (case NewEngineWithSeed (me_fuel me) (rm_schema rm) (rm_overlay rm) True (me_random me (seedForVU (mi_nanos mi) (mi_vu mi))) of
               Inl m \<Rightarrow> (Panicked m, mi, wo\<lparr>wo_root := rm\<rparr>)
             | Inr en \<Rightarrow> (Returned (), mi\<lparr>mi_engine := Some en, mi_run := new_run, mi_handle := Some (rm_loadedPath rm)\<rparr>,
                 wo\<lparr>wo_root := rm\<lparr>rm_handle := Some (rm_loadedPath rm)\<rparr>\<rparr>))))"

definition NewModuleInstance :: "module_env \<Rightarrow> int \<Rightarrow> vu option \<Rightarrow> 'r world \<Rightarrow> unit call \<times> module_instance \<times> 'r world" where
  "NewModuleInstance me nanos v wo =
     (let mi = \<lparr>mi_root = True, mi_vu = v, mi_nanos = nanos, mi_engine = None, mi_run = new_run, mi_handle = None, mi_logger = loggerForVU v,
            mi_native = newNativeMetrics v, mi_lastStats = zero_stats, mi_initErr = None, mi_pushed = [], mi_logs = []\<rparr>
      in if rm_schema (wo_root wo) = None then (Returned (), mi, wo)
         else case lateInit me (mi, wo) of
           (Failed e, mi, wo) \<Rightarrow> (Returned (), mi\<lparr>mi_initErr := Some e\<rparr>, wo)
         | (r, mi, wo) \<Rightarrow> (r, mi, wo))"

section \<open>Loading\<close>

text \<open>\<open>errors.As\<close> for a ValidationError.\<close>

fun has_validation_error :: "topo_error \<Rightarrow> bool" where
  "has_validation_error (ParseError path m inner) = False"
| "has_validation_error (ValidationError path rule m) = True"
| "has_validation_error (ErrJoin es) = list_ex has_validation_error es"

definition load_error_kind :: "parse_failure \<Rightarrow> string" where
  "load_error_kind e = (case e of
       ParseFailed t \<Rightarrow> if has_validation_error t then ''validate_error'' else ''parse_error'' | _ \<Rightarrow> ''parse_error'')"

text \<open>What schemaOnce does: it reads the file and parses it, whatever comes of it.\<close>

definition load_schema :: "module_env \<Rightarrow> string \<Rightarrow> root_module \<Rightarrow> root_module" where
  "load_schema me path rm =
     (if rm_schemaOnce rm then rm
      else case pf_ReadFile (me_pf me) path of
        Inl err \<Rightarrow> rm\<lparr>rm_schemaOnce := True, rm_schemaErr := Some (GenConfig ''file_not_found'' path (Some (GenForeign err)))\<rparr>
      | Inr data \<Rightarrow> (case Parse (me_yaml me) (Inr data) of
            Inl err \<Rightarrow> rm\<lparr>rm_schemaOnce := True,
              rm_schemaErr := Some (GenConfig (load_error_kind err) path (Some (GenTopology err)))\<rparr>
          | Inr s \<Rightarrow> rm\<lparr>rm_schemaOnce := True, rm_schema := Some s, rm_overlay := Some (ApplyFaults (Some s)),
              rm_loadedPath := path\<rparr>))"

text \<open>The summary that the first successful load logs.\<close>

definition log_loaded :: "module_instance \<times> 'r world \<Rightarrow> module_instance \<times> 'r world" where
  "log_loaded = (\<lambda>(mi, wo). let rm = wo_root wo in
     if rm_loadLogOnce rm then (mi, wo)
     else (gen_log ''xk6-otel-gen: topology loaded''
         [AStr (rm_loadedPath rm), AInt (case rm_schema rm of None \<Rightarrow> 0 | Some s \<Rightarrow> int (length (s_services s))),
          AInt (case rm_schema rm of None \<Rightarrow> 0 | Some s \<Rightarrow> int (length (s_journeys s)))] mi,
       wo\<lparr>wo_root := rm\<lparr>rm_loadLogOnce := True\<rparr>\<rparr>))"

definition Load :: "module_env \<Rightarrow> string \<Rightarrow> module_instance \<times> 'r world \<Rightarrow> string option call \<times> module_instance \<times> 'r world" where
  "Load me path = (\<lambda>(mi, wo).
     if \<not> mi_root mi then (Failed (GenConfig ''not_loaded'' path None), mi, wo)
     else (let rm = load_schema me path (wo_root wo); wo = wo\<lparr>wo_root := rm\<rparr> in
       case rm_schemaErr rm of
         Some e \<Rightarrow> (Failed e, mi, wo)
       | None \<Rightarrow>
           if rm_loadedPath rm \<noteq> path then (Failed (GenConfig ''path_mismatch'' path None), mi, wo)
           else case (if mi_handle mi = None then lateInit me (mi, wo) else (Returned (), mi, wo)) of
             (Failed e, st) \<Rightarrow> (Failed e, st)
           | (Panicked m, st) \<Rightarrow> (Panicked m, st)
           | (Returned _, st) \<Rightarrow> (case log_loaded st of (mi, wo) \<Rightarrow> (Returned (mi_handle mi), mi, wo))))"

section \<open>Configuration\<close>

definition configuredEndpoint :: "config \<Rightarrow> string" where
  "configuredEndpoint c = (if cfg_Endpoint c \<noteq> '''' then cfg_Endpoint c else ''localhost:4317'')"

text \<open>What configureOnce does; options that are not accepted leave their error for good.\<close>

definition configure_once :: "module_env \<Rightarrow> (string, any) gomap \<Rightarrow> root_module \<Rightarrow> root_module" where
  "configure_once me opts rm =
     (if rm_configureOnce rm then rm
      else case optsToConfig (me_pf me) opts of
        Inl e \<Rightarrow> rm\<lparr>rm_configureOnce := True, rm_configureErr := Some e\<rparr>
      | Inr jsCfg \<Rightarrow> rm\<lparr>rm_configureOnce := True, rm_configured := True,
          rm_config := MergeWith (MergeWith zero_config (ConfigFromEnv (me_pf me))) jsCfg\<rparr>)"

definition Configure ::
  "module_env \<Rightarrow> (string, any) gomap \<Rightarrow> module_instance \<times> 'r world \<Rightarrow> unit call \<times> module_instance \<times> 'r world" where
  "Configure me opts = (\<lambda>(mi, wo).
     if \<not> mi_root mi then (Failed (GenConfig ''not_loaded'' '''' None), mi, wo)
     else if rm_configured (wo_root wo) then (Failed (GenConfig ''already_configured'' '''' None), mi, wo)
     else (let rm = configure_once me opts (wo_root wo); wo = wo\<lparr>wo_root := rm\<rparr> in
       case rm_configureErr rm of
         Some e \<Rightarrow> (Failed e, mi, wo)
       | None \<Rightarrow> (case ResolveEndpoints (me_pf me) (rm_config rm) of (traces, metrics, logs) \<Rightarrow>
           (Returned (), gen_log ''xk6-otel-gen: exporter configured''
             (map AStr [configuredEndpoint (rm_config rm), exporter_protocol_String (cfg_Protocol (rm_config rm)), traces, metrics, logs]) mi,
            wo))))"

end
