(* ===== verification/Machine.thy ===== *)
theory Machine
  imports Once
begin

text \<open>
  Sequences of operations on a state that keeps an invariant: what holds of the result of each
  operation in a state of the invariant holds along every sequence.
\<close>

locale machine =
  fixes step :: "'op \<Rightarrow> 's \<Rightarrow> 'r \<times> 's" and inv :: "'s \<Rightarrow> bool" and allowed :: "'op \<Rightarrow> bool"
  assumes keeps: "inv s \<Longrightarrow> allowed x \<Longrightarrow> step x s = (r, s') \<Longrightarrow> inv s'"
begin

lemma run_keeps: "inv s \<Longrightarrow> list_all allowed xs \<Longrightarrow> run_all step xs s = (rs, s') \<Longrightarrow> inv s'"
proof (induction xs arbitrary: s rs)
  case (Cons x xs)
  obtain r s1 where step: "step x s = (r, s1)" by force
  obtain rs1 s2 where run: "run_all step xs s1 = (rs1, s2)" by force
  from Cons.prems step have "inv s1" by (auto intro: keeps)
  with Cons step run show ?case by simp
qed simp

text \<open>A result is judged in the state in which its operation starts.\<close>

lemma run_results:
  assumes good: "\<And>x s r s'. inv s \<Longrightarrow> allowed x \<Longrightarrow> step x s = (r, s') \<Longrightarrow> good x r"
  shows "inv s \<Longrightarrow> list_all allowed xs \<Longrightarrow> run_all step xs s = (rs, s') \<Longrightarrow> list_all2 good xs rs"
proof (induction xs arbitrary: s rs)
  case (Cons x xs)
  obtain r s1 where step: "step x s = (r, s1)" by force
  obtain rs1 s2 where run: "run_all step xs s1 = (rs1, s2)" by force
  from Cons.prems step have "inv s1" "good x r" by (auto intro: keeps good)
  with Cons step run show ?case by auto
qed simp

end

end
