(* ===== verification/Module_Calls.thy ===== *)
theory Module_Calls
  imports Module_State Machine
begin

text \<open>
  The other calls of k6otelgen/instance.go and handle.go, what metrics.go pushes into the metrics of
  k6 after a journey, and a test run as a sequence of calls on the module and its instances.
\<close>

section \<open>Statistics\<close>

text \<open>
  The script sees the counters of the three signals; the counters of the pipeline at the time of the
  call, which the batch processors advance on their own, are an argument.
\<close>

record js_stats =
  js_tracesExported :: int
  js_tracesFailed :: int
  js_metricsExported :: int
  js_metricsFailed :: int
  js_logsExported :: int
  js_logsFailed :: int

definition gen_Stats :: "module_env \<Rightarrow> stats \<Rightarrow> module_instance \<times> 'r world \<Rightarrow> js_stats call \<times> module_instance \<times> 'r world" where
  "gen_Stats me s = (\<lambda>(mi, wo). case getOrBuildPipeline me mi wo of
       (Inl e, wo) \<Rightarrow> (Failed (GenConfig ''pipeline_error'' '''' (Some e)), mi, wo)
     | (Inr p, wo) \<Rightarrow> (Returned \<lparr>js_tracesExported = st_tracesExported s, js_tracesFailed = st_tracesFailed s,
           js_metricsExported = st_metricsExported s, js_metricsFailed = st_metricsFailed s,
           js_logsExported = st_logsExported s, js_logsFailed = st_logsFailed s\<rparr>, mi, wo))"

definition gen_Flush :: "module_env \<Rightarrow> module_instance \<times> 'r world \<Rightarrow> unit call \<times> module_instance \<times> 'r world" where
  "gen_Flush me = (\<lambda>(mi, wo). case getOrBuildPipeline me mi wo of
       (Inl e, wo) \<Rightarrow> (Failed (GenConfig ''pipeline_error'' '''' (Some e)), mi, wo)
     | (Inr None, wo) \<Rightarrow> (Panicked (Msg ''nil pipeline'' []), mi, wo)
     | (Inr (Some p), wo) \<Rightarrow> (case ForceFlush (me_lib me) (p, wo_log wo) of
           (err, p, w) \<Rightarrow>
             ((case err of None \<Rightarrow> Returned () | Some e \<Rightarrow> Failed (GenConfig ''flush_error'' '''' (Some (GenExporter e)))),
              mi, wo\<lparr>wo_shared := (wo_shared wo)\<lparr>sh_pipeline := Some p\<rparr>, wo_log := w\<rparr>)))"

definition gen_Journeys :: "module_instance \<times> 'r world \<Rightarrow> string list" where
  "gen_Journeys = (\<lambda>(mi, wo). if \<not> mi_root mi \<or> rm_schema (wo_root wo) = None then []
     else case mi_engine mi of None \<Rightarrow> [] | Some en \<Rightarrow> ListJourneys en)"

section \<open>Metrics of k6\<close>

definition stat_values :: "stats \<Rightarrow> int list" where
  "stat_values s = [st_tracesExported s, st_tracesFailed s, st_metricsExported s, st_metricsFailed s,
     st_logsExported s, st_logsFailed s]"

definition stat_deltas :: "stats \<Rightarrow> stats \<Rightarrow> (string \<times> int) list" where
  "stat_deltas current previous =
     zip stat_names (map2 (\<lambda>c p. wrap64 (c - p)) (stat_values current) (stat_values previous))"

definition warnOnExporterFailures :: "(string \<times> int) list \<Rightarrow> module_instance \<Rightarrow> module_instance" where
  "warnOnExporterFailures deltas mi =
     (let delta = (\<lambda>k. case map_of deltas k of None \<Rightarrow> 0 | Some d \<Rightarrow> d);
          tracesFailed = delta ''otel_gen_traces_failed''; metricsFailed = delta ''otel_gen_metrics_failed'';
          logsFailed = delta ''otel_gen_logs_failed'';
          tot = wrap64 (wrap64 (tracesFailed + metricsFailed) + logsFailed)
      in if tot \<le> 0 then mi
         else gen_log ''xk6-otel-gen: exporter failures observed'' [AInt tracesFailed, AInt metricsFailed, AInt logsFailed, AInt tot] mi)"

text \<open>
  The samples of one snapshot: a counter sample per positive delta, and the gauge of the queue drops,
  which is always 0. Their tags and time are left out. The snapshot replaces the last one even when
  there is nowhere to push to, and samples are lost once the context is done.
\<close>

definition snapshot_samples :: "native_metrics \<Rightarrow> (string \<times> int) list \<Rightarrow> (string \<times> f64) list" where
  "snapshot_samples nm deltas =
     map (\<lambda>(name, d). (name, of_int64 d)) (filter (\<lambda>(name, d). 0 < d) deltas)
     @ (case nm_queueDrops nm of None \<Rightarrow> [] | Some name \<Rightarrow> [(name, Fin 0)])"

definition emitExporterStatsSnapshot :: "stats \<Rightarrow> module_instance \<Rightarrow> module_instance" where
  "emitExporterStatsSnapshot current mi =
     (let deltas = stat_deltas current (mi_lastStats mi);
          mi = warnOnExporterFailures deltas (mi\<lparr>mi_lastStats := current\<rparr>)
      in case (mi_native mi, mi_vu mi) of
           (Some nm, Some u) \<Rightarrow>
             if vu_state u = None \<or> \<not> vu_samples u \<or> vu_done u then mi
             else mi\<lparr>mi_pushed := mi_pushed mi @ snapshot_samples nm deltas\<rparr>
         | _ \<Rightarrow> mi)"

definition emitExporterStats :: "module_env \<Rightarrow> stats \<Rightarrow> module_instance \<times> 'r world \<Rightarrow> module_instance \<times> 'r world" where
  "emitExporterStats me current = (\<lambda>(mi, wo).
     if mi_native mi = None then (mi, wo)
     else case getOrBuildPipeline me mi wo of
       (Inl e, wo) \<Rightarrow> (mi, wo)
     | (Inr p, wo) \<Rightarrow> (emitExporterStatsSnapshot current mi, wo))"

section \<open>The handle\<close>

text \<open>
  A journey on the engine of the instance. The accumulators of the observable metrics are those of
  the root module, which all synthesizers share. \<open>now\<close> is the clock, \<open>current\<close> the counters of
  the pipeline afterwards.
\<close>

definition execute_journey ::
  "module_env \<Rightarrow> engine \<Rightarrow> plan \<Rightarrow> time \<Rightarrow> module_instance \<times> 'r world \<Rightarrow> execute_error option \<times> module_instance \<times> 'r world" where
  "execute_journey me en p now = (\<lambda>(mi, wo).
     let st = mi_run mi; shared = (r_synth st)\<lparr>ss_accumulators := rm_accumulators (wo_root wo)\<rparr> in
     case Execute en (default_synth (me_ot me) (en_schema en)) (Some (vuContext (mi_vu mi))) (Some p) now (st\<lparr>r_synth := shared\<rparr>) of
       (err, st') \<Rightarrow> (err, mi\<lparr>mi_run := st'\<rparr>,
         wo\<lparr>wo_root := (wo_root wo)\<lparr>rm_accumulators := ss_accumulators (r_synth st')\<rparr>\<rparr>))"

definition RunJourney ::
  "module_env \<Rightarrow> string \<Rightarrow> time \<Rightarrow> stats \<Rightarrow> module_instance \<times> 'r world \<Rightarrow> unit call \<times> module_instance \<times> 'r world" where
  "RunJourney me name now current st = (case mi_engine (fst st) of
       None \<Rightarrow> (Failed (GenConfig ''not_loaded'' '''' None), st)
     | Some en \<Rightarrow> (case BuildPlan en name of
           Inl e \<Rightarrow> (Failed (GenPlan e), st)
         | Inr p \<Rightarrow> (case execute_journey me en p now st of
               (Some e, st) \<Rightarrow> (Failed (GenExecute e), st)
             | (None, st) \<Rightarrow> (Returned (), emitExporterStats me current st))))"

definition RunRandomJourney ::
  "module_env \<Rightarrow> time \<Rightarrow> stats \<Rightarrow> module_instance \<times> 'r world \<Rightarrow> string call \<times> module_instance \<times> 'r world" where
  "RunRandomJourney me now current = (\<lambda>(mi, wo). case mi_engine mi of
       None \<Rightarrow> (Failed (GenConfig ''not_loaded'' '''' None), mi, wo)
     | Some en \<Rightarrow> (case PickJourney en (mi_run mi) of
           (name, run) \<Rightarrow>
             if name = '''' then (Failed (GenConfig ''not_loaded'' '''' None), mi\<lparr>mi_run := run\<rparr>, wo)
             else (case RunJourney me name now current (mi\<lparr>mi_run := run\<rparr>, wo) of
                 (Returned _, st) \<Rightarrow> (Returned name, st)
               | (Failed e, st) \<Rightarrow> (Failed e, st)
               | (Panicked m, st) \<Rightarrow> (Panicked m, st))))"

definition handle_Journeys :: "module_instance \<Rightarrow> string list" where
  "handle_Journeys mi = (case mi_engine mi of None \<Rightarrow> [] | Some en \<Rightarrow> ListJourneys en)"

definition handle_JourneyWeights :: "module_instance \<Rightarrow> (string, f64) gomap" where
  "handle_JourneyWeights mi = (case mi_engine mi of None \<Rightarrow> [] | Some en \<Rightarrow> JourneyWeights en)"

text \<open>The arguments of setFaultIntensity, as the runtime exports them.\<close>

fun faultIntensityTarget :: "any \<Rightarrow> gen_error + string" where
  "faultIntensityTarget (AnyString t) =
     (if t = '''' then Inl (GenText (Msg ''target must be a non-empty string'' [])) else Inr t)"
| "faultIntensityTarget v = Inl (GenText (Msg ''target must be a non-empty string'' []))"

fun faultIntensityNumber :: "any \<Rightarrow> gen_error + f64" where
  "faultIntensityNumber (AnyFloat x) = Inr x"
| "faultIntensityNumber (AnyInt n) = Inr (of_int64 n)"
| "faultIntensityNumber v = Inl (GenText (Msg ''intensity must be numeric'' []))"

definition bad_intensity :: "gen_error \<Rightarrow> gen_error" where
  "bad_intensity e = GenConfig ''invalid_fault_intensity'' '''' (Some e)"

fun apply_intensity :: "any list \<Rightarrow> engine \<Rightarrow> gen_error + engine" where
  "apply_intensity [a] en = (case faultIntensityNumber a of
       Inl e \<Rightarrow> Inl (bad_intensity e) | Inr x \<Rightarrow> Inr (setFaultIntensity x en))"
| "apply_intensity [t, a] en = (case faultIntensityTarget t of
       Inl e \<Rightarrow> Inl (bad_intensity e)
     | Inr target \<Rightarrow> (case faultIntensityNumber a of
           Inl e \<Rightarrow> Inl (bad_intensity e)
         | Inr x \<Rightarrow> map_sum GenText id (setFaultTargetIntensity target x en)))"
| "apply_intensity args en = Inl (bad_intensity (GenText
     (Msg ''want setFaultIntensity(x) or setFaultIntensity(target, x), got %d arguments'' [AInt (int (length args))])))"

definition SetFaultIntensity :: "any list \<Rightarrow> module_instance \<Rightarrow> unit call \<times> module_instance" where
  "SetFaultIntensity args mi = (case mi_engine mi of
       None \<Rightarrow> (Failed (GenConfig ''not_loaded'' '''' None), mi)
     | Some en \<Rightarrow> (case apply_intensity args en of
           Inl e \<Rightarrow> (Failed e, mi) | Inr en \<Rightarrow> (Returned (), mi\<lparr>mi_engine := Some en\<rparr>)))"

section \<open>A test run\<close>

text \<open>A call names its instance by the order of creation; a call on no instance does nothing.\<close>

datatype module_op =
    CallNew int "vu option"
  | CallConfigure nat "(string, any) gomap"
  | CallLoad nat string
  | CallRun nat string time stats
  | CallRandom nat time stats
  | CallIntensity nat "any list"
  | CallStats nat stats
  | CallFlush nat

datatype js_result = NoCall | JsUndefined | JsHandle "string option" | JsName string | JsStats js_stats

fun map_call :: "('a \<Rightarrow> 'b) \<Rightarrow> 'a call \<Rightarrow> 'b call" where
  "map_call f (Returned x) = Returned (f x)"
| "map_call f (Failed e) = Failed e"
| "map_call f (Panicked m) = Panicked m"

type_synonym 'r session = "module_instance list \<times> 'r world"

definition on_instance ::
  "nat \<Rightarrow> (module_instance \<times> 'r world \<Rightarrow> 'a call \<times> module_instance \<times> 'r world) \<Rightarrow> ('a \<Rightarrow> js_result)
   \<Rightarrow> 'r session \<Rightarrow> js_result call \<times> 'r session" where
  "on_instance i f g = (\<lambda>(mis, wo).
     if i < length mis then (case f (mis ! i, wo) of (r, mi, wo) \<Rightarrow> (map_call g r, mis[i := mi], wo))
     else (Returned NoCall, mis, wo))"

fun module_step :: "module_env \<Rightarrow> module_op \<Rightarrow> 'r session \<Rightarrow> js_result call \<times> 'r session" where
  "module_step me (CallNew nanos v) (mis, wo) = (case NewModuleInstance me nanos v wo of
     (r, mi, wo) \<Rightarrow> (map_call (\<lambda>_. JsUndefined) r, mis @ [mi], wo))"
| "module_step me (CallConfigure i opts) ses = on_instance i (Configure me opts) (\<lambda>_. JsUndefined) ses"
| "module_step me (CallLoad i path) ses = on_instance i (Load me path) JsHandle ses"
| "module_step me (CallRun i name now current) ses = on_instance i (RunJourney me name now current) (\<lambda>_. JsUndefined) ses"
| "module_step me (CallRandom i now current) ses = on_instance i (RunRandomJourney me now current) JsName ses"
| "module_step me (CallIntensity i args) ses =
     on_instance i (\<lambda>(mi, wo). case SetFaultIntensity args mi of (r, mi) \<Rightarrow> (r, mi, wo)) (\<lambda>_. JsUndefined) ses"
| "module_step me (CallStats i current) ses = on_instance i (gen_Stats me current) JsStats ses"
| "module_step me (CallFlush i) ses = on_instance i (gen_Flush me) (\<lambda>_. JsUndefined) ses"

end
