(* ===== verification/Module_Session.thy ===== *)
theory Module_Session
  imports Module_Calls
begin

text \<open>
  What holds along every test run: the invariant of the root module and of the instances, which every
  call keeps, and the results that calls can have. The contract \<open>machine\<close> carries it from one call
  to a run.
\<close>

section \<open>Topologies that the runs load\<close>

text \<open>
  The decoder gives maps with distinct keys, and the topologies are those whose journeys execute:
  named services, retries that leave room for one more attempt, and fuel for the depth of their plans.
\<close>

definition env_ok :: "module_env \<Rightarrow> bool" where
  "env_ok me \<longleftrightarrow> (\<forall>data raw s. me_yaml me data False = Inr raw \<longrightarrow> parse_raw raw = Inr s \<longrightarrow>
     raw_maps_ok raw \<and> retries_fit s \<and> services_named s \<and> plan_fuel s \<le> me_fuel me)"

definition loaded_from :: "module_env \<Rightarrow> string \<Rightarrow> schema \<Rightarrow> bool" where
  "loaded_from me path s \<longleftrightarrow> (\<exists>data raw. pf_ReadFile (me_pf me) path = Inr data
     \<and> me_yaml me data False = Inr raw \<and> parse_raw raw = Inr s)"

lemma Parse_raw: "Parse yaml (Inr data) = Inr s \<Longrightarrow> \<exists>raw. yaml data False = Inr raw \<and> parse_raw raw = Inr s"
  by (auto simp: Parse_def decodeRaw_def split: sum.splits)

lemma loaded_valid:
  assumes "env_ok me" and "loaded_from me path s"
  shows "maps_ok s" and "Validate (Some s) = None" and "plan_fuel s \<le> me_fuel me"
proof -
  from assms obtain raw where raw: "parse_raw raw = Inr s" "raw_maps_ok raw" "plan_fuel s \<le> me_fuel me"
    by (auto simp: loaded_from_def env_ok_def)
  show "maps_ok s" "Validate (Some s) = None"
    using raw(1,2) resolveReferences_result(1) by (auto simp: parse_raw_def split: prod.splits option.splits)
  show "plan_fuel s \<le> me_fuel me" by (rule raw(3))
qed

section \<open>The invariant\<close>

definition configure_ok :: "root_module \<Rightarrow> bool" where
  "configure_ok rm \<longleftrightarrow> (if rm_configureOnce rm then rm_configured rm \<longleftrightarrow> rm_configureErr rm = None
     else \<not> rm_configured rm \<and> rm_configureErr rm = None)"

lemma configure_ok_updates [simp]:
  "configure_ok (rm\<lparr>rm_schemaOnce := b\<rparr>) \<longleftrightarrow> configure_ok rm" "configure_ok (rm\<lparr>rm_schemaErr := e\<rparr>) \<longleftrightarrow> configure_ok rm"
  "configure_ok (rm\<lparr>rm_schema := p\<rparr>) \<longleftrightarrow> configure_ok rm" "configure_ok (rm\<lparr>rm_overlay := q\<rparr>) \<longleftrightarrow> configure_ok rm"
  "configure_ok (rm\<lparr>rm_loadedPath := l\<rparr>) \<longleftrightarrow> configure_ok rm" "configure_ok (rm\<lparr>rm_handle := h\<rparr>) \<longleftrightarrow> configure_ok rm"
  by (simp_all add: configure_ok_def)

definition root_ok :: "module_env \<Rightarrow> root_module \<Rightarrow> bool" where
  "root_ok me rm \<longleftrightarrow> (rm_schemaOnce rm \<longleftrightarrow> (rm_schema rm = None) \<noteq> (rm_schemaErr rm = None))
     \<and> (\<not> rm_schemaOnce rm \<longrightarrow> rm_schema rm = None \<and> rm_schemaErr rm = None)
     \<and> configure_ok rm
     \<and> (\<forall>s. rm_schema rm = Some s \<longrightarrow> rm_overlay rm = Some (ApplyFaults (Some s)) \<and> loaded_from me (rm_loadedPath rm) s)"

definition engine_of :: "module_env \<Rightarrow> schema \<Rightarrow> engine \<Rightarrow> bool" where
  "engine_of me s en \<longleftrightarrow> en_schema en = s \<and> en_journeyKeys en = sort_strings (map fst (s_journeys s))
     \<and> (\<forall>name. BuildPlan en name = (if name \<in> fst ` set (s_journeys s) then buildPlan (me_fuel me) s name
         else Inl (PlanError ''unknown_journey'' [name] None)))"

definition vu_ok :: "module_env \<Rightarrow> root_module \<Rightarrow> module_instance \<Rightarrow> bool" where
  "vu_ok me rm mi \<longleftrightarrow> mi_root mi \<and> (case mi_engine mi of
       None \<Rightarrow> mi_handle mi = None
     | Some en \<Rightarrow> mi_handle mi = Some (rm_loadedPath rm)
         \<and> (\<exists>s. rm_schema rm = Some s \<and> engine_of me s en \<and> open_spans s [] (r_synth (mi_run mi))))"

text \<open>A topology that has been loaded stays, and so does what the first load and the first configure left.\<close>

definition root_le :: "root_module \<Rightarrow> root_module \<Rightarrow> bool" where
  "root_le rm rm' \<longleftrightarrow> (\<forall>s. rm_schema rm = Some s \<longrightarrow> rm_schema rm' = Some s \<and> rm_loadedPath rm' = rm_loadedPath rm)
     \<and> (rm_schemaOnce rm \<longrightarrow> rm_schemaOnce rm' \<and> rm_schema rm' = rm_schema rm \<and> rm_schemaErr rm' = rm_schemaErr rm
         \<and> rm_loadedPath rm' = rm_loadedPath rm)
     \<and> (rm_configureOnce rm \<longrightarrow> rm_configureOnce rm' \<and> rm_configured rm' = rm_configured rm
         \<and> rm_configureErr rm' = rm_configureErr rm \<and> rm_config rm' = rm_config rm)"

lemma root_le_refl [simp]: "root_le rm rm"
  by (simp add: root_le_def)

lemma root_le_trans [trans]: "root_le a b \<Longrightarrow> root_le b c \<Longrightarrow> root_le a c"
  by (auto simp: root_le_def)

lemma vu_ok_mono: "vu_ok me rm mi \<Longrightarrow> root_le rm rm' \<Longrightarrow> vu_ok me rm' mi"
  by (auto simp: vu_ok_def root_le_def split: option.splits)

definition world_ok :: "module_env \<Rightarrow> 'r world \<Rightarrow> bool" where
  "world_ok me wo \<longleftrightarrow> root_ok me (wo_root wo) \<and> shared_ok (wo_shared wo)"

definition session_ok :: "module_env \<Rightarrow> 'r session \<Rightarrow> bool" where
  "session_ok me ses \<longleftrightarrow> world_ok me (snd ses) \<and> (\<forall>mi \<in> set (fst ses). vu_ok me (wo_root (snd ses)) mi)"

lemma session_ok_new: "session_ok me ([], new_world)"
  by (simp add: session_ok_def world_ok_def new_world_def root_ok_def configure_ok_def module_New_def)

text \<open>A call on an instance keeps the invariant, and its result satisfies \<open>P\<close>.\<close>

definition keeps_ok ::
  "module_env \<Rightarrow> ('a call \<Rightarrow> bool) \<Rightarrow> (module_instance \<times> 'r world \<Rightarrow> 'a call \<times> module_instance \<times> 'r world) \<Rightarrow> bool" where
  "keeps_ok me P f \<longleftrightarrow> (\<forall>mi wo r mi' wo'. world_ok me wo \<longrightarrow> vu_ok me (wo_root wo) mi \<longrightarrow> f (mi, wo) = (r, mi', wo') \<longrightarrow>
     world_ok me wo' \<and> vu_ok me (wo_root wo') mi' \<and> root_le (wo_root wo) (wo_root wo') \<and> P r)"

lemma keeps_okI:
  assumes "\<And>mi wo r mi' wo'. world_ok me wo \<Longrightarrow> vu_ok me (wo_root wo) mi \<Longrightarrow> f (mi, wo) = (r, mi', wo') \<Longrightarrow>
     world_ok me wo' \<and> vu_ok me (wo_root wo') mi' \<and> root_le (wo_root wo) (wo_root wo') \<and> P r"
  shows "keeps_ok me P f"
  using assms unfolding keeps_ok_def by blast

lemma keeps_okD:
  assumes "keeps_ok me P f" and "world_ok me wo" and "vu_ok me (wo_root wo) mi" and "f (mi, wo) = (r, mi', wo')"
  shows "world_ok me wo'" "vu_ok me (wo_root wo') mi'" "root_le (wo_root wo) (wo_root wo')" "P r"
  using assms unfolding keeps_ok_def by blast+

lemma keeps_weaken: "keeps_ok me P f \<Longrightarrow> (\<And>r. P r \<Longrightarrow> Q r) \<Longrightarrow> keeps_ok me Q f"
  unfolding keeps_ok_def by blast

lemma on_instance_keeps:
  assumes f: "keeps_ok me P f" and ok: "session_ok me ses" and run: "on_instance i f g ses = (r, ses')"
  shows "session_ok me ses' \<and> root_le (wo_root (snd ses)) (wo_root (snd ses')) \<and> (r = Returned NoCall \<or> (\<exists>r0. P r0 \<and> r = map_call g r0))"
proof -
  obtain mis wo where ses: "ses = (mis, wo)" by force
  show ?thesis
  proof (cases "i < length mis")
    case True
    obtain r0 mi wo' where call: "f (mis ! i, wo) = (r0, mi, wo')" by (metis prod_cases3)
    note facts = keeps_okD [OF f _ _ call]
    from ok ses True have pre: "world_ok me wo" "vu_ok me (wo_root wo) (mis ! i)" by (auto simp: session_ok_def)
    have "\<forall>m \<in> set (mis[i := mi]). vu_ok me (wo_root wo') m"
      using facts [OF pre] ok ses vu_ok_mono by (auto simp: session_ok_def dest!: set_update_subset_insert [THEN subsetD])
    with facts [OF pre] run call ses True show ?thesis by (auto simp: on_instance_def session_ok_def)
  qed (use ok run ses in \<open>auto simp: on_instance_def\<close>)
qed

definition no_panic :: "'a call \<Rightarrow> bool" where
  "no_panic r \<longleftrightarrow> (case r of Panicked m \<Rightarrow> False | _ \<Rightarrow> True)"

lemma no_panic_simps [simp]: "no_panic (Returned x)" "no_panic (Failed e)" "\<not> no_panic (Panicked m)" "no_panic (map_call f r) \<longleftrightarrow> no_panic r"
  by (cases r; simp add: no_panic_def)+

section \<open>Calls that touch the pipeline\<close>

lemma getOrBuildPipeline_ok:
  assumes "getOrBuildPipeline me mi wo = (r, wo')" and "shared_ok (wo_shared wo)" and "mi_root mi"
  shows "shared_ok (wo_shared wo')" and "wo_root wo' = wo_root wo"
    and "r = Inr q \<Longrightarrow> q \<noteq> None \<and> sh_pipeline (wo_shared wo') = q"
proof -
  obtain p err h w where get: "GetShared (pipeline_factory (me_pf me) (me_lib me) (rm_config (wo_root wo))) (wo_shared wo, wo_log wo)
      = ((p, err), h, w)"
    by (metis prod.collapse)
  with assms have wo': "wo' = wo\<lparr>wo_shared := h, wo_log := w\<rparr>"
    and r: "r = (case err of Some e \<Rightarrow> Inl (GenExporter e) | None \<Rightarrow> Inr p)"
    by (auto simp: getOrBuildPipeline_def split: option.splits)
  have h: "shared_ok h"
    using GetShared_ok [of "(wo_shared wo, wo_log wo)"] assms(2) get by (metis fst_conv snd_conv)
  with wo' show "shared_ok (wo_shared wo')" "wo_root wo' = wo_root wo" by simp_all
  have "shared_left (h, w) = Some (p, err)"
    using shared_once.leaves [of _ "(wo_shared wo, wo_log wo)"] get by (metis fst_conv snd_conv)
  with h have "(p = None) \<noteq> (err = None)" by (auto simp: shared_left_def shared_ok_def split: if_splits)
  with r wo' \<open>shared_left (h, w) = Some (p, err)\<close> show "q \<noteq> None \<and> sh_pipeline (wo_shared wo') = q" if "r = Inr q"
    using that by (auto simp: shared_left_def split: option.splits if_splits)
qed

lemma vu_root: "vu_ok me rm mi \<Longrightarrow> mi_root mi"
  by (simp add: vu_ok_def)

lemma world_root_eq: "world_ok me wo \<Longrightarrow> shared_ok (wo_shared wo') \<Longrightarrow> wo_root wo' = wo_root wo \<Longrightarrow> world_ok me wo'"
  by (simp add: world_ok_def)
lemma shared_ok_pipeline: "shared_ok h \<Longrightarrow> sh_pipeline h = Some q \<Longrightarrow> shared_ok (h\<lparr>sh_pipeline := Some p\<rparr>)"
  by (auto simp: shared_ok_def split: if_splits)

lemma gen_Stats_keeps: "keeps_ok me no_panic (gen_Stats me current)"
proof (rule keeps_okI)
  fix mi wo r mi' wo'
  assume wo: "world_ok me wo" "vu_ok me (wo_root wo) mi" and run: "gen_Stats me current (mi, wo) = (r, mi', wo')"
  obtain x wo1 where get: "getOrBuildPipeline me mi wo = (x, wo1)" by force
  note facts = getOrBuildPipeline_ok [OF get] vu_root [OF wo(2)]
  from run get have r: "mi' = mi" "wo' = wo1" "no_panic r" by (auto simp: gen_Stats_def split: sum.splits)
  with facts wo show "world_ok me wo' \<and> vu_ok me (wo_root wo') mi' \<and> root_le (wo_root wo) (wo_root wo') \<and> no_panic r"
    by (simp add: world_ok_def)
qed

lemma gen_Flush_keeps: "keeps_ok me no_panic (gen_Flush me)"
proof (rule keeps_okI)
  fix mi wo r mi' wo'
  assume wo: "world_ok me wo" "vu_ok me (wo_root wo) mi" and run: "gen_Flush me (mi, wo) = (r, mi', wo')"
  obtain x wo1 where get: "getOrBuildPipeline me mi wo = (x, wo1)" by force
  note facts = getOrBuildPipeline_ok [OF get] vu_root [OF wo(2)]
  from wo have pre: "shared_ok (wo_shared wo)" "mi_root mi" by (simp_all add: world_ok_def vu_ok_def)
  show "world_ok me wo' \<and> vu_ok me (wo_root wo') mi' \<and> root_le (wo_root wo) (wo_root wo') \<and> no_panic r"
  proof (cases x)
    case (Inr q)
    with facts(3) pre obtain p where q: "q = Some p" "sh_pipeline (wo_shared wo1) = Some p" by blast
    with run get Inr facts(1,2) pre wo shared_ok_pipeline [of "wo_shared wo1" p] show ?thesis
      by (auto simp: gen_Flush_def world_ok_def split: prod.splits option.splits)
  qed (use run get facts pre wo in \<open>auto simp: gen_Flush_def world_ok_def\<close>)
qed

section \<open>Loading and configuring\<close>

lemma register_observables_fields [simp]:
  "rm_schema (register_observables me rm) = rm_schema rm" "rm_schemaErr (register_observables me rm) = rm_schemaErr rm"
  "rm_schemaOnce (register_observables me rm) = rm_schemaOnce rm" "rm_overlay (register_observables me rm) = rm_overlay rm"
  "rm_loadedPath (register_observables me rm) = rm_loadedPath rm" "rm_configureOnce (register_observables me rm) = rm_configureOnce rm"
  "rm_configured (register_observables me rm) = rm_configured rm" "rm_configureErr (register_observables me rm) = rm_configureErr rm"
  "rm_config (register_observables me rm) = rm_config rm"
  by (auto simp: register_observables_def split: sum.splits)

lemma root_ok_cong:
  assumes "rm_schemaOnce rm' = rm_schemaOnce rm" "rm_schema rm' = rm_schema rm" "rm_schemaErr rm' = rm_schemaErr rm"
    "rm_overlay rm' = rm_overlay rm" "rm_loadedPath rm' = rm_loadedPath rm" "rm_configureOnce rm' = rm_configureOnce rm"
    "rm_configured rm' = rm_configured rm" "rm_configureErr rm' = rm_configureErr rm" "rm_config rm' = rm_config rm"
  shows "root_ok me rm' \<longleftrightarrow> root_ok me rm" and "root_le rm rm'" and "vu_ok me rm' mi \<longleftrightarrow> vu_ok me rm mi"
  using assms by (auto simp: root_ok_def configure_ok_def root_le_def vu_ok_def split: option.splits)

lemma ensureObservableRegistration_fields:
  assumes "ensureObservableRegistration me p rm = (e, rm')"
  shows "rm_schema rm' = rm_schema rm \<and> rm_schemaErr rm' = rm_schemaErr rm \<and> rm_schemaOnce rm' = rm_schemaOnce rm
    \<and> rm_overlay rm' = rm_overlay rm \<and> rm_loadedPath rm' = rm_loadedPath rm \<and> rm_configureOnce rm' = rm_configureOnce rm
    \<and> rm_configured rm' = rm_configured rm \<and> rm_configureErr rm' = rm_configureErr rm \<and> rm_config rm' = rm_config rm"
  using assms by (auto simp: ensureObservableRegistration_def Let_def split: option.splits)

lemma lateInit_keeps:
  assumes env: "env_ok me"
  shows "keeps_ok me no_panic (lateInit me)"
proof (rule keeps_okI)
  fix mi wo r mi' wo'
  assume wo: "world_ok me wo" "vu_ok me (wo_root wo) mi" and run: "lateInit me (mi, wo) = (r, mi', wo')"
  from wo have pre: "shared_ok (wo_shared wo)" "mi_root mi" by (simp_all add: world_ok_def vu_ok_def)
  show "world_ok me wo' \<and> vu_ok me (wo_root wo') mi' \<and> root_le (wo_root wo) (wo_root wo') \<and> no_panic r"
  proof (cases "rm_schema (wo_root wo)")
    case (Some s)
    obtain x wo1 where get: "getOrBuildPipeline me mi wo = (x, wo1)" by force
    note facts = getOrBuildPipeline_ok [OF get pre]
    show ?thesis
    proof (cases x)
      case (Inr q)
      obtain e rm where reg: "ensureObservableRegistration me q (wo_root wo) = (e, rm)" by force
      note same = ensureObservableRegistration_fields [OF reg]
      then have rm: "root_ok me rm" "root_le (wo_root wo) rm" "vu_ok me rm mi"
        using wo root_ok_cong [of rm "wo_root wo"] by (simp_all add: world_ok_def)
      from wo Some have s: "rm_overlay rm = Some (ApplyFaults (Some s))" "loaded_from me (rm_loadedPath rm) s"
        using same by (auto simp: world_ok_def root_ok_def)
      obtain en where en: "NewEngineWithSeed (me_fuel me) (Some s) (Some (ApplyFaults (Some s))) True
            (me_random me (seedForVU (mi_nanos mi) (mi_vu mi))) = Inr en" "engine_of me s en"
        using NewEngine_engine [OF loaded_valid [OF env s(2)]] unfolding engine_of_def ListJourneys_def by metis
      show ?thesis
      proof (cases e)
        case None
        with run get Inr reg facts(1,2) rm same s en Some pre show ?thesis
          by (auto simp: lateInit_def world_ok_def vu_ok_def root_ok_def root_le_def new_run_def open_spans_new)
      qed (use run get Inr reg facts(1,2) rm Some pre in \<open>auto simp: lateInit_def world_ok_def\<close>)
    qed (use run get facts Some pre wo in \<open>auto simp: lateInit_def world_ok_def\<close>)
  qed (use run wo pre in \<open>auto simp: lateInit_def\<close>)
qed

lemma load_schema_fields [simp]:
  "rm_configureOnce (load_schema me path rm) = rm_configureOnce rm" "rm_configured (load_schema me path rm) = rm_configured rm"
  "rm_configureErr (load_schema me path rm) = rm_configureErr rm" "rm_config (load_schema me path rm) = rm_config rm"
  "configure_ok (load_schema me path rm) \<longleftrightarrow> configure_ok rm"
  by (simp_all add: load_schema_def configure_ok_def split: sum.split)

lemma load_schema_ok:
  assumes "root_ok me rm"
  shows "root_ok me (load_schema me path rm)" and "root_le rm (load_schema me path rm)" and "rm_schemaOnce (load_schema me path rm)"
proof -
  let ?rm = "load_schema me path rm"
  have "root_ok me ?rm \<and> root_le rm ?rm \<and> rm_schemaOnce ?rm"
  proof (cases "rm_schemaOnce rm")
    case False
    then have new: "rm_schema rm = None" "rm_schemaErr rm = None" "configure_ok rm" using assms by (simp_all add: root_ok_def)
    then have le: "root_le rm ?rm" using False by (simp add: root_le_def)
    show ?thesis
    proof (cases "pf_ReadFile (me_pf me) path")
      case (Inr data)
      then show ?thesis using False new le Parse_raw [of "me_yaml me" data]
        by (cases "Parse (me_yaml me) (Inr data)") (auto simp: load_schema_def root_ok_def loaded_from_def)
    qed (use False new le in \<open>simp add: load_schema_def root_ok_def\<close>)
  qed (use assms in \<open>simp add: load_schema_def\<close>)
  then show "root_ok me ?rm" "root_le rm ?rm" "rm_schemaOnce ?rm" by simp_all
qed

lemma load_schema_again: "rm_schemaOnce rm \<Longrightarrow> load_schema me path rm = rm"
  by (simp add: load_schema_def)

text \<open>Instances that agree on what the invariant reads.\<close>

definition same_vu :: "module_instance \<Rightarrow> module_instance \<Rightarrow> bool" where
  "same_vu mi mi' \<longleftrightarrow> mi_root mi' = mi_root mi \<and> mi_engine mi' = mi_engine mi \<and> mi_handle mi' = mi_handle mi \<and> mi_run mi' = mi_run mi"

lemma same_vu_ok: "same_vu mi mi' \<Longrightarrow> vu_ok me rm mi' \<longleftrightarrow> vu_ok me rm mi"
  by (auto simp: same_vu_def vu_ok_def split: option.splits)

lemma same_vu_log [simp]: "same_vu mi (gen_log m args mi)"
  by (simp add: same_vu_def gen_log_def)

lemma log_loaded_ok:
  assumes "log_loaded (mi, wo) = (mi', wo')" and "world_ok me wo" and "vu_ok me (wo_root wo) mi"
  shows "world_ok me wo' \<and> vu_ok me (wo_root wo') mi' \<and> root_le (wo_root wo) (wo_root wo')"
proof (cases "rm_loadLogOnce (wo_root wo)")
  case False
  let ?rm = "(wo_root wo)\<lparr>rm_loadLogOnce := True\<rparr>"
  from False assms(1) obtain m args where "wo' = wo\<lparr>wo_root := ?rm\<rparr>" "mi' = gen_log m args mi"
    by (auto simp: log_loaded_def Let_def)
  with assms(2,3) same_vu_ok [OF same_vu_log] root_ok_cong [of ?rm "wo_root wo"] show ?thesis
    by (simp add: world_ok_def)
qed (use assms in \<open>auto simp: log_loaded_def Let_def\<close>)
lemma Load_keeps:
  assumes env: "env_ok me"
  shows "keeps_ok me no_panic (Load me path)"
proof (rule keeps_okI)
  fix mi wo r mi' wo'
  assume wo: "world_ok me wo" "vu_ok me (wo_root wo) mi" and run: "Load me path (mi, wo) = (r, mi', wo')"
  let ?rm = "load_schema me path (wo_root wo)"
  let ?wo = "wo\<lparr>wo_root := ?rm\<rparr>"
  have ok: "world_ok me ?wo" "vu_ok me ?rm mi" "root_le (wo_root wo) ?rm" "mi_root mi"
    using wo load_schema_ok [of me "wo_root wo" path] vu_ok_mono [OF wo(2)] by (simp_all add: world_ok_def vu_ok_def)
  obtain x mi1 wo1 where init: "(if mi_handle mi = None then lateInit me (mi, ?wo) else (Returned (), mi, ?wo)) = (x, mi1, wo1)"
    by (metis prod_cases3)
  have facts: "world_ok me wo1" "vu_ok me (wo_root wo1) mi1" "root_le ?rm (wo_root wo1)" "no_panic x"
    using keeps_okD [OF lateInit_keeps [OF env] ok(1), of mi x mi1 wo1] ok init by (auto split: if_splits)
  obtain mi2 wo2 where log: "log_loaded (mi1, wo1) = (mi2, wo2)" by force
  note logged = log_loaded_ok [OF log facts(1,2)]
  show "world_ok me wo' \<and> vu_ok me (wo_root wo') mi' \<and> root_le (wo_root wo) (wo_root wo') \<and> no_panic r"
  proof (cases "rm_schemaErr ?rm = None \<and> rm_loadedPath ?rm = path")
    case True
    show ?thesis
    proof (cases x)
      case (Returned u)
      with True run init ok(4) log have "mi' = mi2" "wo' = wo2" "no_panic r" by (auto simp: Load_def Let_def)
      with logged facts(3) ok(3) show ?thesis by (auto intro: root_le_trans)
    next
      case (Failed e)
      with True run init ok(4) have "mi' = mi1" "wo' = wo1" "no_panic r" by (auto simp: Load_def Let_def)
      with facts ok(3) show ?thesis by (auto intro: root_le_trans)
    qed (use facts(4) in simp)
  next
    case False
    with run ok(4) have "mi' = mi" "wo' = ?wo" "no_panic r" by (auto simp: Load_def Let_def split: option.splits)
    with ok show ?thesis by simp
  qed
qed

lemma configure_once_fields [simp]:
  "rm_schema (configure_once me opts rm) = rm_schema rm" "rm_schemaErr (configure_once me opts rm) = rm_schemaErr rm"
  "rm_schemaOnce (configure_once me opts rm) = rm_schemaOnce rm" "rm_overlay (configure_once me opts rm) = rm_overlay rm"
  "rm_loadedPath (configure_once me opts rm) = rm_loadedPath rm"
  by (simp_all add: configure_once_def split: sum.split)

lemma configure_once_again: "rm_configureOnce rm \<Longrightarrow> configure_once me opts rm = rm"
  by (simp add: configure_once_def)

lemma configure_ok_once: "configure_ok rm \<Longrightarrow> configure_ok (configure_once me opts rm)"
  by (cases "optsToConfig (me_pf me) opts") (simp_all add: configure_once_def configure_ok_def)

lemma configure_once_ok:
  assumes "root_ok me rm"
  shows "root_ok me (configure_once me opts rm)" and "root_le rm (configure_once me opts rm)"
proof -
  show "root_ok me (configure_once me opts rm)"
  proof -
    from assms have "configure_ok rm" by (simp add: root_ok_def)
    with configure_ok_once have eq: "configure_ok (configure_once me opts rm) \<longleftrightarrow> configure_ok rm" by simp
    show ?thesis using assms unfolding root_ok_def configure_once_fields eq .
  qed
  show "root_le rm (configure_once me opts rm)"
    by (cases "rm_configureOnce rm") (simp_all add: configure_once_again root_le_def)
qed

lemma Configure_keeps: "keeps_ok me no_panic (Configure me opts)"
proof (rule keeps_okI)
  fix mi wo r mi' wo'
  assume wo: "world_ok me wo" "vu_ok me (wo_root wo) mi" and run: "Configure me opts (mi, wo) = (r, mi', wo')"
  let ?rm = "configure_once me opts (wo_root wo)"
  have "no_panic r" "same_vu mi mi'" "wo' = wo \<or> wo' = wo\<lparr>wo_root := ?rm\<rparr>"
    using run by (auto simp: Configure_def Let_def same_vu_def gen_log_def split: if_splits option.splits prod.splits)
  with wo configure_once_ok [of me "wo_root wo" opts] same_vu_ok vu_ok_mono
  show "world_ok me wo' \<and> vu_ok me (wo_root wo') mi' \<and> root_le (wo_root wo) (wo_root wo') \<and> no_panic r"
    by (auto simp: world_ok_def)
qed

section \<open>New instances\<close>

lemma NewModuleInstance_ok:
  assumes env: "env_ok me" and wo: "world_ok me wo" and run: "NewModuleInstance me nanos v wo = (r, mi, wo')"
  shows "world_ok me wo' \<and> vu_ok me (wo_root wo') mi \<and> root_le (wo_root wo) (wo_root wo') \<and> r = Returned ()"
proof -
  let ?mi = "\<lparr>mi_root = True, mi_vu = v, mi_nanos = nanos, mi_engine = None, mi_run = new_run, mi_handle = None, mi_logger = loggerForVU v,
     mi_native = newNativeMetrics v, mi_lastStats = zero_stats, mi_initErr = None, mi_pushed = [], mi_logs = []\<rparr>"
  have fresh: "vu_ok me (wo_root wo) ?mi" by (simp add: vu_ok_def)
  obtain x mi1 wo1 where init: "lateInit me (?mi, wo) = (x, mi1, wo1)" by (metis prod_cases3)
  note facts = keeps_okD [OF lateInit_keeps [OF env] wo fresh init]
  have "vu_ok me (wo_root wo1) (mi1\<lparr>mi_initErr := e\<rparr>)" for e
    using facts(2) same_vu_ok [of mi1 "mi1\<lparr>mi_initErr := e\<rparr>"] by (simp add: same_vu_def)
  with facts run init fresh wo show ?thesis
    by (cases x) (auto simp: NewModuleInstance_def Let_def split: if_splits)
qed

section \<open>Journeys\<close>

lemma warn_fields [simp]: "same_vu mi (warnOnExporterFailures deltas mi)"
  by (simp add: warnOnExporterFailures_def Let_def) (simp add: same_vu_def)

lemma snapshot_fields: "same_vu mi (emitExporterStatsSnapshot current mi)"
proof -
  let ?mi = "warnOnExporterFailures (stat_deltas current (mi_lastStats mi)) (mi\<lparr>mi_lastStats := current\<rparr>)"
  have "same_vu mi ?mi" using warn_fields [of "mi\<lparr>mi_lastStats := current\<rparr>"] by (simp add: same_vu_def)
  then have "same_vu mi (?mi\<lparr>mi_pushed := x\<rparr>)" "same_vu mi ?mi" for x by (simp_all add: same_vu_def)
  then show ?thesis by (simp add: emitExporterStatsSnapshot_def Let_def split: option.split)
qed

lemma emitExporterStats_ok:
  assumes "emitExporterStats me current (mi, wo) = (mi', wo')" and "world_ok me wo" and "vu_ok me (wo_root wo) mi"
  shows "world_ok me wo' \<and> vu_ok me (wo_root wo') mi' \<and> wo_root wo' = wo_root wo"
proof -
  obtain x wo1 where get: "getOrBuildPipeline me mi wo = (x, wo1)" by force
  from assms(2,3) have "shared_ok (wo_shared wo)" "mi_root mi" by (simp_all add: world_ok_def vu_ok_def)
  note facts = getOrBuildPipeline_ok(1,2) [OF get this]
  from assms(1) get have "mi' = mi \<or> mi' = emitExporterStatsSnapshot current mi" "wo' = wo \<or> wo' = wo1"
    by (auto simp: emitExporterStats_def split: if_splits sum.splits)
  with facts assms(2,3) same_vu_ok [OF snapshot_fields] show ?thesis by (auto simp: world_ok_def)
qed

lemma engine_journey:
  assumes "env_ok me" and "loaded_from me path s" and "engine_of me s en" and "name \<in> fst ` set (s_journeys s)"
  shows "\<exists>j p. (name, Some j) \<in> set (s_journeys s) \<and> BuildPlan en name = Inr p \<and> buildPlan (me_fuel me) s name = Inr p"
proof -
  note s = loaded_valid [OF assms(1,2)]
  from Validate_ok [OF s(1,2)] assms(4) obtain j where j: "(name, Some j) \<in> set (s_journeys s)"
    by (fastforce simp: schema_ok_def)
  with buildPlan_unfolds [OF Validate_ok [OF s(1,2)] s(1) j s(3)] obtain p where "buildPlan (me_fuel me) s name = Inr p" by blast
  with j assms(3,4) show ?thesis by (auto simp: engine_of_def)
qed

lemma execute_journey_ok:
  assumes env: "env_ok me" and wo: "world_ok me wo" and vu: "vu_ok me (wo_root wo) mi" and en: "mi_engine mi = Some en"
    and name: "name \<in> fst ` set (s_journeys (en_schema en))" and p: "BuildPlan en name = Inr p"
    and run: "execute_journey me en p now (mi, wo) = (err, mi', wo')"
  shows "err = None \<and> world_ok me wo' \<and> vu_ok me (wo_root wo') mi' \<and> root_le (wo_root wo) (wo_root wo')"
proof -
  let ?s = "en_schema en" and ?st = "mi_run mi"
  from vu en have s: "rm_schema (wo_root wo) = Some ?s" "engine_of me ?s en" "open_spans ?s [] (r_synth ?st)"
    "mi_handle mi = Some (rm_loadedPath (wo_root wo))" "mi_root mi"
    by (auto simp: vu_ok_def engine_of_def)
  with wo have origin: "loaded_from me (rm_loadedPath (wo_root wo)) ?s" by (auto simp: world_ok_def root_ok_def)
  obtain j p' where j: "(name, Some j) \<in> set (s_journeys ?s)" "BuildPlan en name = Inr p'" "buildPlan (me_fuel me) ?s name = Inr p'"
    using engine_journey [OF env origin s(2) name] by blast
  from origin env obtain raw where raw: "raw_maps_ok raw" "parse_raw raw = Inr ?s" "retries_fit ?s" "services_named ?s" "plan_fuel ?s \<le> me_fuel me"
    by (auto simp: loaded_from_def env_ok_def)
  let ?start = "?st\<lparr>r_synth := (r_synth ?st)\<lparr>ss_accumulators := rm_accumulators (wo_root wo)\<rparr>\<rparr>"
  have opened: "open_spans ?s [] (r_synth ?start)"
    by (rule quiet_open [OF s(3)]) (simp add: quiet_def)
  obtain st' where exec: "Execute en (default_synth (me_ot me) ?s) (Some (vuContext (mi_vu mi))) (Some p) now ?start = (err, st')"
    and result: "mi' = mi\<lparr>mi_run := st'\<rparr>" "wo' = wo\<lparr>wo_root := (wo_root wo)\<lparr>rm_accumulators := ss_accumulators (r_synth st')\<rparr>\<rparr>"
    using run by (auto simp: execute_journey_def Let_def split: prod.splits)
  have "err = None \<and> open_spans ?s [] (r_synth st')"
    by (rule Execute_clean [OF raw(1-4) refl j(1) raw(5) j(3) opened]) (use exec p j(2) in simp)
  with result s en wo root_ok_cong [of "(wo_root wo)\<lparr>rm_accumulators := ss_accumulators (r_synth st')\<rparr>" "wo_root wo"]
  show ?thesis by (auto simp: world_ok_def vu_ok_def)
qed

text \<open>What a journey returns, by the engine of the instance and its name alone.\<close>

definition journey_result :: "module_instance \<Rightarrow> string \<Rightarrow> unit call" where
  "journey_result mi name = (case mi_engine mi of
       None \<Rightarrow> Failed (GenConfig ''not_loaded'' '''' None)
     | Some en \<Rightarrow> if name \<in> fst ` set (s_journeys (en_schema en)) then Returned ()
         else Failed (GenPlan (PlanError ''unknown_journey'' [name] None)))"

lemma RunJourney_ok:
  assumes env: "env_ok me" and wo: "world_ok me wo" and vu: "vu_ok me (wo_root wo) mi"
    and run: "RunJourney me name now current (mi, wo) = (r, mi', wo')"
  shows "r = journey_result mi name \<and> world_ok me wo' \<and> vu_ok me (wo_root wo') mi' \<and> root_le (wo_root wo) (wo_root wo')"
proof (cases "mi_engine mi")
  case (Some en)
  with vu have en: "engine_of me (en_schema en) en" "rm_schema (wo_root wo) = Some (en_schema en)"
    by (auto simp: vu_ok_def engine_of_def)
  show ?thesis
  proof (cases "name \<in> fst ` set (s_journeys (en_schema en))")
    case True
    from en wo have "loaded_from me (rm_loadedPath (wo_root wo)) (en_schema en)" by (auto simp: world_ok_def root_ok_def)
    with engine_journey [OF env _ en(1) True] obtain p where p: "BuildPlan en name = Inr p" by blast
    obtain err mi1 wo1 where exec: "execute_journey me en p now (mi, wo) = (err, mi1, wo1)" by (metis prod_cases3)
    note facts = execute_journey_ok [OF env wo vu Some True p exec]
    with Some p exec run have "r = Returned ()" "emitExporterStats me current (mi1, wo1) = (mi', wo')"
      by (simp_all add: RunJourney_def split: prod.splits)
    with emitExporterStats_ok [OF this(2)] facts Some True show ?thesis by (auto simp: journey_result_def)
  next
    case False
    with Some en run wo vu show ?thesis by (simp add: RunJourney_def engine_of_def journey_result_def)
  qed
qed (use run wo vu in \<open>simp add: RunJourney_def journey_result_def\<close>)
lemma pick_first_member: "pick_first en roll c keys = Some k \<Longrightarrow> k \<in> set keys"
  by (induction en roll c keys rule: pick_first.induct) (auto simp: Let_def split: option.splits if_splits)

lemma PickJourney_key:
  assumes "PickJourney en st = (name, st')"
  shows "(name = '''' \<or> name \<in> set (en_journeyKeys en)) \<and> r_synth st' = r_synth st"
proof -
  let ?keys = "en_journeyKeys en"
  have "name \<in> set ?keys" if "find (has_weight en) (rev ?keys) = Some name" for name
    using that by (metis find_Some_iff nth_mem set_rev)
  with assms show ?thesis
    by (auto simp: PickJourney_def Let_def dest!: randFloat64_synth pick_first_member split: if_splits prod.splits option.splits)
qed

definition random_expected :: "string call \<Rightarrow> bool" where
  "random_expected r \<longleftrightarrow> (case r of Returned name \<Rightarrow> name \<noteq> '''' | Failed e \<Rightarrow> e = GenConfig ''not_loaded'' '''' None | Panicked m \<Rightarrow> False)"

lemma vu_ok_run:
  assumes "vu_ok me rm mi" and "r_synth run = r_synth (mi_run mi)"
  shows "vu_ok me rm (mi\<lparr>mi_run := run\<rparr>)"
  using assms by (auto simp: vu_ok_def split: option.splits)

lemma RunRandomJourney_keeps:
  assumes env: "env_ok me"
  shows "keeps_ok me random_expected (RunRandomJourney me now current)"
proof (rule keeps_okI)
  fix mi wo r mi' wo'
  assume wo: "world_ok me wo" and vu: "vu_ok me (wo_root wo) mi" and run: "RunRandomJourney me now current (mi, wo) = (r, mi', wo')"
  show "world_ok me wo' \<and> vu_ok me (wo_root wo') mi' \<and> root_le (wo_root wo) (wo_root wo') \<and> random_expected r"
  proof (cases "mi_engine mi")
    case (Some en)
    obtain name st where pick: "PickJourney en (mi_run mi) = (name, st)" by force
    note key = PickJourney_key [OF pick]
    then have vu1: "vu_ok me (wo_root wo) (mi\<lparr>mi_run := st\<rparr>)" by (intro vu_ok_run [OF vu]) simp
    show ?thesis
    proof (cases "name = ''''")
      case True
      with run Some pick vu1 wo show ?thesis by (auto simp: RunRandomJourney_def random_expected_def)
    next
      case False
      obtain x mi1 wo1 where journey: "RunJourney me name now current (mi\<lparr>mi_run := st\<rparr>, wo) = (x, mi1, wo1)" by (metis prod_cases3)
      note facts = RunJourney_ok [OF env wo vu1 journey]
      have "engine_of me (en_schema en) en" using vu Some by (auto simp: vu_ok_def engine_of_def)
      with key False have "name \<in> fst ` set (s_journeys (en_schema en))" by (auto simp: engine_of_def)
      with facts Some have x: "x = Returned ()" by (simp add: journey_result_def)
      with run Some pick False journey have "mi' = mi1" "wo' = wo1" "r = Returned name"
        by (auto simp: RunRandomJourney_def)
      with facts False show ?thesis by (simp add: random_expected_def)
    qed
  qed (use run wo vu in \<open>auto simp: RunRandomJourney_def random_expected_def\<close>)
qed

lemma engine_of_cong:
  "en_schema en' = en_schema en \<Longrightarrow> en_plans en' = en_plans en \<Longrightarrow> en_journeyKeys en' = en_journeyKeys en \<Longrightarrow>
   engine_of me s en' \<longleftrightarrow> engine_of me s en"
  by (simp add: engine_of_def BuildPlan_def)

lemma apply_intensity_engine: "apply_intensity args en = Inr en' \<Longrightarrow> engine_of me s en \<Longrightarrow> engine_of me s en'"
proof -
  assume "apply_intensity args en = Inr en'" "engine_of me s en"
  moreover from this(1) have "en_schema en' = en_schema en \<and> en_plans en' = en_plans en \<and> en_journeyKeys en' = en_journeyKeys en"
    by (induction args en rule: apply_intensity.induct)
      (auto simp: setFaultIntensity_def setFaultTargetIntensity_def split: sum.splits if_splits)
  ultimately show ?thesis using engine_of_cong by blast
qed

lemma SetFaultIntensity_ok:
  assumes "SetFaultIntensity args mi = (r, mi')" and "vu_ok me rm mi"
  shows "vu_ok me rm mi' \<and> no_panic r"
  using assms by (auto simp: SetFaultIntensity_def vu_ok_def dest: apply_intensity_engine split: option.splits sum.splits)

section \<open>Runs\<close>

text \<open>The results that the calls of a run can have.\<close>

fun call_expected :: "module_op \<Rightarrow> js_result call \<Rightarrow> bool" where
  "call_expected (CallNew nanos v) r \<longleftrightarrow> r = Returned JsUndefined"
| "call_expected (CallRun i name now current) r \<longleftrightarrow> r \<in> {Returned NoCall, Returned JsUndefined}
     \<or> r = Failed (GenConfig ''not_loaded'' '''' None) \<or> r = Failed (GenPlan (PlanError ''unknown_journey'' [name] None))"
| "call_expected (CallRandom i now current) r \<longleftrightarrow> r = Failed (GenConfig ''not_loaded'' '''' None)
     \<or> r = Returned NoCall \<or> (\<exists>name. r = Returned (JsName name) \<and> name \<noteq> '''')"
| "call_expected op r \<longleftrightarrow> no_panic r"

lemma RunJourney_keeps:
  assumes "env_ok me"
  shows "keeps_ok me (\<lambda>r. \<exists>mi. r = journey_result mi name) (RunJourney me name now current)"
  using RunJourney_ok [OF assms] by (intro keeps_okI) blast

lemma SetFaultIntensity_keeps:
  "keeps_ok me no_panic (\<lambda>(mi, wo). case SetFaultIntensity args mi of (r, mi) \<Rightarrow> (r, mi, wo))"
  by (intro keeps_okI) (auto split: prod.splits dest: SetFaultIntensity_ok)

lemma module_step_ok:
  assumes env: "env_ok me" and ok: "session_ok me ses" and run: "module_step me op ses = (r, ses')"
  shows "session_ok me ses' \<and> root_le (wo_root (snd ses)) (wo_root (snd ses')) \<and> call_expected op r"
proof (cases op)
  case (CallNew nanos v)
  obtain mis wo where ses: "ses = (mis, wo)" by force
  obtain x mi wo' where new: "NewModuleInstance me nanos v wo = (x, mi, wo')" by (metis prod_cases3)
  from ok ses have "world_ok me wo" by (simp add: session_ok_def)
  note facts = NewModuleInstance_ok [OF env this new]
  then have "\<forall>m \<in> set mis. vu_ok me (wo_root wo') m" using ok ses vu_ok_mono by (fastforce simp: session_ok_def)
  with facts new run ses CallNew show ?thesis by (auto simp: session_ok_def)
next
  case (CallRun i name now current)
  with on_instance_keeps [OF RunJourney_keeps [OF env] ok] run show ?thesis
    by (fastforce simp: journey_result_def split: option.splits)
next
  case (CallRandom i now current)
  with on_instance_keeps [OF RunRandomJourney_keeps [OF env] ok] run show ?thesis
    by (fastforce simp: random_expected_def split: call.splits)
next
  case (CallConfigure i opts)
  with on_instance_keeps [OF Configure_keeps ok] run show ?thesis by fastforce
next
  case (CallLoad i path)
  with on_instance_keeps [OF Load_keeps [OF env] ok] run show ?thesis by fastforce
next
  case (CallIntensity i args)
  with on_instance_keeps [OF SetFaultIntensity_keeps ok] run show ?thesis by fastforce
next
  case (CallStats i current)
  with on_instance_keeps [OF gen_Stats_keeps ok] run show ?thesis by fastforce
next
  case (CallFlush i)
  with on_instance_keeps [OF gen_Flush_keeps ok] run show ?thesis by fastforce
qed

interpretation sessions: machine "module_step me" "session_ok me" "\<lambda>_. env_ok me" for me
  by unfold_locales (use module_step_ok in blast)

text \<open>
  C2: A test run. Whatever calls the virtual users of a run make and in whatever order, over
  topologies whose journeys execute, no call panics: instances are created, journeys either run, or
  are refused because nothing is loaded or the topology has no such journey, and a random choice
  never fails in any other way. At any time, an instance that holds a handle runs every journey of
  its topology, all its spans have been ended, each once, and no request is active.
\<close>

theorem module_session:
  assumes "env_ok me" and "run_all (module_step me) ops ([], new_world :: 'r world) = (rs, mis, wo)"
  shows "list_all2 call_expected ops rs
    \<and> (\<forall>mi \<in> set mis. mi_handle mi \<noteq> None \<longrightarrow> (\<exists>s. rm_schema (wo_root wo) = Some s
        \<and> (\<forall>name \<in> fst ` set (s_journeys s). \<forall>now current. fst (RunJourney me name now current (mi, wo)) = Returned ())
        \<and> (let gs = ss_signals (r_synth (mi_run mi)) in distinct (started gs) \<and> mset (ended gs) = mset (started gs)
            \<and> (\<forall>counter kvs. active_count counter kvs gs = 0))))"
proof -
  have allowed: "list_all (\<lambda>_. env_ok me) ops" using assms(1) by (simp add: list_all_iff)
  have expected: "list_all2 call_expected ops rs"
    by (rule sessions.run_results [OF _ session_ok_new allowed assms(2)]) (use module_step_ok in blast)
  have ok: "session_ok me (mis, wo)"
    by (rule sessions.run_keeps [OF session_ok_new allowed assms(2)])
  have "\<exists>s. rm_schema (wo_root wo) = Some s
      \<and> (\<forall>name \<in> fst ` set (s_journeys s). \<forall>now current. fst (RunJourney me name now current (mi, wo)) = Returned ())
      \<and> open_spans s [] (r_synth (mi_run mi))" if mi: "mi \<in> set mis" "mi_handle mi \<noteq> None" for mi
  proof -
    from ok mi have vu: "world_ok me wo" "vu_ok me (wo_root wo) mi" by (simp_all add: session_ok_def)
    with mi(2) obtain en s where en: "mi_engine mi = Some en" "rm_schema (wo_root wo) = Some s" "en_schema en = s"
      "open_spans s [] (r_synth (mi_run mi))"
      by (auto simp: vu_ok_def engine_of_def split: option.splits)
    have "fst (RunJourney me name now current (mi, wo)) = Returned ()" if "name \<in> fst ` set (s_journeys s)" for name now current
      using RunJourney_ok [OF assms(1) vu, of name now current] en that
      by (cases "RunJourney me name now current (mi, wo)") (auto simp: journey_result_def)
    with en show ?thesis by blast
  qed
  with expected spans_delivered show ?thesis by (auto simp: Let_def) blast+
qed

end
