(* ===== verification/Module_Decisions.thy ===== *)
theory Module_Decisions
  imports Module_Session
begin

text \<open>
  What the first load and the first configure of a run decide for all later calls.
\<close>

section \<open>The first load and the first configure\<close>

text \<open>What a load and a configure answer once the topology and the configuration are decided.\<close>

definition load_answer :: "root_module \<Rightarrow> string \<Rightarrow> js_result call \<Rightarrow> bool" where
  "load_answer rm path r \<longleftrightarrow> (case rm_schemaErr rm of
       Some e \<Rightarrow> r = Failed e
     | None \<Rightarrow> if rm_loadedPath rm \<noteq> path then r = Failed (GenConfig ''path_mismatch'' path None)
         else (case r of Returned x \<Rightarrow> x = JsHandle (Some path) | Failed e \<Rightarrow> True | Panicked m \<Rightarrow> False))"

definition configure_answer :: "root_module \<Rightarrow> js_result call" where
  "configure_answer rm = (case rm_configureErr rm of
       Some e \<Rightarrow> Failed e | None \<Rightarrow> Failed (GenConfig ''already_configured'' '''' None))"

lemma Configure_decided:
  assumes "world_ok me wo" and "vu_ok me (wo_root wo) mi" and "rm_configureOnce (wo_root wo)"
  shows "map_call (\<lambda>_. JsUndefined) (fst (Configure me opts (mi, wo))) = configure_answer (wo_root wo)"
proof -
  have "rm_configured (wo_root wo) \<longleftrightarrow> rm_configureErr (wo_root wo) = None"
    using assms(1,3) by (auto simp: world_ok_def root_ok_def configure_ok_def)
  with assms(2,3) show ?thesis
    by (cases "rm_configureErr (wo_root wo)") (simp_all add: Configure_def configure_once_again configure_answer_def vu_ok_def)
qed

lemma Load_decided:
  assumes env: "env_ok me" and wo: "world_ok me wo" and vu: "vu_ok me (wo_root wo) mi" and once: "rm_schemaOnce (wo_root wo)"
  shows "load_answer (wo_root wo) path (map_call JsHandle (fst (Load me path (mi, wo))))"
proof -
  obtain r mi' wo' where run: "Load me path (mi, wo) = (r, mi', wo')" by (metis prod_cases3)
  note facts = keeps_okD [OF Load_keeps [OF env] wo vu run]
  show ?thesis
  proof (cases "rm_schemaErr (wo_root wo) = None \<and> rm_loadedPath (wo_root wo) = path")
    case False
    with run vu once show ?thesis
      by (auto simp: Load_def Let_def load_schema_again load_answer_def vu_ok_def split: option.splits)
  next
    case True
    have "h = Some path" if "r = Returned h" for h
    proof -
      from run that vu once True have h: "h = mi_handle mi'" "mi_handle mi' = None \<longrightarrow> False"
        by (auto simp: Load_def Let_def load_schema_again log_loaded_def gen_log_def lateInit_def vu_ok_def
            split: option.splits call.splits prod.splits if_splits sum.splits)
      from facts(2) h have "mi_handle mi' = Some (rm_loadedPath (wo_root wo'))"
        by (auto simp: vu_ok_def split: option.splits)
      with facts(3) True once h show ?thesis by (auto simp: root_le_def)
    qed
    with True facts(4) run show ?thesis by (cases r) (auto simp: load_answer_def)
  qed
qed

fun decided :: "root_module \<Rightarrow> module_op \<Rightarrow> js_result call \<Rightarrow> bool" where
  "decided rm (CallLoad i path) r \<longleftrightarrow> r = Returned NoCall \<or> load_answer rm path r"
| "decided rm (CallConfigure i opts) r \<longleftrightarrow> r = Returned NoCall \<or> r = configure_answer rm"
| "decided rm op r \<longleftrightarrow> True"
lemma on_instance_result:
  assumes run: "on_instance i f g ses = (r, ses')" and ok: "session_ok me ses"
    and P: "\<And>mi. world_ok me (snd ses) \<Longrightarrow> vu_ok me (wo_root (snd ses)) mi \<Longrightarrow> P (map_call g (fst (f (mi, snd ses))))"
  shows "r = Returned NoCall \<or> P r"
proof -
  obtain mis wo where ses: "ses = (mis, wo)" by force
  show ?thesis
  proof (cases "i < length mis")
    case True
    with ok ses have "world_ok me wo" "vu_ok me (wo_root wo) (mis ! i)" by (auto simp: session_ok_def)
    with P [of "mis ! i"] run ses True show ?thesis by (auto simp: on_instance_def split: prod.splits)
  qed (use run ses in \<open>auto simp: on_instance_def\<close>)
qed

text \<open>The root module still answers as \<open>rm\<close> does, in which both have been decided.\<close>

definition still :: "root_module \<Rightarrow> 'r session \<Rightarrow> bool" where
  "still rm ses \<longleftrightarrow> root_le rm (wo_root (snd ses)) \<and> rm_schemaOnce rm \<and> rm_configureOnce rm"

lemma still_answers:
  assumes "still rm ses"
  shows "load_answer (wo_root (snd ses)) path r = load_answer rm path r"
    and "configure_answer (wo_root (snd ses)) = configure_answer rm"
    and "rm_schemaOnce (wo_root (snd ses))" and "rm_configureOnce (wo_root (snd ses))"
  using assms by (auto simp: still_def root_le_def load_answer_def configure_answer_def)

lemma module_step_decided:
  assumes env: "env_ok me" and ok: "session_ok me ses" and st: "still rm ses" and run: "module_step me op ses = (r, ses')"
  shows "decided rm op r"
proof (cases op)
  case (CallLoad i path)
  with run have "on_instance i (Load me path) JsHandle ses = (r, ses')" by simp
  then have "r = Returned NoCall \<or> load_answer rm path r"
    by (rule on_instance_result [OF _ ok]) (use Load_decided [OF env] still_answers [OF st] in metis)
  then show ?thesis by (simp add: CallLoad)
next
  case (CallConfigure i opts)
  with run have "on_instance i (Configure me opts) (\<lambda>_. JsUndefined) ses = (r, ses')" by simp
  then have "r = Returned NoCall \<or> r = configure_answer rm"
    by (rule on_instance_result [OF _ ok]) (use Configure_decided still_answers [OF st] in metis)
  then show ?thesis by (simp add: CallConfigure)
qed simp_all

interpretation decisions: machine "module_step me" "\<lambda>ses. session_ok me ses \<and> still rm ses" "\<lambda>_. env_ok me" for me rm
  by unfold_locales (use module_step_ok root_le_trans in \<open>fastforce simp: still_def\<close>)

text \<open>
  C37: the first load and the first configure of a run decide for good. Afterwards the topology and
  the configuration never change; a load of another path is a path_mismatch, and after a failed
  first load every load, of whatever path and by whatever virtual user, fails with its error; after
  a successful first configure every other is refused as already_configured, and after a failed one
  every configure, with good options too, fails with the error of the first.
\<close>

theorem module_decides_once:
  assumes "env_ok me" and "run_all (module_step me) ops ([], new_world :: 'r world) = (rs, ses)"
    and "rm_schemaOnce (wo_root (snd ses))" and "rm_configureOnce (wo_root (snd ses))"
    and "run_all (module_step me) later ses = (rs', ses')"
  shows "list_all2 (decided (wo_root (snd ses))) later rs'
    \<and> rm_schema (wo_root (snd ses')) = rm_schema (wo_root (snd ses))
    \<and> rm_loadedPath (wo_root (snd ses')) = rm_loadedPath (wo_root (snd ses))
    \<and> rm_config (wo_root (snd ses')) = rm_config (wo_root (snd ses))"
proof -
  let ?rm = "wo_root (snd ses)"
  have env: "list_all (\<lambda>_. env_ok me) xs" for xs :: "module_op list" using assms(1) by (simp add: list_all_iff)
  have ok: "session_ok me ses"
    by (rule sessions.run_keeps [OF session_ok_new env assms(2)])
  with assms(3,4) have start: "session_ok me ses \<and> still ?rm ses" by (simp add: still_def)
  have "still ?rm ses'"
    using decisions.run_keeps [OF start env assms(5)] by simp
  moreover have "list_all2 (decided ?rm) later rs'"
    by (rule decisions.run_results [OF _ start env assms(5)]) (use module_step_decided in blast)
  ultimately show ?thesis by (simp add: still_def root_le_def)
qed

end
