(* ===== verification/Module_Metrics.thy ===== *)
theory Module_Metrics
  imports Module_Calls
begin

text \<open>
  What the metrics of k6 receive over a sequence of snapshots of the exporter counters: the deltas
  that are pushed add up to the counters.
\<close>

section \<open>Integers that a float64 holds\<close>

lemma round_half_even_int [simp]: "round_half_even (of_int z) = z"
  by (simp add: round_half_even_def)

lemma of_int64_exact:
  assumes "0 \<le> n" and "n < 2 ^ 53"
  shows "of_int64 n = Fin (of_int n)"
proof (cases "n = 0")
  case False
  with assms have n: "0 < (of_int n :: rat)" by simp
  define e where "e = max (ilog2 (of_int n) - 52) (-1074)"
  have "ilog2 (of_int n) < 53"
  proof (rule ccontr)
    assume "\<not> ilog2 (of_int n) < 53"
    then have "pow2 53 \<le> pow2 (ilog2 (of_int n))" by (intro pow2_mono) simp
    also have "\<dots> \<le> of_int n" by (rule pow2_ilog2 [OF n])
    finally show False using assms(2) by (simp add: pow2_def)
  qed
  then have e: "e \<le> 0" by (simp add: e_def)
  have quot: "of_int n / pow2 e = (of_int (n * 2 ^ nat (- e)) :: rat)"
    using e by (cases "e = 0") (simp_all add: pow2_def)
  have again: "of_int (n * 2 ^ nat (- e)) * pow2 e = (of_int n :: rat)"
    using e by (cases "e = 0") (simp_all add: pow2_def)
  have "(2 ^ 53 :: rat) \<le> pow2 1024" by (simp add: pow2_def power_increasing)
  moreover have "(of_int n :: rat) < 2 ^ 53" using assms(2) by (metis of_int_less_iff of_int_numeral of_int_power)
  ultimately have small: "\<not> pow2 1024 \<le> \<bar>of_int n :: rat\<bar>" using n by simp
  show ?thesis
    using n small unfolding of_int64_def fround_def Let_def e_def [symmetric] quot round_half_even_int again by simp
qed (simp add: of_int64_def fround_def)

section \<open>Deltas\<close>

text \<open>The sum of what has been pushed for one metric.\<close>

definition pushed_total :: "string \<Rightarrow> module_instance \<Rightarrow> rat" where
  "pushed_total name mi = sum_list (map (\<lambda>(n, v). if n = name then fval v else 0) (mi_pushed mi))"

definition stat_value :: "stats \<Rightarrow> string \<Rightarrow> int" where
  "stat_value s name = (case map_of (zip stat_names (stat_values s)) name of None \<Rightarrow> 0 | Some v \<Rightarrow> v)"

text \<open>A script that runs: the metrics are registered, and there is a State whose samples are taken.\<close>

definition samples_taken :: "module_instance \<Rightarrow> bool" where
  "samples_taken mi \<longleftrightarrow> (case (mi_native mi, mi_vu mi) of
       (Some nm, Some u) \<Rightarrow> nm_queueDrops nm = Some metricQueueDrops \<and> vu_state u \<noteq> None \<and> vu_samples u \<and> \<not> vu_done u
     | _ \<Rightarrow> False)"

text \<open>Counters that only grow, below the integers that a float64 holds exactly.\<close>

definition grows :: "stats \<Rightarrow> stats \<Rightarrow> bool" where
  "grows p c \<longleftrightarrow> (\<forall>name \<in> set stat_names. 0 \<le> stat_value p name \<and> stat_value p name \<le> stat_value c name \<and> stat_value c name < 2 ^ 53)"

lemma stat_names_distinct: "distinct (metricQueueDrops # stat_names)"
  by (simp add: stat_names_def metricQueueDrops_def)

lemma stat_deltas_value:
  "name \<in> set stat_names \<Longrightarrow> map_of (stat_deltas c p) name = Some (wrap64 (stat_value c name - stat_value p name))"
  by (auto simp: stat_deltas_def stat_names_def stat_values_def stat_value_def)

lemma stat_deltas_names: "map fst (stat_deltas c p) = stat_names"
  by (simp add: stat_deltas_def stat_names_def stat_values_def)

lemma sum_selected:
  assumes "distinct (map fst ds)"
  shows "sum_list (map (\<lambda>(n, v). if n = name then fval v else 0) (map (\<lambda>(n, d). (n, of_int64 d)) (filter (\<lambda>(n, d). 0 < d) ds)))
    = (case map_of ds name of None \<Rightarrow> 0 | Some d \<Rightarrow> if 0 < d then fval (of_int64 d) else 0)"
  using assms
proof (induction ds)
  case (Cons nd ds)
  obtain n d where nd: "nd = (n, d)" by force
  show ?case
  proof (cases "n = name")
    case True
    with Cons.prems nd have "map_of ds name = None" by (auto simp: map_of_eq_None_iff)
    with Cons nd True show ?thesis by simp
  qed (use Cons nd in simp)
qed simp

lemma warn_native [simp]:
  "mi_native (warnOnExporterFailures ds m) = mi_native m" "mi_vu (warnOnExporterFailures ds m) = mi_vu m"
  "mi_pushed (warnOnExporterFailures ds m) = mi_pushed m" "mi_lastStats (warnOnExporterFailures ds m) = mi_lastStats m"
  by (simp_all add: warnOnExporterFailures_def gen_log_def Let_def)

lemma snapshot_native [simp]:
  "mi_native (emitExporterStatsSnapshot c mi) = mi_native mi" "mi_vu (emitExporterStatsSnapshot c mi) = mi_vu mi"
  "mi_lastStats (emitExporterStatsSnapshot c mi) = c"
  by (simp_all add: emitExporterStatsSnapshot_def Let_def split: option.split)

lemma snapshot_total:
  assumes "samples_taken mi" and "grows (mi_lastStats mi) c" and "name \<in> set stat_names"
  shows "pushed_total name (emitExporterStatsSnapshot c mi)
    = pushed_total name mi + of_int (stat_value c name - stat_value (mi_lastStats mi) name)"
proof -
  let ?p = "mi_lastStats mi" and ?d = "stat_value c name - stat_value (mi_lastStats mi) name"
  from assms(2,3) have d: "0 \<le> ?d" "?d < 2 ^ 53" by (auto simp: grows_def)
  then have wrap: "wrap64 ?d = ?d" by (intro wrap64_id) (simp add: in_int64_def)
  obtain nm u where nm: "mi_native mi = Some nm" "mi_vu mi = Some u" "nm_queueDrops nm = Some metricQueueDrops"
    "vu_state u \<noteq> None" "vu_samples u" "\<not> vu_done u"
    using assms(1) by (auto simp: samples_taken_def split: option.splits)
  have pushed: "mi_pushed (emitExporterStatsSnapshot c mi) = mi_pushed mi @ snapshot_samples nm (stat_deltas c ?p)"
    using nm by (auto simp: emitExporterStatsSnapshot_def Let_def)
  have "distinct (map fst (stat_deltas c ?p))" using stat_names_distinct by (simp add: stat_deltas_names)
  note sum = sum_selected [OF this, of name]
  have "metricQueueDrops \<noteq> name" using stat_names_distinct assms(3) by auto
  with nm(3) sum stat_deltas_value [OF assms(3), of c ?p] wrap d of_int64_exact [OF d] show ?thesis
    by (simp add: pushed_total_def pushed snapshot_samples_def)
qed

lemma snapshot_keeps_taking:
  "samples_taken (emitExporterStatsSnapshot c mi) \<longleftrightarrow> samples_taken mi"
  by (simp add: samples_taken_def)

fun growing :: "stats \<Rightarrow> stats list \<Rightarrow> bool" where
  "growing p [] \<longleftrightarrow> True"
| "growing p (c # cs) \<longleftrightarrow> grows p c \<and> growing c cs"

text \<open>While a script runs, the snapshots of one instance add up to the growth of the counters.\<close>

lemma instance_snapshots:
  assumes "samples_taken mi" and "growing (mi_lastStats mi) cs" and "name \<in> set stat_names"
  shows "pushed_total name (fold emitExporterStatsSnapshot cs mi)
    = pushed_total name mi + of_int (stat_value (last (mi_lastStats mi # cs)) name - stat_value (mi_lastStats mi) name)"
  using assms
proof (induction cs arbitrary: mi)
  case (Cons c cs)
  have "pushed_total name (fold emitExporterStatsSnapshot cs (emitExporterStatsSnapshot c mi))
      = pushed_total name (emitExporterStatsSnapshot c mi) + of_int (stat_value (last (c # cs)) name - stat_value c name)"
    using Cons.IH [of "emitExporterStatsSnapshot c mi"] Cons.prems by (simp add: snapshot_keeps_taking)
  with snapshot_total [of mi c name] Cons.prems show ?case by simp
qed simp

section \<open>Several VUs\<close>

text \<open>
  Each VU has a module instance with its own \<open>lastStats\<close>, while the counters are those of the one
  pipeline of the process. A snapshot is taken by the VU of an index, of the counters at that time.
\<close>

fun snapshot_of :: "nat \<times> stats \<Rightarrow> module_instance list \<Rightarrow> module_instance list" where
  "snapshot_of (i, current) mis = mis[i := emitExporterStatsSnapshot current (mis ! i)]"

definition snapshots_of :: "nat \<Rightarrow> (nat \<times> stats) list \<Rightarrow> stats list" where
  "snapshots_of i evs = map snd (filter (\<lambda>ev. fst ev = i) evs)"

text \<open>The counters that a VU has seen last.\<close>

definition last_seen :: "nat \<Rightarrow> (nat \<times> stats) list \<Rightarrow> stats" where
  "last_seen i evs = last (zero_stats # snapshots_of i evs)"

lemma length_snapshots [simp]: "length (fold snapshot_of evs mis) = length mis"
  by (induction evs arbitrary: mis) auto

lemma nth_snapshots:
  "i < length mis \<Longrightarrow> fold snapshot_of evs mis ! i = fold emitExporterStatsSnapshot (snapshots_of i evs) (mis ! i)"
  by (induction evs arbitrary: mis) (auto simp: snapshots_of_def nth_list_update)

lemma grows_trans: "grows p c \<Longrightarrow> grows c d \<Longrightarrow> grows p d"
  unfolding grows_def by (meson order_trans)

lemma growing_later: "grows q p \<Longrightarrow> growing p cs \<Longrightarrow> growing q cs"
  by (cases cs) (auto intro: grows_trans)

lemma growing_snapshots: "growing p (map snd evs) \<Longrightarrow> growing p (snapshots_of i evs)"
  by (induction evs arbitrary: p) (auto simp: snapshots_of_def intro: growing_later)

text \<open>What the metric of k6 has received from all VUs together.\<close>

definition k6_total :: "string \<Rightarrow> module_instance list \<Rightarrow> rat" where
  "k6_total name mis = sum_list (map (pushed_total name) mis)"

definition fresh :: "module_instance \<Rightarrow> bool" where
  "fresh mi \<longleftrightarrow> samples_taken mi \<and> mi_lastStats mi = zero_stats \<and> mi_pushed mi = []"

lemma stat_value_zero [simp]: "stat_value zero_stats name = 0"
  by (simp add: stat_value_def stat_names_def stat_values_def zero_stats_def)

text \<open>
  C38: what the metrics of k6 receive. While scripts run, over any snapshots that the VUs take in any
  order of counters that only grow, every VU pushes exactly what it has seen of each counter, although
  each snapshot pushes deltas only and only the positive ones. The total over the VUs is therefore
  the sum of what each of them has seen last: with one VU it is the counter, and n VUs that have all
  seen the same count push n times that count, because \<open>lastStats\<close> belongs to the VU and the
  counters belong to the process.
\<close>

theorem snapshots_add_up:
  assumes "\<forall>mi \<in> set mis. fresh mi" and "growing zero_stats (map snd evs)" and "name \<in> set stat_names"
  shows "k6_total name (fold snapshot_of evs mis) = of_int (\<Sum>i < length mis. stat_value (last_seen i evs) name)
    \<and> ((\<forall>i < length mis. last_seen i evs = current) \<longrightarrow>
      k6_total name (fold snapshot_of evs mis) = of_nat (length mis) * of_int (stat_value current name))"
proof -
  have "pushed_total name (fold snapshot_of evs mis ! i) = of_int (stat_value (last_seen i evs) name)"
    if i: "i < length mis" for i
  proof -
    have "fresh (mis ! i)" using assms(1) i by simp
    then have "samples_taken (mis ! i)" "mi_lastStats (mis ! i) = zero_stats" "pushed_total name (mis ! i) = 0"
      by (simp_all add: fresh_def pushed_total_def)
    with instance_snapshots [OF this(1), of "snapshots_of i evs" name] growing_snapshots [OF assms(2), of i] assms(3)
    show ?thesis by (simp add: nth_snapshots [OF i] last_seen_def)
  qed
  then have "k6_total name (fold snapshot_of evs mis) = of_int (\<Sum>i < length mis. stat_value (last_seen i evs) name)"
    by (simp add: k6_total_def sum_list_sum_nth atLeast0LessThan)
  then show ?thesis by simp
qed

end
