(* ===== verification/Module_Demo.thy ===== *)
theory Module_Demo
  imports Module_Options Module_Decisions Module_Metrics Journey_Demo Exporter_Demo
begin

text \<open>
  A concrete test run, to which the theorems on the module are applied: two virtual users load the
  small topology of \<open>Topology_Demo\<close>, of which one configures the exporter after a bad attempt.
\<close>

section \<open>A run\<close>

definition demo_otel :: otel where
  "demo_otel = \<lparr>ot_span = (\<lambda>n. SpanContext 1 (Suc n)), ot_instrument = (\<lambda>_ _ _. True), ot_uuid = id, ot_float = (\<lambda>_. ''0''),
     ot_sprint = (\<lambda>_. ''0''), ot_now = 0, ot_pprof_ok = (\<lambda>_. True), ot_profiles = False, ot_callback = True, ot_race = False\<rparr>"

definition demo_me :: module_env where
  "demo_me = \<lparr>me_pf = demo_pf\<lparr>pf_ReadFile := (\<lambda>_. Inr '''')\<rparr>, me_lib = demo_sdk, me_ot = demo_otel,
     me_yaml = (\<lambda>_ _. Inr small_raw), me_random = (\<lambda>_. demo_env), me_fuel = 3\<rparr>"

definition demo_vu :: vu where
  "demo_vu = \<lparr>vu_state = Some 1, vu_samples = True, vu_registry = Some (\<lambda>_. True), vu_logger = True, vu_context = None, vu_done = False\<rparr>"

lemma map_call_never: "map_call (\<lambda>_. JsUndefined) r \<noteq> Returned NoCall" "Returned NoCall \<noteq> map_call (\<lambda>_. JsUndefined) r"
  by (cases r; simp)+

lemma demo_env_ok: "env_ok demo_me"
  using small_raw_maps small_parses small_facts by (simp add: env_ok_def demo_me_def)

text \<open>The first virtual user configures the exporter wrongly and loads the topology.\<close>

definition demo_calls :: "module_op list" where
  "demo_calls = [CallNew 0 (Some demo_vu), CallConfigure 0 [(''protocol'', AnyString ''carrier pigeon'')], CallLoad 0 ''shop.yaml'']"

definition bad_protocol :: gen_error where
  "bad_protocol = GenConfig ''invalid_protocol'' ''carrier pigeon'' None"

lemma demo_opts: "optsToConfig pf [(''protocol'', AnyString ''carrier pigeon'')] = Inl bad_protocol"
  by (simp add: optsToConfig_def opt_assignment_def bad_protocol_def)

lemma demo_registration: "RegisterServiceMetrics demo_otel True (Some small) True = Inr NoopRegistration"
  by code_simp

lemma demo_pipeline: "\<exists>p w. exporter_New (me_pf demo_me) (me_lib demo_me) zero_config [] = (Inr p :: export_error + unit pipeline, w)"
proof -
  have "\<not> isl (fst (exporter_New (me_pf demo_me) (me_lib demo_me) zero_config [] :: (export_error + unit pipeline) \<times> sdk_log))"
    by code_simp
  then show ?thesis by (metis prod.collapse sum.collapse(2))
qed

lemma demo_engine_made: "\<exists>en. NewEngineWithSeed 3 (Some small) (Some ov) True demo_env = Inr en"
proof -
  have "loaded_from demo_me ''shop.yaml'' small" by (simp add: loaded_from_def demo_me_def small_parses)
  from NewEngine_engine [OF loaded_valid(1,2) [OF demo_env_ok this], of 3 ov demo_env] small_facts(4) show ?thesis by auto
qed

text \<open>The first load, in a run where nothing has been loaded and no configuration accepted.\<close>

lemma demo_lateInit:
  assumes "mi_root mi" and "rm_schema (wo_root wo) = Some small" and "rm_overlay (wo_root wo) = Some ov"
    and "\<not> rm_observableOnce (wo_root wo)" and "rm_observableErr (wo_root wo) = None" and "rm_config (wo_root wo) = zero_config"
    and "wo_shared wo = (zero_shared :: unit pipeline shared)" and "wo_log wo = []"
  shows "\<exists>mi' wo'. lateInit demo_me (mi, wo) = (Returned (), mi', wo') \<and> mi_handle mi' = Some (rm_loadedPath (wo_root wo))
    \<and> rm_schemaOnce (wo_root wo') = rm_schemaOnce (wo_root wo) \<and> rm_configureOnce (wo_root wo') = rm_configureOnce (wo_root wo)
    \<and> rm_configureErr (wo_root wo') = rm_configureErr (wo_root wo)"
proof -
  obtain p w where pw: "exporter_New (me_pf demo_me) (me_lib demo_me) zero_config [] = (Inr p :: export_error + unit pipeline, w)"
    using demo_pipeline by blast
  obtain en where en: "NewEngineWithSeed 3 (Some small) (Some ov) True demo_env = Inr en" using demo_engine_made by blast
  have get: "getOrBuildPipeline demo_me mi wo = (Inr (Some p), wo\<lparr>wo_shared := \<lparr>sh_once = True, sh_pipeline = Some p, sh_initErr = None\<rparr>, wo_log := w\<rparr>)"
    using assms pw by (simp add: getOrBuildPipeline_def GetShared_def zero_shared_def pipeline_factory_def)
  have me: "me_fuel demo_me = 3" "me_random demo_me = (\<lambda>_. demo_env)" "me_ot demo_me = demo_otel" by (simp_all add: demo_me_def)
  have reg: "register_observables demo_me (wo_root wo) = (wo_root wo)\<lparr>rm_observableOnce := True, rm_accumulators := [], rm_observableReg := Some NoopRegistration\<rparr>"
    using assms demo_registration by (simp add: register_observables_def me)
  show ?thesis
    using assms en by (simp add: lateInit_def get ensureObservableRegistration_def reg me Let_def)
qed

definition demo_vu_started :: module_instance where
  "demo_vu_started = fst (snd (NewModuleInstance demo_me 0 (Some demo_vu) (new_world :: unit world)))"

lemma demo_run:
  "\<exists>mi wo. run_all (module_step demo_me) demo_calls ([], new_world :: unit world)
      = ([Returned JsUndefined, Failed bad_protocol, Returned (JsHandle (Some ''shop.yaml''))], [mi], wo)
    \<and> mi_handle mi = Some ''shop.yaml'' \<and> rm_schemaOnce (wo_root wo) \<and> rm_configureOnce (wo_root wo)
    \<and> rm_configureErr (wo_root wo) = Some bad_protocol"
proof -
  let ?rm = "module_New\<lparr>rm_configureOnce := True, rm_configureErr := Some bad_protocol\<rparr>"
  let ?rm' = "?rm\<lparr>rm_schemaOnce := True, rm_schema := Some small, rm_overlay := Some (ApplyFaults (Some small)), rm_loadedPath := ''shop.yaml''\<rparr>"
  let ?wo = "(new_world :: unit world)\<lparr>wo_root := ?rm\<rparr>"
  have new: "NewModuleInstance demo_me 0 (Some demo_vu) (new_world :: unit world) = (Returned (), demo_vu_started, new_world)"
    and mi: "mi_root demo_vu_started" "mi_handle demo_vu_started = None"
    by (simp_all add: demo_vu_started_def NewModuleInstance_def new_world_def module_New_def)
  have conf: "Configure demo_me [(''protocol'', AnyString ''carrier pigeon'')] (demo_vu_started, new_world :: unit world)
      = (Failed bad_protocol, demo_vu_started, ?wo)"
    using mi by (simp add: Configure_def configure_once_def demo_opts new_world_def module_New_def)
  have sch: "load_schema demo_me ''shop.yaml'' ?rm = ?rm'"
    by (simp add: load_schema_def demo_me_def Parse_def decodeRaw_def small_parses module_New_def)
  obtain mi' wo' where late: "lateInit demo_me (demo_vu_started, ?wo\<lparr>wo_root := ?rm'\<rparr>) = (Returned (), mi', wo')"
    "mi_handle mi' = Some ''shop.yaml''" "rm_schemaOnce (wo_root wo')" "rm_configureOnce (wo_root wo')"
    "rm_configureErr (wo_root wo') = Some bad_protocol"
    using demo_lateInit [OF mi(1), of "?wo\<lparr>wo_root := ?rm'\<rparr>" "ApplyFaults (Some small)"]
    by (auto simp: module_New_def new_world_def)
  obtain mi2 wo2 where log: "log_loaded (mi', wo') = (mi2, wo2)" by force
  then have "mi_handle mi2 = Some ''shop.yaml'' \<and> rm_schemaOnce (wo_root wo2) \<and> rm_configureOnce (wo_root wo2)
      \<and> rm_configureErr (wo_root wo2) = Some bad_protocol"
    using late(2-5) by (auto simp: log_loaded_def Let_def gen_log_def split: if_splits)
  moreover have "Load demo_me ''shop.yaml'' (demo_vu_started, ?wo) = (Returned (mi_handle mi2), mi2, wo2)"
    using mi late(1) log sch by (simp add: Load_def module_New_def)
  ultimately show ?thesis using new conf by (simp add: demo_calls_def on_instance_def)
qed

section \<open>The theorems on it\<close>

lemma module_session_witness:
  "\<exists>mi wo. run_all (module_step demo_me) demo_calls ([], new_world :: unit world)
      = ([Returned JsUndefined, Failed bad_protocol, Returned (JsHandle (Some ''shop.yaml''))], [mi], wo)
    \<and> fst (RunJourney demo_me ''j'' 0 zero_stats (mi, wo)) = Returned ()"
proof -
  obtain mi wo where run: "run_all (module_step demo_me) demo_calls ([], new_world :: unit world)
      = ([Returned JsUndefined, Failed bad_protocol, Returned (JsHandle (Some ''shop.yaml''))], [mi], wo)"
    "mi_handle mi = Some ''shop.yaml''"
    using demo_run by blast
  note session = module_session [OF demo_env_ok run(1)]
  have "session_ok demo_me ([mi], wo)"
    using sessions.run_keeps [OF session_ok_new _ run(1)] demo_env_ok by (simp add: list_all_iff)
  then have "rm_schema (wo_root wo) = Some s \<Longrightarrow> s = small" for s
    by (auto simp: session_ok_def world_ok_def root_ok_def loaded_from_def demo_me_def small_parses)
  with session run(2) have "\<forall>name \<in> fst ` set (s_journeys small). fst (RunJourney demo_me name 0 zero_stats (mi, wo)) = Returned ()"
    by fastforce
  moreover have "''j'' \<in> fst ` set (s_journeys small)" using small_facts(3) by (metis list.set_intros(1) list.set_map)
  ultimately show ?thesis using run(1) by blast
qed

lemma module_decides_once_witness:
  "\<exists>ses r ses'. run_all (module_step demo_me) demo_calls ([], new_world :: unit world)
        = ([Returned JsUndefined, Failed bad_protocol, Returned (JsHandle (Some ''shop.yaml''))], ses)
    \<and> run_all (module_step demo_me) [CallConfigure 0 []] ses = ([r], ses')
    \<and> r = Failed bad_protocol \<and> rm_schema (wo_root (snd ses')) = rm_schema (wo_root (snd ses))"
proof -
  obtain mi wo where run: "run_all (module_step demo_me) demo_calls ([], new_world :: unit world)
      = ([Returned JsUndefined, Failed bad_protocol, Returned (JsHandle (Some ''shop.yaml''))], [mi], wo)"
    "rm_schemaOnce (wo_root wo)" "rm_configureOnce (wo_root wo)" "rm_configureErr (wo_root wo) = Some bad_protocol"
    using demo_run by blast
  obtain r ses' where step: "on_instance 0 (Configure demo_me []) (\<lambda>_. JsUndefined) ([mi], wo) = (r, ses')"
    by (metis surj_pair)
  then have later: "run_all (module_step demo_me) [CallConfigure 0 []] ([mi], wo) = ([r], ses')" by simp
  have "r \<noteq> Returned NoCall" using step by (auto simp: on_instance_def map_call_never split: prod.splits)
  with module_decides_once [OF demo_env_ok run(1) _ _ later] run(2-4)
  have "r = Failed bad_protocol" "rm_schema (wo_root (snd ses')) = rm_schema (wo_root (snd ([mi], wo)))"
    by (simp_all add: configure_answer_def)
  with run(1) later show ?thesis by blast
qed

lemma optsToConfig_reads_options_witness:
  "\<exists>c. optsToConfig demo_pf [(''timeout'', AnyInt 5000), (''protocol'', AnyString ''http''), (''future'', AnyNil)] = Inr c
    \<and> cfg_Timeout c = 5 * second \<and> cfg_Protocol c = ExportHTTP"
proof -
  let ?opts = "[(''timeout'', AnyInt 5000), (''protocol'', AnyString ''http''), (''future'', AnyNil)]"
  let ?c = "config_of_opts demo_pf ?opts zero_config"
  have fields: "cfg_Timeout ?c = 5 * second" "cfg_Protocol ?c = ExportHTTP" "\<not> cfg_SamplerArgSet ?c"
    by (simp_all add: config_of_opts_def opt_value_def Let_def zero_config_def millisecond_def second_def wrap64_def)
  have "\<forall>(k, v) \<in> set ?opts. opt_acceptable demo_pf k v"
    by (simp add: opt_acceptable_def string_keys_def)
  with fields optsToConfig_reads_options [of ?opts demo_pf ?c] show ?thesis by auto
qed

lemma toInt_exact_witness:
  "toInt (AnyFloat (Fin (2 ^ 63))) = Inr (- (2 ^ 63)) \<and> in_int64 (- (2 ^ 63))"
proof -
  have "toInt (AnyFloat (Fin (2 ^ 63))) = Inr (- (2 ^ 63))"
    by (simp add: of_int64_max to_int64_def in_int64_def trunc_rat_def)
  with toInt_exact [OF this] show ?thesis by blast
qed

definition demo_stats :: "int \<Rightarrow> stats" where
  "demo_stats n = zero_stats\<lparr>st_tracesExported := n\<rparr>"

text \<open>Two VUs of one process that have exported ten spans: k6 is told of twenty.\<close>

lemma snapshots_add_up_witness:
  "k6_total ''otel_gen_traces_exported''
     (fold snapshot_of [(0, demo_stats 3), (1, demo_stats 7), (0, demo_stats 10), (1, demo_stats 10)]
       [demo_vu_started, demo_vu_started]) = 20"
proof -
  let ?evs = "[(0, demo_stats 3), (1, demo_stats 7), (0, demo_stats 10), (1, demo_stats 10)]"
  have "fresh demo_vu_started"
    by (simp add: fresh_def demo_vu_started_def NewModuleInstance_def new_world_def module_New_def samples_taken_def
        newNativeMetrics_def demo_vu_def list_all_iff)
  then have vus: "\<forall>mi \<in> set [demo_vu_started, demo_vu_started]. fresh mi" by simp
  have "growing zero_stats (map snd ?evs)" by code_simp
  moreover have "stat_value (demo_stats 10) ''otel_gen_traces_exported'' = 10"
    "''otel_gen_traces_exported'' \<in> set stat_names" by code_simp+
  ultimately show ?thesis
    using snapshots_add_up [OF vus, of ?evs "''otel_gen_traces_exported''" "demo_stats 10"]
    by (simp add: last_seen_def snapshots_of_def less_Suc_eq)
qed

end
