(* ===== verification/Go_Format.thy ===== *)
theory Go_Format
  imports Go_Library
begin

text \<open>
  The text of formatted values: \<open>time.Duration.String\<close> and the verbs of \<open>fmt.Sprintf\<close> that the
  messages of the code use. The quoting of %q and the shortest form of a float are those of
  \<open>platform\<close>.
\<close>

section \<open>time.Duration.String\<close>

text \<open>
  The fraction of a value with the given number of decimal places, without trailing zeros and
  without the point when nothing is left, and the value before the point.
\<close>

fun fmt_frac :: "nat \<Rightarrow> nat \<Rightarrow> string \<Rightarrow> string \<times> nat" where
  "fmt_frac 0 v acc = (if acc = [] then [] else CHR ''.'' # acc, v)"
| "fmt_frac (Suc prec) v acc =
     fmt_frac prec (v div 10)
       (if acc = [] \<and> v mod 10 = 0 then [] else digit_char (v mod 10) # acc)"

definition small_duration :: "nat \<Rightarrow> nat \<Rightarrow> string \<Rightarrow> string" where
  "small_duration u prec unit = (case fmt_frac prec u [] of (fraction, v) \<Rightarrow> show_nat v @ fraction @ unit)"

definition Duration_String :: "duration \<Rightarrow> string" where
  "Duration_String d =
     (let u = nat \<bar>d\<bar>; sign = (if d < 0 then ''-'' else '''')
      in sign @
        (if u = 0 then ''0s''
         else if u < 1000 then small_duration u 0 ''ns''
         else if u < 1000000 then small_duration u 3 [CHR 0xC2, CHR 0xB5, CHR ''s'']
         else if u < 1000000000 then small_duration u 6 ''ms''
         else case fmt_frac 9 u [] of (fraction, secs) \<Rightarrow>
           (let m = secs div 60; h = m div 60
            in (if 0 < h then show_nat h @ ''h'' else '''')
               @ (if 0 < m then show_nat (m mod 60) @ ''m'' else '''')
               @ show_nat (secs mod 60) @ fraction @ ''s'')))"

section \<open>fmt.Sprintf\<close>

fun verb_text :: "platform \<Rightarrow> char \<Rightarrow> f64 fmt_arg \<Rightarrow> string" where
  "verb_text pf verb (AStr s) = (if verb = CHR ''q'' then pf_quote pf s else s)"
| "verb_text pf verb (AInt i) = itoa i"
| "verb_text pf verb (AFloat x) = pf_FormatFloat pf x"
| "verb_text pf verb (ADur d) = Duration_String d"
| "verb_text pf verb (AStrs ss) = ''['' @ str_join '' '' ss @ '']''"

fun sprintf :: "platform \<Rightarrow> string \<Rightarrow> f64 fmt_arg list \<Rightarrow> string" where
  "sprintf pf (c # verb # rest) (arg # args) =
     (if c = CHR ''%'' then verb_text pf verb arg @ sprintf pf rest args
      else c # sprintf pf (verb # rest) (arg # args))"
| "sprintf pf rest args = rest"

text \<open>The text of a message; one without arguments is not formatted.\<close>

fun message_text :: "platform \<Rightarrow> msg \<Rightarrow> string" where
  "message_text pf (Msg fmt args) = sprintf pf fmt args"

end
