(* ===== verification/Topology_Lint_Sound.thy ===== *)
theory Topology_Lint_Sound
  imports Topology_Lint
begin

text \<open>
  Lint against Parse: every error that the resolution or Validate returns stands for at least one
  issue, so Lint finds no error exactly for the input that Parse accepts.
\<close>

named_theorems report_simps "lists of errors each of which stands for an issue"

section \<open>Issues of an error\<close>

fun issue_of :: "platform \<Rightarrow> lint_severity \<Rightarrow> topo_error \<Rightarrow> lint_issue" where
  "issue_of pf sev (ParseError path m inner) =
     \<lparr>li_path = path, li_severity = sev, li_message = message_text pf m\<rparr>"
| "issue_of pf sev (ValidationError path rule m) =
     \<lparr>li_path = path, li_severity = sev, li_message = ''['' @ rule @ ''] '' @ message_text pf m\<rparr>"
| "issue_of pf sev (ErrJoin es) = \<lparr>li_path = '''', li_severity = sev, li_message = ''''\<rparr>"

lemma fold_append: "(\<And>c acc. c \<in> set cs \<Longrightarrow> g c acc = acc @ h c) \<Longrightarrow> fold g cs acc = acc @ concat (map h cs)"
  by (induction cs arbitrary: acc) auto

lemma appendIssues_leaves:
  "appendIssuesFromError pf sev issues err = issues @ map (issue_of pf sev) (leaf_errors err)"
proof (induction pf sev issues err rule: appendIssuesFromError.induct)
  case (1 pf sev issues children)
  have "fold (\<lambda>child acc. appendIssuesFromError pf sev acc child) children issues
      = issues @ concat (map (\<lambda>c. map (issue_of pf sev) (leaf_errors c)) children)"
    by (rule fold_append) (simp add: 1)
  then show ?case by (simp add: map_concat comp_def)
qed simp_all

lemma issue_of_severity [simp]: "li_severity (issue_of pf sev err) = sev"
  by (cases "(pf, sev, err)" rule: issue_of.cases) simp_all

lemma set_sortLintIssues [simp]: "set (sortLintIssues issues) = set issues"
  by (simp add: sortLintIssues_def)

lemma sortLintIssues_sorted: "sorted (map lint_key (sortLintIssues issues))"
  by (simp add: sortLintIssues_def)

definition error_free :: "lint_issue list \<Rightarrow> bool" where
  "error_free issues \<longleftrightarrow> (\<forall>i \<in> set issues. li_severity i \<noteq> LintError)"

lemma error_free_Nil [simp]: "error_free []"
  by (simp add: error_free_def)

lemma error_free_sort [simp]: "error_free (sortLintIssues issues) = error_free issues"
  by (simp add: error_free_def)

lemma error_free_append_issues:
  "error_free (append_issues pf issues p) \<longleftrightarrow> error_free issues \<and> (\<forall>err. p = Some err \<longrightarrow> leaf_errors err = [])"
  by (cases p) (auto simp: append_issues_def appendIssues_leaves error_free_def ball_Un)

lemma unknownFieldWarnings_free:
  "unknownFieldWarnings te err = Some ws \<Longrightarrow> error_free ws"
  by (auto simp: unknownFieldWarnings_def error_free_def split: option.splits if_splits)

section \<open>No error is empty\<close>

definition reported :: "topo_error list \<Rightarrow> bool" where
  "reported es \<longleftrightarrow> (\<forall>e \<in> set es. leaf_errors e \<noteq> [])"

lemma reported_simps [report_simps, simp]:
  "reported []" "reported (e # es) \<longleftrightarrow> leaf_errors e \<noteq> [] \<and> reported es"
  "reported (es @ es') \<longleftrightarrow> reported es \<and> reported es'"
  "reported (when_err b e) \<longleftrightarrow> (b \<longrightarrow> leaf_errors e \<noteq> [])"
  "reported (opt_list f p) \<longleftrightarrow> (\<forall>x. p = Some x \<longrightarrow> reported (f x))"
  "reported (concat ess) \<longleftrightarrow> (\<forall>es \<in> set ess. reported es)"
  "leaf_errors (newValidationError path rule m) = [newValidationError path rule m]"
  "leaf_errors (newValidationErrorf path rule m args) = [newValidationErrorf path rule m args]"
  "leaf_errors (newParseError path m) = [newParseError path m]"
  "leaf_errors (newParseErrorf path m args) = [newParseErrorf path m args]"
  by (auto simp: reported_def when_err_def opt_list_def newValidationError_def newValidationErrorf_def
      newParseError_def newParseErrorf_def split: option.split)

lemma reported_concat_indexed [report_simps]:
  "(\<And>i x. x \<in> set xs \<Longrightarrow> reported (f i x)) \<Longrightarrow> reported (concat_indexed f xs)"
  by (auto simp: concat_indexed_def in_set_enumerate_eq)

lemma join_reported: "errors_Join es = Some err \<Longrightarrow> reported es \<Longrightarrow> leaf_errors err \<noteq> []"
  by (cases es) (auto simp: errors_Join_def reported_def split: if_splits)

section \<open>Validate\<close>

lemma validateNoOrphanCallNode_reported: "reported (validateNoOrphanCallNode s path n)"
  by (induction s path n rule: validateNoOrphanCallNode.induct)
    (auto simp: validateEdgeEndpoints_def intro!: reported_concat_indexed split: option.split)

lemma validateStepReachable_reported: "reported (validateStepReachable s path st)"
  by (induction s path st rule: validateStepReachable.induct)
    (auto intro!: reported_concat_indexed split: option.split)

lemma validateCallNodeVariant_reported: "reported (validateCallNodeVariant path n)"
  by (induction path n rule: validateCallNodeVariant.induct)
    (auto intro!: reported_concat_indexed split: option.split)

lemma validateRecoveryPolicyOwnershipForEdge_reported: "reported (validateRecoveryPolicyOwnershipForEdge s e path)"
  by (induction s e path rule: validateRecoveryPolicyOwnershipForEdge.induct)
    (auto intro!: reported_concat_indexed split: option.split)

lemma validateFaultSchedule_reported: "reported (validateFaultSchedule_from i previous ps path)"
  by (induction i previous ps path rule: validateFaultSchedule_from.induct) (auto split: option.split)

lemma structure_reported:
  "reported (validateMapKeyConsistency s)" "reported (validateBackPointers s)"
  "reported (validateNoOrphanReferences s)" "reported (validateDAG s)"
  "reported (validateJourneyReachability s)" "reported (validateFaultTargets s)"
  "reported (validateCallNodeVariants s)" "reported (validateRecoveryPolicyOwnership s)"
         apply (auto simp: validateMapKeyConsistency_def split: option.split)[1]
        apply (auto simp: validateBackPointers_def validateBackPointer_def Let_def split: option.split)[1]
       apply (auto simp: validateNoOrphanReferences_def validateNoOrphanCallReferences_def
      intro!: reported_concat_indexed validateNoOrphanCallNode_reported)[1]
      apply (simp add: validateDAG_def Let_def split: prod.split)
     apply (auto simp: validateJourneyReachability_def validateStepsReachable_def split: option.split
      intro!: reported_concat_indexed validateStepReachable_reported)[1]
    apply (auto simp: validateFaultTargets_def validateFaultTarget_def validateFaultTargetKind_def
      intro!: reported_concat_indexed split: target_kind.split option.split)[1]
   apply (auto simp: validateCallNodeVariants_def validateCallNodeVariantList_def split: option.split
      intro!: reported_concat_indexed validateCallNodeVariant_reported)[1]
  apply (auto simp: validateRecoveryPolicyOwnership_def intro!: validateRecoveryPolicyOwnershipForEdge_reported)[1]
  done
lemma service_domain_reported:
  "reported (validateName n path rule noun)" "reported (validateMetricFaultLink p path)"
  "reported (validateStackSample st path)"
  by (simp_all add: validateName_def validateMetricFaultLink_def validateStackSample_def)

lemma operation_domain_reported:
  "reported (validateLogEvent ev path)" "reported (validateMetric m path)" "reported (validateStateUpdate u path)"
  "reported (validateObservableMetricSpec om path)" "reported (validateProfile pr path)"
  by (simp_all add: validateLogEvent_def validateMetric_def validateStateUpdate_def validateObservableMetricSpec_def
      validateProfile_def service_domain_reported reported_concat_indexed)

lemma domain_reported: "reported (validateDomainRanges s)"
proof -
  have "reported (validateOperationDomain o' path)" for o' path
    by (simp add: validateOperationDomain_def operation_domain_reported service_domain_reported reported_concat_indexed)
  then have svc: "reported (validateServiceDomain s sid r)" for sid r
    by (auto simp: validateServiceDomain_def Let_def operation_domain_reported reported_concat_indexed)
  have edge: "reported (validateEdgeDomain p path)" for p path
    by (simp add: validateEdgeDomain_def)
  have journey: "reported (validateJourneyDomain name j)" for name j
    by (simp add: validateJourneyDomain_def)
  have fault: "reported (validateFaultDomain f path)" for f path
    by (simp add: validateFaultDomain_def validateFaultSchedule_def validateFaultSchedule_reported)
  show ?thesis
    by (auto simp: validateDomainRanges_def no_services_error_def no_journeys_error_def svc edge journey fault
        intro!: reported_concat_indexed)
qed

lemma Validate_reported: "Validate (Some s) = Some err \<Longrightarrow> leaf_errors err \<noteq> []"
  by (rule join_reported [of "validation_errors s"])
    (simp_all add: Validate_def validation_errors_def structure_reported domain_reported)

section \<open>Resolution\<close>

definition left_reported :: "topo_error + 'a \<Rightarrow> bool" where
  "left_reported r \<longleftrightarrow> (\<forall>e. r = Inl e \<longrightarrow> leaf_errors e \<noteq> [])"

lemma left_reported_simps [report_simps, simp]:
  "left_reported (Inr x)" "left_reported (Inl e) \<longleftrightarrow> leaf_errors e \<noteq> []"
  by (simp_all add: left_reported_def)

lemma lefts_reported: "(\<And>r. r \<in> set rs \<Longrightarrow> left_reported r) \<Longrightarrow> reported (lefts rs)"
  by (fastforce simp: lefts_def reported_def left_reported_def split: sum.splits)

lemma map_indexed_reported:
  "(\<And>i x. x \<in> set xs \<Longrightarrow> left_reported (f i x)) \<Longrightarrow> reported (lefts (map_indexed f xs))"
  by (rule lefts_reported) (auto simp: set_map_indexed)

lemma join_left_reported:
  "reported es \<Longrightarrow> left_reported (case errors_Join es of Some err \<Rightarrow> Inl err | None \<Rightarrow> Inr x)"
  by (cases es) (auto simp: errors_Join_def reported_def)

lemma left_reported_then:
  "left_reported r \<Longrightarrow> (\<And>x. r = Inr x \<Longrightarrow> left_reported (f x)) \<Longrightarrow>
   left_reported (case r of Inl err \<Rightarrow> Inl err | Inr x \<Rightarrow> f x)"
  by (cases r) auto

lemma lookup_reported: "left_reported (lookupOperationAtPath s svc opn path)"
  by (auto simp: lookupOperationAtPath_def lookupOperation_def newParseErrorf_def newParseError_def Let_def
      split: option.split)

lemma parseOperationRef_reported: "left_reported (parseOperationRef spec path)"
  by (auto simp: parseOperationRef_def split: option.split)

lemma resolveCallNode_reported:
  "left_reported (resolveCallNode s op path rc)" "left_reported (resolveRecoveryPolicy s op path rp)"
proof (induction s op path rc and s op path rp rule: resolveCallNode_resolveRecoveryPolicy.induct)
  case (1 s op path to par proto lat er tmo rts rbo rbd onf)
  show ?case
  proof (cases "par = []")
    case False
    let ?rs = "map_indexed (\<lambda>i child. case child of
               None \<Rightarrow> Inl (newParseError (index_path (path @ ''.parallel'') i) ''call node is required'')
             | Some rc \<Rightarrow> resolveCallNode s op (index_path (path @ ''.parallel'') i) rc) par"
    have "reported (lefts ?rs)" if "to = None"
      using 1(1) False that
      by (intro map_indexed_reported) (auto split: option.split)
    then show ?thesis
      using False join_left_reported [of "lefts ?rs"] by (cases to) (simp_all add: Let_def)
  next
    case True
    show ?thesis
      using 1(2) True
      by (auto simp: Let_def intro!: left_reported_then lookup_reported split: option.split)
  qed
next
  case (2 s op path fbs act dr)
  show ?case
    unfolding resolveRecoveryPolicy.simps Let_def
    by (rule join_left_reported, rule map_indexed_reported)
      (use 2 in \<open>auto intro!: left_reported_then split: option.split call_node.split\<close>)
qed
lemma resolveStep_reported: "left_reported (resolveStep s path rs)"
proof (induction s path rs rule: resolveStep.induct)
  case (1 s path svc opn par)
  let ?rs = "map_indexed (\<lambda>i child. case child of
             None \<Rightarrow> Inl (newParseError (index_path (path @ ''.parallel'') i) ''step is required'')
           | Some rs \<Rightarrow> resolveStep s (index_path (path @ ''.parallel'') i) rs) par"
  have "reported (lefts ?rs)" if "par \<noteq> []" "svc = ''''" "opn = ''''"
    using 1 that
    by (intro map_indexed_reported) (auto split: option.split)
  then show ?case
    using join_left_reported [of "lefts ?rs"]
    by (cases "par = []") (auto simp: Let_def intro!: left_reported_then lookup_reported)
qed

lemma resolveFaultTarget_reported: "left_reported (resolveFaultTarget s spec path)"
proof -
  have "left_reported (resolveEdgeTarget s rest path)" for rest
    by (auto simp: resolveEdgeTarget_def split: option.split prod.split
        intro!: left_reported_then parseOperationRef_reported lookup_reported)
  then show ?thesis
    by (auto simp: resolveFaultTarget_def Let_def split: option.split prod.split
        intro!: left_reported_then parseOperationRef_reported lookup_reported)
qed

lemma resolve_fault_reported: "left_reported (resolve_fault s i p)"
  by (auto simp: resolve_fault_def intro!: left_reported_then resolveFaultTarget_reported split: option.split)

lemma resolve_operation_reported:
  "reported errs \<Longrightarrow> reported (snd (resolve_operation sname i ro (s, errs)))"
  using resolveCallNode_reported(1)
  by (auto simp: resolve_operation_def resolveCallNodePtr_def Let_def
      intro!: map_indexed_reported split: option.split)

lemma fold_reported:
  "(\<And>x st. x \<in> set xs \<Longrightarrow> reported (snd st) \<Longrightarrow> reported (snd (f x st))) \<Longrightarrow> reported (snd st) \<Longrightarrow> reported (snd (fold f xs st))"
  by (induction xs arbitrary: st) auto

lemma resolve_service_reported: "reported (snd st) \<Longrightarrow> reported (snd (resolve_service sname p st))"
  using resolve_operation_reported
  by (auto simp: resolve_service_def intro!: fold_reported split: option.split)

lemma resolve_journey_reported: "reported (snd (resolve_journey s name p))"
  using resolveStep_reported
  by (auto simp: resolve_journey_def resolveStepPtr_def Let_def
      intro!: map_indexed_reported split: option.split)

lemma resolveReferences_reported:
  assumes "resolveReferences s raw = (s', Some err)"
  shows "leaf_errors err \<noteq> []"
proof -
  obtain s1 errs1 where st: "fold (\<lambda>(name, rs). resolve_service name rs) (raw_services raw) (s, []) = (s1, errs1)"
    by force
  have "reported (snd (fold (\<lambda>(name, rs). resolve_service name rs) (raw_services raw) (s, [])))"
    by (rule fold_reported) (auto simp: resolve_service_reported)
  then have "reported errs1" by (simp add: st)
  with assms show ?thesis
    by (auto simp: resolveReferences_def st Let_def case_prod_beta resolve_journey_reported
        resolve_fault_reported dest!: join_reported intro!: map_indexed_reported)
qed

section \<open>Lint and Parse\<close>

lemma lint_schema_error_free:
  "error_free (lint_schema pf issues raw) \<longleftrightarrow> error_free issues \<and> (\<exists>s. parse_raw raw = Inr s)"
proof (cases "resolveReferences (buildSchema raw) raw")
  case (Pair s p)
  show ?thesis
    using resolveReferences_reported [of "buildSchema raw" raw s] Validate_reported [of s] Pair
    by (cases p; cases "Validate (Some s)")
      (auto simp: lint_schema_def parse_raw_def error_free_append_issues)
qed

text \<open>
  The documented behaviour of \<open>KnownFields\<close>: a strict decoding that succeeds gives what a lenient
  one gives, and one that fails where a lenient one succeeds complains of unknown fields only.
\<close>

definition known_fields :: "(string \<Rightarrow> string list option) \<Rightarrow> (string \<Rightarrow> bool \<Rightarrow> string + raw_schema) \<Rightarrow> bool" where
  "known_fields te yaml \<longleftrightarrow>
     (\<forall>data raw. yaml data True = Inr raw \<longrightarrow> yaml data False = Inr raw)
     \<and> (\<forall>data err raw. yaml data True = Inl err \<longrightarrow> yaml data False = Inr raw \<longrightarrow>
         (\<exists>ms. te err = Some ms \<and> list_all unknown_field_message ms))"

definition lint_clean :: "lint_issue list \<times> parse_failure option \<Rightarrow> bool" where
  "lint_clean r \<longleftrightarrow> snd r = None \<and> error_free (fst r)"

lemma yamlTypeError_decode [simp]: "yamlTypeError te (ParseError p m (Some e)) = te e"
  by (simp add: yamlTypeError_def as_ParseError_def)

lemma as_TypeError_decode [simp]: "as_TypeError te (ParseError p m (Some e)) = te e"
  by (cases "te e") (simp_all add: as_TypeError_def)

lemma lint_clean_leniently:
  assumes "yaml data False = Inr raw"
  shows "lint_clean (lint_leniently pf te yaml data issues None)
    \<longleftrightarrow> error_free issues \<and> (\<exists>s. parse_raw raw = Inr s)"
  using assms by (simp add: lint_leniently_def decodeRaw_def lint_clean_def lint_schema_error_free append_issues_def)

lemma lint_undecodable:
  assumes "yaml data False = Inl e"
  shows "\<not> lint_clean (lint_leniently pf te yaml data issues p)"
  using assms
  by (auto simp: lint_leniently_def decodeRaw_def lint_clean_def append_issues_def appendIssues_leaves error_free_def)

text \<open>
  C17: Lint agrees with Parse. With a decoder that reports unknown fields as documented, and for
  every input, Parse returns a schema exactly when Lint returns without an error and none of its
  issues has the severity LintError; unknown fields alone give warnings.
\<close>

theorem Lint_agrees_with_Parse:
  assumes "known_fields te yaml"
  shows "(\<exists>s. Parse yaml reader = Inr s)
    \<longleftrightarrow> snd (Lint pf te yaml reader) = None
      \<and> (\<forall>i \<in> set (fst (Lint pf te yaml reader)). li_severity i \<noteq> LintError)"
proof -
  have "(\<exists>s. Parse yaml reader = Inr s) \<longleftrightarrow> lint_clean (Lint pf te yaml reader)"
  proof (cases reader)
    case (Inl err)
    then show ?thesis by (simp add: Parse_def Lint_def lint_clean_def)
  next
    case (Inr data)
    show ?thesis
    proof (cases "yaml data True")
      case strict: (Inr raw)
      with assms have "yaml data False = Inr raw" by (auto simp: known_fields_def)
      with Inr strict show ?thesis
        by (auto simp: Parse_def Lint_def decodeRaw_def lint_clean_def lint_schema_error_free split: sum.split)
    next
      case strict: (Inl err)
      show ?thesis
      proof (cases "yaml data False")
        case (Inl e)
        with Inr strict show ?thesis
          by (auto simp: Parse_def Lint_def decodeRaw_def [of _ _ True] decodeRaw_def [of yaml data False]
              lint_undecodable split: option.split)
      next
        case lax: (Inr raw)
        with assms strict obtain ms where "te err = Some ms" "list_all unknown_field_message ms"
          unfolding known_fields_def by blast
        then obtain ws where ws: "unknownFieldWarnings te (ParseError ''<root>'' (Msg ''yaml decode failed'' []) (Some err)) = Some ws"
          by (simp add: unknownFieldWarnings_def)
        with Inr strict lax unknownFieldWarnings_free [OF ws] show ?thesis
          by (auto simp: Parse_def Lint_def decodeRaw_def [of yaml data True] decodeRaw_def [of yaml data False]
              lint_clean_leniently split: sum.split)
      qed
    qed
  qed
  then show ?thesis by (simp add: lint_clean_def error_free_def)
qed

end
