(* ===== verification/Viz_Data.thy ===== *)
theory Viz_Data
  imports Topology_Resolve Go_Format Journey_Plan
begin

text \<open>
  cmd/xk6-otel-gen-viz/vizdata.go: the data of the visualization of a topology. Following a nil
  pointer is \<open>VizPanic\<close>. The walk of journeyReachability goes through the call graph, which the
  heap does not bound, so it takes fuel for its depth; \<open>VizOutOfFuel\<close> is no result of the code.
\<close>

section \<open>Shapes\<close>

type_synonym viz_operation = string

record viz_node =
  vn_ID :: string
  vn_Kind :: string
  vn_Replicas :: int
  vn_Language :: string
  vn_Framework :: string
  vn_Version :: string
  vn_Operations :: "viz_operation list"

record viz_edge =
  ve_ID :: string
  ve_Source :: string
  ve_Target :: string
  ve_Protocol :: string
  ve_FromOp :: string
  ve_ToOp :: string
  ve_LatencyP50 :: string
  ve_LatencyP95 :: string
  ve_ErrorRate :: f64
  ve_Retries :: int

record viz_journey =
  vj_Name :: string
  vj_Weight :: f64
  vj_ReachableNodes :: "string list"
  vj_ReachableEdges :: "string list"

record viz_severity =
  vs_Probability :: f64
  vs_Multiplier :: f64
  vs_AddMs :: f64
  vs_Value :: f64

record viz_schedule_point =
  vp_AtSeconds :: f64
  vp_Intensity :: f64

record viz_fault =
  vf_TargetKind :: string
  vf_TargetID :: string
  vf_FaultKind :: string
  vf_Severity :: viz_severity
  vf_Schedule :: "viz_schedule_point list"

record viz_data =
  vd_Namespace :: string
  vd_Nodes :: "viz_node list"
  vd_Edges :: "viz_edge list"
  vd_Journeys :: "viz_journey list"
  vd_Faults :: "viz_fault list"

datatype viz_stop = VizPanic | VizOutOfFuel

text \<open>Loops that end at the first panic: one that threads a state, and one that collects.\<close>

fun fold_stop :: "('a \<Rightarrow> 's \<Rightarrow> 'e + 's) \<Rightarrow> 'a list \<Rightarrow> 's \<Rightarrow> 'e + 's" where
  "fold_stop f [] st = Inr st"
| "fold_stop f (x # xs) st = (case f x st of Inl e \<Rightarrow> Inl e | Inr st' \<Rightarrow> fold_stop f xs st')"

definition map_stop :: "('a \<Rightarrow> 'e + 'b) \<Rightarrow> 'a list \<Rightarrow> 'e + 'b list" where
  "map_stop f xs = fold_stop (\<lambda>x ys. case f x of Inl e \<Rightarrow> Inl e | Inr y \<Rightarrow> Inr (ys @ [y])) xs []"

lemma fold_stop_cong [fundef_cong]:
  "xs = ys \<Longrightarrow> st = st' \<Longrightarrow> (\<And>x st. x \<in> set ys \<Longrightarrow> f x st = g x st) \<Longrightarrow> fold_stop f xs st = fold_stop g ys st'"
  by (induction xs arbitrary: ys st st') (auto split: sum.split)

section \<open>Nodes\<close>

definition collectNode :: "service \<Rightarrow> viz_node" where
  "collectNode svc =
     \<lparr>vn_ID = svc_name svc, vn_Kind = service_kind_String (svc_kind svc), vn_Replicas = svc_replicas svc,
      vn_Language = svc_language svc, vn_Framework = svc_framework svc, vn_Version = svc_version svc,
      vn_Operations = sort_strings (map fst (svc_operations svc))\<rparr>"

definition collectNodes :: "schema \<Rightarrow> viz_node list" where
  "collectNodes s =
     concat (map (\<lambda>sid. opt_list (\<lambda>r. [collectNode (s_svc s r)]) (ptr_at (s_services s) sid))
       (sort_strings (map fst (s_services s))))"

section \<open>Edges\<close>

fun collectEdgesNode :: "call_node \<Rightarrow> edge list" where
  "collectEdgesNode (CallNode e ps) =
     opt_list (\<lambda>ed. ed # (case e_on_failure ed of
         None \<Rightarrow> []
       | Some rp \<Rightarrow> concat (map (opt_list (\<lambda>f. [f])) (rp_fallback rp)))) e
     @ concat (map (opt_list collectEdgesNode) ps)"

text \<open>The edges that \<open>collectEdges\<close> calls its function with, in order.\<close>

definition collectEdges :: "call_node option list \<Rightarrow> edge list" where
  "collectEdges calls = concat (map (opt_list collectEdgesNode) calls)"

text \<open>\<open>op.Service.Name\<close> and \<open>op.Name\<close> of an operation that may be nil.\<close>

definition viz_op_names :: "schema \<Rightarrow> op_ref option \<Rightarrow> viz_stop + (string \<times> string)" where
  "viz_op_names s p = (case p of
       None \<Rightarrow> Inl VizPanic
     | Some op \<Rightarrow> (case op_service (s_op s op) of
           None \<Rightarrow> Inl VizPanic
         | Some r \<Rightarrow> Inr (svc_name (s_svc s r), op_name (s_op s op))))"

definition viz_edgeID :: "schema \<Rightarrow> edge \<Rightarrow> viz_stop + string" where
  "viz_edgeID s e = (case viz_op_names s (e_from e) of
       Inl x \<Rightarrow> Inl x
     | Inr (fs, fo) \<Rightarrow> (case viz_op_names s (e_to e) of
           Inl x \<Rightarrow> Inl x
         | Inr (ts, to) \<Rightarrow> Inr (fs @ ''.'' @ fo @ ''->'' @ ts @ ''.'' @ to)))"

definition buildVizEdge :: "schema \<Rightarrow> edge \<Rightarrow> viz_stop + viz_edge" where
  "buildVizEdge s e = (case viz_edgeID s e of
       Inl x \<Rightarrow> Inl x
     | Inr eid \<Rightarrow> (case (viz_op_names s (e_from e), viz_op_names s (e_to e)) of
           (Inr (fs, fo), Inr (ts, to)) \<Rightarrow> Inr
             \<lparr>ve_ID = eid, ve_Source = fs, ve_Target = ts, ve_Protocol = protocol_String (e_protocol e),
              ve_FromOp = fo, ve_ToOp = to,
              ve_LatencyP50 = (if l_p50 (e_latency e) \<noteq> 0 then Duration_String (l_p50 (e_latency e)) else ''''),
              ve_LatencyP95 = (if l_p95 (e_latency e) \<noteq> 0 then Duration_String (l_p95 (e_latency e)) else ''''),
              ve_ErrorRate = e_error_rate e, ve_Retries = e_retries e\<rparr>
         | _ \<Rightarrow> Inl VizPanic))"

definition collectAllEdges :: "schema \<Rightarrow> viz_stop + viz_edge list" where
  "collectAllEdges s =
     map_stop (buildVizEdge s)
       (filter (\<lambda>e. e_from e \<noteq> None \<and> e_to e \<noteq> None)
         (concat (map (\<lambda>op. collectEdges (op_calls (s_op s op))) (allSchemaOperations s))))"

section \<open>Journeys\<close>

text \<open>The three maps of journeyReachability.\<close>

record reach =
  visitedOps :: "(op_ref, bool) gomap"
  nodeSet :: "(string, bool) gomap"
  edge_set :: "(string, bool) gomap"

definition reached :: "schema \<Rightarrow> op_ref \<Rightarrow> svc_ref \<Rightarrow> reach \<Rightarrow> reach" where
  "reached s op r st =
     st\<lparr>visitedOps := AList.update op True (visitedOps st),
        nodeSet := AList.update (svc_name (s_svc s r)) True (nodeSet st)\<rparr>"

text \<open>The callback that walkOp hands to collectEdges.\<close>

definition walkEdge ::
  "(op_ref option \<Rightarrow> reach \<Rightarrow> viz_stop + reach) \<Rightarrow> schema \<Rightarrow> edge \<Rightarrow> reach \<Rightarrow> viz_stop + reach" where
  "walkEdge walk s e st = (case e_to e of
       None \<Rightarrow> Inr st
     | Some t \<Rightarrow> (case viz_edgeID s e of
           Inl x \<Rightarrow> Inl x
         | Inr eid \<Rightarrow> walk (Some t) (st\<lparr>edge_set := AList.update eid True (edge_set st)\<rparr>)))"

fun walkOp :: "nat \<Rightarrow> schema \<Rightarrow> op_ref option \<Rightarrow> reach \<Rightarrow> viz_stop + reach" where
  "walkOp 0 s p st = Inl VizOutOfFuel"
| "walkOp (Suc fuel) s p st = (case p of
       None \<Rightarrow> Inr st
     | Some op \<Rightarrow>
         if map_of (visitedOps st) op = Some True then Inr st
         else (case op_service (s_op s op) of
             None \<Rightarrow> Inl VizPanic
           | Some r \<Rightarrow> fold_stop (walkEdge (walkOp fuel s) s) (collectEdges (op_calls (s_op s op)))
               (reached s op r st)))"

fun walkStep :: "(op_ref option \<Rightarrow> reach \<Rightarrow> viz_stop + reach) \<Rightarrow> step \<Rightarrow> reach \<Rightarrow> viz_stop + reach" where
  "walkStep walk (Step op ps) st =
     (case (case op of None \<Rightarrow> Inr st | Some o' \<Rightarrow> walk (Some o') st) of
        Inl x \<Rightarrow> Inl x
      | Inr st' \<Rightarrow> fold_stop (\<lambda>p st. case p of None \<Rightarrow> Inr st | Some child \<Rightarrow> walkStep walk child st) ps st')"

definition walkSteps ::
  "(op_ref option \<Rightarrow> reach \<Rightarrow> viz_stop + reach) \<Rightarrow> step option list \<Rightarrow> reach \<Rightarrow> viz_stop + reach" where
  "walkSteps walk = fold_stop (\<lambda>p st. case p of None \<Rightarrow> Inr st | Some child \<Rightarrow> walkStep walk child st)"

definition mapKeysSorted :: "(string, bool) gomap \<Rightarrow> string list" where
  "mapKeysSorted m = sort_strings (map fst m)"

definition journeyReachability :: "nat \<Rightarrow> schema \<Rightarrow> journey \<Rightarrow> viz_stop + (string list \<times> string list)" where
  "journeyReachability fuel s j =
     (case walkSteps (walkOp fuel s) (j_steps j) \<lparr>visitedOps = [], nodeSet = [], edge_set = []\<rparr> of
        Inl x \<Rightarrow> Inl x
      | Inr st \<Rightarrow> Inr (mapKeysSorted (nodeSet st), mapKeysSorted (edge_set st)))"

definition collectJourney :: "nat \<Rightarrow> schema \<Rightarrow> string \<times> journey \<Rightarrow> viz_stop + viz_journey" where
  "collectJourney fuel s = (\<lambda>(name, j). case journeyReachability fuel s j of
       Inl x \<Rightarrow> Inl x
     | Inr (nodeIDs, edgeIDs) \<Rightarrow> Inr \<lparr>vj_Name = name, vj_Weight = j_weight j,
         vj_ReachableNodes = nodeIDs, vj_ReachableEdges = edgeIDs\<rparr>)"

definition collectJourneys :: "nat \<Rightarrow> schema \<Rightarrow> viz_stop + viz_journey list" where
  "collectJourneys fuel s =
     map_stop (collectJourney fuel s)
       (concat (map (\<lambda>name. opt_list (\<lambda>j. [(name, j)]) (ptr_at (s_journeys s) name))
         (sort_strings (map fst (s_journeys s)))))"

section \<open>Faults\<close>

definition faultTargetID :: "schema \<Rightarrow> fault_target \<Rightarrow> viz_stop + string" where
  "faultTargetID s t = (case ft_kind t of
       TargetNode \<Rightarrow> (case ft_service t of None \<Rightarrow> Inr '''' | Some r \<Rightarrow> Inr (svc_name (s_svc s r)))
     | TargetOperation \<Rightarrow> (case ft_operation t of
           None \<Rightarrow> Inr ''''
         | Some op \<Rightarrow> (case op_service (s_op s op) of
               None \<Rightarrow> Inr ''''
             | Some r \<Rightarrow> Inr (svc_name (s_svc s r) @ ''.'' @ op_name (s_op s op))))
     | TargetEdge \<Rightarrow> (case ft_edge t of None \<Rightarrow> Inr '''' | Some e \<Rightarrow> viz_edgeID s e)
     | TargetOther _ \<Rightarrow> Inr '''')"

text \<open>\<open>Duration.Seconds\<close>: the whole seconds plus the remaining nanoseconds over 1e9.\<close>

definition durationSeconds :: "duration \<Rightarrow> f64" where
  "durationSeconds d =
     (let whole = sgn d * (\<bar>d\<bar> div second); rest = sgn d * (\<bar>d\<bar> mod second)
      in fadd (fround (of_int whole)) (fdiv (fround (of_int rest)) (Fin 1000000000)))"

definition buildVizFault :: "schema \<Rightarrow> fault_spec \<Rightarrow> viz_stop + viz_fault" where
  "buildVizFault s f = (case faultTargetID s (f_target f) of
       Inl x \<Rightarrow> Inl x
     | Inr tid \<Rightarrow> Inr
         \<lparr>vf_TargetKind = target_kind_String (ft_kind (f_target f)), vf_TargetID = tid,
          vf_FaultKind = fault_kind_String (f_kind f),
          vf_Severity = \<lparr>vs_Probability = sev_probability (f_severity f),
            vs_Multiplier = sev_multiplier (f_severity f),
            vs_AddMs = (if sev_add (f_severity f) \<noteq> 0
              then fmul (durationSeconds (sev_add (f_severity f))) (Fin 1000) else Fin 0),
            vs_Value = sev_value (f_severity f)\<rparr>,
          vf_Schedule = map (\<lambda>pt. \<lparr>vp_AtSeconds = durationSeconds (sp_at pt),
            vp_Intensity = sp_intensity pt\<rparr>) (f_schedule f)\<rparr>)"

definition collectFaults :: "schema \<Rightarrow> viz_stop + viz_fault list" where
  "collectFaults s = map_stop (buildVizFault s) (s_faults s)"

section \<open>buildVizData\<close>

definition buildVizData :: "nat \<Rightarrow> schema option \<Rightarrow> viz_stop + viz_data" where
  "buildVizData fuel p = (case p of
       None \<Rightarrow> Inr \<lparr>vd_Namespace = '''', vd_Nodes = [], vd_Edges = [], vd_Journeys = [], vd_Faults = []\<rparr>
     | Some s \<Rightarrow> (case collectAllEdges s of
           Inl x \<Rightarrow> Inl x
         | Inr es \<Rightarrow> (case collectJourneys fuel s of
               Inl x \<Rightarrow> Inl x
             | Inr js \<Rightarrow> (case collectFaults s of
                   Inl x \<Rightarrow> Inl x
                 | Inr fs \<Rightarrow> Inr \<lparr>vd_Namespace = s_namespace s, vd_Nodes = collectNodes s,
                     vd_Edges = es, vd_Journeys = js, vd_Faults = fs\<rparr>))))"

end
