(* ===== verification/Viz_Reach.thy ===== *)
theory Viz_Reach
  imports Viz_Data
begin

text \<open>
  What the visualization shows: the data of a parsed topology is built without following a nil
  pointer, and the nodes and edges of a journey are those of the operations that its steps reach in
  the call graph.
\<close>

section \<open>Edges of the call trees\<close>

lemma collectEdges_calls: "collectEdges calls = forEachEdgeInCalls calls"
proof -
  have "collectEdgesNode n = edges_in_node n" for n
    by (induction n rule: edges_in_node.induct) (auto simp: fallbacks_def opt_list_def split: option.split
        intro!: arg_cong [of _ _ concat])
  then have "collectEdgesNode = edges_in_node" by (rule ext)
  then show ?thesis by (simp add: collectEdges_def forEachEdgeInCalls_def)
qed

lemma collectAllEdges_walk: "concat (map (\<lambda>op. collectEdges (op_calls (s_op s op))) (allSchemaOperations s)) = forEachOutgoingEdge s"
  by (simp add: collectEdges_calls forEachOutgoingEdge_def)

definition shown_service :: "schema \<Rightarrow> op_ref \<Rightarrow> string" where
  "shown_service s op = (case op_service (s_op s op) of None \<Rightarrow> '''' | Some r \<Rightarrow> svc_name (s_svc s r))"

definition edge_text :: "schema \<Rightarrow> edge \<Rightarrow> string" where
  "edge_text s e = (case viz_edgeID s e of Inl _ \<Rightarrow> '''' | Inr eid \<Rightarrow> eid)"

definition edges_of :: "schema \<Rightarrow> op_ref set \<Rightarrow> edge set" where
  "edges_of s ops = (\<Union>op \<in> ops. set (forEachEdgeInCalls (op_calls (s_op s op))))"

lemma operation_service:
  assumes "schema_ok s" and "op \<in> operationSet s"
  obtains r where "op_service (s_op s op) = Some r" and "shown_service s op = svc_name (s_svc s r)"
  using assms
  by (fastforce simp: schema_ok_def identity_ok_def operationSet_iff operation_entries_iff shown_service_def)

lemma edge_named:
  assumes "schema_ok s" and "endpoints_ok s e"
  shows "\<exists>src tgt. e_from e = Some src \<and> e_to e = Some tgt \<and> src \<in> operationSet s \<and> tgt \<in> operationSet s
    \<and> viz_edgeID s e = Inr (edge_text s e)"
proof -
  from assms(2) obtain src tgt where ends: "e_from e = Some src" "e_to e = Some tgt"
    "src \<in> operationSet s" "tgt \<in> operationSet s"
    by (auto simp: endpoints_ok_def in_op_set_def split: option.splits)
  from operation_service [OF assms(1) ends(3)] obtain r where r: "op_service (s_op s src) = Some r" .
  from operation_service [OF assms(1) ends(4)] obtain r' where "op_service (s_op s tgt) = Some r'" .
  with ends r show ?thesis by (simp add: edge_text_def viz_edgeID_def viz_op_names_def)
qed

lemma schema_edges:
  assumes "schema_ok s" and "op \<in> operationSet s" and "e \<in> set (forEachEdgeInCalls (op_calls (s_op s op)))"
  shows "endpoints_ok s e"
  using assms by (auto simp: schema_ok_def calls_ok_def)

section \<open>What a walk adds\<close>

definition visited :: "reach \<Rightarrow> op_ref set" where
  "visited st = fst ` set (visitedOps st)"

text \<open>
  The maps of a walk inside the operations \<open>P\<close>; and from \<open>st\<close> to \<open>st'\<close> a walk adds operations
  whose targets it has visited, their services, their edges and the edges named in \<open>X\<close>.
\<close>

definition reach_ok :: "op_ref set \<Rightarrow> reach \<Rightarrow> bool" where
  "reach_ok P st \<longleftrightarrow> visited st \<subseteq> P \<and> (\<forall>(k, v) \<in> set (visitedOps st). v)
     \<and> distinct (map fst (nodeSet st)) \<and> distinct (map fst (edge_set st))"

definition walked :: "schema \<Rightarrow> reach \<Rightarrow> string set \<Rightarrow> reach \<Rightarrow> bool" where
  "walked s st X st' \<longleftrightarrow> visited st \<subseteq> visited st'
     \<and> (\<forall>op \<in> visited st' - visited st. set (outgoingTargets s op) \<subseteq> visited st')
     \<and> fst ` set (nodeSet st') = fst ` set (nodeSet st) \<union> shown_service s ` (visited st' - visited st)
     \<and> fst ` set (edge_set st') = fst ` set (edge_set st) \<union> X \<union> edge_text s ` edges_of s (visited st' - visited st)"

lemma walked_refl: "walked s st {} st"
  by (simp add: walked_def edges_of_def)

lemma edges_of_Un: "edges_of s (A \<union> B) = edges_of s A \<union> edges_of s B"
  by (simp add: edges_of_def)

lemma walkedD:
  assumes "walked s st X st'"
  shows "visited st \<subseteq> visited st'" and "op \<in> visited st' - visited st \<Longrightarrow> set (outgoingTargets s op) \<subseteq> visited st'"
    and "fst ` set (nodeSet st') = fst ` set (nodeSet st) \<union> shown_service s ` (visited st' - visited st)"
    and "fst ` set (edge_set st') = fst ` set (edge_set st) \<union> X \<union> edge_text s ` edges_of s (visited st' - visited st)"
  using assms by (simp_all only: walked_def ball_simps)

lemma walkedI:
  assumes "visited st \<subseteq> visited st'"
    and "\<And>op. op \<in> visited st' - visited st \<Longrightarrow> set (outgoingTargets s op) \<subseteq> visited st'"
    and "fst ` set (nodeSet st') = fst ` set (nodeSet st) \<union> shown_service s ` (visited st' - visited st)"
    and "fst ` set (edge_set st') = fst ` set (edge_set st) \<union> X \<union> edge_text s ` edges_of s (visited st' - visited st)"
  shows "walked s st X st'"
  unfolding walked_def by (intro conjI ballI assms)

lemma walked_trans:
  assumes "walked s st X st1" and "walked s st1 Y st2"
  shows "walked s st (X \<union> Y) st2"
proof -
  note g = walkedD [OF assms(1)] and h = walkedD [OF assms(2)]
  have new: "visited st2 - visited st = (visited st1 - visited st) \<union> (visited st2 - visited st1)"
    using g(1) h(1) by blast
  show ?thesis
  proof (rule walkedI)
    show "visited st \<subseteq> visited st2" using g(1) h(1) by blast
    show "set (outgoingTargets s op) \<subseteq> visited st2" if "op \<in> visited st2 - visited st" for op
      using g(2) [of op] h(1) h(2) [of op] that by blast
    show "fst ` set (nodeSet st2) = fst ` set (nodeSet st) \<union> shown_service s ` (visited st2 - visited st)"
      unfolding new h(3) g(3) image_Un by (simp only: Un_assoc)
    show "fst ` set (edge_set st2) = fst ` set (edge_set st) \<union> (X \<union> Y)
        \<union> edge_text s ` edges_of s (visited st2 - visited st)"
      unfolding new h(4) g(4) edges_of_Un image_Un by (simp only: Un_ac)
  qed
qed

lemma map_of_all_true: "\<forall>(k, v) \<in> set m. v \<Longrightarrow> map_of m k = Some True \<longleftrightarrow> k \<in> fst ` set m"
  by (induction m) auto

lemma visited_iff: "reach_ok P st \<Longrightarrow> map_of (visitedOps st) op = Some True \<longleftrightarrow> op \<in> visited st"
  by (simp add: reach_ok_def visited_def map_of_all_true)

lemma fold_stop_walked:
  assumes "\<And>x st. x \<in> set xs \<Longrightarrow> L \<subseteq> visited st \<Longrightarrow> reach_ok P st \<Longrightarrow>
      \<exists>st'. f x st = Inr st' \<and> reach_ok P st' \<and> walked s st (X x) st' \<and> T x \<subseteq> visited st'"
    and "L \<subseteq> visited st" and "reach_ok P st"
  shows "\<exists>st'. fold_stop f xs st = Inr st' \<and> reach_ok P st' \<and> walked s st (\<Union>x \<in> set xs. X x) st'
    \<and> (\<Union>x \<in> set xs. T x) \<subseteq> visited st'"
  using assms
proof (induction xs arbitrary: st)
  case Nil
  then show ?case by (simp add: walked_refl)
next
  case (Cons x xs)
  from Cons.prems(1) [OF _ Cons.prems(2,3), of x] obtain st1 where st1: "f x st = Inr st1"
    "reach_ok P st1" "walked s st (X x) st1" "T x \<subseteq> visited st1" by auto
  then have "L \<subseteq> visited st1" using Cons.prems(2) by (auto simp: walked_def)
  from Cons.IH [OF Cons.prems(1) this st1(2)] obtain st2 where st2: "fold_stop f xs st1 = Inr st2"
    "reach_ok P st2" "walked s st1 (\<Union>x \<in> set xs. X x) st2" "(\<Union>x \<in> set xs. T x) \<subseteq> visited st2" by auto
  from st2(3) have "visited st1 \<subseteq> visited st2" by (simp add: walked_def)
  with st1 st2 walked_trans [OF st1(3) st2(3)] show ?case by auto
qed

section \<open>The walk of an operation\<close>

definition closed_ops :: "schema \<Rightarrow> op_ref set \<Rightarrow> bool" where
  "closed_ops s P \<longleftrightarrow> P \<subseteq> operationSet s \<and> (\<forall>op \<in> P. set (outgoingTargets s op) \<subseteq> P)"

text \<open>What a walk function does from every state that has visited \<open>L\<close>.\<close>

definition walks ::
  "schema \<Rightarrow> op_ref set \<Rightarrow> op_ref set \<Rightarrow> (op_ref option \<Rightarrow> reach \<Rightarrow> viz_stop + reach) \<Rightarrow> bool" where
  "walks s P L walk \<longleftrightarrow> (\<forall>op \<in> P. \<forall>st. L \<subseteq> visited st \<longrightarrow> reach_ok P st \<longrightarrow>
     (\<exists>st'. walk (Some op) st = Inr st' \<and> reach_ok P st' \<and> walked s st {} st' \<and> op \<in> visited st'))"

lemma reach_ok_edge: "reach_ok P st \<Longrightarrow> reach_ok P (st\<lparr>edge_set := AList.update k True (edge_set st)\<rparr>)"
  by (simp add: reach_ok_def visited_def distinct_update)

lemma walkEdge_walked:
  assumes "schema_ok s" and "endpoints_ok s e" and "walks s P L walk" and "e_to e = Some t" and "t \<in> P"
    and "L \<subseteq> visited st" and "reach_ok P st"
  shows "\<exists>st'. walkEdge walk s e st = Inr st' \<and> reach_ok P st' \<and> walked s st {edge_text s e} st' \<and> {t} \<subseteq> visited st'"
proof -
  let ?st = "st\<lparr>edge_set := AList.update (edge_text s e) True (edge_set st)\<rparr>"
  have same: "visited ?st = visited st" by (simp add: visited_def)
  with assms reach_ok_edge [OF assms(7)] obtain st' where st': "walk (Some t) ?st = Inr st'"
    "reach_ok P st'" "walked s ?st {} st'" "t \<in> visited st'"
    unfolding walks_def by metis
  have "walked s st {edge_text s e} ?st"
    by (simp add: walked_def same edges_of_def dom_update insert_commute)
  from walked_trans [OF this st'(3)] have "walked s st {edge_text s e} st'" by simp
  with st' assms(4) edge_named [OF assms(1,2)] show ?thesis by (auto simp: walkEdge_def)
qed

lemma reached_facts:
  assumes "reach_ok P st" and "op \<in> P"
  shows "visited (reached s op r st) = insert op (visited st)" "reach_ok P (reached s op r st)"
proof -
  show new: "visited (reached s op r st) = insert op (visited st)"
    by (simp add: reached_def visited_def dom_update)
  have "\<forall>(k, v) \<in> set (AList.update op True (visitedOps st)). v"
    using assms(1) set_update_subset [of op True "visitedOps st"] unfolding reach_ok_def by blast
  then show "reach_ok P (reached s op r st)"
    using assms new by (simp add: reach_ok_def distinct_update) (simp add: reached_def distinct_update)
qed

lemma targets_of_edges: "set (outgoingTargets s op) = {t. \<exists>e \<in> set (forEachEdgeInCalls (op_calls (s_op s op))). e_to e = Some t}"
  by (auto simp: outgoingTargets_def opt_list_def split: option.splits)

lemma walked_reached:
  assumes "op \<notin> visited st" and "visited (reached s op r st) = insert op (visited st)"
    and "shown_service s op = svc_name (s_svc s r)"
    and "walked s (reached s op r st) (edge_text s ` edges_of s {op}) st'"
    and "set (outgoingTargets s op) \<subseteq> visited st'"
  shows "walked s st {} st'"
proof -
  note g = walkedD [OF assms(4)]
  have nodes: "fst ` set (nodeSet (reached s op r st)) = insert (shown_service s op) (fst ` set (nodeSet st))"
    and edges: "edge_set (reached s op r st) = edge_set st"
    using assms(3) by (simp_all add: reached_def dom_update)
  have new: "visited st' - visited st = {op} \<union> (visited st' - visited (reached s op r st))"
    using assms(1,2) g(1) by blast
  show ?thesis
  proof (rule walkedI)
    show "visited st \<subseteq> visited st'" using assms(2) g(1) by blast
    show "set (outgoingTargets s v) \<subseteq> visited st'" if "v \<in> visited st' - visited st" for v
      using that g(2) [of v] assms(5) unfolding new by blast
    show "fst ` set (nodeSet st') = fst ` set (nodeSet st) \<union> shown_service s ` (visited st' - visited st)"
      unfolding new g(3) nodes image_Un by simp
    show "fst ` set (edge_set st') = fst ` set (edge_set st) \<union> {}
        \<union> edge_text s ` edges_of s (visited st' - visited st)"
      unfolding new g(4) edges edges_of_Un image_Un by (simp add: Un_assoc)
  qed
qed

lemma walkOp_walks:
  assumes "schema_ok s" and "closed_ops s P"
  shows "card (P - L) < fuel \<Longrightarrow> walks s P L (walkOp fuel s)"
proof (induction fuel arbitrary: L)
  case (Suc fuel)
  have fin: "finite P" using assms(2) finite_subset [OF _ finite_operationSet] by (auto simp: closed_ops_def)
  show ?case unfolding walks_def
  proof (intro ballI allI impI)
    fix op st assume op: "op \<in> P" and st: "L \<subseteq> visited st" "reach_ok P st"
    show "\<exists>st'. walkOp (Suc fuel) s (Some op) st = Inr st' \<and> reach_ok P st' \<and> walked s st {} st' \<and> op \<in> visited st'"
    proof (cases "op \<in> visited st")
      case True
      with st show ?thesis by (auto simp: visited_iff walked_refl)
    next
      case False
      have live: "op \<in> operationSet s" using op assms(2) by (auto simp: closed_ops_def)
      from operation_service [OF assms(1) live] obtain r
        where r: "op_service (s_op s op) = Some r" "shown_service s op = svc_name (s_svc s r)" .
      note st1 = reached_facts [OF st(2) op, of s r]
      let ?es = "forEachEdgeInCalls (op_calls (s_op s op))"
      let ?L = "insert op (visited st)"
      have "card (P - ?L) < card (P - L)"
        using fin st(1) op False by (intro psubset_card_mono) auto
      with Suc have inner: "walks s P ?L (walkOp fuel s)" by simp
      have edge: "\<exists>st2'. walkEdge (walkOp fuel s) s e st2 = Inr st2' \<and> reach_ok P st2'
          \<and> walked s st2 {edge_text s e} st2' \<and> {the (e_to e)} \<subseteq> visited st2'"
        if e: "e \<in> set ?es" and st2: "?L \<subseteq> visited st2" "reach_ok P st2" for e st2
      proof -
        from edge_named [OF assms(1) schema_edges [OF assms(1) live e]] obtain t where t: "e_to e = Some t" by auto
        with e assms(2) op have "t \<in> P" by (auto simp: closed_ops_def targets_of_edges)
        from walkEdge_walked [OF assms(1) schema_edges [OF assms(1) live e] inner t this st2] t
        show ?thesis by simp
      qed
      from fold_stop_walked [where f = "walkEdge (walkOp fuel s) s" and xs = ?es and L = ?L and P = P and s = s
          and X = "\<lambda>e. {edge_text s e}" and T = "\<lambda>e. {the (e_to e)}" and st = "reached s op r st", OF edge]
        st1
      obtain st' where st': "fold_stop (walkEdge (walkOp fuel s) s) ?es (reached s op r st) = Inr st'"
        "reach_ok P st'" "walked s (reached s op r st) (\<Union>e \<in> set ?es. {edge_text s e}) st'"
        "(\<Union>e \<in> set ?es. {the (e_to e)}) \<subseteq> visited st'" by auto
      have "walked s st {} st'"
      proof (rule walked_reached [OF False st1(1) r(2)])
        show "walked s (reached s op r st) (edge_text s ` edges_of s {op}) st'"
          using st'(3) by (simp add: edges_of_def UNION_singleton_eq_range)
        show "set (outgoingTargets s op) \<subseteq> visited st'"
          using st'(4) by (force simp: targets_of_edges)
      qed
      moreover have "op \<in> visited st'" using st'(3) st1(1) by (auto simp: walked_def)
      ultimately show ?thesis
        using st' False st(2) r by (simp add: visited_iff collectEdges_calls)
    qed
  qed
qed simp
section \<open>Journeys\<close>

fun step_ops :: "step \<Rightarrow> op_ref list" where
  "step_ops (Step op ps) = opt_list (\<lambda>o'. [o']) op @ concat (map (opt_list step_ops) ps)"

definition journey_ops :: "journey \<Rightarrow> op_ref list" where
  "journey_ops j = concat (map (opt_list step_ops) (j_steps j))"

text \<open>The operations that a journey reaches in the call graph.\<close>

definition journey_reach :: "schema \<Rightarrow> journey \<Rightarrow> op_ref set" where
  "journey_reach s j = (op_graph s)\<^sup>* `` set (journey_ops j)"

lemma walk_children:
  assumes "\<And>t st. Some t \<in> set ps \<Longrightarrow> reach_ok P st \<Longrightarrow>
      \<exists>st'. walkStep walk t st = Inr st' \<and> reach_ok P st' \<and> walked s st {} st' \<and> set (step_ops t) \<subseteq> visited st'"
    and "reach_ok P st"
  shows "\<exists>st'. walkSteps walk ps st = Inr st' \<and> reach_ok P st' \<and> walked s st {} st'
    \<and> (\<Union>p \<in> set ps. set (opt_list step_ops p)) \<subseteq> visited st'"
proof -
  have "\<exists>st'. (case p of None \<Rightarrow> Inr st | Some child \<Rightarrow> walkStep walk child st) = Inr st'
      \<and> reach_ok P st' \<and> walked s st {} st' \<and> set (opt_list step_ops p) \<subseteq> visited st'"
    if "p \<in> set ps" "{} \<subseteq> visited st" "reach_ok P st" for p st
    using assms(1) [of _ st] that by (cases p) (auto simp: walked_refl)
  from fold_stop_walked [where xs = ps and L = "{}" and X = "\<lambda>_. {}" and T = "\<lambda>p. set (opt_list step_ops p)",
      OF this _ assms(2)]
  show ?thesis by (simp add: walkSteps_def)
qed

lemma walkStep_walked:
  assumes "walks s P {} walk"
  shows "set (step_ops t) \<subseteq> P \<Longrightarrow> reach_ok P st \<Longrightarrow>
    \<exists>st'. walkStep walk t st = Inr st' \<and> reach_ok P st' \<and> walked s st {} st' \<and> set (step_ops t) \<subseteq> visited st'"
proof (induction t arbitrary: st rule: step_ops.induct)
  case (1 op ps)
  have "\<exists>st1. (case op of None \<Rightarrow> Inr st | Some o' \<Rightarrow> walk (Some o') st) = Inr st1
      \<and> reach_ok P st1 \<and> walked s st {} st1 \<and> set (opt_list (\<lambda>o'. [o']) op) \<subseteq> visited st1"
    using assms 1 by (cases op) (auto simp: walks_def walked_refl)
  then obtain st1 where st1: "(case op of None \<Rightarrow> Inr st | Some o' \<Rightarrow> walk (Some o') st) = Inr st1"
    "reach_ok P st1" "walked s st {} st1" "set (opt_list (\<lambda>o'. [o']) op) \<subseteq> visited st1" by blast
  have "\<exists>st'. walkStep walk t st = Inr st' \<and> reach_ok P st' \<and> walked s st {} st' \<and> set (step_ops t) \<subseteq> visited st'"
    if t: "Some t \<in> set ps" and ok: "reach_ok P st" for t st
  proof -
    have "set (step_ops t) \<subseteq> P" using "1.prems"(1) t by force
    from "1.IH" [OF t refl this ok] show ?thesis .
  qed
  from walk_children [OF this st1(2)] obtain st' where st': "walkSteps walk ps st1 = Inr st'"
    "reach_ok P st'" "walked s st1 {} st'" "(\<Union>p \<in> set ps. set (opt_list step_ops p)) \<subseteq> visited st'" by blast
  from walkedD(1) [OF st'(3)] have "visited st1 \<subseteq> visited st'" .
  with st1 st' walked_trans [OF st1(3) st'(3)] show ?case by (auto simp: walkSteps_def)
qed

lemma step_shape_ops: "step_shape s t \<Longrightarrow> set (step_ops t) \<subseteq> operationSet s"
  by (induction t rule: step_shape.induct) (fastforce simp: opt_list_def split: option.splits)+

lemma graph_step: "op \<in> operationSet s \<Longrightarrow> schema_ok s \<Longrightarrow> v \<in> set (outgoingTargets s op) \<Longrightarrow> (op, v) \<in> op_graph s"
  using op_graphI by (fastforce simp: targets_of_edges)

lemma journey_reach_closed:
  assumes "schema_ok s" and "journey_ok s name j"
  shows "closed_ops s (journey_reach s j)"
proof -
  have roots: "set (journey_ops j) \<subseteq> operationSet s"
    using assms(2) step_shape_ops unfolding journey_ops_def journey_ok_def by fastforce
  have live: "journey_reach s j \<subseteq> operationSet s"
  proof
    fix v assume "v \<in> journey_reach s j"
    then obtain u where "u \<in> operationSet s" "(u, v) \<in> (op_graph s)\<^sup>*"
      using roots by (auto simp: journey_reach_def)
    then show "v \<in> operationSet s" by (auto simp: op_graph_def elim: rtranclE)
  qed
  moreover have "v \<in> journey_reach s j" if "op \<in> journey_reach s j" "v \<in> set (outgoingTargets s op)" for op v
    using graph_step [OF _ assms(1) that(2)] that(1) live unfolding journey_reach_def
    by (blast intro: rtrancl_into_rtrancl)
  ultimately show ?thesis by (auto simp: closed_ops_def)
qed

lemma journeyReachability_spec:
  assumes "schema_ok s" and "journey_ok s name j" and "plan_fuel s \<le> fuel"
  shows "\<exists>ns es. journeyReachability fuel s j = Inr (ns, es)
    \<and> sorted ns \<and> distinct ns \<and> set ns = shown_service s ` journey_reach s j
    \<and> sorted es \<and> distinct es \<and> set es = edge_text s ` edges_of s (journey_reach s j)"
proof -
  let ?R = "journey_reach s j" and ?st = "\<lparr>visitedOps = [], nodeSet = [], edge_set = []\<rparr>"
  note closed = journey_reach_closed [OF assms(1,2)]
  have "card ?R \<le> card (operationSet s)"
    using closed by (intro card_mono) (auto simp: closed_ops_def)
  then have "card (?R - {}) < fuel"
    using assms(3) by (simp add: plan_fuel_def operationSet_def List.card_set)
  from walkOp_walks [OF assms(1) closed this] have walk: "walks s ?R {} (walkOp fuel s)" .
  have ok: "reach_ok ?R ?st" and empty: "visited ?st = {}" by (simp_all add: reach_ok_def visited_def)
  have "set (step_ops t) \<subseteq> ?R" if "Some t \<in> set (j_steps j)" for t
    using that by (force simp: journey_reach_def journey_ops_def)
  from walk_children [OF walkStep_walked [OF walk this] ok]
  obtain st' where st': "walkSteps (walkOp fuel s) (j_steps j) ?st = Inr st'" "reach_ok ?R st'"
    "walked s ?st {} st'" "(\<Union>p \<in> set (j_steps j). set (opt_list step_ops p)) \<subseteq> visited st'"
    by blast
  then have roots: "set (journey_ops j) \<subseteq> visited st'" by (simp add: journey_ops_def)
  have "v \<in> visited st'" if "(u, v) \<in> (op_graph s)\<^sup>*" "u \<in> visited st'" for u v
    using that
  proof (induction rule: rtrancl_induct)
    case (step v w)
    then show ?case using walkedD(2) [OF st'(3), of v] empty by (auto simp: op_graph_def)
  qed
  then have "visited st' = ?R"
    using st'(2) roots by (auto simp: reach_ok_def journey_reach_def)
  with walkedD(3,4) [OF st'(3)] empty st'(1,2) show ?thesis
    by (simp add: journeyReachability_def mapKeysSorted_def reach_ok_def)
qed
section \<open>The data of a parsed topology\<close>

lemma map_stop_ok:
  assumes "\<And>x. x \<in> set xs \<Longrightarrow> f x = Inr (g x)"
  shows "map_stop f xs = Inr (map g xs)"
proof -
  have "fold_stop (\<lambda>x ys. case f x of Inl e \<Rightarrow> Inl e | Inr y \<Rightarrow> Inr (ys @ [y])) xs ys = Inr (ys @ map g xs)" for ys
    using assms by (induction xs arbitrary: ys) auto
  then show ?thesis by (simp add: map_stop_def)
qed

text \<open>A loop over the sorted keys of a map that skips nil entries.\<close>

lemma sorted_entries:
  assumes "gomap_ok m" and "\<forall>(k, p) \<in> set m. p \<noteq> None"
  shows "concat (map (\<lambda>k. opt_list (\<lambda>x. [f k x]) (ptr_at m k)) (sort_strings (map fst m)))
    = map (\<lambda>k. f k (the (ptr_at m k))) (sort_strings (map fst m))"
proof -
  have "opt_list (\<lambda>x. [f k x]) (ptr_at m k) = [f k (the (ptr_at m k))]" if key: "k \<in> set (sort_strings (map fst m))" for k
  proof -
    from key obtain p where "(k, p) \<in> set m" by auto
    with assms have "ptr_at m k = Some (the p)"
      by (auto simp: ptr_at_Some map_of_gomap [symmetric])
    then show ?thesis by simp
  qed
  then have "map (\<lambda>k. opt_list (\<lambda>x. [f k x]) (ptr_at m k)) (sort_strings (map fst m))
      = map (\<lambda>k. [f k (the (ptr_at m k))]) (sort_strings (map fst m))"
    by (rule map_cong [OF refl])
  then show ?thesis by (simp only: concat_map_singleton)
qed

lemma fault_edge_in_schema:
  assumes "resolveFaultTarget s spec path = Inr t" and "ft_edge t = Some e"
  shows "e \<in> set (forEachOutgoingEdge s)"
  using assms
  by (auto simp: resolveFaultTarget_def resolveEdgeTarget_def Let_def findEdge_walk find_Some_iff
      split: option.splits if_splits sum.splits)

lemma parsed_fault_edges:
  assumes "resolveReferences (buildSchema raw) raw = (s, p)" and "f \<in> set (s_faults s)"
    and "ft_edge (f_target f) = Some e"
  shows "e \<in> set (forEachOutgoingEdge s)"
proof -
  from assms(1) obtain s2 where s: "s = s2\<lparr>s_faults := rights (map_indexed (resolve_fault s2) (raw_faults raw))\<rparr>"
    by (auto simp: resolveReferences_def Let_def split: prod.splits)
  with assms(2) obtain i where "resolve_fault s2 i (raw_faults raw ! i) = Inr f"
    by (auto simp: set_rights set_map_indexed dest: sym)
  with assms(3) have "e \<in> set (forEachOutgoingEdge s2)"
    by (auto simp: resolve_fault_def split: option.splits sum.splits intro: fault_edge_in_schema)
  then show ?thesis
    by (simp add: s forEachOutgoingEdge_def allSchemaOperations_def operation_entries_def service_entries_def)
qed

lemma buildVizEdge_ok:
  assumes "schema_ok s" and "e \<in> set (forEachOutgoingEdge s)"
  shows "\<exists>v. buildVizEdge s e = Inr v \<and> ve_ID v = edge_text s e \<and> e_from e \<noteq> None \<and> e_to e \<noteq> None
    \<and> viz_edgeID s e = Inr (edge_text s e)"
proof -
  from assms(2) obtain op where op: "op \<in> operationSet s" "e \<in> set (forEachEdgeInCalls (op_calls (s_op s op)))"
    by (auto simp: forEachOutgoingEdge_def operationSet_def)
  from edge_named [OF assms(1) schema_edges [OF assms(1) op]] obtain src tgt where e: "e_from e = Some src"
    "e_to e = Some tgt" "src \<in> operationSet s" "tgt \<in> operationSet s" "viz_edgeID s e = Inr (edge_text s e)" by blast
  from operation_service [OF assms(1) e(3)] obtain r where r: "op_service (s_op s src) = Some r" .
  from operation_service [OF assms(1) e(4)] obtain r' where "op_service (s_op s tgt) = Some r'" .
  with e r show ?thesis by (simp add: buildVizEdge_def viz_op_names_def)
qed

lemma collectAllEdges_ok:
  assumes "schema_ok s"
  shows "\<exists>es. collectAllEdges s = Inr es \<and> map ve_ID es = map (edge_text s) (forEachOutgoingEdge s)"
proof -
  let ?es = "forEachOutgoingEdge s"
  have "\<forall>e \<in> set ?es. \<exists>v. buildVizEdge s e = Inr v \<and> ve_ID v = edge_text s e"
    using buildVizEdge_ok [OF assms] by blast
  then obtain g where g: "\<And>e. e \<in> set ?es \<Longrightarrow> buildVizEdge s e = Inr (g e) \<and> ve_ID (g e) = edge_text s e" by metis
  have all: "filter (\<lambda>e. e_from e \<noteq> None \<and> e_to e \<noteq> None) ?es = ?es"
    using buildVizEdge_ok [OF assms] by (intro filter_True) blast
  have "map_stop (buildVizEdge s) ?es = Inr (map g ?es)" using g by (intro map_stop_ok) simp
  with all g show ?thesis by (simp add: collectAllEdges_def collectAllEdges_walk)
qed

lemma collectFaults_ok:
  assumes "schema_ok s" and "\<forall>f \<in> set (s_faults s). \<forall>e. ft_edge (f_target f) = Some e \<longrightarrow> e \<in> set (forEachOutgoingEdge s)"
  shows "\<exists>fs. collectFaults s = Inr fs \<and> length fs = length (s_faults s)"
proof -
  have "\<exists>v. buildVizFault s f = Inr v" if "f \<in> set (s_faults s)" for f
  proof -
    have "\<exists>tid. faultTargetID s (f_target f) = Inr tid"
      using assms(2) that buildVizEdge_ok [OF assms(1)]
      by (auto simp: faultTargetID_def split: target_kind.split option.split)
    then show ?thesis by (auto simp: buildVizFault_def)
  qed
  then obtain g where "\<And>f. f \<in> set (s_faults s) \<Longrightarrow> buildVizFault s f = Inr (g f)" by metis
  then have "map_stop (buildVizFault s) (s_faults s) = Inr (map g (s_faults s))" by (rule map_stop_ok)
  then show ?thesis by (simp add: collectFaults_def)
qed
text \<open>What the visualization shows of a journey.\<close>

definition shows_journey :: "schema \<Rightarrow> viz_journey \<Rightarrow> bool" where
  "shows_journey s v \<longleftrightarrow> (\<exists>j. map_of (s_journeys s) (vj_Name v) = Some (Some j) \<and> vj_Weight v = j_weight j
     \<and> set (vj_ReachableNodes v) = shown_service s ` journey_reach s j
     \<and> set (vj_ReachableEdges v) = edge_text s ` edges_of s (journey_reach s j))"

lemma collectJourneys_ok:
  assumes "maps_ok s" and "schema_ok s" and "plan_fuel s \<le> fuel"
  shows "\<exists>js. collectJourneys fuel s = Inr js \<and> map vj_Name js = sort_strings (map fst (s_journeys s))
    \<and> (\<forall>v \<in> set js. shows_journey s v)"
proof -
  let ?names = "sort_strings (map fst (s_journeys s))"
  have journeys: "\<forall>(name, p) \<in> set (s_journeys s). \<exists>j. p = Some j \<and> journey_ok s name j"
    using assms(2) by (simp add: schema_ok_def)
  have maps: "gomap_ok (s_journeys s)" using assms(1) by (simp add: maps_ok_def)
  have "\<exists>v. collectJourney fuel s (name, the (ptr_at (s_journeys s) name)) = Inr v \<and> vj_Name v = name
      \<and> shows_journey s v" if name: "name \<in> set ?names" for name
  proof -
    from name journeys obtain j where j: "(name, Some j) \<in> set (s_journeys s)" "journey_ok s name j" by fastforce
    then have at: "map_of (s_journeys s) name = Some (Some j)" using maps by (simp add: map_of_gomap)
    then have "ptr_at (s_journeys s) name = Some j" by (simp add: ptr_at_Some)
    with at journeyReachability_spec [OF assms(2) j(2) assms(3)] show ?thesis
      by (auto simp: collectJourney_def shows_journey_def)
  qed
  then obtain g where g: "\<And>name. name \<in> set ?names \<Longrightarrow>
      collectJourney fuel s (name, the (ptr_at (s_journeys s) name)) = Inr (g name) \<and> vj_Name (g name) = name
      \<and> shows_journey s (g name)" by metis
  let ?entries = "map (\<lambda>name. (name, the (ptr_at (s_journeys s) name))) ?names"
  have "concat (map (\<lambda>name. opt_list (\<lambda>j. [(name, j)]) (ptr_at (s_journeys s) name)) ?names) = ?entries"
    using journeys by (intro sorted_entries [OF maps]) auto
  moreover have "map_stop (collectJourney fuel s) ?entries = Inr (map (g \<circ> fst) ?entries)"
    by (rule map_stop_ok) (use g in \<open>fastforce simp del: sort_strings_simps\<close>)
  moreover have "map (\<lambda>name. vj_Name (g name)) ?names = ?names" by (rule map_idI) (simp only: g)
  then have "map vj_Name (map (g \<circ> fst) ?entries) = ?names" by (simp add: comp_def)
  moreover have "\<forall>v \<in> set (map (g \<circ> fst) ?entries). shows_journey s v"
    using g by (auto simp del: sort_strings_simps)
  ultimately show ?thesis by (simp only: collectJourneys_def) blast
qed

lemma collectNodes_ok:
  assumes "maps_ok s" and "schema_ok s"
  shows "map vn_ID (collectNodes s) = sort_strings (map fst (s_services s))"
proof -
  let ?names = "sort_strings (map fst (s_services s))"
  have live: "\<exists>r. p = Some r \<and> svc_name (s_svc s r) = sid" if "(sid, p) \<in> set (s_services s)" for sid p
    using assms(2) that by (fastforce simp: schema_ok_def identity_ok_def)
  have maps: "gomap_ok (s_services s)" using assms(1) by (simp add: maps_ok_def)
  have "collectNodes s = map (\<lambda>sid. collectNode (s_svc s (the (ptr_at (s_services s) sid)))) ?names"
    unfolding collectNodes_def using live by (intro sorted_entries [OF maps]) fastforce
  moreover have "vn_ID (collectNode (s_svc s (the (ptr_at (s_services s) sid)))) = sid" if sid: "sid \<in> set ?names" for sid
  proof -
    from sid obtain p where p: "(sid, p) \<in> set (s_services s)" by auto
    with live obtain r where r: "p = Some r" "svc_name (s_svc s r) = sid" by blast
    with p maps have "ptr_at (s_services s) sid = Some r" by (simp add: ptr_at_Some map_of_gomap [symmetric])
    with r show ?thesis by (simp add: collectNode_def)
  qed
  then have "map (\<lambda>sid. vn_ID (collectNode (s_svc s (the (ptr_at (s_services s) sid))))) ?names = ?names"
    by (rule map_idI)
  ultimately show ?thesis by (simp add: comp_def)
qed

text \<open>
  C18: The visualization of a parsed topology never follows a nil pointer, and its walk through the
  call graph ends: it shows one node per service and one journey per journey, sorted by name, one
  edge per call and fallback, and one fault per fault; the nodes and edges that a journey is shown
  to reach are exactly the services of the operations reachable from its steps, and their calls.
\<close>

theorem buildVizData_parsed:
  assumes "raw_maps_ok raw" and "parse_raw raw = Inr s" and "plan_fuel s \<le> fuel"
  shows "\<exists>d. buildVizData fuel (Some s) = Inr d
    \<and> map vn_ID (vd_Nodes d) = sort_strings (map fst (s_services s))
    \<and> map ve_ID (vd_Edges d) = map (edge_text s) (forEachOutgoingEdge s)
    \<and> map vj_Name (vd_Journeys d) = sort_strings (map fst (s_journeys s))
    \<and> length (vd_Faults d) = length (s_faults s)
    \<and> (\<forall>v \<in> set (vd_Journeys d). shows_journey s v)"
proof -
  from assms(2) have res: "resolveReferences (buildSchema raw) raw = (s, None)" and valid: "Validate (Some s) = None"
    by (auto simp: parse_raw_def split: prod.splits option.splits)
  have maps: "maps_ok s" by (rule resolveReferences_result(1) [OF res assms(1)])
  then have s: "schema_ok s" using valid by (rule Validate_ok)
  from collectAllEdges_ok [OF s] obtain es where es: "collectAllEdges s = Inr es"
    "map ve_ID es = map (edge_text s) (forEachOutgoingEdge s)" by blast
  from collectJourneys_ok [OF maps s assms(3)] obtain js where js: "collectJourneys fuel s = Inr js"
    "map vj_Name js = sort_strings (map fst (s_journeys s))" "\<forall>v \<in> set js. shows_journey s v" by blast
  from collectFaults_ok [OF s] parsed_fault_edges [OF res] obtain fs where "collectFaults s = Inr fs"
    "length fs = length (s_faults s)" by blast
  with es js collectNodes_ok [OF maps s] show ?thesis by (simp add: buildVizData_def)
qed

end
