(* ===== verification/Tools_Demo.thy ===== *)
theory Tools_Demo
  imports Topology_Demo Exporter_Demo Topology_Lint_Sound Viz_Reach
begin

text \<open>
  Lint and the visualization applied to the topologies of \<open>Topology_Demo\<close>. The decoder knows three
  inputs: the small topology, the same with an unknown field, and one that is no YAML.
\<close>

section \<open>Texts\<close>

lemma fmt_frac_numeral:
  "fmt_frac (numeral n) v acc = fmt_frac (pred_numeral n) (v div 10)
     (if acc = [] \<and> v mod 10 = 0 then [] else digit_char (v mod 10) # acc)"
  unfolding numeral_eq_Suc [of n] by (rule fmt_frac.simps(2))

lemmas text_eval = Duration_String_def small_duration_def fmt_frac_numeral show_nat.simps digit_char_def

lemma durations_as_text:
  "Duration_String 0 = ''0s''" "Duration_String 1500000000 = ''1.5s''" "Duration_String (-2500000) = ''-2.5ms''"
  "Duration_String 3723000000000 = ''1h2m3s''" "Duration_String 60000000000 = ''1m0s''" "Duration_String 999 = ''999ns''"
  by (simp_all add: text_eval char_of_def bit_0)

lemma message_as_text:
  "message_text demo_pf (Msg ''p95 (%s) must be >= p50 (%s)'' [ADur 1000000, ADur 2000000]) = ''p95 (1ms) must be >= p50 (2ms)''"
  by (simp add: text_eval char_of_def bit_0)

section \<open>Lint\<close>

definition lint_yaml :: "string \<Rightarrow> bool \<Rightarrow> string + raw_schema" where
  "lint_yaml data strict =
     (if data = ''small'' then Inr small_raw
      else if data = ''unknown'' then (if strict then Inl ''unknown field'' else Inr small_raw)
      else Inl ''no YAML'')"

definition lint_types :: "string \<Rightarrow> string list option" where
  "lint_types err =
     (if err = ''unknown field'' then Some [''line 2: field color not found in type topology.rawSchema''] else None)"

lemma lint_known_message: "unknown_field_message ''line 2: field color not found in type topology.rawSchema''"
  by code_simp

lemma lint_known_fields: "known_fields lint_types lint_yaml"
  using lint_known_message by (auto simp: known_fields_def lint_yaml_def lint_types_def)

lemma Lint_agrees_with_Parse_witness:
  "known_fields lint_types lint_yaml
   \<and> snd (Lint demo_pf lint_types lint_yaml (Inr ''unknown'')) = None
   \<and> error_free (fst (Lint demo_pf lint_types lint_yaml (Inr ''unknown'')))"
proof -
  have "Parse lint_yaml (Inr ''unknown'') = Inr small"
    by (simp add: Parse_def decodeRaw_def lint_yaml_def small_parses)
  then have "\<exists>s. Parse lint_yaml (Inr ''unknown'') = Inr s" by blast
  with Lint_agrees_with_Parse [OF lint_known_fields, of "Inr ''unknown''" demo_pf] lint_known_fields
  show ?thesis unfolding error_free_def by blast
qed

lemma lint_warns:
  "Lint demo_pf lint_types lint_yaml (Inr ''unknown'')
    = ([\<lparr>li_path = ''<root>.color'', li_severity = LintWarning,
         li_message = ''line 2: field color not found in type topology.rawSchema''\<rparr>], None)"
proof -
  let ?m = "''line 2: field color not found in type topology.rawSchema''"
  have "unknownFieldPath ?m = ''<root>.color''"
    by (simp add: unknownFieldPath_def trim_byte_def trim_right_def)
  then have "unknownFieldWarnings lint_types (ParseError p m (Some ''unknown field''))
      = Some [\<lparr>li_path = ''<root>.color'', li_severity = LintWarning, li_message = ?m\<rparr>]" for p m
    using lint_known_message by (simp add: unknownFieldWarnings_def lint_types_def)
  moreover have "Validate (Some small) = None"
    using small_parses small_pair by (simp add: parse_raw_def split: option.splits)
  ultimately show ?thesis
    by (simp add: Lint_def decodeRaw_def lint_yaml_def lint_leniently_def lint_schema_def small_pair
        append_issues_def sortLintIssues_def)
qed

section \<open>Visualization\<close>

lemma buildVizData_parsed_witness:
  "\<exists>d. buildVizData 3 (Some small) = Inr d \<and> map vj_Name (vd_Journeys d) = [''j'']
     \<and> list_all (shows_journey small) (vd_Journeys d)"
proof -
  have "plan_fuel small = 3" "sort_strings (map fst (s_journeys small)) = [''j'']" by code_simp+
  with buildVizData_parsed [OF small_raw_maps small_parses, of 3] show ?thesis by (auto simp: list_all_iff)
qed

lemma demo_reachability:
  "journeyReachability 5 demo demo_journey = Inr ([''cache'', ''mq'', ''pay'', ''web''],
     [''web.checkout->cache.get'', ''web.checkout->mq.publish'', ''web.checkout->pay.charge''])"
  by code_simp

end
