(* ===== verification/Synth_Session.thy ===== *)
theory Synth_Session
  imports Synth_Spans Topology_Resolve Machine
begin

text \<open>
  The default synthesizer under an arbitrary client. A client calls its operations in any order, with
  any inputs, and may call the finish function of a span at any time and more than once; the state
  of a session is the state of the synthesizer and the finish functions that it has returned. The
  contract \<open>machine\<close> carries the invariant from one call to a session.
\<close>

section \<open>Sessions\<close>

datatype synth_call =
    CallBegin span_context span_input
  | CallFinish nat synth_outcome
  | CallRecordMetric span_context metric_input
  | CallEmitLog span_context log_input
  | CallRecordCustom span_context custom_metric_input
  | CallUpdateState state_update_input
  | CallEmitProfile span_context profile_input
  | CallSetAttribute span_context string string

type_synonym synth_session = "synth_state \<times> span_handle list"

definition keep_handles ::
  "(synth_state \<Rightarrow> unit result \<times> synth_state) \<Rightarrow> synth_session \<Rightarrow> unit result \<times> synth_session" where
  "keep_handles f = (\<lambda>(st, hs). case f st of (r, st') \<Rightarrow> (r, (st', hs)))"

text \<open>\<open>CallFinish n\<close> calls the finish function of the n-th span that was begun.\<close>

definition synth_step :: "otel \<Rightarrow> schema \<Rightarrow> synth_call \<Rightarrow> synth_session \<Rightarrow> unit result \<times> synth_session" where
  "synth_step ot s c = (case c of
       CallBegin ctx i \<Rightarrow> (\<lambda>(st, hs). case BeginSpan ot s ctx i st of
           (Panic p, st') \<Rightarrow> (Panic p, (st', hs))
         | (Done (_, h), st') \<Rightarrow> (Done (), (st', hs @ [h])))
     | CallFinish n oc \<Rightarrow> (\<lambda>(st, hs).
         if n < length hs then keep_handles (FinishSpan ot s (hs ! n) oc) (st, hs) else (Done (), (st, hs)))
     | CallRecordMetric ctx i \<Rightarrow> keep_handles (RecordMetric s ctx i)
     | CallEmitLog ctx i \<Rightarrow> keep_handles (EmitLog ot s ctx i)
     | CallRecordCustom ctx i \<Rightarrow> keep_handles (RecordCustom ot s ctx i)
     | CallUpdateState i \<Rightarrow> keep_handles (UpdateState i)
     | CallEmitProfile ctx i \<Rightarrow> keep_handles (EmitProfile ot s ctx i)
     | CallSetAttribute ctx k v \<Rightarrow> keep_handles (SetAttribute ctx k v))"

section \<open>Attribute keys\<close>

definition allowedAttrKeys :: "string list" where
  "allowedAttrKeys =
     [''service.name'', ''http.request.method'', ''http.response.status_code'', ''http.route'',
      ''server.address'', ''server.port'', ''network.peer.address'', ''url.scheme'', ''url.path'',
      ''rpc.system'', ''rpc.service'', ''rpc.method'', ''rpc.grpc.status_code'', ''db.system'',
      ''db.operation.name'', ''messaging.system'', ''messaging.operation.name'',
      ''messaging.destination.name'', ''error.type'', ''exception.type'', ''exception.message'',
      ''peer.service'', ''outcome'', ''synth.cascaded'', ''synth.service.framework'']"

text \<open>
  The attribute keys that the synthesizer chooses itself: those of spans, their events and the
  built-in metrics. Logs and custom metrics carry what the topology says, and
  \<open>ContextAttribute\<close> is a call of the executor.
\<close>

fun signal_keys :: "signal \<Rightarrow> string list" where
  "signal_keys (SpanStarted _ _ _ _ _ _ kvs _) = map fst kvs"
| "signal_keys (SpanAttributes _ kvs) = map fst kvs"
| "signal_keys (SpanEvent _ _ _ kvs) = map fst kvs"
| "signal_keys (ActiveAdd _ kvs _) = map fst kvs"
| "signal_keys (DurationRecorded _ _ kvs dyn) = map fst (kvs @ dyn)"
| "signal_keys _ = []"

definition keys_allowed :: "attr list \<Rightarrow> bool" where
  "keys_allowed kvs \<longleftrightarrow> fst ` set kvs \<subseteq> set allowedAttrKeys"

definition keys_ok :: "synth_state \<Rightarrow> bool" where
  "keys_ok st \<longleftrightarrow> (\<forall>g \<in> set (ss_signals st). set (signal_keys g) \<subseteq> set allowedAttrKeys)
     \<and> (\<forall>(k, kvs) \<in> set (ss_cache st). keys_allowed kvs)"

lemma keys_allowed_simps [simp]:
  "keys_allowed []" "keys_allowed (kv # kvs) \<longleftrightarrow> fst kv \<in> set allowedAttrKeys \<and> keys_allowed kvs"
  "keys_allowed (kvs @ kws) \<longleftrightarrow> keys_allowed kvs \<and> keys_allowed kws"
  by (auto simp: keys_allowed_def)

lemma server_attrs_allowed: "keys_allowed (server_attrs s e)"
  by (simp add: server_attrs_def Let_def allowedAttrKeys_def)

lemma static_attrs_allowed: "keys_allowed (buildStaticSet s svc opn e po)"
  using server_attrs_allowed
  by (simp add: buildStaticSet_def httpStaticAttrs_def rpcStaticAttrs_def dbStaticAttrs_def messagingStaticAttrs_def
      service_attr_def Let_def allowedAttrKeys_def split: prod.split direction.split)

lemma outcome_attrs_allowed:
  "keys_allowed (dynamicOutcomeAttrs po oc)" "keys_allowed (exceptionAttrs oc opn)"
  "keys_allowed (networkPeerAddressAttr s e idx dir)"
  by (simp_all add: dynamicOutcomeAttrs_def exceptionAttrs_def networkPeerAddressAttr_def Let_def allowedAttrKeys_def)

lemma keys_ok_signal: "keys_ok (signal g st) \<longleftrightarrow> keys_ok st \<and> set (signal_keys g) \<subseteq> set allowedAttrKeys"
  by (auto simp: keys_ok_def signal_def)

lemma keys_ok_updates [simp]:
  "keys_ok (st\<lparr>ss_tracers := t\<rparr>) = keys_ok st" "keys_ok (st\<lparr>ss_loggers := t\<rparr>) = keys_ok st"
  "keys_ok (st\<lparr>ss_customs := c\<rparr>) = keys_ok st" "keys_ok (st\<lparr>ss_accumulators := a\<rparr>) = keys_ok st"
  "keys_ok (st\<lparr>ss_next := n\<rparr>) = keys_ok st" "keys_ok (st\<lparr>ss_finished := f\<rparr>) = keys_ok st"
  by (simp_all add: keys_ok_def)

lemma staticAttrs_keys:
  assumes "staticAttrs s svc opn e po st = (kvs, st')" and "keys_ok st"
  shows "keys_allowed kvs" and "keys_ok st'"
proof -
  let ?key = "cacheKeyFor s svc opn e (po_dir po)"
  have "keys_allowed kvs \<and> keys_ok st'"
  proof (cases "map_of (ss_cache st) ?key")
    case None
    with assms have "kvs = buildStaticSet s svc opn e po" "st' = st\<lparr>ss_cache := AList.update ?key kvs (ss_cache st)\<rparr>"
      by (auto simp: staticAttrs_def Let_def)
    with assms(2) set_update_subset [of ?key kvs "ss_cache st"] static_attrs_allowed show ?thesis
      unfolding keys_ok_def by fastforce
  next
    case (Some cached)
    with assms show ?thesis
      by (auto simp: staticAttrs_def Let_def keys_ok_def dest: map_of_SomeD)
  qed
  then show "keys_allowed kvs" "keys_ok st'" by auto
qed

lemma allowed_keys: "keys_allowed kvs \<Longrightarrow> set (map fst kvs) \<subseteq> set allowedAttrKeys"
  by (simp add: keys_allowed_def)

lemma tracerFor_keys: "keys_ok st \<Longrightarrow> keys_ok (snd (tracerFor ot s svc idx st))"
  and loggerFor_keys: "keys_ok st \<Longrightarrow> keys_ok (snd (loggerFor ot s svc idx st))"
  by (simp_all add: tracerFor_def loggerFor_def Let_def split: option.split result.split)

lemma maybeIncActive_keys: "keys_ok st \<Longrightarrow> keys_ok (maybeIncActive s svc i po d st)"
  using staticAttrs_keys
  by (auto simp: maybeIncActive_def keys_ok_signal keys_allowed_def split: option.split prod.split)
section \<open>The invariant of a session\<close>

definition unfinished :: "synth_state \<Rightarrow> span_handle list \<Rightarrow> span_handle list" where
  "unfinished st hs = filter (\<lambda>h. h_id h \<notin> set (ss_finished st)) hs"

definition synth_ok :: "schema \<Rightarrow> synth_session \<Rightarrow> bool" where
  "synth_ok s ses = (case ses of (st, hs) \<Rightarrow>
     open_spans s (unfinished st hs) st \<and> map h_id hs = [0..<ss_next st] \<and> keys_ok st)"

lemma synth_ok_new: "synth_ok s (new_synth, [])"
  using open_spans_new [of s] by (simp add: synth_ok_def unfinished_def keys_ok_def new_synth_def)

lemma open_spans_mset:
  assumes "mset hs = mset hs'"
  shows "open_spans s hs st \<longleftrightarrow> open_spans s hs' st"
proof -
  have "set hs = set hs'" using assms by (rule mset_eq_setD)
  moreover have "length (filter P hs) = length (filter P hs')" for P
    using assms by (metis mset_filter size_mset)
  moreover have "distinct (map h_id hs) = distinct (map h_id hs')"
    using assms by (metis mset_eq_imp_distinct_iff mset_map)
  ultimately show ?thesis by (simp add: open_spans_def open_ids_def active_counts_def)
qed

text \<open>Calls that begin and end nothing.\<close>

lemma quiet_session:
  assumes "synth_ok s (st, hs)" and "quiet st st'" and "keys_ok st'"
  shows "synth_ok s (st', hs)"
  using assms quiet_open [OF _ assms(2)] by (auto simp: synth_ok_def quiet_def unfinished_def)

lemma tracerFor_fields:
  "tracerFor ot s svc idx st = (r, st') \<Longrightarrow> ss_next st' = ss_next st \<and> ss_cache st' = ss_cache st \<and> quiet st st'"
  using quiet_tracer [of st ot s svc idx]
  by (auto simp: tracerFor_def Let_def split: option.splits result.splits)

lemma RecordMetric_calm:
  assumes "keys_ok st"
  shows "quiet st (snd (RecordMetric s ctx i st))" and "keys_ok (snd (RecordMetric s ctx i st))"
proof -
  let ?svc = "the (mi_service i)" let ?po = "policy_of s ?svc (mi_edge i)"
  obtain kvs st1 where 1: "staticAttrs s ?svc (mi_operation i) (mi_edge i) ?po st = (kvs, st1)" by force
  have q: "quiet st st1" using quiet_static [of st s ?svc "mi_operation i" "mi_edge i" ?po] 1 by simp
  then have "quiet st (signal (DurationRecorded n d a b) st1)" for n d a b
    by (rule quiet_trans) (simp add: quiet_signal)
  with 1 show "quiet st (snd (RecordMetric s ctx i st))"
    by (simp add: RecordMetric_def Let_def split: option.split)
  have "set (map fst (kvs @ dynamicOutcomeAttrs ?po oc)) \<subseteq> set allowedAttrKeys" for oc
    using staticAttrs_keys(1) [OF 1 assms] outcome_attrs_allowed(1) by (intro allowed_keys) simp
  with 1 staticAttrs_keys(2) [OF 1 assms] assms show "keys_ok (snd (RecordMetric s ctx i st))"
    by (simp add: RecordMetric_def Let_def keys_ok_signal split: option.split)
qed

lemma EmitLog_calm:
  "keys_ok st \<Longrightarrow> quiet st (snd (EmitLog ot s ctx i st)) \<and> keys_ok (snd (EmitLog ot s ctx i st))"
proof (cases "li_service i")
  case (Some svc)
  assume keys: "keys_ok st"
  obtain r st1 where 1: "loggerFor ot s svc (li_instanceIdx i) st = (r, st1)" by force
  have q: "quiet st st1" using quiet_logger [of st ot s svc "li_instanceIdx i"] 1 by simp
  then have "quiet st (signal (LogEmitted res ctx rec) st1)" for res rec
    by (rule quiet_trans) (simp add: quiet_signal)
  with Some 1 q loggerFor_keys [OF keys, of ot s svc "li_instanceIdx i"] show ?thesis
    by (simp add: EmitLog_def keys_ok_signal split: result.split)
qed (simp add: EmitLog_def)

lemma customInstrument_keys: "keys_ok st \<Longrightarrow> keys_ok (snd (customInstrument ot kind name unit st))"
  by (simp add: customInstrument_def Let_def split: option.split)

lemma RecordCustom_keys: "keys_ok st \<Longrightarrow> keys_ok (snd (RecordCustom ot s ctx i st))"
  using customInstrument_keys [of st]
  by (auto simp: RecordCustom_def Let_def keys_ok_signal split: option.split prod.split) (metis snd_conv)+

lemma EmitProfile_keys: "keys_ok st \<Longrightarrow> keys_ok (snd (EmitProfile ot s ctx i st))"
  by (simp add: EmitProfile_def Let_def keys_ok_signal split: option.split)

lemma calm_session:
  assumes "\<And>st. keys_ok st \<Longrightarrow> quiet st (snd (f st)) \<and> keys_ok (snd (f st))"
    and "synth_ok s ses" and "keep_handles f ses = (r, ses')"
  shows "synth_ok s ses'"
proof -
  obtain st hs where ses: "ses = (st, hs)" by force
  with assms(2) have "keys_ok st" by (simp add: synth_ok_def)
  from assms(1) [OF this] have calm: "quiet st (snd (f st))" "keys_ok (snd (f st))" by simp_all
  from quiet_session [OF _ calm] assms(2) have "synth_ok s (snd (f st), hs)" by (simp only: ses)
  moreover have "ses' = (snd (f st), hs)"
    using assms(3) by (auto simp: ses keep_handles_def split: prod.splits)
  ultimately show ?thesis by simp
qed
lemma maybeIncActive_fields:
  "ss_finished (maybeIncActive s svc i po d st) = ss_finished st" "ss_next (maybeIncActive s svc i po d st) = ss_next st"
  by (auto simp: maybeIncActive_def staticAttrs_def signal_def Let_def split: option.split)

lemma begin_session:
  assumes "synth_ok s (st, hs)" and "BeginSpan ot s ctx i st = (Done (c, h), st')"
  shows "synth_ok s (st', hs @ [h])"
proof -
  let ?svc = "the (si_service i)" let ?po = "policy_of s ?svc (si_edge i)"
  from assms(1) have keys: "keys_ok st" by (simp add: synth_ok_def)
  obtain kvs st1 where 1: "staticAttrs s ?svc (si_operation i) (si_edge i) ?po st = (kvs, st1)" by force
  note k1 = staticAttrs_keys [OF 1 keys]
  have q1: "quiet st st1" using quiet_static [of st s ?svc "si_operation i" "si_edge i" ?po] 1 by simp
  from assms(2) 1 obtain res st2 where 2: "tracerFor ot s ?svc (si_instanceIdx i) st1 = (Done res, st2)"
    by (auto simp: BeginSpan_def Let_def split: option.splits prod.splits result.splits)
  note t2 = tracerFor_fields [OF 2]
  have k2: "keys_ok st2" using tracerFor_keys [OF k1(2), of ot s ?svc "si_instanceIdx i"] 2 by simp
  let ?attrs = "kvs @ networkPeerAddressAttr s (si_edge i) (si_instanceIdx i) (po_dir ?po)"
  let ?st3 = "signal (SpanStarted (ss_next st2) res ctx (spanName s ?svc (si_operation i)) (po_kind ?po)
      (si_startTime i) ?attrs (si_links i)) (st2\<lparr>ss_next := Suc (ss_next st2)\<rparr>)"
  from assms(2) 1 2 have h: "h = SpanHandle (ss_next st2) (ot_span ot (ss_next st2)) ?svc i ?po"
    and st': "st' = maybeIncActive s ?svc i ?po 1 ?st3"
    by (auto simp: BeginSpan_def Let_def split: option.splits)
  have ok2: "synth_ok s (st2, hs)"
    using q1 t2 k2 by (intro quiet_session [OF assms(1)]) (auto intro: quiet_trans)
  have "counted s st2 h" using static_cached [OF 1] t2 by (simp add: counted_def handle_key_def h)
  with ok2 open_push [of s "unfinished st2 hs" st2 h] have opened: "open_spans s (h # unfinished st2 hs) st'"
    by (simp add: st' h synth_ok_def)
  have "ss_next st2 \<notin> set (ss_finished st2)"
    using ok2 by (auto simp: synth_ok_def open_spans_def open_ids_def)
  then have "unfinished st' (hs @ [h]) = unfinished st2 hs @ [h]"
    by (simp add: unfinished_def st' h maybeIncActive_fields signal_def)
  with opened have "open_spans s (unfinished st' (hs @ [h])) st'"
    by (simp add: open_spans_mset [of "unfinished st2 hs @ [h]" "h # unfinished st2 hs"])
  moreover have "set (map fst ?attrs) \<subseteq> set allowedAttrKeys"
    using k1(1) outcome_attrs_allowed(3) by (intro allowed_keys) simp
  then have "keys_ok st'"
    unfolding st' using k2 by (intro maybeIncActive_keys) (simp add: keys_ok_signal)
  ultimately show ?thesis
    using ok2 by (simp add: synth_ok_def st' h maybeIncActive_fields signal_def)
qed

lemma begin_panic_session:
  assumes "synth_ok s (st, hs)" and "BeginSpan ot s ctx i st = (Panic p, st')"
  shows "synth_ok s (st', hs)"
proof (cases "validateInput s ''BeginSpan'' (si_service i) (si_operation i) (si_instanceIdx i)")
  case None
  let ?svc = "the (si_service i)" let ?po = "policy_of s ?svc (si_edge i)"
  from assms(1) have keys: "keys_ok st" by (simp add: synth_ok_def)
  obtain kvs st1 where 1: "staticAttrs s ?svc (si_operation i) (si_edge i) ?po st = (kvs, st1)" by force
  have q1: "quiet st st1" using quiet_static [of st s ?svc "si_operation i" "si_edge i" ?po] 1 by simp
  from None assms(2) 1 have 2: "tracerFor ot s ?svc (si_instanceIdx i) st1 = (Panic p, st')"
    by (auto simp: BeginSpan_def Let_def split: prod.splits result.splits)
  have "keys_ok st'" using tracerFor_keys [OF staticAttrs_keys(2) [OF 1 keys], of ot s ?svc "si_instanceIdx i"] 2 by simp
  with q1 tracerFor_fields [OF 2] show ?thesis by (intro quiet_session [OF assms(1)]) (auto intro: quiet_trans)
qed (use assms in \<open>simp add: BeginSpan_def\<close>)

lemma finish_keys:
  "set (concat (map signal_keys (finish_signals h oc))) \<subseteq> set allowedAttrKeys"
  using allowed_keys [OF outcome_attrs_allowed(1)] allowed_keys [OF outcome_attrs_allowed(2)]
  by (simp add: finish_signals_def) (simp add: allowedAttrKeys_def)

lemma finish_session:
  assumes "synth_ok s (st, hs)" and "h \<in> set hs" and "FinishSpan ot s h oc st = (r, st')"
  shows "synth_ok s (st', hs)"
proof (cases "h_id h \<in> set (ss_finished st)")
  case True
  with assms show ?thesis by (simp add: FinishSpan_def)
next
  case False
  let ?open = "unfinished st hs"
  let ?st = "fold signal (finish_signals h oc) (st\<lparr>ss_finished := h_id h # ss_finished st\<rparr>)"
  from False assms(3) have st': "st' = maybeIncActive s (h_service h) (h_input h) (h_policy h) (- 1) ?st"
    by (simp add: FinishSpan_def Let_def)
  from assms(1) have spans: "open_spans s ?open st" and ids: "map h_id hs = [0..<ss_next st]" and keys: "keys_ok st"
    by (simp_all add: synth_ok_def)
  from False assms(2) have mem: "h \<in> set ?open" by (simp add: unfinished_def)
  have inj: "inj_on h_id (set hs)" and dist: "distinct hs"
    using ids by (metis distinct_map distinct_upt)+
  have "mset ?open = mset (h # remove1 h ?open)" using mem by simp
  with spans have "open_spans s (h # remove1 h ?open) st" using open_spans_mset by blast
  from open_pop [OF this, of oc] have popped: "open_spans s (remove1 h ?open) st'" by (simp add: st')
  have "remove1 h ?open = filter (\<lambda>g. g \<noteq> h) ?open"
    using dist by (simp add: unfinished_def distinct_remove1_removeAll removeAll_filter_not_eq) metis
  also have "\<dots> = unfinished st' hs"
    using inj assms(2) by (auto simp: unfinished_def st' maybeIncActive_fields fold_signal inj_on_eq_iff intro!: filter_cong)
  finally have "open_spans s (unfinished st' hs) st'" using popped by simp
  moreover have "keys_ok ?st"
    using keys finish_keys [of h oc] by (auto simp: keys_ok_def fold_signal)
  ultimately show ?thesis
    using ids by (simp add: synth_ok_def st' maybeIncActive_keys maybeIncActive_fields fold_signal)
qed
section \<open>Every session\<close>

lemma synth_step_keeps:
  assumes "synth_ok s ses" and "synth_step ot s c ses = (r, ses')"
  shows "synth_ok s ses'"
proof -
  obtain st hs where ses: "ses = (st, hs)" by force
  have calm: "synth_ok s ses'" if "synth_step ot s c = keep_handles f"
    "\<And>st. keys_ok st \<Longrightarrow> quiet st (snd (f st)) \<and> keys_ok (snd (f st))" for f
    by (rule calm_session [OF that(2) assms(1) assms(2) [unfolded that(1)]])
  show ?thesis
  proof (cases c)
    case (CallBegin ctx i)
    obtain b st' where b: "BeginSpan ot s ctx i st = (b, st')" by force
    show ?thesis
    proof (cases b)
      case (Done p)
      obtain ctx' h where "p = (ctx', h)" by force
      with Done b CallBegin assms ses begin_session [of s st hs ot ctx i ctx' h st'] show ?thesis
        by (simp add: synth_step_def)
    next
      case (Panic p)
      with b CallBegin assms ses begin_panic_session [of s st hs ot ctx i p st'] show ?thesis
        by (simp add: synth_step_def)
    qed
  next
    case (CallFinish n oc)
    with assms ses finish_session [of s st hs "hs ! n" ot oc] show ?thesis
      by (auto simp: synth_step_def keep_handles_def split: if_splits prod.splits)
  next
    case (CallRecordMetric ctx i)
    then show ?thesis using RecordMetric_calm by (intro calm) (auto simp: synth_step_def)
  next
    case (CallEmitLog ctx i)
    then show ?thesis using EmitLog_calm by (intro calm) (auto simp: synth_step_def)
  next
    case (CallRecordCustom ctx i)
    have "quiet st (snd (RecordCustom ot s ctx i st))" for st
      using RecordCustom_quiet [of ot s ctx i st] by auto
    with CallRecordCustom show ?thesis using RecordCustom_keys by (intro calm) (auto simp: synth_step_def)
  next
    case (CallUpdateState i)
    then show ?thesis
      by (intro calm) (auto simp: synth_step_def UpdateState_def split: option.split)
  next
    case (CallEmitProfile ctx i)
    have "quiet st (snd (EmitProfile ot s ctx i st))" for st
      using EmitProfile_quiet [of ot s ctx i st] by auto
    with CallEmitProfile show ?thesis using EmitProfile_keys by (intro calm) (auto simp: synth_step_def)
  next
    case (CallSetAttribute ctx k v)
    then show ?thesis
      by (intro calm) (auto simp: synth_step_def SetAttribute_def quiet_signal keys_ok_signal)
  qed
qed

interpretation synth_sessions: machine "synth_step ot s" "synth_ok s" "\<lambda>_. True" for ot s
  by unfold_locales (rule synth_step_keeps)

text \<open>
  C16: However a client uses the default synthesizer (any calls in any order, invalid inputs, finish
  functions called late, never or repeatedly), every span it began is started once and ended at
  most once, the active-request counters count exactly the spans that are not ended, and every
  attribute key on spans, span events and built-in metrics is one of the allowed keys.
\<close>

theorem synth_session:
  "case run_all (synth_step ot s) calls (new_synth, []) of (rs, st, hs) \<Rightarrow>
     started (ss_signals st) = [0..<length hs] \<and> map h_id hs = [0..<length hs]
     \<and> distinct (ended (ss_signals st)) \<and> set (ended (ss_signals st)) \<subseteq> {0..<length hs}
     \<and> (\<forall>name kvs. active_count name kvs (ss_signals st)
         = int (length (filter (\<lambda>h. active_of s st h = Some (name, kvs))
             (filter (\<lambda>h. h_id h \<notin> set (ended (ss_signals st))) hs))))
     \<and> list_all (\<lambda>g. set (signal_keys g) \<subseteq> set allowedAttrKeys) (ss_signals st)"
proof -
  obtain rs st hs where run: "run_all (synth_step ot s) calls (new_synth, []) = (rs, st, hs)"
    by (metis prod_cases3)
  have "synth_ok s (st, hs)"
    by (rule synth_sessions.run_keeps [OF synth_ok_new _ run]) (simp add: list_all_iff)
  then have inv: "open_spans s (unfinished st hs) st" "map h_id hs = [0..<ss_next st]" "keys_ok st"
    by (simp_all add: synth_ok_def)
  from inv(2) have len: "ss_next st = length hs" by (metis length_map length_upt diff_zero)
  from inv(1) have ids: "open_ids (map h_id (unfinished st hs)) st"
    and active: "active_counts s (unfinished st hs) st" by (simp_all add: open_spans_def)
  from ids have ended: "ended (ss_signals st) = rev (ss_finished st)" by (simp add: open_ids_def)
  from ids have "distinct (ss_finished st)" "set (ss_finished st) \<subseteq> {0..<length hs}"
    by (auto simp: open_ids_def len)
  with ids active inv(2,3) show ?thesis
    by (auto simp: run ended len open_ids_def active_counts_def unfinished_def keys_ok_def list_all_iff)
qed

section \<open>Errors of a span\<close>

text \<open>The rule that a failure carries its error type, and the failures that do not.\<close>

lemma failure_error_type:
  "(''error.type'', v) \<in> set (dynamicOutcomeAttrs po oc)
    \<longleftrightarrow> \<not> so_success oc \<and> so_errorType oc \<noteq> '''' \<and> v = AttrString (so_errorType oc)"
  by (auto simp: dynamicOutcomeAttrs_def)

end
