(* ===== verification/Spec2Isabelle.thy ===== *)
theory Spec2Isabelle
  imports Journey_Demo Synth_Profile Topology_Reparse Output_Demo Module_Demo Tools_Demo Synth_Session
begin

text \<open>
  A verification library for xk6-otel-gen, a k6 extension that synthesizes OpenTelemetry traces,
  metrics, logs and profiles from a topology written in YAML.

  \<^bold>\<open>The program.\<close> A test script loads a topology (src/k6otelgen), which is parsed, resolved and
  validated (src/topology). Services have operations, operations call each other over edges with
  latencies, error rates, retries and fallbacks; journeys are weighted sequences of steps; faults
  degrade services, operations or edges. An engine (src/journey) unfolds every journey into a plan
  and executes plans; an execution draws latencies and errors, applies the faults, retries and
  recovers, and reports every call to a synthesizer (src/synth), which makes spans, metrics, logs and
  profiles of it through the providers of an exporter pipeline (src/exporter). The k6 output
  (src/k6output) sends the metrics of k6 itself through the same process-wide pipeline, from a
  queue that a flush goroutine drains. The module keeps one root for all virtual users and one
  instance for each. Two command line tools (src/cmd) visualize a topology and export its JSON schema.

  \<^bold>\<open>Conventions.\<close> A definition has the name of the Go function, type or method it models, with its
  type in front where names clash. A struct is a record, an enumeration a datatype with the integers
  that the package itself can make. An error is a value: None for nil, or the left of a sum. A panic
  is a value too, of the result types of the executor, the module and the visualization. Fixed-width
  integers are integers followed by \<open>wrap64\<close> at every operation that can overflow; float64 is an
  exact model of binary64 with its rounding (\<open>Float64\<close>); strings are byte lists. Pointers that the
  code compares are addresses; the schema carries the heap of services and operations. A Go map is an
  association list in the order in which a range visits it, and statements hold for every order.
  Where a Go function calls back (\<open>forEachOutgoingEdge(s, fn)\<close>), the model is the list of the calls.

  \<^bold>\<open>Foundations.\<close> \<open>Prelude\<close> has int64 arithmetic, byte strings, decimal numbers, messages and maps;
  \<open>Float64\<close> and \<open>Float64_Round\<close> floats; \<open>Go_Library\<close> and \<open>Go_Format\<close> the functions of package
  strings, strconv, net, net/url, time and fmt that the code calls. \<open>Once\<close> and \<open>Machine\<close> are two
  contracts, stated as locales: an operation that runs once and then repeats its result, and a state
  machine whose invariant carries over to sequences of operations.

  \<^bold>\<open>src/topology.\<close>
  \<^item> \<open>Topology_Enums\<close>: enums.go and the token parsers of parse.go. The locale \<open>token_enum\<close> says that a
    parser inverts the printer of the valid constants; it is interpreted for all eight enumerations.
  \<^item> \<open>Topology_Types\<close>: types.go, raw.go, errors.go. \<open>Topology_Graph\<close>, \<open>Topology_Validate\<close>: validate.go,
    with the correctness of Kahn's algorithm. \<open>Topology_Wellformed\<close>: the declarative specification
    \<open>schema_ok\<close>, and Validate reports nothing exactly for the schemas that satisfy it.
  \<^item> \<open>Topology_Parse\<close>: parse.go. \<open>Topology_Resolve\<close>: the resolution establishes the structural rules, so
    that parsing is sound. \<open>Topology_Overlay\<close>: faults.go, with the locale \<open>fault_index\<close> for the three
    indexes of an overlay. \<open>Topology_Equal\<close>: equal.go.
  \<^item> \<open>Topology_Marshal\<close>: marshal.go and schema_methods.go. \<open>Topology_Marshal_Parts\<close>, \<open>Topology_Roundtrip\<close>,
    \<open>Topology_Reparse\<close>: marshalling, encoding and parsing give back an equal schema, when the YAML form
    can express it (\<open>portable\<close>: for example no name of a service contains a dot, and no attributes map
    is empty without being nil). \<open>written\<close> is what the encoder writes under the omitempty tags of
    raw.go, and \<open>reads_back\<close> what the theorem needs of the YAML library: the written fields are read
    back, and the services and journeys in any order.
  \<^item> \<open>Topology_Lint\<close>, \<open>Topology_Lint_Sound\<close>: lint.go, and that it agrees with Parse. \<open>Topology_Demo\<close>:
    two concrete topologies.

  \<^bold>\<open>src/journey.\<close>
  \<^item> \<open>Journey_Plan\<close>: plan.go; every journey of a valid schema has a plan, the unfolding of its steps.
    \<open>Journey_Engine\<close>: engine.go, the weighted choice. \<open>Journey_Run\<close>: the state of one execution and
    replica.go. \<open>Journey_Fault\<close>: fault.go. \<open>Journey_Executor\<close>: executor.go, recovery.go, messaging.go.
  \<^item> \<open>Journey_Logic\<close>: a Hoare logic for computations that may panic. \<open>Journey_Spans\<close>: the locale
    \<open>span_protocol\<close>, the contract between the executor and a synthesizer, and what the executor
    guarantees under it. \<open>Journey_Behaviour\<close>: faults, schedules, retries, recovery and aggregation,
    branch by branch. \<open>Journey_Delivery\<close>: the composition from parsed YAML to ended spans.
    \<open>Journey_Demo\<close>: the theorems at concrete inputs.

  \<^bold>\<open>src/synth.\<close> \<open>Synth_Interface\<close>: interface.go. \<open>Synth_Attributes\<close>: attributes.go. \<open>Synth_Observable\<close>:
  observable.go, resource.go. \<open>Synth_Default\<close>: synthesizer.go. \<open>Synth_Profile\<close>: profile.go.
  \<open>Synth_Spans\<close>: the default synthesizer satisfies \<open>span_protocol\<close>. \<open>Synth_Session\<close>: what holds of it
  under an arbitrary client.

  \<^bold>\<open>src/exporter.\<close> \<open>Exporter_Config\<close>: config.go, endpoints.go, tls.go, errors.go; \<open>Exporter_Settings\<close>: the
  declarative reading of Validate, the algebra of MergeWith, endpoints and headers. \<open>Exporter_Pipeline\<close>:
  exporters.go, resource.go, stats.go, pipeline.go and pyroscope.go. \<open>Exporter_Lifecycle\<close>: what holds over
  every sequence of operations on a pipeline. \<open>Exporter_Shared\<close>: shared.go. \<open>Exporter_Demo\<close>: a concrete
  platform.

  \<^bold>\<open>src/k6output.\<close> \<open>Output_Params\<close>: params.go, errors.go. \<open>Output_Convert\<close>: convert.go. \<open>Output_Queue\<close>: the
  queue of output.go as a step relation of the pushing goroutine, the flush goroutine and Stop, with
  what every interleaving conserves and how every shutdown drains.
  \<open>Output_Life\<close>: New, Start, Stop. \<open>Output_Demo\<close>: concrete runs.

  \<^bold>\<open>src/k6otelgen.\<close> \<open>Module_Config\<close>: config.go, errors.go; \<open>Module_Options\<close>: what configure makes of its
  options. \<open>Module_State\<close>, \<open>Module_Calls\<close>: module.go, instance.go, handle.go, metrics.go, and a test run as
  a sequence of calls. \<open>Module_Session\<close>: the invariant of a run. \<open>Module_Decisions\<close>: what the first load
  and configure decide. \<open>Module_Metrics\<close>: the counters that the VUs push to k6. \<open>Module_Demo\<close>: a concrete run.

  \<^bold>\<open>src/cmd.\<close> \<open>Viz_Data\<close>: vizdata.go. \<open>Viz_Reach\<close>: the data of a parsed topology. \<open>Tools_Demo\<close>: lint and
  visualization at concrete inputs.

  \<^bold>\<open>Bounds and fuel.\<close> buildOperationNode and the walk of the visualization recurse through the call
  graph; they take fuel for the depth of operations. \<open>plan_fuel\<close>, one above the number of operations, is
  enough for a valid schema, whose graph is acyclic, and for the walk, which enters no operation twice;
  theorems are stated for every fuel from there on, and running out of fuel is an outcome of its own
  that they exclude. The items of a duration literal are read with fuel for its length, since each
  item takes at least one byte. Every other recursion is structural or has a measure.

  \<^bold>\<open>Parameters.\<close> What is not under src/ is an argument of the definitions that use it: the YAML decoder
  (and for lint, which of its errors are type errors), url.Parse, ParseFloat, files, certificates and
  environment variables (\<open>platform\<close>), the OpenTelemetry API (\<open>otel\<close>) and SDK (\<open>sdk\<close>, whose calls are kept in
  a log that answers them), the random draws, the clock and the context (\<open>environment\<close>), host and versions
  (\<open>host\<close>), the runtime of k6 (\<open>module_env\<close>). They are arbitrary unless a theorem names what it needs.
  The conversion of a float beyond int64 is that of amd64.

  \<^bold>\<open>What is not modelled.\<close> The goroutines of a parallel group run one after the other in the order of
  the group; as the draws are arbitrary, their results cover the interleavings of the generator, but
  not data races. The calls of different virtual users, and the calls on the shared pipeline, do not
  overlap: each is one transition. The JavaScript runtime, the registry of k6 and the tags and time
  of pushed samples are left out. The built-in instruments of the synthesizer are taken to be created. The timeout with which Stop waits for the flush loop is left out: the
  loop always finishes. Building and compressing the request of a profile are taken not to fail, and the
  counter of dropped samples not to reach 2^64. ToLower and TrimSpace act on ASCII. Not modelled at all are the parsing of flags,
  the HTML template and the files of the command line tools, the JSON schema (embedded data), and the
  random generators and integration helpers under src/testutil and the integration directories, which
  serve the tests only.

  \<^bold>\<open>What modelling showed.\<close> The exponential retry delay overflows from retry 38 on
  (\<open>exponential_backoff_overflows\<close>); a sample pushed after the flush loop has ended is lost without being
  counted (\<open>late_sample_lost\<close>); every VU pushes the whole growth of the counters of the process, so k6
  counts each export once per VU (\<open>snapshots_add_up\<close>); an empty attributes map does not survive a round
  trip (\<open>empty_attributes_lost\<close>); a provider made after the shutdown is never stopped
  (\<open>late_provider_never_stopped\<close>); two tag sets can share one entry of the tag cache
  (\<open>tag_cache_collides\<close>); the number 2^63 is accepted as a size and becomes negative (\<open>toInt_exact\<close>); an explicit
  gRPC cannot override HTTP in MergeWith (\<open>buildPipelineConfig_over_environment\<close>); the children of a
  cascaded node are not visited, though the business rules say that they cascade (\<open>cascade_spec\<close>); a
  failure without an error type has no error.type attribute (\<open>failure_error_type\<close>).
\<close>

end
